(* ===== verification/Prelude.thy ===== *)
theory Prelude
  imports Main "HOL-Library.Word"
begin

text \<open>
  The Go constructs every component shares: run-time panics, \<open>error\<close> values, maps that may
  be nil, slice indexing, and the loops over slices and maps.

  \<^item> A statement that can panic has a value of type \<open>'a exec\<close>: \<open>Inl\<close> the panic or
    \<open>Inr\<close> the result. A Go \<open>error\<close> is not a panic: it is an ordinary value of type
    \<open>go_error\<close>, returned beside or instead of the other results.
  \<^item> A \<open>map[K]V\<close> is \<open>None\<close> for the nil map, which can be read but not written.
  \<^item> \<open>range\<close> over a map visits the keys in an order the language does not fix. A loop over
    a map therefore takes the order as an argument, and the theorems hold for every order
    that \<open>range_order\<close> admits.
\<close>

named_theorems exec_simps \<open>equations that run the sequencing of statements\<close>
named_theorems map_simps \<open>equations of Go maps\<close>

section \<open>Panics and errors\<close>

text \<open>
  Error values. \<open>ErrNew\<close> is \<open>errors.New\<close>, \<open>fmt.Errorf\<close> without \<open>%w\<close>, and any error a
  library hands over whose dynamic type the code never looks at; \<open>ErrWrap\<close> is
  \<open>fmt.Errorf\<close> with \<open>%w\<close>; \<open>StatusError\<close> is a \<open>*k8serrors.StatusError\<close> with the
  \<open>int32\<close> code of its \<open>ErrStatus\<close>; \<open>IteratorDone\<close> and \<open>EOF\<close> are the sentinels
  \<open>iterator.Done\<close> and \<open>io.EOF\<close>.
\<close>

datatype go_error =
    ErrNew string
  | ErrWrap string go_error
  | StatusError "32 word" string
  | IteratorDone
  | EOF

datatype go_panic =
    NilDeref
  | IndexOutOfRange
  | NilMapWrite
  | ConcurrentMapAccess
  | TypeAssertion
  | Panicked go_error
  | LogPanic string
  | LogFatal string

fun error_string :: "go_error \<Rightarrow> string" where
  "error_string (ErrNew s) = s"
| "error_string (ErrWrap s e) = s"
| "error_string (StatusError c s) = s"
| "error_string IteratorDone = ''no more items in iterator''"
| "error_string EOF = ''EOF''"

type_synonym 'a exec = "go_panic + 'a"

definition bnd :: "'a exec \<Rightarrow> ('a \<Rightarrow> 'b exec) \<Rightarrow> 'b exec" where
  "bnd m f = (case m of Inl p \<Rightarrow> Inl p | Inr x \<Rightarrow> f x)"

lemma bnd_Inl [simp, exec_simps]: "bnd (Inl p) f = Inl p"
  by (simp add: bnd_def)

lemma bnd_Inr [simp, exec_simps]: "bnd (Inr x) f = f x"
  by (simp add: bnd_def)

lemma bnd_eq_Inr_iff: "bnd m f = Inr y \<longleftrightarrow> (\<exists>x. m = Inr x \<and> f x = Inr y)"
  by (cases m) auto

lemma bnd_eq_Inl_iff: "bnd m f = Inl p \<longleftrightarrow> m = Inl p \<or> (\<exists>x. m = Inr x \<and> f x = Inl p)"
  by (cases m) auto

lemma bnd_assoc: "bnd (bnd m f) g = bnd m (\<lambda>x. bnd (f x) g)"
  by (cases m) simp_all

lemma bnd_cong [fundef_cong]:
  "m = m' \<Longrightarrow> (\<And>x. m' = Inr x \<Longrightarrow> f x = g x) \<Longrightarrow> bnd m f = bnd m' g"
  by (cases m') auto

lemma bnd_InrE [elim]:
  assumes "bnd m f = Inr y"
  obtains x where "m = Inr x" and "f x = Inr y"
  using assms by (auto simp: bnd_eq_Inr_iff)

section \<open>Slices and maps\<close>

text \<open>\<open>xs[i]\<close> panics out of range.\<close>

definition idx :: "'a list \<Rightarrow> nat \<Rightarrow> 'a exec" where
  "idx xs i = (if i < length xs then Inr (xs ! i) else Inl IndexOutOfRange)"

lemma idx_eq_Inr_iff: "idx xs i = Inr x \<longleftrightarrow> i < length xs \<and> x = xs ! i"
  by (auto simp: idx_def)

type_synonym ('k, 'v) gomap = "('k \<Rightarrow> 'v option) option"

definition map_get :: "('k, 'v) gomap \<Rightarrow> 'k \<Rightarrow> 'v option" where
  "map_get m k = (case m of None \<Rightarrow> None | Some f \<Rightarrow> f k)"

definition map_put :: "('k, 'v) gomap \<Rightarrow> 'k \<Rightarrow> 'v \<Rightarrow> ('k, 'v) gomap exec" where
  "map_put m k v = (case m of None \<Rightarrow> Inl NilMapWrite | Some f \<Rightarrow> Inr (Some (f(k \<mapsto> v))))"

lemma map_get_nil [simp, map_simps]: "map_get None k = None"
  by (simp add: map_get_def)

lemma map_get_Some [simp, map_simps]: "map_get (Some f) k = f k"
  by (simp add: map_get_def)

lemma map_put_nil [simp, map_simps]: "map_put None k v = Inl NilMapWrite"
  by (simp add: map_put_def)

lemma map_put_Some [simp, map_simps]: "map_put (Some f) k v = Inr (Some (f(k \<mapsto> v)))"
  by (simp add: map_put_def)

lemma map_put_eq_Inr_iff:
  "map_put m k v = Inr m' \<longleftrightarrow> (\<exists>f. m = Some f \<and> m' = Some (f(k \<mapsto> v)))"
  by (cases m) auto

text \<open>The orders in which \<open>range\<close> may visit a map: every key once.\<close>

definition range_order :: "'k list \<Rightarrow> ('k \<Rightarrow> 'v option) \<Rightarrow> bool" where
  "range_order ks m \<longleftrightarrow> distinct ks \<and> set ks = dom m"

lemma range_orderD:
  assumes "range_order ks m"
  shows "distinct ks" and "set ks = dom m"
  using assms by (simp_all add: range_order_def)

lemma range_order_in_iff: "range_order ks m \<Longrightarrow> k \<in> set ks \<longleftrightarrow> (\<exists>v. m k = Some v)"
  by (auto simp: range_order_def dom_def)

section \<open>Loops\<close>

text \<open>A \<open>for\<close> loop without a \<open>break\<close>: the body transforms the state or panics.\<close>

fun loopM :: "('x \<Rightarrow> 's \<Rightarrow> 's exec) \<Rightarrow> 'x list \<Rightarrow> 's \<Rightarrow> 's exec" where
  "loopM f [] s = Inr s"
| "loopM f (x # xs) s = bnd (f x s) (loopM f xs)"

lemma loopM_append: "loopM f (xs @ ys) s = bnd (loopM f xs s) (loopM f ys)"
  by (induction xs arbitrary: s) (auto simp: bnd_assoc intro: bnd_cong)

text \<open>
  The loop rule: \<open>P\<close> speaks of the elements already visited and of the state. If the body
  never panics under \<open>P\<close> and extends it by one element, the loop ends with \<open>P\<close> of all.
\<close>

lemma loopM_rule:
  assumes base: "P [] s"
    and step: "\<And>seen x rest t. xs = seen @ x # rest \<Longrightarrow> P seen t \<Longrightarrow>
      \<exists>t'. f x t = Inr t' \<and> P (seen @ [x]) t'"
  shows "\<exists>s'. loopM f xs s = Inr s' \<and> P xs s'"
proof -
  have "\<exists>s'. loopM f todo t = Inr s' \<and> P xs s'" if "xs = seen @ todo" and "P seen t" for seen todo t
    using that
  proof (induction todo arbitrary: seen t)
    case Nil
    then show ?case by simp
  next
    case (Cons x todo)
    from step [OF Cons.prems] obtain t' where t': "f x t = Inr t'" "P (seen @ [x]) t'"
      by blast
    have "xs = (seen @ [x]) @ todo" using Cons.prems(1) by simp
    from Cons.IH [OF this t'(2)] t'(1) show ?case by simp
  qed
  from this [of "[]" xs s] base show ?thesis by simp
qed

text \<open>The same rule for a run that is known to have ended without a panic.\<close>

lemma loopM_inv:
  assumes "loopM f xs s = Inr s'" and "P s"
    and "\<And>x t t'. x \<in> set xs \<Longrightarrow> P t \<Longrightarrow> f x t = Inr t' \<Longrightarrow> P t'"
  shows "P s'"
  using assms
proof (induction xs arbitrary: s)
  case Nil
  then show ?case by simp
next
  case (Cons x xs)
  from Cons.prems(1) obtain t where t: "f x s = Inr t" "loopM f xs t = Inr s'"
    by auto
  have "P t" using Cons.prems(2) t(1) Cons.prems(3) by (meson list.set_intros(1))
  then show ?case
    using Cons.IH [OF t(2)] Cons.prems(3) by (meson list.set_intros(2))
qed

text \<open>
  A \<open>for\<close> loop that breaks at the first element whose test succeeds. The test may change
  the state (a getter that fills a cache) and may panic.
\<close>

fun searchM :: "('x \<Rightarrow> 's \<Rightarrow> (bool \<times> 's) exec) \<Rightarrow> 'x list \<Rightarrow> 's \<Rightarrow> ('x option \<times> 's) exec" where
  "searchM t [] s = Inr (None, s)"
| "searchM t (x # xs) s =
     bnd (t x s) (\<lambda>(hit, s'). if hit then Inr (Some x, s') else searchM t xs s')"

text \<open>
  The search rule: if under the invariant \<open>I\<close> the test answers \<open>T x\<close> and keeps \<open>I\<close>, the
  search is \<open>find T\<close>, whatever the test does to the rest of the state.
\<close>

lemma searchM_find:
  assumes "I s"
    and "\<And>x s. x \<in> set xs \<Longrightarrow> I s \<Longrightarrow> \<exists>s'. t x s = Inr (T x, s') \<and> I s'"
  shows "\<exists>s'. searchM t xs s = Inr (find T xs, s') \<and> I s'"
  using assms
proof (induction xs arbitrary: s)
  case Nil
  then show ?case by simp
next
  case (Cons x xs)
  from Cons.prems obtain s1 where s1: "t x s = Inr (T x, s1)" "I s1"
    by (meson list.set_intros(1))
  have "\<exists>s'. searchM t xs s1 = Inr (find T xs, s') \<and> I s'"
    using Cons.IH [OF s1(2)] Cons.prems(2) by (meson list.set_intros(2))
  with s1 show ?case by auto
qed

lemma find_SomeD: "find P xs = Some x \<Longrightarrow> x \<in> set xs \<and> P x"
  by (auto simp: find_Some_iff)

lemma find_append: "find P (xs @ ys) = (case find P xs of None \<Rightarrow> find P ys | Some x \<Rightarrow> Some x)"
  by (induction xs) simp_all

section \<open>Small facts the components share\<close>

lemma map_upd_dom_insert: "set ks = insert k (dom m) \<Longrightarrow> set ks = dom (m(k \<mapsto> v))"
  by simp

lemma signed_pos_not_zero: "0 < sint w \<Longrightarrow> w \<noteq> 0"
  by auto

end
