(* ===== verification/GoStrings.thy ===== *)
theory GoStrings
  imports Prelude
begin

text \<open>
  The functions of Go's \<open>strings\<close> and \<open>net\<close> packages that the program calls: \<open>HasPrefix\<close>,
  \<open>Index\<close>, \<open>Contains\<close>, \<open>Split\<close>, \<open>SplitAfter\<close> and \<open>JoinHostPort\<close>. A Go string is a
  sequence of bytes and so is a \<open>string\<close> here. \<open>Split\<close> and \<open>SplitAfter\<close> are only ever
  called with a non-empty separator, and the models say so.
\<close>

section \<open>Prefixes and substrings\<close>

fun has_prefix :: "string \<Rightarrow> string \<Rightarrow> bool" where
  "has_prefix s [] = True"
| "has_prefix [] (c # p) = False"
| "has_prefix (d # s) (c # p) = (c = d \<and> has_prefix s p)"

lemma has_prefix_iff: "has_prefix s p \<longleftrightarrow> (\<exists>t. s = p @ t)"
  by (induction s p rule: has_prefix.induct) auto

lemma has_prefix_append [simp]: "has_prefix (p @ t) p"
  by (auto simp: has_prefix_iff)

lemma has_prefix_trivial_empty [simp]: "has_prefix [] p \<longleftrightarrow> p = []"
  by (cases p) simp_all

fun index_of :: "string \<Rightarrow> string \<Rightarrow> nat option" where
  "index_of sub [] = (if sub = [] then Some 0 else None)"
| "index_of sub (c # cs) =
     (if has_prefix (c # cs) sub then Some 0 else map_option Suc (index_of sub cs))"

lemma index_of_Some: "index_of sub s = Some i \<Longrightarrow> has_prefix (drop i s) sub"
  by (induction sub s arbitrary: i rule: index_of.induct) (auto split: if_splits)

lemma index_of_bound: "index_of sub s = Some i \<Longrightarrow> i + length sub \<le> length s"
proof (induction sub s arbitrary: i rule: index_of.induct)
  case (2 sub c cs)
  then show ?case
    by (force simp: has_prefix_iff split: if_splits dest: arg_cong [of _ _ length])
qed (auto split: if_splits)

lemma index_of_append_exists: "\<exists>i. index_of sub (a @ sub @ b) = Some i \<and> i \<le> length a"
proof (induction a)
  case Nil
  have "has_prefix (sub @ b) sub" by simp
  then show ?case by (cases "sub @ b") (auto simp del: has_prefix_append)
qed auto

definition contains :: "string \<Rightarrow> string \<Rightarrow> bool" where
  "contains s sub = (index_of sub s \<noteq> None)"

lemma contains_iff: "contains s sub \<longleftrightarrow> (\<exists>a b. s = a @ sub @ b)"
proof
  assume "contains s sub"
  then obtain i where i: "index_of sub s = Some i"
    by (auto simp: contains_def)
  from index_of_Some [OF i] obtain b where "drop i s = sub @ b"
    by (auto simp: has_prefix_iff)
  then have "s = take i s @ sub @ b"
    by (metis append_take_drop_id)
  then show "\<exists>a b. s = a @ sub @ b" by blast
next
  assume "\<exists>a b. s = a @ sub @ b"
  then show "contains s sub"
    using index_of_append_exists [of sub] by (fastforce simp: contains_def)
qed

section \<open>Split and SplitAfter\<close>

function go_split :: "string \<Rightarrow> string \<Rightarrow> string list" where
  "go_split s sep =
     (if sep = [] then [s]
      else case index_of sep s of
        None \<Rightarrow> [s]
      | Some i \<Rightarrow> take i s # go_split (drop (i + length sep) s) sep)"
  by pat_completeness auto
termination
  by (relation "measure (\<lambda>(s, sep). length s)")
    (auto dest!: index_of_bound simp: length_greater_0_conv [symmetric] simp del: length_greater_0_conv)

function go_split_after :: "string \<Rightarrow> string \<Rightarrow> string list" where
  "go_split_after s sep =
     (if sep = [] then [s]
      else case index_of sep s of
        None \<Rightarrow> [s]
      | Some i \<Rightarrow> take (i + length sep) s # go_split_after (drop (i + length sep) s) sep)"
  by pat_completeness auto
termination
  by (relation "measure (\<lambda>(s, sep). length s)")
    (auto dest!: index_of_bound simp: length_greater_0_conv [symmetric] simp del: length_greater_0_conv)

declare go_split.simps [simp del]
declare go_split_after.simps [simp del]

text \<open>\<open>SplitAfter\<close> loses nothing: the pieces joined are the string.\<close>

lemma concat_go_split_after: "concat (go_split_after s sep) = s"
proof (induction s sep rule: go_split_after.induct)
  case (1 s sep)
  then show ?case
    by (subst go_split_after.simps) (auto split: option.splits)
qed

lemma go_split_not_Nil: "go_split s sep \<noteq> []"
  by (subst go_split.simps) (auto split: option.splits)

text \<open>Splitting at a one-byte separator, the form the cluster names use.\<close>

lemma index_of_char: "c \<notin> set a \<Longrightarrow> index_of [c] (a @ c # s) = Some (length a)"
  by (induction a) auto

lemma index_of_char_None: "c \<notin> set a \<Longrightarrow> index_of [c] a = None"
  by (induction a) auto

lemma index_of_char_None_iff: "index_of [c] a = None \<longleftrightarrow> c \<notin> set a"
  by (induction a) auto

lemma go_split_char_Cons: "c \<notin> set a \<Longrightarrow> go_split (a @ c # s) [c] = a # go_split s [c]"
  by (subst go_split.simps) (simp add: index_of_char)

lemma go_split_char_last: "c \<notin> set a \<Longrightarrow> go_split a [c] = [a]"
  by (subst go_split.simps) (simp add: index_of_char_None)

text \<open>The number of pieces is one more than the number of separators.\<close>

lemma length_go_split_char: "length (go_split s [c]) = Suc (count_list s c)"
proof (induction s "[c]" rule: go_split.induct)
  case (1 s)
  show ?case
  proof (cases "c \<in> set s")
    case False
    then show ?thesis by (simp add: go_split_char_last)
  next
    case True
    then obtain a b where s: "s = a @ c # b" "c \<notin> set a"
      by (meson split_list_first)
    then have "length (go_split b [c]) = Suc (count_list b c)"
      using "1" [of "length a"] by (simp add: index_of_char)
    with s show ?thesis by (simp add: go_split_char_Cons)
  qed
qed

section \<open>net.JoinHostPort\<close>

text \<open>An IPv6 host, which contains a colon, is put in brackets.\<close>

definition join_host_port :: "string \<Rightarrow> string \<Rightarrow> string" where
  "join_host_port host port =
     (if contains host '':'' then ''['' @ host @ '']:'' @ port else host @ '':'' @ port)"

section \<open>Decimal numbers\<close>

text \<open>\<open>strconv.Itoa\<close>.\<close>

fun digits :: "nat \<Rightarrow> string" where
  "digits n = (if n < 10 then [char_of (48 + n)] else digits (n div 10) @ [char_of (48 + n mod 10)])"

declare digits.simps [simp del]

definition itoa :: "int \<Rightarrow> string" where
  "itoa i = (if i < 0 then CHR ''-'' # digits (nat (- i)) else digits (nat i))"

end
