(* ===== verification/RefStore.thy ===== *)
theory RefStore
  imports Prelude
begin

text \<open>
  Pointers. The program shares structs by pointer (the default cluster is also an entry of
  \<open>ByName\<close>; the informer's handler is also the watcher's data), so the structs live in a
  store and a pointer is an address or nil. The interface \<open>ref_heap\<close> states what a
  component may rely on; the store below provides it.
\<close>

section \<open>The interface\<close>

type_synonym ref = nat

locale ref_heap =
  fixes alloc :: "'a \<Rightarrow> 'h \<Rightarrow> ref \<times> 'h"
    and load :: "'h \<Rightarrow> ref option \<Rightarrow> 'a exec"
    and save :: "'h \<Rightarrow> ref option \<Rightarrow> 'a \<Rightarrow> 'h exec"
    and ok :: "'h \<Rightarrow> bool"
  assumes load_nil: "load h None = Inl NilDeref"
    and load_alloc: "ok h \<Longrightarrow> alloc v h = (r, h') \<Longrightarrow> load h' (Some r) = Inr v"
    and load_alloc_other: "ok h \<Longrightarrow> alloc v h = (r, h') \<Longrightarrow> load h p = Inr w \<Longrightarrow> load h' p = Inr w"
    and alloc_fresh: "ok h \<Longrightarrow> alloc v h = (r, h') \<Longrightarrow> load h (Some r) \<noteq> Inr w"
    and ok_alloc: "ok h \<Longrightarrow> alloc v h = (r, h') \<Longrightarrow> ok h'"
    and save_total: "load h p = Inr w \<Longrightarrow> \<exists>h'. save h p v = Inr h'"
    and save_live: "save h p v = Inr h' \<Longrightarrow> \<exists>w. load h p = Inr w"
    and load_save: "save h p v = Inr h' \<Longrightarrow> load h' p = Inr v"
    and load_save_other: "save h p v = Inr h' \<Longrightarrow> q \<noteq> p \<Longrightarrow> load h' q = load h q"
    and ok_save: "ok h \<Longrightarrow> save h p v = Inr h' \<Longrightarrow> ok h'"
begin

lemma save_nil: "save h None v \<noteq> Inr h'"
  using save_live [of h None v h'] by (auto simp: load_nil)

lemma alloc_neq: "ok h \<Longrightarrow> alloc v h = (r, h') \<Longrightarrow> load h (Some q) = Inr w \<Longrightarrow> q \<noteq> r"
  using alloc_fresh by blast

lemma load_live_save:
  "save h p v = Inr h' \<Longrightarrow> load h q = Inr w \<Longrightarrow> \<exists>w'. load h' q = Inr w'"
  by (cases "q = p") (auto simp: load_save load_save_other)

end

section \<open>The store\<close>

record 'a store =
  cells :: "ref \<Rightarrow> 'a option"
  next_ref :: ref

definition empty_store :: "'a store" where
  "empty_store = \<lparr>cells = (\<lambda>_. None), next_ref = 0\<rparr>"

definition alloc :: "'a \<Rightarrow> 'a store \<Rightarrow> ref \<times> 'a store" where
  "alloc v h = (next_ref h, h\<lparr>cells := (cells h)(next_ref h \<mapsto> v), next_ref := Suc (next_ref h)\<rparr>)"

definition load :: "'a store \<Rightarrow> ref option \<Rightarrow> 'a exec" where
  "load h p = (case p of None \<Rightarrow> Inl NilDeref
     | Some r \<Rightarrow> (case cells h r of None \<Rightarrow> Inl NilDeref | Some v \<Rightarrow> Inr v))"

definition save :: "'a store \<Rightarrow> ref option \<Rightarrow> 'a \<Rightarrow> 'a store exec" where
  "save h p v = (case p of None \<Rightarrow> Inl NilDeref
     | Some r \<Rightarrow> (case cells h r of None \<Rightarrow> Inl NilDeref
         | Some _ \<Rightarrow> Inr (h\<lparr>cells := (cells h)(r \<mapsto> v)\<rparr>)))"

text \<open>Every address in use is below the next free one.\<close>

definition wf_store :: "'a store \<Rightarrow> bool" where
  "wf_store h \<longleftrightarrow> (\<forall>r. cells h r \<noteq> None \<longrightarrow> r < next_ref h)"

lemma load_eq_Inr_iff: "load h p = Inr v \<longleftrightarrow> (\<exists>r. p = Some r \<and> cells h r = Some v)"
  by (auto simp: load_def split: option.splits)

lemma load_Some_iff [simp]: "load h (Some r) = Inr v \<longleftrightarrow> cells h r = Some v"
  by (simp add: load_eq_Inr_iff)

lemma load_None [simp]: "load h None = Inl NilDeref"
  by (simp add: load_def)

lemma save_None [simp]: "save h None v = Inl NilDeref"
  by (simp add: save_def)

lemma save_eq_Inr_iff: "save h p v = Inr h' \<longleftrightarrow>
    (\<exists>r w. p = Some r \<and> cells h r = Some w \<and> h' = h\<lparr>cells := (cells h)(r \<mapsto> v)\<rparr>)"
  by (auto simp: save_def split: option.splits)

lemma load_upd_other: "q \<noteq> Some r \<Longrightarrow> load (h\<lparr>cells := (cells h)(r \<mapsto> v)\<rparr>) q = load h q"
  by (auto simp: load_def split: option.splits)

lemma wf_store_empty: "wf_store empty_store"
  by (simp add: wf_store_def empty_store_def)

interpretation rs: ref_heap alloc load save wf_store
  by unfold_locales
    (auto simp: alloc_def load_eq_Inr_iff save_eq_Inr_iff wf_store_def less_Suc_eq load_upd_other
      split: if_splits)

section \<open>Methods with a pointer receiver\<close>

text \<open>
  A method with a pointer receiver reads the struct, may change it, and returns a value.
  The methods are written on the struct and run on the pointer by \<open>via\<close>.
\<close>

definition via :: "('a \<Rightarrow> ('b \<times> 'a) exec) \<Rightarrow> ref option \<Rightarrow> 'a store \<Rightarrow> ('b \<times> 'a store) exec" where
  "via f p h = bnd (load h p) (\<lambda>v. bnd (f v) (\<lambda>(b, v'). bnd (save h p v') (\<lambda>h'. Inr (b, h'))))"

lemma via_nil [simp]: "via f None h = Inl NilDeref"
  by (simp add: via_def)

lemma via_run:
  assumes "cells h r = Some v" and "f v = Inr (b, v')"
  shows "via f (Some r) h = Inr (b, h\<lparr>cells := (cells h)(r \<mapsto> v')\<rparr>)"
  using assms by (simp add: via_def load_def save_def)

lemma via_panic: "cells h r = Some v \<Longrightarrow> f v = Inl e \<Longrightarrow> via f (Some r) h = Inl e"
  by (simp add: via_def load_def)

lemma viaE:
  assumes "via f p h = Inr (b, h')"
  obtains r v v' where "p = Some r" and "cells h r = Some v" and "f v = Inr (b, v')"
    and "h' = h\<lparr>cells := (cells h)(r \<mapsto> v')\<rparr>"
  using assms by (auto simp: via_def bnd_eq_Inr_iff load_eq_Inr_iff save_eq_Inr_iff split: prod.splits)

end
