(* ===== verification/Cluster.thy ===== *)
theory Cluster
  imports GoStrings RefStore
begin

text \<open>
  One configured cluster: \<open>kube_cluster.go\<close> and \<open>Is404\<close> of \<open>kube.go\<close>. The clientset of
  client-go is outside the repository: \<open>k8s_api\<close> collects the calls the code makes to it,
  with the state \<open>'w\<close> of the servers they reach passed along.
\<close>

section \<open>Data\<close>

text \<open>A \<open>float32\<close>: \<open>F32 m e\<close> is \<open>m * 2 ^ e\<close>. The code compares with 0 and copies.\<close>

datatype float32 = F32 int int | F32_Inf bool | F32_NaN

fun f32_pos :: "float32 \<Rightarrow> bool" where
  "f32_pos (F32 m e) = (0 < m)"
| "f32_pos (F32_Inf neg) = (\<not> neg)"
| "f32_pos F32_NaN = False"

text \<open>
  The fields of \<open>rest.Config\<close> the program reads or writes; \<open>rc_other\<close> stands for the
  others, which it only copies.
\<close>

record rest_config =
  rc_Host :: string
  rc_APIPath :: string
  rc_GroupVersion :: "(string \<times> string) option" \<comment> \<open>group and version\<close>
  rc_NegotiatedSerializer :: "string option"
  rc_BearerToken :: string
  rc_BearerTokenFile :: string
  rc_CAFile :: string
  rc_CAData :: "string option"
  rc_AuthProvider :: "string option"
  rc_QPS :: float32
  rc_Burst :: "64 word"
  rc_other :: string

definition zero_rest_config :: rest_config where
  "zero_rest_config = \<lparr>rc_Host = [], rc_APIPath = [], rc_GroupVersion = None,
     rc_NegotiatedSerializer = None, rc_BearerToken = [], rc_BearerTokenFile = [],
     rc_CAFile = [], rc_CAData = None, rc_AuthProvider = None, rc_QPS = F32 0 0,
     rc_Burst = 0, rc_other = []\<rparr>"

text \<open>The fields of \<open>containerpb.Cluster\<close> the program reads.\<close>

record pb_cluster =
  pb_Name :: string
  pb_Location :: string
  pb_Endpoint :: string
  pb_ClusterCaCertificate :: "string option" \<comment> \<open>\<open>None\<close>: \<open>MasterAuth\<close> is nil\<close>

text \<open>Handles of the objects client-go returns.\<close>

datatype clientset = Clientset nat
datatype rest_client = RESTClient nat

text \<open>What \<open>RawConfig\<close> holds: nothing, the \<open>ClientConfig\<close> of a context, a GKE cluster.\<close>

datatype raw_config = RawNil | RawClientConfig string | RawGKE pb_cluster

record K8SCluster =
  kc_RestConfig :: "rest_config option"
  kc_Name :: string
  kc_Namespace :: string
  kc_KSA :: string
  kc_client :: "clientset option"
  kc_RawConfig :: raw_config
  kc_project :: string
  kc_location :: string
  kc_name :: string

definition zero_cluster :: K8SCluster where
  "zero_cluster = \<lparr>kc_RestConfig = None, kc_Name = [], kc_Namespace = [], kc_KSA = [],
     kc_client = None, kc_RawConfig = RawNil, kc_project = [], kc_location = [], kc_name = []\<rparr>"

record 'w k8s_api =
  new_for_config :: "rest_config option \<Rightarrow> (go_error + clientset) exec"
  rest_client_for :: "rest_config \<Rightarrow> go_error + rest_client"
  create_token :: "clientset \<Rightarrow> string \<Rightarrow> string \<Rightarrow> string list \<Rightarrow> 'w \<Rightarrow> (go_error + string) \<times> 'w"
  get_config_map :: "clientset \<Rightarrow> string \<Rightarrow> string \<Rightarrow> 'w \<Rightarrow> (go_error + (string, string) gomap) \<times> 'w"
  get_secret :: "clientset \<Rightarrow> string \<Rightarrow> string \<Rightarrow> 'w \<Rightarrow> (go_error + (string, string) gomap) \<times> 'w"

section \<open>Constructors and printing\<close>

definition NewK8SCluster :: "string \<Rightarrow> string \<Rightarrow> K8SCluster" where
  "NewK8SCluster ns name = zero_cluster\<lparr>kc_Name := name\<rparr>"

definition cluster_String :: "K8SCluster \<Rightarrow> string" where
  "cluster_String k = [CHR 0x22] @ kc_Name k @ [CHR 0x22]"

section \<open>Project, location and name of a mangled cluster name\<close>

text \<open>
  \<open>GcpInfo\<close> reads the mangled name. The second part is the code after the \<open>gke_\<close> branch,
  which that branch reaches when it does not return.
\<close>

definition GcpInfo_connect :: "K8SCluster \<Rightarrow> ((string \<times> string \<times> string) \<times> K8SCluster) exec" where
  "GcpInfo_connect k =
     (let cf = kc_Name k in
      if has_prefix cf ''connectgateway_'' then
        (let parts = go_split cf ''_'' in
         if length parts > 2 then
           Inr ((parts ! 1, [], parts ! 2), k\<lparr>kc_project := parts ! 1\<rparr>)
         else Inr (([], [], cf), k))
      else Inr (([], [], cf), k))"

definition GcpInfo :: "K8SCluster \<Rightarrow> ((string \<times> string \<times> string) \<times> K8SCluster) exec" where
  "GcpInfo k =
     (if kc_location k \<noteq> [] then Inr ((kc_project k, kc_location k, kc_Name k), k)
      else let cf = kc_Name k in
      if has_prefix cf ''gke_'' then
        (let parts = go_split cf ''_'' in
         bnd (idx parts 1) (\<lambda>p. let k1 = k\<lparr>kc_project := p\<rparr> in
         bnd (idx parts 2) (\<lambda>l. let k2 = k1\<lparr>kc_location := l\<rparr> in
         bnd (idx parts 3) (\<lambda>n. let k3 = k2\<lparr>kc_name := n\<rparr> in
         if length parts > 3 then Inr ((p, l, n), k3) else GcpInfo_connect k3))))
      else GcpInfo_connect k)"

definition Location :: "K8SCluster \<Rightarrow> (string \<times> K8SCluster) exec" where
  "Location k =
     (if kc_location k = [] then bnd (GcpInfo k) (\<lambda>(_, k'). Inr (kc_location k', k'))
      else Inr (kc_location k, k))"

definition Label :: "K8SCluster \<Rightarrow> string \<Rightarrow> (string \<times> K8SCluster) exec" where
  "Label k name =
     (if name = ''location'' then Location k
      else if name = ''project'' then bnd (GcpInfo k) (\<lambda>(_, k'). Inr (kc_project k', k'))
      else if name = ''name'' then bnd (GcpInfo k) (\<lambda>(_, k'). Inr (kc_name k', k'))
      else Inr ([], k))"

section \<open>Clients\<close>

text \<open>
  \<open>Client\<close> creates the clientset on first use. \<open>NewForConfig\<close> returns nil with an error,
  which is logged, so the result may be nil.
\<close>

definition Client :: "'w k8s_api \<Rightarrow> K8SCluster \<Rightarrow> (clientset option \<times> K8SCluster) exec" where
  "Client api k =
     (case kc_client k of
        Some c \<Rightarrow> Inr (Some c, k)
      | None \<Rightarrow> bnd (new_for_config api (kc_RestConfig k)) (\<lambda>res.
          case res of Inl err \<Rightarrow> Inr (None, k\<lparr>kc_client := None\<rparr>)
          | Inr c \<Rightarrow> Inr (Some c, k\<lparr>kc_client := Some c\<rparr>)))"

definition RunAs :: "'w k8s_api \<Rightarrow> K8SCluster \<Rightarrow> string \<Rightarrow> string \<Rightarrow> (K8SCluster \<times> K8SCluster) exec" where
  "RunAs api k ns ksa =
     bnd (Client api k) (\<lambda>(c, k').
       Inr (zero_cluster\<lparr>kc_RestConfig := kc_RestConfig k', kc_client := c,
              kc_Name := kc_Name k', kc_Namespace := ns, kc_KSA := ksa\<rparr>, k'))"

definition RestClient :: "'w k8s_api \<Rightarrow> K8SCluster \<Rightarrow> string \<Rightarrow> string \<Rightarrow> (go_error + rest_client) exec" where
  "RestClient api k grp version =
     (case kc_RestConfig k of None \<Rightarrow> Inl NilDeref
      | Some c \<Rightarrow>
         (let config = c\<lparr>rc_APIPath := ''/apis''\<rparr>;
              config = (if grp = [] then config\<lparr>rc_APIPath := ''/api''\<rparr> else config);
              config = config\<lparr>rc_GroupVersion := Some (grp, version)\<rparr>;
              config = config\<lparr>rc_NegotiatedSerializer := Some ''WithoutConversion''\<rparr>
          in Inr (rest_client_for api config)))"

section \<open>Tokens, config maps and secrets\<close>

text \<open>A nil clientset panics in \<open>CoreV1()\<close>.\<close>

definition core_v1 :: "clientset option \<Rightarrow> clientset exec" where
  "core_v1 c = (case c of None \<Rightarrow> Inl NilDeref | Some c \<Rightarrow> Inr c)"

definition GetTokenRaw :: "'w k8s_api \<Rightarrow> K8SCluster \<Rightarrow> string \<Rightarrow> string \<Rightarrow> string \<Rightarrow> 'w
    \<Rightarrow> ((string \<times> go_error option) \<times> K8SCluster \<times> 'w) exec" where
  "GetTokenRaw api k ns ksa aud w =
     (let ns = (if ns = [] then ''default'' else ns);
          ksa = (if ksa = [] then ''default'' else ksa)
      in bnd (Client api k) (\<lambda>(c, k'). bnd (core_v1 c) (\<lambda>c.
           case create_token api c ns ksa [aud] w of
             (Inl err, w') \<Rightarrow> Inr (([], Some err), k', w')
           | (Inr token, w') \<Rightarrow> Inr ((token, None), k', w'))))"

definition GetToken :: "'w k8s_api \<Rightarrow> K8SCluster \<Rightarrow> string \<Rightarrow> 'w
    \<Rightarrow> ((string \<times> go_error option) \<times> K8SCluster \<times> 'w) exec" where
  "GetToken api k aud w =
     (let k = (if kc_KSA k = [] then k\<lparr>kc_KSA := ''default''\<rparr> else k)
      in GetTokenRaw api k (kc_Namespace k) (kc_KSA k) aud w)"

fun Is404 :: "go_error \<Rightarrow> bool" where
  "Is404 (StatusError code msg) = (code = 404)"
| "Is404 _ = False"

text \<open>
  \<open>GetCM\<close> and \<open>GetSecret\<close> return a map and an error; a missing object is an empty map
  and no error.
\<close>

definition cm_result :: "go_error + (string, string) gomap \<Rightarrow> (string, string) gomap \<times> go_error option" where
  "cm_result res = (case res of
       Inl err \<Rightarrow> (Some (\<lambda>_. None), if Is404 err then None else Some err)
     | Inr data \<Rightarrow> (data, None))"

definition GetCM :: "'w k8s_api \<Rightarrow> K8SCluster \<Rightarrow> string \<Rightarrow> string \<Rightarrow> 'w
    \<Rightarrow> (((string, string) gomap \<times> go_error option) \<times> K8SCluster \<times> 'w) exec" where
  "GetCM api k ns name w =
     bnd (Client api k) (\<lambda>(c, k'). bnd (core_v1 c) (\<lambda>c.
       case get_config_map api c ns name w of (res, w') \<Rightarrow> Inr (cm_result res, k', w')))"

definition GetSecret :: "'w k8s_api \<Rightarrow> K8SCluster \<Rightarrow> string \<Rightarrow> string \<Rightarrow> 'w
    \<Rightarrow> (((string, string) gomap \<times> go_error option) \<times> K8SCluster \<times> 'w) exec" where
  "GetSecret api k ns name w =
     bnd (Client api k) (\<lambda>(c, k'). bnd (core_v1 c) (\<lambda>c.
       case get_secret api c ns name w of (res, w') \<Rightarrow> Inr (cm_result res, k', w')))"

section \<open>What the accessors return\<close>

lemma idx_Cons_numeral [simp, exec_simps]: "idx (x # xs) (Suc n) = idx xs n" "idx (x # xs) 0 = Inr x"
  by (simp_all add: idx_def)

lemma idx_Cons_lits [simp, exec_simps]:
  "idx (x # xs) 1 = idx xs 0" "idx (x # xs) 2 = idx xs 1" "idx (x # xs) 3 = idx xs 2"
  by (simp_all add: idx_def eval_nat_numeral)

lemma idx_panics: "length xs \<le> i \<Longrightarrow> idx xs i = Inl IndexOutOfRange"
  by (simp add: idx_def)

lemma idx_ok: "i < length xs \<Longrightarrow> idx xs i = Inr (xs ! i)"
  by (simp add: idx_def)

text \<open>The mangled name of a GKE cluster splits into the four parts it was built of.\<close>

lemma split_gke_name:
  assumes "CHR ''_'' \<notin> set P" and "CHR ''_'' \<notin> set L"
  shows "go_split (''gke_'' @ P @ ''_'' @ L @ ''_'' @ N) ''_'' = ''gke'' # P # L # go_split N ''_''"
proof -
  have "go_split (''gke'' @ CHR ''_'' # P @ CHR ''_'' # L @ CHR ''_'' # N) ''_''
      = ''gke'' # P # L # go_split N ''_''"
    using assms by (subst go_split_char_Cons; simp add: go_split_char_Cons)
  then show ?thesis by simp
qed

lemma hd_go_split_char: "CHR ''_'' \<notin> set N \<Longrightarrow> go_split N ''_'' = [N]"
  by (rule go_split_char_last)

text \<open>
  The branch for \<open>gke_\<close> names, closed: fewer than four parts panic, and otherwise the
  parts 1, 2 and 3 are returned and cached.
\<close>

lemma GcpInfo_gke:
  assumes "kc_location k = []" and "has_prefix (kc_Name k) ''gke_''"
  shows "GcpInfo k = (let parts = go_split (kc_Name k) ''_'' in
    if length parts < 4 then Inl IndexOutOfRange
    else Inr ((parts ! 1, parts ! 2, parts ! 3),
      k\<lparr>kc_project := parts ! 1, kc_location := parts ! 2, kc_name := parts ! 3\<rparr>))"
  using assms by (auto simp: GcpInfo_def Let_def idx_def bnd_def)

lemma GcpInfo_other:
  assumes "kc_location k = []" and "\<not> has_prefix (kc_Name k) ''gke_''"
  shows "GcpInfo k = GcpInfo_connect k"
  using assms by (simp add: GcpInfo_def)

lemma GcpInfo_cached:
  "kc_location k \<noteq> [] \<Longrightarrow> GcpInfo k = Inr ((kc_project k, kc_location k, kc_Name k), k)"
  by (simp add: GcpInfo_def)

lemma GcpInfo_connect_total: "\<exists>r k'. GcpInfo_connect k = Inr (r, k')"
  by (simp add: GcpInfo_connect_def Let_def)

text \<open>A name is well formed when reading it cannot panic.\<close>

definition name_ok :: "string \<Rightarrow> bool" where
  "name_ok s \<longleftrightarrow> \<not> has_prefix s ''gke_'' \<or> 3 \<le> count_list s CHR ''_''"

lemma GcpInfo_panics_iff:
  "GcpInfo k = Inl e \<longleftrightarrow> e = IndexOutOfRange \<and> kc_location k = [] \<and> \<not> name_ok (kc_Name k)"
proof (cases "kc_location k = []")
  case loc: True
  show ?thesis
  proof (cases "has_prefix (kc_Name k) ''gke_''")
    case True
    with loc show ?thesis
      by (auto simp: GcpInfo_gke Let_def name_ok_def length_go_split_char)
  next
    case False
    with loc GcpInfo_connect_total [of k] show ?thesis
      by (auto simp: GcpInfo_other name_ok_def)
  qed
qed (simp add: GcpInfo_cached)

text \<open>
  What the accessors may change: the three cached strings, nothing else. \<open>same_cluster\<close>
  is the relation "equal but for the caches".
\<close>

definition same_cluster :: "K8SCluster \<Rightarrow> K8SCluster \<Rightarrow> bool" where
  "same_cluster k k' \<longleftrightarrow>
     k\<lparr>kc_project := [], kc_location := [], kc_name := []\<rparr> =
     k'\<lparr>kc_project := [], kc_location := [], kc_name := []\<rparr>"

lemma same_cluster_refl [simp, intro]: "same_cluster k k"
  by (simp add: same_cluster_def)

lemma same_cluster_trans: "same_cluster a b \<Longrightarrow> same_cluster b c \<Longrightarrow> same_cluster a c"
  by (simp add: same_cluster_def)

lemma same_cluster_sym: "same_cluster a b \<Longrightarrow> same_cluster b a"
  by (simp add: same_cluster_def)

lemma same_cluster_Name: "same_cluster a b \<Longrightarrow> kc_Name a = kc_Name b"
  by (cases a; cases b) (simp add: same_cluster_def)

lemma same_cluster_upd [simp]:
  "same_cluster k (k\<lparr>kc_project := p\<rparr>)"
  "same_cluster k (k\<lparr>kc_project := p, kc_location := l, kc_name := n\<rparr>)"
  by (simp_all add: same_cluster_def)

text \<open>
  \<open>loc_of\<close> is the location a name carries: part 2 of a GKE name, nothing for any other.
  The caches agree with the name when an empty cache or this location is cached.
\<close>

definition loc_of :: "string \<Rightarrow> string" where
  "loc_of s = (if has_prefix s ''gke_'' then go_split s ''_'' ! 2 else [])"

definition cache_ok :: "K8SCluster \<Rightarrow> bool" where
  "cache_ok k \<longleftrightarrow> kc_location k = [] \<or> kc_location k = loc_of (kc_Name k)"

lemma GcpInfo_effect:
  assumes "GcpInfo k = Inr (r, k')"
  shows "same_cluster k k'" and "cache_ok k \<Longrightarrow> cache_ok k'"
    and "cache_ok k \<Longrightarrow> kc_location k' = loc_of (kc_Name k)"
proof -
  have "same_cluster k k' \<and> (cache_ok k \<longrightarrow> cache_ok k' \<and> kc_location k' = loc_of (kc_Name k))"
  proof (cases "kc_location k = []")
    case loc: True
    show ?thesis
    proof (cases "has_prefix (kc_Name k) ''gke_''")
      case True
      with assms loc show ?thesis
        by (auto simp: GcpInfo_gke Let_def cache_ok_def loc_of_def split: if_splits)
    next
      case False
      with assms loc show ?thesis
        by (auto simp: GcpInfo_other GcpInfo_connect_def Let_def cache_ok_def loc_of_def
            split: if_splits)
    qed
  next
    case False
    with assms show ?thesis by (auto simp: GcpInfo_cached cache_ok_def)
  qed
  then show "same_cluster k k'" and "cache_ok k \<Longrightarrow> cache_ok k'"
    and "cache_ok k \<Longrightarrow> kc_location k' = loc_of (kc_Name k)" by blast+
qed

text \<open>\<open>Location\<close> never panics on a well-formed name, and answers what the name says.\<close>

lemma Location_run:
  assumes "name_ok (kc_Name k)" and "cache_ok k"
  shows "\<exists>k'. Location k = Inr (loc_of (kc_Name k), k') \<and> same_cluster k k' \<and> cache_ok k'"
proof (cases "kc_location k = []")
  case True
  with assms(1) obtain r k' where g: "GcpInfo k = Inr (r, k')"
    by (metis GcpInfo_panics_iff obj_sumE surj_pair)
  have "kc_location k' = loc_of (kc_Name k)" "same_cluster k k'" "cache_ok k'"
    using GcpInfo_effect [OF g] assms(2) by blast+
  with True g show ?thesis by (simp add: Location_def)
next
  case False
  with assms(2) show ?thesis by (simp add: Location_def cache_ok_def)
qed

section \<open>Names: round trip, panics, caching\<close>

definition gke_name :: "string \<Rightarrow> string \<Rightarrow> string \<Rightarrow> string" where
  "gke_name P L N = ''gke_'' @ P @ ''_'' @ L @ ''_'' @ N"

definition connect_name :: "string \<Rightarrow> string \<Rightarrow> string" where
  "connect_name P M = ''connectgateway_'' @ P @ ''_global_'' @ M"

lemma gke_name_prefix [simp]: "has_prefix (gke_name P L N) ''gke_''"
  by (simp add: gke_name_def)

lemma name_ok_gke_name [simp]: "name_ok (gke_name P L N)"
  by (simp add: name_ok_def gke_name_def count_list_append)

lemma name_ok_connect_name [simp]: "name_ok (connect_name P M)"
  by (simp add: name_ok_def connect_name_def)

lemma parts_of_gke_name:
  assumes "CHR ''_'' \<notin> set P" and "CHR ''_'' \<notin> set L" and "CHR ''_'' \<notin> set N"
  shows "go_split (gke_name P L N) ''_'' = [''gke'', P, L, N]"
  unfolding gke_name_def split_gke_name [OF assms(1,2)] hd_go_split_char [OF assms(3)] ..

lemma loc_of_gke_name:
  assumes "CHR ''_'' \<notin> set P" and "CHR ''_'' \<notin> set L"
  shows "loc_of (gke_name P L N) = L"
  using assms by (simp add: loc_of_def) (simp add: gke_name_def split_gke_name del: append_Cons)

lemma parts_of_connect_name:
  assumes "CHR ''_'' \<notin> set P"
  shows "go_split (connect_name P M) ''_'' = ''connectgateway'' # P # ''global'' # go_split M ''_''"
proof -
  have first: "go_split (''connectgateway'' @ CHR ''_'' # R) ''_''
      = ''connectgateway'' # go_split R ''_''" for R
    by (rule go_split_char_Cons) simp
  have third: "go_split (''global'' @ CHR ''_'' # R) ''_'' = ''global'' # go_split R ''_''" for R
    by (rule go_split_char_Cons) simp
  have "go_split (''connectgateway'' @ CHR ''_'' # P @ CHR ''_'' # ''global'' @ CHR ''_'' # M) ''_''
      = ''connectgateway'' # P # ''global'' # go_split M ''_''"
    unfolding first go_split_char_Cons [OF assms] third ..
  then show ?thesis by (simp add: connect_name_def)
qed

text \<open>
  C29: \<open>GcpInfo\<close> is the inverse of the naming scheme. The first call on a cluster whose name
  was built as \<open>gke_PROJECT_LOCATION_NAME\<close>, with no underscore inside the three parts,
  returns exactly the project, the location and the name, and caches them.
\<close>

theorem GcpInfo_gke_name:
  assumes "CHR ''_'' \<notin> set P" and "CHR ''_'' \<notin> set L" and "CHR ''_'' \<notin> set N"
    and "kc_Name k = gke_name P L N" and "kc_location k = []"
  shows "GcpInfo k = Inr ((P, L, N), k\<lparr>kc_project := P, kc_location := L, kc_name := N\<rparr>)"
  using assms by (simp add: GcpInfo_gke parts_of_gke_name)

theorem GcpInfo_gke_name_witness:
  "GcpInfo (NewK8SCluster [] ''gke_p1_us-west1_istio'') =
     Inr ((''p1'', ''us-west1'', ''istio''),
       (NewK8SCluster [] ''gke_p1_us-west1_istio'')\<lparr>kc_project := ''p1'',
          kc_location := ''us-west1'', kc_name := ''istio''\<rparr>)"
  by (rule GcpInfo_gke_name) (simp_all add: gke_name_def NewK8SCluster_def zero_cluster_def)

text \<open>
  \<open>GcpInfo\<close> does not answer the same twice. Once the location is cached the third
  result is the whole mangled name, not the cluster's own name that the first call returned
  and cached, so a caller that builds a resource path from the second call gets a wrong path.
\<close>

lemma GcpInfo_second_call:
  assumes "CHR ''_'' \<notin> set P" and "CHR ''_'' \<notin> set L" and "CHR ''_'' \<notin> set N" and "L \<noteq> []"
    and "kc_Name k = gke_name P L N" and "kc_location k = []"
  shows "\<exists>k'. GcpInfo k = Inr ((P, L, N), k') \<and> GcpInfo k' = Inr ((P, L, gke_name P L N), k')
    \<and> gke_name P L N \<noteq> N"
proof -
  have "length N < length (gke_name P L N)" by (simp add: gke_name_def)
  then have "gke_name P L N \<noteq> N" by auto
  then show ?thesis
    using assms by (auto simp: GcpInfo_gke parts_of_gke_name GcpInfo_cached)
qed

lemma GcpInfo_second_call_witness:
  "\<exists>k'. GcpInfo (NewK8SCluster [] ''gke_p_l_n'') = Inr ((''p'', ''l'', ''n''), k')
    \<and> GcpInfo k' = Inr ((''p'', ''l'', ''gke_p_l_n''), k')"
  using GcpInfo_second_call [of "''p''" "''l''" "''n''" "NewK8SCluster [] ''gke_p_l_n''"]
  by (simp add: gke_name_def NewK8SCluster_def zero_cluster_def)

text \<open>
  \<open>GcpInfo\<close> panics exactly on the names that start with \<open>gke_\<close>, hold fewer than three
  underscores, and have no cached location: the parts are indexed before their number is
  checked. The panic is an index out of range, and no other name panics.
\<close>

lemma GcpInfo_panic_condition:
  "GcpInfo k = Inl e \<longleftrightarrow> e = IndexOutOfRange \<and> kc_location k = []
     \<and> has_prefix (kc_Name k) ''gke_'' \<and> length (go_split (kc_Name k) ''_'') < 4"
  by (auto simp: GcpInfo_panics_iff name_ok_def length_go_split_char)

text \<open>
  For a cluster that was registered through the hub, named
  \<open>connectgateway_PROJECT_global_MEMBERSHIP\<close>, the third result of \<open>GcpInfo\<close> is the word
  \<open>global\<close>, whatever the membership; the location stays empty, and the label \<open>name\<close> of
  the cluster is empty.
\<close>

lemma GcpInfo_connect_name:
  assumes "CHR ''_'' \<notin> set P" and "kc_Name k = connect_name P M"
    and "kc_location k = []" and "kc_name k = []"
  shows "\<exists>k'. GcpInfo k = Inr ((P, [], ''global''), k') \<and> kc_location k' = []
    \<and> Label k ''name'' = Inr ([], k')"
proof -
  have pre: "\<not> has_prefix (connect_name P M) ''gke_''"
    "has_prefix (connect_name P M) ''connectgateway_''"
    by (simp_all add: connect_name_def)
  have "GcpInfo k = Inr ((P, [], ''global''), k\<lparr>kc_project := P\<rparr>)"
    using assms pre
    by (simp add: GcpInfo_other GcpInfo_connect_def parts_of_connect_name Let_def)
  with assms show ?thesis by (simp add: Label_def)
qed

lemma GcpInfo_connect_name_witness:
  "\<exists>k'. GcpInfo (NewK8SCluster [] ''connectgateway_p_global_asm'') = Inr ((''p'', [], ''global''), k')"
  using GcpInfo_connect_name
    [of "''p''" "NewK8SCluster [] ''connectgateway_p_global_asm''" "''asm''"]
  by (auto simp: connect_name_def NewK8SCluster_def zero_cluster_def)

section \<open>Labels over a run of calls\<close>

text \<open>A sequence of \<open>Label\<close> calls on one cluster.\<close>

fun labels :: "K8SCluster \<Rightarrow> string list \<Rightarrow> (string list \<times> K8SCluster) exec" where
  "labels k [] = Inr ([], k)"
| "labels k (q # qs) =
     bnd (Label k q) (\<lambda>(a, k'). bnd (labels k' qs) (\<lambda>(as, k''). Inr (a # as, k'')))"

definition label_of :: "string \<Rightarrow> string \<Rightarrow> string \<Rightarrow> string \<Rightarrow> string" where
  "label_of P L N q = (if q = ''location'' then L else if q = ''project'' then P
     else if q = ''name'' then N else [])"

text \<open>The caches of a GKE cluster: all empty, or all filled from the name.\<close>

definition gke_caches :: "string \<Rightarrow> string \<Rightarrow> string \<Rightarrow> K8SCluster \<Rightarrow> bool" where
  "gke_caches P L N k \<longleftrightarrow> kc_Name k = gke_name P L N \<and>
     (kc_location k = [] \<or> (kc_project k = P \<and> kc_location k = L \<and> kc_name k = N))"

lemma Label_gke:
  assumes "CHR ''_'' \<notin> set P" and "CHR ''_'' \<notin> set L" and "CHR ''_'' \<notin> set N"
    and "gke_caches P L N k"
  shows "\<exists>k'. Label k q = Inr (label_of P L N q, k') \<and> gke_caches P L N k'"
proof (cases "kc_location k = []")
  case True
  have "GcpInfo k = Inr ((P, L, N), k\<lparr>kc_project := P, kc_location := L, kc_name := N\<rparr>)"
    using assms True by (simp add: gke_caches_def GcpInfo_gke parts_of_gke_name)
  with assms(4) True show ?thesis
    by (simp add: Label_def Location_def label_of_def gke_caches_def)
next
  case False
  with assms(4) show ?thesis
    by (simp add: Label_def Location_def label_of_def gke_caches_def GcpInfo_cached)
qed

lemma labels_gke:
  assumes "CHR ''_'' \<notin> set P" and "CHR ''_'' \<notin> set L" and "CHR ''_'' \<notin> set N"
    and "gke_caches P L N k"
  shows "\<exists>k'. labels k qs = Inr (map (label_of P L N) qs, k') \<and> gke_caches P L N k'"
  using assms(4)
proof (induction qs arbitrary: k)
  case Nil
  then show ?case by simp
next
  case (Cons q qs)
  from Label_gke [OF assms(1-3) Cons.prems] obtain k1
    where k1: "Label k q = Inr (label_of P L N q, k1)" "gke_caches P L N k1" by blast
  from Cons.IH [OF k1(2)] k1(1) show ?case by auto
qed

text \<open>
  The labels of a GKE cluster are stable. In any sequence of \<open>Label\<close> calls, in any
  order and with any repetitions, every \<open>location\<close> is the location part of the name, every
  \<open>project\<close> the project and every \<open>name\<close> the cluster's own name, any other label is
  empty, and no call panics: the caching does not show through \<open>Label\<close>.
\<close>

lemma labels_stable:
  assumes "CHR ''_'' \<notin> set P" and "CHR ''_'' \<notin> set L" and "CHR ''_'' \<notin> set N"
    and "kc_Name k = gke_name P L N" and "kc_location k = []"
  shows "\<exists>k'. labels k qs = Inr (map (label_of P L N) qs, k')"
  using labels_gke [OF assms(1-3), of k qs] assms(4,5) by (auto simp: gke_caches_def)

lemma labels_stable_witness:
  "\<exists>k'. labels (NewK8SCluster [] ''gke_p_l_n'') [''name'', ''zone'', ''project'', ''name'']
     = Inr ([''n'', [], ''p'', ''n''], k')"
  using labels_stable [of "''p''" "''l''" "''n''" "NewK8SCluster [] ''gke_p_l_n''"
      "[''name'', ''zone'', ''project'', ''name'']"]
  by (simp add: gke_name_def NewK8SCluster_def zero_cluster_def label_of_def)

end
