(* ===== verification/TokenSource.thy ===== *)
theory TokenSource
  imports Prelude
begin

text \<open>
  The interface \<open>TokenSource\<close> of \<open>gcp/k8s_auth_provider.go\<close>: one method
  \<open>GetToken(ctx, audience)\<close> that returns a token and an error. A cluster, the cluster set
  and the GKE module provide it; the round tripper that authenticates requests relies on it.
  A provider has states in which it is \<open>ready\<close>: there \<open>GetToken\<close> does not panic, leaves
  it ready, and hands out no token beside an error.
\<close>

locale token_source =
  fixes get :: "'s \<Rightarrow> string \<Rightarrow> 'w \<Rightarrow> ((string \<times> go_error option) \<times> 's \<times> 'w) exec"
    and ready :: "'s \<Rightarrow> bool"
  assumes get_returns: "ready s \<Longrightarrow> \<exists>res s' w'. get s aud w = Inr (res, s', w')"
    and get_ready: "ready s \<Longrightarrow> get s aud w = Inr (res, s', w') \<Longrightarrow> ready s'"
    and get_error: "ready s \<Longrightarrow> get s aud w = Inr ((tok, Some err), s', w') \<Longrightarrow> tok = []"
begin

lemma get_cases:
  assumes "ready s"
  obtains (token) tok s' w' where "get s aud w = Inr ((tok, None), s', w')" and "ready s'"
    | (failure) err s' w' where "get s aud w = Inr (([], Some err), s', w')" and "ready s'"
proof -
  from get_returns [OF assms, of aud w] obtain res s' w' where g: "get s aud w = Inr (res, s', w')"
    by blast
  obtain tok e where res: "res = (tok, e)" by (cases res)
  note r = get_ready [OF assms g]
  show thesis
  proof (cases e)
    case None
    with g res r show thesis by (auto intro: token)
  next
    case (Some err)
    with g res get_error [OF assms] have "tok = []" by blast
    with g res r Some show thesis by (auto intro: failure)
  qed
qed

text \<open>
  What the source answers, from any state in which it is ready, to a request for the empty
  audience: each answer with the world it was given in.
\<close>

definition given :: "((string \<times> go_error option) \<times> 'w) set" where
  "given = {(res, w). \<exists>s s' w'. ready s \<and> get s [] w = Inr (res, s', w')}"

end

end
