(* ===== verification/ClusterTokens.thy ===== *)
theory ClusterTokens
  imports Cluster TokenSource
begin

text \<open>
  What the token, config map and secret calls of \<open>kube_cluster.go\<close> promise, and the cluster
  as a provider of \<open>token_source\<close>.
\<close>

section \<open>The clientset\<close>

text \<open>\<open>client_of api k\<close> is the clientset \<open>Client\<close> will answer with, if it does not panic.\<close>

definition client_of :: "'w k8s_api \<Rightarrow> K8SCluster \<Rightarrow> clientset option" where
  "client_of api k = (case kc_client k of
       Some c \<Rightarrow> Some c
     | None \<Rightarrow> (case new_for_config api (kc_RestConfig k) of
           Inr (Inr c) \<Rightarrow> Some c | _ \<Rightarrow> None))"

lemma Client_ready:
  "client_of api k = Some c \<Longrightarrow> Client api k = Inr (Some c, k\<lparr>kc_client := Some c\<rparr>)"
  by (auto simp: client_of_def Client_def split: option.splits sum.splits)

lemma client_of_cached [simp]: "kc_client k = Some c \<Longrightarrow> client_of api k = Some c"
  by (simp add: client_of_def)

lemma client_of_KSA [simp]: "client_of api (k\<lparr>kc_KSA := s\<rparr>) = client_of api k"
  by (simp add: client_of_def split: option.split)

definition or_default :: "string \<Rightarrow> string" where
  "or_default s = (if s = [] then ''default'' else s)"

definition token_result :: "go_error + string \<Rightarrow> string \<times> go_error option" where
  "token_result res = (case res of Inl err \<Rightarrow> ([], Some err) | Inr token \<Rightarrow> (token, None))"

lemma GetTokenRaw_run:
  assumes "client_of api k = Some c"
  shows "GetTokenRaw api k ns ksa aud w =
    (case create_token api c (or_default ns) (or_default ksa) [aud] w of
       (res, w') \<Rightarrow> Inr (token_result res, k\<lparr>kc_client := Some c\<rparr>, w'))"
  using Client_ready [OF assms]
  by (simp add: GetTokenRaw_def core_v1_def or_default_def token_result_def
      split: prod.splits sum.splits)

lemma GetToken_run:
  assumes "client_of api k = Some c"
  shows "GetToken api k aud w =
    (case create_token api c (or_default (kc_Namespace k)) (or_default (kc_KSA k)) [aud] w of
       (res, w') \<Rightarrow> Inr (token_result res,
          k\<lparr>kc_KSA := or_default (kc_KSA k), kc_client := Some c\<rparr>, w'))"
  using assms by (simp add: GetToken_def GetTokenRaw_run or_default_def split: prod.splits)

text \<open>A cluster with a clientset, or that can build one, is a token source.\<close>

interpretation kc: token_source "GetToken api" "\<lambda>k. client_of api k \<noteq> None" for api
proof
  fix k aud w
  assume "client_of api k \<noteq> None"
  then show "\<exists>res k' w'. GetToken api k aud w = Inr (res, k', w')"
    by (auto simp: GetToken_run split: prod.splits)
next
  fix k aud w res k' w'
  assume "client_of api k \<noteq> None" and "GetToken api k aud w = Inr (res, k', w')"
  then show "client_of api k' \<noteq> None"
    by (auto simp: GetToken_run split: prod.splits)
next
  fix k aud w tok err k' w'
  assume "client_of api k \<noteq> None" and "GetToken api k aud w = Inr ((tok, Some err), k', w')"
  then show "tok = []"
    by (auto simp: GetToken_run token_result_def split: prod.splits sum.splits)
qed

text \<open>The same for a cluster that is known to act for a namespace and a service account, through a clientset.\<close>

definition acts_as :: "'w k8s_api \<Rightarrow> clientset \<Rightarrow> string \<Rightarrow> string \<Rightarrow> K8SCluster \<Rightarrow> bool" where
  "acts_as api c ns ksa k \<longleftrightarrow> client_of api k = Some c \<and> kc_Namespace k = ns
     \<and> or_default (kc_KSA k) = or_default ksa"

interpretation ka: token_source "GetToken api" "acts_as api c ns ksa" for api c ns ksa
proof
  fix k aud w
  assume "acts_as api c ns ksa k"
  then show "\<exists>res k' w'. GetToken api k aud w = Inr (res, k', w')"
    using kc.get_returns [of api k aud w] by (simp add: acts_as_def)
next
  fix k aud w res k' w'
  assume "acts_as api c ns ksa k" and "GetToken api k aud w = Inr (res, k', w')"
  then show "acts_as api c ns ksa k'"
    by (auto simp: acts_as_def GetToken_run or_default_def split: prod.splits)
next
  fix k aud w tok err k' w'
  assume "acts_as api c ns ksa k" and "GetToken api k aud w = Inr ((tok, Some err), k', w')"
  then show "tok = []" using kc.get_error [of api k aud w tok err k' w'] by (simp add: acts_as_def)
qed

lemma given_by_server:
  assumes "(tok, None) \<in> fst ` ka.given api c ns ksa"
  shows "\<exists>v v'. create_token api c (or_default ns) (or_default ksa) [[]] v = (Inr tok, v')"
proof -
  from assms obtain k v k' v' where k: "acts_as api c ns ksa k" "GetToken api k [] v = Inr ((tok, None), k', v')"
    by (auto simp: ka.given_def)
  then have "fst (create_token api c (or_default ns) (or_default ksa) [[]] v) = Inr tok"
    by (auto simp: acts_as_def GetToken_run token_result_def split: prod.splits sum.splits)
  then show ?thesis by (metis prod.collapse)
qed

section \<open>Properties\<close>

text \<open>A concrete client-go for the witnesses: it signs every request, and counts them.\<close>

definition demo_api :: "nat k8s_api" where
  "demo_api = \<lparr>
     new_for_config = (\<lambda>c. case c of None \<Rightarrow> Inl NilDeref
       | Some c \<Rightarrow> (if rc_Host c = [] then Inr (Inl (ErrNew ''no host'')) else Inr (Inr (Clientset 7)))),
     rest_client_for = (\<lambda>c. Inr (RESTClient 1)),
     create_token = (\<lambda>c ns ksa auds w. (Inr (ns @ ''/'' @ ksa @ ''/'' @ concat auds), Suc w)),
     get_config_map = (\<lambda>c ns n w. (Inl (StatusError 404 ''not found''), Suc w)),
     get_secret = (\<lambda>c ns n w. (Inl (StatusError 403 ''forbidden''), Suc w))\<rparr>"

definition demo_cluster :: K8SCluster where
  "demo_cluster = zero_cluster\<lparr>kc_RestConfig := Some (zero_rest_config\<lparr>rc_Host := ''h''\<rparr>),
     kc_Name := ''c1'', kc_Namespace := ''ns1''\<rparr>"

lemma demo_cluster_client: "client_of demo_api demo_cluster = Some (Clientset 7)"
  by (simp add: demo_api_def demo_cluster_def client_of_def zero_cluster_def zero_rest_config_def)

text \<open>
  A token request of a cluster that has a clientset, or can build one, names the
  cluster's namespace and service account, with \<open>default\<close> for either that is unset, and
  exactly the one audience asked for. The cluster is changed only by the clientset it keeps
  and the service account that was defaulted, and the error of the server is returned with
  an empty token.
\<close>

lemma GetToken_request:
  assumes "client_of api k = Some c"
    and "create_token api c (or_default (kc_Namespace k)) (or_default (kc_KSA k)) [aud] w = (res, w')"
  shows "GetToken api k aud w = Inr (token_result res,
    k\<lparr>kc_KSA := or_default (kc_KSA k), kc_client := Some c\<rparr>, w')"
  using assms by (simp add: GetToken_run)

lemma GetToken_request_witness:
  "\<exists>k'. GetToken demo_api demo_cluster ''aud'' 3 = Inr ((''ns1/default/aud'', None), k', 4)"
  using GetToken_request [of demo_api demo_cluster "Clientset 7" "''aud''" 3
      "Inr ''ns1/default/aud''" 4]
  by (auto simp: demo_api_def demo_cluster_def client_of_def zero_cluster_def zero_rest_config_def
      or_default_def token_result_def)

text \<open>
  When the clientset cannot be built, the error is logged and dropped: \<open>GetToken\<close>,
  \<open>GetCM\<close> and \<open>GetSecret\<close> then all panic with a nil dereference instead of returning the
  error their signatures promise.
\<close>

lemma no_clientset_panics:
  assumes "kc_client k = None" and "new_for_config api (kc_RestConfig k) = Inr (Inl err)"
  shows "GetToken api k aud w = Inl NilDeref \<and> GetCM api k ns name w = Inl NilDeref
    \<and> GetSecret api k ns name w = Inl NilDeref"
  using assms
  by (simp_all add: GetToken_def GetTokenRaw_def GetCM_def GetSecret_def Client_def core_v1_def Let_def)

lemma no_clientset_panics_witness:
  "GetToken demo_api (zero_cluster\<lparr>kc_RestConfig := Some zero_rest_config\<rparr>) ''a'' 0 = Inl NilDeref"
  by (rule no_clientset_panics [where err = "ErrNew ''no host''", THEN conjunct1])
    (simp_all add: demo_api_def zero_cluster_def zero_rest_config_def)

text \<open>
  \<open>RunAs\<close> gives a cluster that acts for another namespace and service account through
  the same connection: its token requests go to the clientset of the original, with the new
  namespace and account (or \<open>default\<close>), and the original cluster keeps everything but the
  clientset that was built on the way.
\<close>

lemma RunAs_acts_as:
  assumes "client_of api k = Some c"
    and "create_token api c (or_default ns) (or_default ksa) [aud] w = (res, w')"
  shows "\<exists>k1. RunAs api k ns ksa = Inr (k1, k\<lparr>kc_client := Some c\<rparr>)
    \<and> kc_RestConfig k1 = kc_RestConfig k \<and> kc_Name k1 = kc_Name k
    \<and> (\<exists>k2. GetToken api k1 aud w = Inr (token_result res, k2, w'))"
proof -
  define k1 where "k1 = zero_cluster\<lparr>kc_RestConfig := kc_RestConfig k, kc_client := Some c,
      kc_Name := kc_Name k, kc_Namespace := ns, kc_KSA := ksa\<rparr>"
  have "RunAs api k ns ksa = Inr (k1, k\<lparr>kc_client := Some c\<rparr>)"
    by (simp add: RunAs_def Client_ready [OF assms(1)] k1_def)
  moreover have "client_of api k1 = Some c" by (simp add: k1_def)
  ultimately show ?thesis
    using assms(2) by (simp add: GetToken_run) (simp add: k1_def)
qed

lemma RunAs_acts_as_witness:
  "\<exists>k1 k0. RunAs demo_api demo_cluster ''prod'' ''web'' = Inr (k1, k0)
     \<and> (\<exists>k2. GetToken demo_api k1 ''aud'' 0 = Inr ((''prod/web/aud'', None), k2, 1))"
  using RunAs_acts_as [of demo_api demo_cluster "Clientset 7" "''prod''" "''web''" "''aud''" 0
      "Inr ''prod/web/aud''" 1]
  by (fastforce simp: demo_api_def demo_cluster_def client_of_def zero_cluster_def
      zero_rest_config_def or_default_def token_result_def)

text \<open>
  A config map or secret that does not exist reads as an empty map with no error, and
  every other failure is reported: the error is absent exactly when the server answered or
  answered with a status of code 404, and on any failure the map is empty.
\<close>

lemma cm_result_spec:
  "(snd (cm_result res) = None \<longleftrightarrow>
      (case res of Inr data \<Rightarrow> True | Inl err \<Rightarrow> Is404 err))
   \<and> (\<forall>err. res = Inl err \<longrightarrow> fst (cm_result res) = Some (\<lambda>_. None)
        \<and> (\<not> Is404 err \<longrightarrow> snd (cm_result res) = Some err))
   \<and> (\<forall>data. res = Inr data \<longrightarrow> fst (cm_result res) = data)"
  by (simp add: cm_result_def split: sum.splits)

end
