(* ===== verification/AuthProvider.thy ===== *)
theory AuthProvider
  imports ClusterTokens
begin

text \<open>
  Authentication of the requests to an API server: \<open>gcp/k8s_auth_provider.go\<close>. Time is in
  nanoseconds of one clock; \<open>http.Request\<close> is its header and the rest. The transport below
  the round tripper is the parameter \<open>base\<close>, the token source the parameter \<open>get\<close>.
  A run of requests records what the source answered to each of them as the source gave it.
\<close>

section \<open>Time and headers\<close>

definition minute :: int where
  "minute = 60 * 1000000000"

text \<open>The zero \<open>time.Time\<close>: January 1 of year 1, on the scale of Unix time.\<close>

definition zero_time :: int where
  "zero_time = - 62135596800 * 1000000000"

text \<open>\<open>time.Since\<close> is a 64-bit \<open>Duration\<close> and saturates.\<close>

definition since :: "int \<Rightarrow> int \<Rightarrow> int" where
  "since now t = max (- (2 ^ 63)) (min (2 ^ 63 - 1) (now - t))"

lemma since_gt: "since now t > 30 * minute \<longleftrightarrow> now - t > 30 * minute"
  by (auto simp: since_def minute_def max_def min_def)

record http_request =
  rq_header :: "(string, string list) gomap"
  rq_rest :: string

definition header_add :: "(string, string list) gomap \<Rightarrow> string \<Rightarrow> string \<Rightarrow> (string, string list) gomap exec" where
  "header_add h key v = map_put h key ((case map_get h key of None \<Rightarrow> [] | Some vs \<Rightarrow> vs) @ [v])"

section \<open>The round tripper\<close>

record 's auth_rt =
  art_token :: string
  art_exp :: int
  art_creds :: "'s option"

type_synonym ('s, 'w) get_token = "'s \<Rightarrow> string \<Rightarrow> 'w \<Rightarrow> ((string \<times> go_error option) \<times> 's \<times> 'w) exec"
type_synonym ('r, 'w) transport = "http_request \<Rightarrow> 'w \<Rightarrow> 'r \<times> 'w"

text \<open>
  The cached token is replaced when it is more than 30 minutes old. \<open>t0\<close> and \<open>t1\<close> are the
  readings of the clock by \<open>time.Since\<close> and by \<open>time.Now\<close> after the token was fetched.
\<close>

definition refresh :: "('s, 'w) get_token \<Rightarrow> int \<Rightarrow> int \<Rightarrow> 's auth_rt \<Rightarrow> 'w
    \<Rightarrow> (go_error option \<times> 's auth_rt \<times> 'w) exec" where
  "refresh get t0 t1 m w =
     (if since t0 (art_exp m) > 30 * minute then
        (case art_creds m of
           None \<Rightarrow> Inl NilDeref
         | Some s \<Rightarrow> bnd (get s [] w) (\<lambda>((token, err), s', w').
             let m' = m\<lparr>art_token := token, art_creds := Some s'\<rparr> in
             case err of
               Some e \<Rightarrow> Inr (Some e, m', w')
             | None \<Rightarrow> Inr (None, m'\<lparr>art_exp := t1\<rparr>, w')))
      else Inr (None, m, w))"

text \<open>
  \<open>RoundTrip\<close> returns the error of the refresh, or what the transport returned; the second
  result is the request handed to the transport, if any.
\<close>

definition RoundTrip :: "('s, 'w) get_token \<Rightarrow> ('r, 'w) transport \<Rightarrow> int \<Rightarrow> int \<Rightarrow> 's auth_rt
    \<Rightarrow> http_request \<Rightarrow> 'w \<Rightarrow> ((go_error + 'r) \<times> http_request option \<times> 's auth_rt \<times> 'w) exec" where
  "RoundTrip get base t0 t1 m req w =
     bnd (refresh get t0 t1 m w) (\<lambda>(err, m', w').
       case err of
         Some e \<Rightarrow> Inr (Inl e, None, m', w')
       | None \<Rightarrow> bnd (header_add (rq_header req) ''Authorization'' (''Bearer '' @ art_token m')) (\<lambda>h.
           let req' = req\<lparr>rq_header := h\<rparr> in
           case base req' w' of (r, w'') \<Rightarrow> Inr (Inr r, Some req', m', w'')))"

section \<open>Registration\<close>

text \<open>
  The plugin the client library asks for a transport: it holds an oauth2 source or a
  \<open>TokenSource\<close>. The registry of client-go is the parameter \<open>register\<close>; its error is
  dropped by both functions.
\<close>

record ('o, 's) mdsAuth =
  md_creds :: "'o option"
  md_tokenSource :: "'s option"

datatype ('o, 's) wrapped = OAuthWrapped 'o | AuthWrapped "'s auth_rt"

definition WrapTransport :: "('o, 's) mdsAuth \<Rightarrow> ('o, 's) wrapped" where
  "WrapTransport m = (case md_creds m of
       Some c \<Rightarrow> OAuthWrapped c
     | None \<Rightarrow> AuthWrapped \<lparr>art_token = [], art_exp = zero_time, art_creds = md_tokenSource m\<rparr>)"

definition Login :: "('o, 's) mdsAuth \<Rightarrow> go_error option" where
  "Login m = None"

definition RegisterK8STokenProvider ::
  "(string \<Rightarrow> ('o, 's) mdsAuth \<Rightarrow> 'reg \<Rightarrow> go_error option \<times> 'reg) \<Rightarrow> string \<Rightarrow> 'o \<Rightarrow> 'reg \<Rightarrow> 'reg" where
  "RegisterK8STokenProvider register name creds reg =
     snd (register name \<lparr>md_creds = Some creds, md_tokenSource = None\<rparr> reg)"

definition RegisterTokenSource ::
  "(string \<Rightarrow> ('o, 's) mdsAuth \<Rightarrow> 'reg \<Rightarrow> go_error option \<times> 'reg) \<Rightarrow> string \<Rightarrow> 's \<Rightarrow> 'reg \<Rightarrow> 'reg" where
  "RegisterTokenSource register name creds reg =
     snd (register name \<lparr>md_creds = None, md_tokenSource = Some creds\<rparr> reg)"

section \<open>Runs of requests\<close>

text \<open>
  To say which tokens the source gave, whatever the round tripper keeps of them, a run records
  them: \<open>recorded get\<close> is the source \<open>get\<close> with the list of its answers beside the world, and
  \<open>beside base\<close> the transport, which leaves that list alone. The round tripper cannot see it.
\<close>

type_synonym answer = "string \<times> go_error option"

definition recorded :: "('s, 'w) get_token \<Rightarrow> ('s, 'w \<times> answer list) get_token" where
  "recorded get s aud wl = (case wl of (w, l) \<Rightarrow>
     bnd (get s aud w) (\<lambda>(res, s', w'). Inr (res, s', (w', l @ [res]))))"

definition beside :: "('r, 'w) transport \<Rightarrow> ('r, 'w \<times> answer list) transport" where
  "beside base req wl = (case wl of (w, l) \<Rightarrow> (case base req w of (r, w') \<Rightarrow> (r, (w', l))))"

lemma RoundTrip_recorded:
  "bnd (RoundTrip (recorded get) (beside base) t0 t1 m req (w, l)) (\<lambda>(res, fwd, m', (w', _)). Inr (res, fwd, m', w'))
    = RoundTrip get base t0 t1 m req w"
  by (auto simp: RoundTrip_def refresh_def recorded_def beside_def bnd_assoc Let_def
      split: option.split prod.split intro!: bnd_cong)

text \<open>
  A run sends requests one after the other. Its log has for each request the time it came
  in, the time at which a fetch was done, the answers the source gave, and the request that
  was forwarded.
\<close>

record rt_entry =
  en_time :: int
  en_done :: int
  en_answers :: "answer list"
  en_fwd :: "http_request option"

fun rt_run :: "('s, 'w) get_token \<Rightarrow> ('r, 'w) transport \<Rightarrow> 's auth_rt
    \<Rightarrow> (int \<times> int \<times> http_request) list \<Rightarrow> 'w \<Rightarrow> (rt_entry list \<times> 's auth_rt \<times> 'w) exec" where
  "rt_run get base m [] w = Inr ([], m, w)"
| "rt_run get base m ((t0, t1, req) # reqs) w =
     bnd (RoundTrip (recorded get) (beside base) t0 t1 m req (w, [])) (\<lambda>(_, fwd, m', (w', l)).
     bnd (rt_run get base m' reqs w') (\<lambda>(log, m'', w'').
       Inr (\<lparr>en_time = t0, en_done = t1, en_answers = l, en_fwd = fwd\<rparr> # log, m'', w'')))"

text \<open>The tokens among the answers, with the time they were fetched.\<close>

definition tokens_at :: "int \<Rightarrow> answer list \<Rightarrow> (int \<times> string) list" where
  "tokens_at t l = concat (map (\<lambda>(tok, err). if err = None then [(t, tok)] else []) l)"

lemma tokens_at_simps [simp]:
  "tokens_at t [] = []" "tokens_at t ((tok, None) # l) = (t, tok) # tokens_at t l"
  "tokens_at t ((tok, Some err) # l) = tokens_at t l"
  by (simp_all add: tokens_at_def)

abbreviation entry_fetches :: "rt_entry \<Rightarrow> (int \<times> string) list" where
  "entry_fetches e \<equiv> tokens_at (en_done e) (en_answers e)"

definition fetches :: "rt_entry list \<Rightarrow> (int \<times> string) list" where
  "fetches log = concat (map entry_fetches log)"

lemma fetches_simps [simp]: "fetches [] = []" "fetches (e # log) = entry_fetches e @ fetches log"
  by (simp_all add: fetches_def)

text \<open>The clock does not run backwards, and every request has a header map.\<close>

fun timeline :: "int \<Rightarrow> (int \<times> int \<times> http_request) list \<Rightarrow> bool" where
  "timeline now [] = True"
| "timeline now ((t0, t1, req) # reqs) =
     (now \<le> t0 \<and> t0 \<le> t1 \<and> rq_header req \<noteq> None \<and> timeline t1 reqs)"

definition spaced :: "(int \<times> string) list \<Rightarrow> bool" where
  "spaced fs \<longleftrightarrow> sorted_wrt (\<lambda>x y. fst y - fst x > 30 * minute) fs"

definition auth_values :: "http_request \<Rightarrow> string list" where
  "auth_values req = (case map_get (rq_header req) ''Authorization'' of None \<Rightarrow> [] | Some vs \<Rightarrow> vs)"

text \<open>
  An entry is authenticated by the fetches \<open>fs\<close>: what was forwarded ends in the token of a
  fetch that was at most 30 minutes old when the request came in.
\<close>

definition entry_fresh :: "(int \<times> string) list \<Rightarrow> rt_entry \<Rightarrow> bool" where
  "entry_fresh fs e = (case en_fwd e of None \<Rightarrow> True
     | Some req \<Rightarrow> auth_values req \<noteq> [] \<and>
         list_ex (\<lambda>(t, tok). last (auth_values req) = ''Bearer '' @ tok \<and> en_time e - t \<le> 30 * minute) fs)"

text \<open>The log read from its start, each entry against the fetches up to and including its own.\<close>

fun log_fresh :: "(int \<times> string) list \<Rightarrow> rt_entry list \<Rightarrow> bool" where
  "log_fresh fs [] = True"
| "log_fresh fs (e # log) =
     (let fs' = fs @ entry_fetches e in entry_fresh fs' e \<and> log_fresh fs' log)"

section \<open>The cache invariant\<close>

text \<open>
  \<open>rt_inv now m fs\<close>: the round tripper's \<open>exp\<close> is the time of the last fetch, and either
  the cache is already too old for any request from \<open>now\<close> on, or it holds the last
  fetched token.
\<close>

definition rt_inv :: "int \<Rightarrow> 's auth_rt \<Rightarrow> (int \<times> string) list \<Rightarrow> bool" where
  "rt_inv now m fs \<longleftrightarrow> spaced fs \<and> (\<forall>f \<in> set fs. fst f \<le> art_exp m) \<and>
     (now - art_exp m > 30 * minute \<or> (art_exp m, art_token m) \<in> set fs)"

lemma spaced_snoc: "spaced (fs @ [f]) \<longleftrightarrow> spaced fs \<and> (\<forall>g \<in> set fs. fst f - fst g > 30 * minute)"
  by (auto simp: spaced_def sorted_wrt_append)

context token_source
begin

lemma refresh_ready:
  assumes "art_creds m = Some s" and "ready s" and "rt_inv now m fs" and "now \<le> t0" and "t0 \<le> t1"
  shows "\<exists>err m' s' w' l. refresh (recorded get) t0 t1 m (w, []) = Inr (err, m', (w', l))
    \<and> art_creds m' = Some s' \<and> ready s' \<and> set l \<subseteq> fst ` given
    \<and> rt_inv t1 m' (fs @ tokens_at t1 l)
    \<and> (err = None \<longrightarrow> (art_exp m', art_token m') \<in> set (fs @ tokens_at t1 l) \<and> t0 - art_exp m' \<le> 30 * minute)"
proof (cases "since t0 (art_exp m) > 30 * minute")
  case False
  then have "t0 - art_exp m \<le> 30 * minute" by (simp add: since_gt)
  moreover have "refresh (recorded get) t0 t1 m (w, []) = Inr (None, m, (w, []))" by (simp add: refresh_def False)
  moreover have "rt_inv t1 m fs" using assms(3-5) by (auto simp: rt_inv_def)
  moreover from calculation(1) assms(3,4) have "(art_exp m, art_token m) \<in> set fs" by (auto simp: rt_inv_def)
  ultimately show ?thesis using assms(1,2) by (intro exI [of _ None] exI [of _ m] exI [of _ s] exI [of _ w] exI [of _ "[]"]) simp
next
  case True
  then have old: "t0 - art_exp m > 30 * minute" by (simp add: since_gt)
  have pos: "0 < minute" by (simp add: minute_def)
  have given: "res \<in> fst ` given" if "get s [] w = Inr (res, s', w')" for res s' w'
    using assms(2) that unfolding given_def by force
  from assms(2) show ?thesis
  proof (cases rule: get_cases [of s "[]" w])
    case (token tok s' w')
    let ?m = "m\<lparr>art_token := tok, art_creds := Some s', art_exp := t1\<rparr>"
    have run: "refresh (recorded get) t0 t1 m (w, []) = Inr (None, ?m, (w', [(tok, None)]))"
      using True assms(1) token by (simp add: refresh_def recorded_def Let_def)
    have far: "t1 - fst g > 30 * minute" if "g \<in> set fs" for g
      using that assms(3,5) old by (force simp: rt_inv_def)
    have "rt_inv t1 ?m (fs @ [(t1, tok)])"
      using assms(3) far pos by (auto simp: rt_inv_def spaced_snoc dest!: far)
    with run token given [OF token(1)] assms old pos show ?thesis by auto
  next
    case (failure err s' w')
    let ?m = "m\<lparr>art_token := [], art_creds := Some s'\<rparr>"
    have run: "refresh (recorded get) t0 t1 m (w, []) = Inr (Some err, ?m, (w', [([], Some err)]))"
      using True assms(1) failure by (simp add: refresh_def recorded_def Let_def)
    have "rt_inv t1 ?m fs" using assms(3,5) old by (auto simp: rt_inv_def)
    with run failure given [OF failure(1)] show ?thesis by auto
  qed
qed

lemma RoundTrip_ready:
  assumes "art_creds m = Some s" and "ready s" and "rt_inv now m fs" and "now \<le> t0" and "t0 \<le> t1"
    and "rq_header req \<noteq> None"
  shows "\<exists>res fwd m' s' w' l. RoundTrip (recorded get) (beside base) t0 t1 m req (w, []) = Inr (res, fwd, m', (w', l))
    \<and> art_creds m' = Some s' \<and> ready s' \<and> set l \<subseteq> fst ` given
    \<and> rt_inv t1 m' (fs @ tokens_at t1 l)
    \<and> (\<forall>req'. fwd = Some req' \<longrightarrow> auth_values req' = auth_values req @ [''Bearer '' @ art_token m']
         \<and> (art_exp m', art_token m') \<in> set (fs @ tokens_at t1 l) \<and> t0 - art_exp m' \<le> 30 * minute)"
proof -
  from assms(6) obtain h where h: "rq_header req = Some h" by auto
  from refresh_ready [OF assms(1-5), of w] obtain err m' s' w' l where r:
    "refresh (recorded get) t0 t1 m (w, []) = Inr (err, m', (w', l))" "art_creds m' = Some s'" "ready s'"
    "set l \<subseteq> fst ` given" "rt_inv t1 m' (fs @ tokens_at t1 l)"
    "err = None \<longrightarrow> (art_exp m', art_token m') \<in> set (fs @ tokens_at t1 l) \<and> t0 - art_exp m' \<le> 30 * minute"
    by blast
  show ?thesis
  proof (cases err)
    case (Some e)
    with r show ?thesis by (auto simp: RoundTrip_def)
  next
    case None
    obtain x w'' where b: "base (req\<lparr>rq_header := Some (h(''Authorization'' \<mapsto>
        auth_values req @ [''Bearer '' @ art_token m']))\<rparr>) w' = (x, w'')"
      by fastforce
    have "RoundTrip (recorded get) (beside base) t0 t1 m req (w, []) = Inr (Inr x, Some (req\<lparr>rq_header :=
        Some (h(''Authorization'' \<mapsto> auth_values req @ [''Bearer '' @ art_token m']))\<rparr>), m', (w'', l))"
      using r(1) None h b by (simp add: RoundTrip_def header_add_def auth_values_def beside_def Let_def)
    moreover have "auth_values (req\<lparr>rq_header := Some (h(''Authorization'' \<mapsto>
        auth_values req @ [''Bearer '' @ art_token m']))\<rparr>) = auth_values req @ [''Bearer '' @ art_token m']"
      by (simp add: auth_values_def)
    ultimately show ?thesis using r None by (intro exI conjI) auto
  qed
qed

lemma rt_run_fresh:
  assumes "art_creds m = Some s" and "ready s" and "rt_inv now m fs" and "timeline now reqs"
  shows "\<exists>log m' w'. rt_run get base m reqs w = Inr (log, m', w')
    \<and> length log = length reqs \<and> log_fresh fs log \<and> spaced (fs @ fetches log)
    \<and> (\<forall>(t, tok) \<in> set (fetches log). (tok, None) \<in> fst ` given)"
  using assms
proof (induction reqs arbitrary: m s now fs w)
  case Nil
  then show ?case by (simp add: rt_inv_def)
next
  case (Cons r reqs)
  obtain t0 t1 req where req: "r = (t0, t1, req)" by (cases r) auto
  with Cons.prems(4) have tl: "now \<le> t0" "t0 \<le> t1" "rq_header req \<noteq> None" "timeline t1 reqs"
    by auto
  from RoundTrip_ready [OF Cons.prems(1-3) tl(1-3), of base w]
  obtain res fwd m' s' w' l where rt:
    "RoundTrip (recorded get) (beside base) t0 t1 m req (w, []) = Inr (res, fwd, m', (w', l))"
    "art_creds m' = Some s'" "ready s'" "set l \<subseteq> fst ` given" "rt_inv t1 m' (fs @ tokens_at t1 l)"
    and fwd: "\<forall>req'. fwd = Some req' \<longrightarrow>
        auth_values req' = auth_values req @ [''Bearer '' @ art_token m']
         \<and> (art_exp m', art_token m') \<in> set (fs @ tokens_at t1 l) \<and> t0 - art_exp m' \<le> 30 * minute"
    by blast
  from Cons.IH [OF rt(2,3,5) tl(4), of w'] obtain log m'' w'' where ih:
    "rt_run get base m' reqs w' = Inr (log, m'', w'')" "length log = length reqs"
    "log_fresh (fs @ tokens_at t1 l) log" "spaced ((fs @ tokens_at t1 l) @ fetches log)"
    "\<forall>(t, tok) \<in> set (fetches log). (tok, None) \<in> fst ` given"
    by blast
  define e where "e = \<lparr>en_time = t0, en_done = t1, en_answers = l, en_fwd = fwd\<rparr>"
  have "entry_fresh (fs @ tokens_at t1 l) e"
    using fwd by (fastforce simp: entry_fresh_def e_def list_ex_iff split: option.split)
  with ih(3) have "log_fresh fs (e # log)" by (simp add: e_def)
  moreover have "rt_run get base m (r # reqs) w = Inr (e # log, m'', w'')"
    using rt(1) ih(1) by (simp add: req e_def)
  moreover have "\<forall>(t, tok) \<in> set (tokens_at t1 l). (tok, None) \<in> fst ` given"
    using rt(4) by (auto simp: tokens_at_def split: if_splits)
  ultimately show ?case using ih(2,4,5) by (auto simp: e_def)
qed

end

section \<open>Properties\<close>

lemma fresh_rt_inv:
  "0 \<le> now \<Longrightarrow> rt_inv now \<lparr>art_token = [], art_exp = zero_time, art_creds = c\<rparr> []"
  by (simp add: rt_inv_def spaced_def zero_time_def minute_def)

definition demo_request :: http_request where
  "demo_request = \<lparr>rq_header = Some (\<lambda>_. None), rq_rest = ''GET /''\<rparr>"

text \<open>
  C2: Requests of a cluster that authenticates through a token source. Take the round
  tripper the plugin makes for a cluster that has or can build a clientset, and send any
  sequence of requests that have a header map through it while the clock does not run
  backwards. No call panics;
  every request that is forwarded carries, as its last \<open>Authorization\<close> value, a token that
  the source answered with in this run at most 30 minutes before the request came in; two
  answers with a token are always more than 30 minutes apart, so the cache bounds the load on a
  source that answers; and all these tokens are answers of the API server to a token request of
  the namespace and the service account of the cluster.
\<close>

theorem cluster_requests_fresh:
  assumes "client_of api k = Some c" and "0 \<le> now" and "timeline now reqs"
    and "WrapTransport (\<lparr>md_creds = None, md_tokenSource = Some k\<rparr> :: (unit, K8SCluster) mdsAuth)
           = AuthWrapped m"
  shows "\<exists>log m' w'. rt_run (GetToken api) base m reqs w = Inr (log, m', w')
    \<and> length log = length reqs \<and> log_fresh [] log \<and> spaced (fetches log)
    \<and> (\<forall>(t, tok) \<in> set (fetches log). \<exists>v v'.
          create_token api c (or_default (kc_Namespace k)) (or_default (kc_KSA k)) [[]] v = (Inr tok, v'))"
proof -
  from assms(4) have m: "m = \<lparr>art_token = [], art_exp = zero_time, art_creds = Some k\<rparr>"
    by (simp add: WrapTransport_def)
  have "rt_inv now m []" using fresh_rt_inv [OF assms(2)] m by simp
  with ka.rt_run_fresh [of m k api c "kc_Namespace k" "kc_KSA k" now "[]" reqs base w] assms(1,3) m obtain log m' w' where
    "rt_run (GetToken api) base m reqs w = Inr (log, m', w')" "length log = length reqs" "log_fresh [] log"
    "spaced (fetches log)"
    "\<forall>(t, tok) \<in> set (fetches log). (tok, None) \<in> fst ` ka.given api c (kc_Namespace k) (kc_KSA k)"
    by (auto simp: acts_as_def)
  then show ?thesis using given_by_server [of _ api c "kc_Namespace k" "kc_KSA k"] by fastforce
qed

theorem cluster_requests_fresh_witness:
  "\<exists>log m' w'. rt_run (GetToken demo_api) (\<lambda>r w. ((), w))
       \<lparr>art_token = [], art_exp = zero_time, art_creds = Some demo_cluster\<rparr>
       [(0, 1, demo_request), (minute, minute, demo_request), (40 * minute, 40 * minute, demo_request)] 0
     = Inr (log, m', w') \<and> length log = 3 \<and> log_fresh [] log \<and> spaced (fetches log)"
proof -
  let ?reqs = "[(0, 1, demo_request), (minute, minute, demo_request), (40 * minute, 40 * minute, demo_request)]"
  let ?m = "\<lparr>art_token = [], art_exp = zero_time, art_creds = Some demo_cluster\<rparr>"
  have tl: "timeline 0 ?reqs" by (simp add: demo_request_def minute_def)
  have wrap: "WrapTransport (\<lparr>md_creds = None, md_tokenSource = Some demo_cluster\<rparr>
      :: (unit, K8SCluster) mdsAuth) = AuthWrapped ?m"
    by (simp add: WrapTransport_def)
  have "length ?reqs = 3" by simp
  then show ?thesis
    using cluster_requests_fresh [OF demo_cluster_client order_refl tl wrap, of "\<lambda>r w. ((), w)" 0] by metis
qed

text \<open>
  When the token source fails, \<open>RoundTrip\<close> returns its error and forwards nothing; the
  old token is dropped, and the cache stays stale, so every later request asks the source
  again instead of waiting 30 minutes.
\<close>

lemma RoundTrip_source_error:
  assumes "since t0 (art_exp m) > 30 * minute" and "art_creds m = Some s"
    and "get s [] w = Inr ((tok, Some e), s', w')"
  shows "\<exists>m'. RoundTrip get base t0 t1 m req w = Inr (Inl e, None, m', w')
    \<and> art_token m' = tok \<and> art_creds m' = Some s' \<and> (\<forall>t \<ge> t0. since t (art_exp m') > 30 * minute)"
  using assms by (simp add: RoundTrip_def refresh_def since_gt)

text \<open>
  \<open>RoundTrip\<close> adds its header to the caller's request instead of setting it on a copy.
  A request that is sent again through the round tripper carries both values, and a server
  that reads the first one is shown the older token.
\<close>

lemma RoundTrip_resend:
  assumes "since t0 (art_exp m) \<le> 30 * minute" and "since t2 (art_exp m) \<le> 30 * minute"
    and "rq_header req = Some h" and "h ''Authorization'' = None"
    and "RoundTrip get base t0 t1 m req w = Inr (res, Some req1, m, w1)"
    and "RoundTrip get base t2 t3 m' req1 w1 = Inr (res2, Some req2, m', w2)"
    and "art_exp m' = art_exp m"
  shows "auth_values req1 = [''Bearer '' @ art_token m]
    \<and> auth_values req2 = [''Bearer '' @ art_token m, ''Bearer '' @ art_token m']"
  using assms
  by (auto simp: RoundTrip_def refresh_def header_add_def auth_values_def Let_def split: prod.splits)

lemma RoundTrip_resend_witness:
  "\<exists>res1 req1 res2 req2.
     RoundTrip (\<lambda>s aud w. Inl NilDeref) (\<lambda>r w. ((), w)) 5 5
       \<lparr>art_token = ''a'', art_exp = 0, art_creds = Some ()\<rparr> demo_request (0 :: nat)
       = Inr (res1, Some req1, \<lparr>art_token = ''a'', art_exp = 0, art_creds = Some ()\<rparr>, 0)
   \<and> RoundTrip (\<lambda>s aud w. Inl NilDeref) (\<lambda>r w. ((), w)) 6 6
       \<lparr>art_token = ''b'', art_exp = 0, art_creds = Some ()\<rparr> req1 (0 :: nat)
       = Inr (res2, Some req2, \<lparr>art_token = ''b'', art_exp = 0, art_creds = Some ()\<rparr>, 0)
   \<and> auth_values req2 = [''Bearer a'', ''Bearer b'']"
proof -
  let ?ma = "\<lparr>art_token = ''a'', art_exp = 0, art_creds = Some ()\<rparr>"
  let ?mb = "\<lparr>art_token = ''b'', art_exp = 0, art_creds = Some ()\<rparr>"
  let ?r1 = "demo_request\<lparr>rq_header := Some ((\<lambda>_. None)(''Authorization'' \<mapsto> [''Bearer a'']))\<rparr>"
  let ?r2 = "demo_request\<lparr>rq_header := Some ((\<lambda>_. None)(''Authorization'' \<mapsto> [''Bearer a'', ''Bearer b'']))\<rparr>"
  have run1: "RoundTrip (\<lambda>s aud w. Inl NilDeref) (\<lambda>r w. ((), w)) 5 5 ?ma demo_request (0 :: nat)
      = Inr (Inr (), Some ?r1, ?ma, 0)"
    by (simp add: RoundTrip_def refresh_def since_def minute_def header_add_def demo_request_def)
  have run2: "RoundTrip (\<lambda>s aud w. Inl NilDeref) (\<lambda>r w. ((), w)) 6 6 ?mb ?r1 (0 :: nat)
      = Inr (Inr (), Some ?r2, ?mb, 0)"
    by (simp add: RoundTrip_def refresh_def since_def minute_def header_add_def demo_request_def)
  have "auth_values ?r2 = [''Bearer a'', ''Bearer b'']"
    using RoundTrip_resend [OF _ _ _ _ run1 run2]
    by (simp add: since_def minute_def demo_request_def)
  with run1 run2 show ?thesis by blast
qed

end
