(* ===== verification/Base64.thy ===== *)
theory Base64
  imports GoStrings
begin

text \<open>
  \<open>base64.StdEncoding\<close> of the Go standard library, as \<open>loadRestsConfig\<close> uses it: the
  decoder skips carriage returns and line feeds, wants the padding, and accepts any value
  in the bits a padded group leaves over. An encoder gives the round trip.
\<close>

section \<open>The alphabet\<close>

definition b64_alphabet :: string where
  "b64_alphabet = ''ABCDEFGHIJKLMNOPQRSTUVWXYZabcdefghijklmnopqrstuvwxyz0123456789+/''"

definition b64_code :: "nat \<Rightarrow> char" where
  "b64_code n = b64_alphabet ! n"

text \<open>The value of a character, by the ranges of its code.\<close>

definition b64_val :: "char \<Rightarrow> nat option" where
  "b64_val ch = (let c = of_char ch :: nat in
     if 65 \<le> c \<and> c \<le> 90 then Some (c - 65)
     else if 97 \<le> c \<and> c \<le> 122 then Some (c - 71)
     else if 48 \<le> c \<and> c \<le> 57 then Some (c + 4)
     else if c = 43 then Some 62
     else if c = 47 then Some 63
     else None)"

section \<open>Decoding\<close>

definition byte :: "nat \<Rightarrow> char" where
  "byte n = char_of (n mod 256)"

text \<open>
  The bytes of one group. The second character gives its low bits to the second byte, the
  third to the third.
\<close>

definition b64_bytes :: "nat \<Rightarrow> nat \<Rightarrow> nat \<Rightarrow> nat \<Rightarrow> string" where
  "b64_bytes a b c d = [byte (a * 4 + b div 16), byte (b * 16 + c div 4), byte (c * 64 + d)]"

fun b64_groups :: "string \<Rightarrow> string option" where
  "b64_groups [] = Some []"
| "b64_groups (a # b # c # d # rest) =
     (case (b64_val a, b64_val b) of
        (Some x, Some y) \<Rightarrow>
          (if c = CHR ''='' then
             (if d = CHR ''='' \<and> rest = [] then Some (take 1 (b64_bytes x y 0 0)) else None)
           else (case b64_val c of
             None \<Rightarrow> None
           | Some z \<Rightarrow>
               (if d = CHR ''='' then
                  (if rest = [] then Some (take 2 (b64_bytes x y z 0)) else None)
                else (case (b64_val d, b64_groups rest) of
                  (Some v, Some bs) \<Rightarrow> Some (b64_bytes x y z v @ bs)
                | _ \<Rightarrow> None))))
      | _ \<Rightarrow> None)"
| "b64_groups _ = None"

definition is_newline :: "char \<Rightarrow> bool" where
  "is_newline ch \<longleftrightarrow> ch = CHR 0x0A \<or> ch = CHR 0x0D"

definition b64_decode :: "string \<Rightarrow> string option" where
  "b64_decode s = b64_groups (filter (\<lambda>ch. \<not> is_newline ch) s)"

section \<open>Encoding and round trip\<close>

definition code_of :: "char \<Rightarrow> nat" where
  "code_of ch = of_char ch"

fun b64_encode :: "string \<Rightarrow> string" where
  "b64_encode [] = []"
| "b64_encode [p] =
     [b64_code (code_of p div 4), b64_code (code_of p mod 4 * 16), CHR ''='', CHR ''='']"
| "b64_encode [p, q] =
     [b64_code (code_of p div 4), b64_code (code_of p mod 4 * 16 + code_of q div 16),
      b64_code (code_of q mod 16 * 4), CHR ''='']"
| "b64_encode (p # q # r # bs) =
     [b64_code (code_of p div 4), b64_code (code_of p mod 4 * 16 + code_of q div 16),
      b64_code (code_of q mod 16 * 4 + code_of r div 64), b64_code (code_of r mod 64)]
     @ b64_encode bs"

lemma code_of_less: "code_of ch < 256"
proof -
  have "code_of ch mod 256 = code_of ch" by (simp add: code_of_def)
  then show ?thesis by (metis mod_less_divisor zero_less_numeral)
qed

lemma byte_code_of [simp]: "byte (code_of ch) = ch"
  by (simp add: byte_def code_of_def)

lemma alphabet_codes: "map of_char b64_alphabet = [65..<91] @ [97..<123] @ [48..<58] @ [43, 47 :: nat]"
  by (simp add: b64_alphabet_def upt_rec_numeral)

lemma length_alphabet: "length b64_alphabet = 64"
  by (simp add: b64_alphabet_def)

lemma b64_code_of_char:
  assumes "n < 64"
  shows "(of_char (b64_code n) :: nat) = (if n < 26 then 65 + n else if n < 52 then n + 71
    else if n < 62 then n - 4 else if n = 62 then 43 else 47)"
proof -
  have "of_char (b64_code n) = (map of_char b64_alphabet ! n :: nat)"
    using assms nth_map [of n b64_alphabet of_char] by (simp add: b64_code_def length_alphabet)
  then show ?thesis
    using assms unfolding alphabet_codes by (auto simp: nth_append nth_Cons split: nat.split)
qed

lemma b64_code_facts:
  assumes "n < 64"
  shows "b64_val (b64_code n) = Some n" and "b64_code n \<noteq> CHR ''=''" and "\<not> is_newline (b64_code n)"
proof -
  note c = b64_code_of_char [OF assms]
  show "b64_val (b64_code n) = Some n" using assms by (auto simp: b64_val_def c Let_def)
  have "(of_char (b64_code n) :: nat) \<notin> {of_char (CHR ''=''), of_char (CHR 0x0A), of_char (CHR 0x0D)}"
    using assms by (auto simp: c)
  then show "b64_code n \<noteq> CHR ''=''" "\<not> is_newline (b64_code n)" by (auto simp: is_newline_def)
qed

lemma byte_add_256: "byte (k * 256 + n) = byte n" "byte (n + 256 * k) = byte n"
  by (simp_all add: byte_def)

lemma b64_bytes_encode:
  assumes "P < 256" and "Q < 256" and "R < 256"
  shows "b64_bytes (P div 4) (P mod 4 * 16 + Q div 16) (Q mod 16 * 4 + R div 64) (R mod 64)
    = [byte P, byte Q, byte R]"
proof -
  have "P div 4 * 4 + (P mod 4 * 16 + Q div 16) div 16 = P" using assms by auto
  moreover have "(P mod 4 * 16 + Q div 16) * 16 + (Q mod 16 * 4 + R div 64) div 4 = P mod 4 * 256 + Q"
  proof -
    have "(Q mod 16 * 4 + R div 64) div 4 = Q mod 16" using assms by auto
    moreover have "Q div 16 * 16 + Q mod 16 = Q" by (rule div_mult_mod_eq)
    ultimately show ?thesis by (simp add: add_mult_distrib)
  qed
  moreover have "(Q mod 16 * 4 + R div 64) * 64 + R mod 64 = Q mod 16 * 256 + R"
    using div_mult_mod_eq [of R 64] by (simp add: add_mult_distrib)
  ultimately show ?thesis by (simp add: b64_bytes_def byte_add_256)
qed

lemma six_bits:
  fixes P Q :: nat
  assumes "P < 256" and "Q < 256"
  shows "P div 4 < 64" and "P mod 4 * 16 + Q div 16 < 64" and "Q mod 16 * 4 + P div 64 < 64"
    and "P mod 4 * 16 < 64" and "Q mod 16 * 4 < 64" and "P mod 64 < 64"
proof -
  have "P mod 4 \<le> 3" "Q mod 16 \<le> 15" by presburger+
  moreover have "P div 4 < 64" "Q div 16 < 16" "P div 64 < 4" using assms by auto
  ultimately show "P div 4 < 64" "P mod 4 * 16 + Q div 16 < 64" "Q mod 16 * 4 + P div 64 < 64"
    "P mod 4 * 16 < 64" "Q mod 16 * 4 < 64" "P mod 64 < 64" by linarith+
qed

lemma b64_groups_encode: "b64_groups (b64_encode s) = Some s"
proof (induction s rule: b64_encode.induct)
  case 1
  then show ?case by simp
next
  case (2 p)
  note l = code_of_less [of p]
  show ?case
    using b64_bytes_encode [OF l, of 0 0] six_bits [OF l l] by (simp add: b64_code_facts)
next
  case (3 p q)
  note l = code_of_less [of p] code_of_less [of q]
  show ?case
    using b64_bytes_encode [OF l, of 0] six_bits [OF l] by (simp add: b64_code_facts)
next
  case (4 p q r bs)
  note l = code_of_less [of p] code_of_less [of q] code_of_less [of r]
  show ?case
    using b64_bytes_encode [OF l] six_bits [OF l(1,2)] six_bits [OF l(3,2)] 4
    by (simp add: b64_code_facts)
qed

text \<open>
  The decoder inverts the encoder on every byte string, also when carriage returns and line
  feeds were put anywhere in the text; a text whose length is no multiple of four is refused.
\<close>

lemma b64_decode_encode:
  assumes "filter (\<lambda>ch. \<not> is_newline ch) t = b64_encode s"
  shows "b64_decode t = Some s"
  using assms by (simp add: b64_decode_def b64_groups_encode)

lemma b64_groups_length: "b64_groups s = Some bs \<Longrightarrow> length s mod 4 = 0"
  by (induction s arbitrary: bs rule: b64_groups.induct)
    (auto split: option.splits if_splits)

lemma b64_decode_length:
  assumes "length (filter (\<lambda>ch. \<not> is_newline ch) t) mod 4 \<noteq> 0"
  shows "b64_decode t = None"
  using assms b64_groups_length [of "filter (\<lambda>ch. \<not> is_newline ch) t"]
  by (cases "b64_decode t") (auto simp: b64_decode_def)

end
