(* ===== verification/Pem.thy ===== *)
theory Pem
  imports Base64
begin

text \<open>
  The PEM codec of the Go standard library, \<open>encoding/pem\<close>, which the authority reads keys and
  certificates with and writes certificates with: \<open>Decode\<close> finds the next block of a text and
  returns what follows it, \<open>Encode\<close> writes a block. \<open>bytes.TrimSpace\<close>, which knows the spaces
  of Unicode, is the parameter \<open>trim\<close>; it only touches the headers of a block.
\<close>

section \<open>Blocks and lines\<close>

record pem_block =
  pem_Type :: string
  pem_Headers :: "(string \<times> string) list"
  pem_Bytes :: string

definition NL :: char where "NL = CHR 0x0A"
definition CR :: char where "CR = CHR 0x0D"

definition is_blank :: "char \<Rightarrow> bool" where
  "is_blank ch \<longleftrightarrow> ch = CHR '' '' \<or> ch = CHR 0x09"

definition trim_blanks :: "string \<Rightarrow> string" where
  "trim_blanks s = rev (dropWhile is_blank (rev s))"

text \<open>The first line, without its end and without blanks at the end, and what follows it.\<close>

definition getLine :: "string \<Rightarrow> string \<times> string" where
  "getLine data =
     (case index_of [NL] data of
        None \<Rightarrow> (trim_blanks data, [])
      | Some i \<Rightarrow>
          (let j = i + 1;
               i = (if i > 0 \<and> data ! (i - 1) = CR then i - 1 else i)
           in (trim_blanks (take i data), drop j data)))"

definition cut :: "string \<Rightarrow> string \<Rightarrow> (string \<times> string) option" where
  "cut s sep = map_option (\<lambda>i. (take i s, drop (i + length sep) s)) (index_of sep s)"

definition has_suffix :: "string \<Rightarrow> string \<Rightarrow> bool" where
  "has_suffix s t = has_prefix (rev s) (rev t)"

definition pemStart :: string where "pemStart = NL # ''-----BEGIN ''"
definition pemEnd :: string where "pemEnd = NL # ''-----END ''"
definition pemEndOfLine :: string where "pemEndOfLine = ''-----''"

lemma index_of_char_bound: "index_of [c] s = Some i \<Longrightarrow> i < length s"
  using index_of_bound [of "[c]" s i] by simp

lemma getLine_rest: "length (snd (getLine s)) \<le> length s" and getLine_less: "s \<noteq> [] \<Longrightarrow> length (snd (getLine s)) < length s"
  by (auto simp: getLine_def Let_def dest: index_of_char_bound split: option.split)

section \<open>Decode\<close>

text \<open>Headers are a map; putting a key replaces what it had.\<close>

definition put_header :: "string \<Rightarrow> string \<Rightarrow> (string \<times> string) list \<Rightarrow> (string \<times> string) list" where
  "put_header k v hs = (k, v) # filter (\<lambda>(k', _). k' \<noteq> k) hs"

text \<open>The lines with a colon after the first line; \<open>None\<close> if the text ends there.\<close>

function pem_headers :: "(string \<Rightarrow> string) \<Rightarrow> string \<Rightarrow> (string \<times> string) list
    \<Rightarrow> ((string \<times> string) list \<times> string) option" where
  "pem_headers trim rest hs =
     (if rest = [] then None
      else case cut (fst (getLine rest)) '':'' of
        None \<Rightarrow> Some (hs, rest)
      | Some (key, val) \<Rightarrow> pem_headers trim (snd (getLine rest)) (put_header (trim key) (trim val) hs))"
  by pat_completeness auto
termination
  by (relation "measure (\<lambda>(trim, rest, hs). length rest)") (simp_all add: getLine_less)

declare pem_headers.simps [simp del]

text \<open>
  The end line and the data before it: the bytes and what follows, or nothing when the end line
  is missing or wrong or the data does not decode. An end line right at the beginning is only
  accepted without headers.
\<close>

definition pem_end_index :: "bool \<Rightarrow> string \<Rightarrow> (nat \<times> nat) option" where
  "pem_end_index no_headers rest =
     (if no_headers \<and> has_prefix rest (tl pemEnd) then Some (0, length pemEnd - 1)
      else map_option (\<lambda>i. (i, i + length pemEnd)) (index_of pemEnd rest))"

definition pem_body :: "string \<Rightarrow> bool \<Rightarrow> string \<Rightarrow> (string \<times> string) option" where
  "pem_body typeLine no_headers rest =
     (case pem_end_index no_headers rest of
        None \<Rightarrow> None
      | Some (endIndex, endTrailerIndex) \<Rightarrow>
          (let endTrailer = drop endTrailerIndex rest;
               endTrailerLen = length typeLine + length pemEndOfLine
           in if length endTrailer < endTrailerLen then None
              else let restOfEndLine = drop endTrailerLen endTrailer;
                       endTrailer = take endTrailerLen endTrailer
                in if \<not> has_prefix endTrailer typeLine \<or> \<not> has_suffix endTrailer pemEndOfLine then None
                   else if fst (getLine restOfEndLine) \<noteq> [] then None
                   else case b64_decode (filter (\<lambda>ch. \<not> is_blank ch) (take endIndex rest)) of
                     None \<Rightarrow> None
                   | Some bs \<Rightarrow> Some (bs, snd (getLine (drop (endIndex + length pemEnd - 1) rest)))))"

definition after_start :: "string \<Rightarrow> string option" where
  "after_start rest =
     (if has_prefix rest (tl pemStart) then Some (drop (length pemStart - 1) rest)
      else map_option snd (cut rest pemStart))"

lemma after_start_less: "after_start rest = Some r \<Longrightarrow> length r < length rest"
  by (auto simp: after_start_def cut_def pemStart_def has_prefix_iff dest!: index_of_bound split: if_splits)

lemma pem_headers_rest: "pem_headers trim rest hs = Some (hs', r) \<Longrightarrow> length r \<le> length rest"
proof (induction trim rest hs rule: pem_headers.induct)
  case (1 trim rest hs)
  from "1.prems" show ?case
    using "1.IH" getLine_rest [of rest]
    by (subst (asm) pem_headers.simps) (fastforce split: if_splits option.splits prod.splits)
qed

text \<open>The loop of \<open>Decode\<close>: a block that is not well-formed is passed over.\<close>

function pem_scan :: "(string \<Rightarrow> string) \<Rightarrow> string \<Rightarrow> string \<Rightarrow> pem_block option \<times> string" where
  "pem_scan trim data rest =
     (case after_start rest of
        None \<Rightarrow> (None, data)
      | Some r0 \<Rightarrow>
          (let typeLine = fst (getLine r0); r1 = snd (getLine r0)
           in if \<not> has_suffix typeLine pemEndOfLine then pem_scan trim data r1
              else let typeLine = take (length typeLine - length pemEndOfLine) typeLine
                in (case pem_headers trim r1 [] of
                      None \<Rightarrow> (None, data)
                    | Some (hs, r2) \<Rightarrow>
                        (case pem_body typeLine (hs = []) r2 of
                           None \<Rightarrow> pem_scan trim data r2
                         | Some (bs, r3) \<Rightarrow>
                             (Some \<lparr>pem_Type = typeLine, pem_Headers = hs, pem_Bytes = bs\<rparr>, r3)))))"
  by pat_completeness auto
termination
proof (relation "measure (\<lambda>(trim, data, rest). length rest)")
  fix trim :: "string \<Rightarrow> string" and data rest r0 typeLine r1
  assume "after_start rest = Some r0" "r1 = snd (getLine r0)"
  then show "((trim, data, r1), trim, data, rest) \<in> measure (\<lambda>(trim, data, rest). length rest)"
    using after_start_less [of rest r0] getLine_rest [of r0] by simp
next
  fix trim :: "string \<Rightarrow> string" and data rest r0 typeLine r1 typeLine' x hs r2
  assume "after_start rest = Some r0" "r1 = snd (getLine r0)"
    "pem_headers trim r1 [] = Some x" "(hs, r2) = x"
  then show "((trim, data, r2), trim, data, rest) \<in> measure (\<lambda>(trim, data, rest). length rest)"
    using after_start_less [of rest r0] getLine_rest [of r0] pem_headers_rest [of trim r1 "[]" hs r2] by auto
qed simp

declare pem_scan.simps [simp del]

definition pem_Decode :: "(string \<Rightarrow> string) \<Rightarrow> string \<Rightarrow> pem_block option \<times> string" where
  "pem_Decode trim data = pem_scan trim data data"

section \<open>Encode\<close>

text \<open>The bytes in base 64, in lines of 64 characters.\<close>

function break_lines :: "string \<Rightarrow> string" where
  "break_lines s = (if s = [] then [] else take 64 s @ [NL] @ break_lines (drop 64 s))"
  by pat_completeness auto
termination
  by (relation "measure length") simp_all

declare break_lines.simps [simp del]

text \<open>Byte strings with the order of \<open>slices.Sort\<close>, so that the sorting of the library applies.\<close>

datatype byte_string = Bytes (bytes_of: string)

fun bytes_le :: "string \<Rightarrow> string \<Rightarrow> bool" where
  "bytes_le [] bs = True"
| "bytes_le (a # as) [] = False"
| "bytes_le (a # as) (b # bs) = (code_of a < code_of b \<or> a = b \<and> bytes_le as bs)"

lemma code_of_inject: "code_of a = code_of b \<Longrightarrow> a = b"
  by (metis byte_code_of)

lemma bytes_le_refl: "bytes_le as as"
  by (induction as) simp_all

lemma bytes_le_trans: "bytes_le as bs \<Longrightarrow> bytes_le bs cs \<Longrightarrow> bytes_le as cs"
proof (induction as bs arbitrary: cs rule: bytes_le.induct)
  case (3 a as b bs)
  then show ?case by (cases cs) auto
qed simp_all

lemma bytes_le_antisym: "bytes_le as bs \<Longrightarrow> bytes_le bs as \<Longrightarrow> as = bs"
proof (induction as bs rule: bytes_le.induct)
  case (1 bs)
  then show ?case by (cases bs) simp_all
qed auto

lemma bytes_le_total: "bytes_le as bs \<or> bytes_le bs as"
proof (induction as bs rule: bytes_le.induct)
  case (3 a as b bs)
  have "code_of a < code_of b \<or> code_of b < code_of a \<or> a = b"
    using code_of_inject [of a b] by linarith
  with 3 show ?case by auto
qed simp_all

instantiation byte_string :: linorder
begin

definition less_eq_byte_string :: "byte_string \<Rightarrow> byte_string \<Rightarrow> bool" where
  "less_eq_byte_string a b \<longleftrightarrow> bytes_le (bytes_of a) (bytes_of b)"

definition less_byte_string :: "byte_string \<Rightarrow> byte_string \<Rightarrow> bool" where
  "less_byte_string a b \<longleftrightarrow> bytes_le (bytes_of a) (bytes_of b) \<and> \<not> bytes_le (bytes_of b) (bytes_of a)"

instance
proof
  fix a b c :: byte_string
  show "a < b \<longleftrightarrow> a \<le> b \<and> \<not> b \<le> a" by (simp add: less_eq_byte_string_def less_byte_string_def)
  show "a \<le> a" by (simp add: less_eq_byte_string_def bytes_le_refl)
  show "a \<le> b \<Longrightarrow> b \<le> c \<Longrightarrow> a \<le> c" unfolding less_eq_byte_string_def by (rule bytes_le_trans)
  show "a \<le> b \<or> b \<le> a" unfolding less_eq_byte_string_def by (rule bytes_le_total)
  show "a \<le> b \<Longrightarrow> b \<le> a \<Longrightarrow> a = b"
    unfolding less_eq_byte_string_def by (rule byte_string.expand) (rule bytes_le_antisym)
qed

end

text \<open>Headers are written with \<open>Proc-Type\<close> first and the others sorted by key.\<close>

definition header_lines :: "(string \<times> string) list \<Rightarrow> string" where
  "header_lines hs =
     (if hs = [] then []
      else concat (map (\<lambda>(k, v). k @ '': '' @ v @ [NL])
             (filter (\<lambda>(k, _). k = ''Proc-Type'') hs
              @ sort_key (\<lambda>(k, _). Bytes k) (filter (\<lambda>(k, _). k \<noteq> ''Proc-Type'') hs))) @ [NL])"

definition pem_Encode :: "pem_block \<Rightarrow> go_error + string" where
  "pem_Encode b =
     (if \<exists>h \<in> set (pem_Headers b). contains (fst h) '':''
      then Inl (ErrNew ''pem: cannot encode a header key that contains a colon'')
      else Inr (tl pemStart @ pem_Type b @ pemEndOfLine @ [NL] @ header_lines (pem_Headers b)
             @ break_lines (b64_encode (pem_Bytes b)) @ tl pemEnd @ pem_Type b @ pemEndOfLine @ [NL]))"

section \<open>Decode makes progress\<close>

lemma pem_body_rest: "pem_body ty nh r = Some (bs, r') \<Longrightarrow> length r' \<le> length r"
proof -
  assume "pem_body ty nh r = Some (bs, r')"
  then obtain n where "r' = snd (getLine (drop n r))"
    by (auto simp: pem_body_def Let_def split: option.splits prod.splits if_splits)
  then show ?thesis using getLine_rest [of "drop n r"] by simp
qed

lemma pem_scan_progress: "pem_scan trim data rest = (Some b, r) \<Longrightarrow> length r < length rest"
proof (induction trim data rest rule: pem_scan.induct)
  case (1 trim data rest)
  from "1.prems" obtain r0 where r0: "after_start rest = Some r0"
    by (subst (asm) pem_scan.simps) (auto split: option.splits)
  let ?ty = "fst (getLine r0)" and ?r1 = "snd (getLine r0)"
  have r1: "length ?r1 < length rest"
    using after_start_less [OF r0] getLine_rest [of r0] by simp
  show ?case
  proof (cases "has_suffix ?ty pemEndOfLine")
    case False
    have "pem_scan trim data ?r1 = (Some b, r)"
      using "1.prems" r0 False by (subst (asm) pem_scan.simps) simp
    from "1.IH"(1) [OF r0 refl refl False this] r1 show ?thesis by simp
  next
    case True
    let ?t = "take (length ?ty - length pemEndOfLine) ?ty"
    from "1.prems" r0 True obtain hs r2 where h: "pem_headers trim ?r1 [] = Some (hs, r2)"
      by (subst (asm) pem_scan.simps) (auto simp: Let_def split: option.splits)
    have r2: "length r2 < length rest" using pem_headers_rest [OF h] r1 by simp
    show ?thesis
    proof (cases "pem_body ?t (hs = []) r2")
      case None
      have "pem_scan trim data r2 = (Some b, r)"
        using "1.prems" r0 True h None by (subst (asm) pem_scan.simps) (simp add: Let_def)
      from "1.IH"(2) [OF r0 refl refl _ refl h refl None this] True r2 show ?thesis by simp
    next
      case (Some a)
      then obtain bs r3 where b: "pem_body ?t (hs = []) r2 = Some (bs, r3)" by (cases a) auto
      have "r = r3"
        using "1.prems" r0 True h b by (subst (asm) pem_scan.simps) (simp add: Let_def)
      with pem_body_rest [OF b] r2 show ?thesis by simp
    qed
  qed
qed

text \<open>The rest of the input after a block is shorter than the input.\<close>

lemma pem_Decode_progress: "pem_Decode trim s = (Some b, rest) \<Longrightarrow> length rest < length s"
  unfolding pem_Decode_def by (rule pem_scan_progress)

section \<open>Decode inverts Encode\<close>

lemma has_suffix_append [simp]: "has_suffix (s @ t) t"
  by (simp add: has_suffix_def)

lemma getLine_line:
  assumes "NL \<notin> set line"
  shows "getLine (line @ NL # rest)
    = (trim_blanks (if line \<noteq> [] \<and> last line = CR then butlast line else line), rest)"
proof (cases line rule: rev_cases)
  case Nil
  then show ?thesis by (simp add: getLine_def)
next
  case (snoc xs x)
  with assms index_of_char [of NL line rest] show ?thesis
    by (auto simp: getLine_def nth_append)
qed

lemma trim_blanks_id: "s = [] \<or> \<not> is_blank (last s) \<Longrightarrow> trim_blanks s = s"
  by (cases s rule: rev_cases) (simp_all add: trim_blanks_def)

lemma getLine_dashes:
  assumes "NL \<notin> set t"
  shows "getLine (t @ pemEndOfLine @ NL # rest) = (t @ pemEndOfLine, rest)"
  using getLine_line [of "t @ pemEndOfLine" rest] assms
  by (simp add: pemEndOfLine_def NL_def CR_def trim_blanks_id is_blank_def)

text \<open>The first occurrence of a string that begins with a line feed and a dash.\<close>

lemma index_of_after:
  assumes "x \<notin> set a" and "c \<noteq> x"
  shows "index_of (c # x # sub) (a @ c # x # sub @ rest) = Some (length a)"
  using assms(1)
proof (induction a)
  case Nil
  show ?case using has_prefix_append [of "c # x # sub" rest] by simp
next
  case (Cons y a)
  have "\<not> has_prefix (y # a @ c # x # sub @ rest) (c # x # sub)"
    using Cons.prems assms(2) by (cases a) auto
  with Cons show ?case by simp
qed

text \<open>The lines of the data hold the alphabet of base 64 and line feeds only.\<close>

definition b64_char :: "char \<Rightarrow> bool" where
  "b64_char ch \<longleftrightarrow> b64_val ch \<noteq> None \<or> ch = CHR ''=''"

lemma b64_char_code: "n < 64 \<Longrightarrow> b64_char (b64_code n)" "b64_char (CHR ''='')"
  by (simp_all add: b64_char_def b64_code_facts)

lemma b64_encode_all: "list_all b64_char (b64_encode s)"
proof (induction s rule: b64_encode.induct)
  case (2 p)
  show ?case using six_bits [OF code_of_less [of p] code_of_less [of p]] by (simp add: b64_char_code)
next
  case (3 p q)
  show ?case using six_bits [OF code_of_less [of p] code_of_less [of q]] by (simp add: b64_char_code)
next
  case (4 p q r bs)
  note l = six_bits [OF code_of_less [of p] code_of_less [of q]] six_bits [OF code_of_less [of r] code_of_less [of q]]
  show ?case by (simp add: b64_char_code l 4)
qed simp

lemma b64_encode_chars: "ch \<in> set (b64_encode s) \<Longrightarrow> b64_char ch"
  using b64_encode_all [of s] by (simp only: list_all_iff)

lemma b64_char_facts:
  assumes "b64_char ch"
  shows "ch \<noteq> CHR '':''" and "ch \<noteq> CHR ''-''" and "\<not> is_blank ch" and "\<not> is_newline ch" and "ch \<noteq> NL" and "ch \<noteq> CR"
  using assms by (auto simp: b64_char_def b64_val_def is_blank_def is_newline_def NL_def CR_def)

lemma break_lines_filter:
  "(\<And>ch. ch \<in> set s \<Longrightarrow> \<not> is_newline ch) \<Longrightarrow> filter (\<lambda>ch. \<not> is_newline ch) (break_lines s) = s"
proof (induction s rule: break_lines.induct)
  case (1 s)
  show ?case
  proof (cases "s = []")
    case False
    have NL: "is_newline NL" by (simp add: is_newline_def NL_def)
    have "filter (\<lambda>ch. \<not> is_newline ch) (break_lines (drop 64 s)) = drop 64 s"
      using "1" False by (meson in_set_dropD)
    moreover have "filter (\<lambda>ch. \<not> is_newline ch) (take 64 s) = take 64 s"
      using "1.prems" by (auto simp: filter_id_conv dest: in_set_takeD)
    ultimately show ?thesis
      using False NL by (subst break_lines.simps) simp
  qed (simp add: break_lines.simps)
qed

lemma break_lines_set: "set (break_lines s) \<subseteq> insert NL (set s)"
proof (induction s rule: break_lines.induct)
  case (1 s)
  then show ?case
    by (subst break_lines.simps) (auto dest: in_set_takeD in_set_dropD)
qed

lemma break_lines_last: "s \<noteq> [] \<Longrightarrow> \<exists>t. break_lines s = t @ [NL]"
proof (induction s rule: break_lines.induct)
  case (1 s)
  show ?case
  proof (cases "drop 64 s = []")
    case True
    then show ?thesis
      using "1.prems" by (subst break_lines.simps) (simp add: break_lines.simps [of "[]"])
  next
    case False
    with "1.IH" [OF "1.prems"] obtain t where t: "break_lines (drop 64 s) = t @ [NL]" by blast
    have "break_lines s = (take 64 s @ [NL] @ t) @ [NL]"
      using "1.prems" t by (subst break_lines.simps) simp
    then show ?thesis by blast
  qed
qed

lemma getLine_set: "set (fst (getLine (a @ NL # c))) \<subseteq> set a"
proof -
  obtain i where i: "index_of [NL] (a @ NL # c) = Some i" "i \<le> length a"
    using index_of_append_exists [of "[NL]" a c] by auto
  have trim: "set (trim_blanks x) \<subseteq> set x" for x
    using set_dropWhileD [of _ is_blank "rev x"] by (auto simp: trim_blanks_def)
  have "set (trim_blanks (take j a)) \<subseteq> set a" for j
    using trim [of "take j a"] set_take_subset [of j a] by (rule subset_trans)
  then show ?thesis using i by (simp add: getLine_def Let_def)
qed

lemma pem_body_ok:
  assumes "pem_end_index nh r = Some (e, ti)" and "drop ti r = t @ pemEndOfLine @ NL # tail"
    and "b64_decode (filter (\<lambda>ch. \<not> is_blank ch) (take e r)) = Some bs"
    and "snd (getLine (drop (e + length pemEnd - 1) r)) = tail"
  shows "pem_body t nh r = Some (bs, tail)"
proof -
  have "length t + length pemEndOfLine \<le> length (drop ti r)" by (simp add: assms(2))
  moreover have "take (length t + length pemEndOfLine) (drop ti r) = t @ pemEndOfLine"
    "drop (length t + length pemEndOfLine) (drop ti r) = NL # tail"
    by (simp_all add: assms(2))
  ultimately show ?thesis
    using assms(1,3,4) getLine_line [of "[]" tail]
    by (simp add: pem_body_def Let_def trim_blanks_id del: length_drop drop_drop)
qed

definition pem_tail :: "string \<Rightarrow> string \<Rightarrow> string" where
  "pem_tail t tail = t @ pemEndOfLine @ NL # tail"

lemma pem_body_encoded:
  assumes t: "NL \<notin> set t"
  shows "pem_body t True (break_lines (b64_encode bs) @ tl pemEnd @ pem_tail t tail) = Some (bs, tail)"
proof (cases "b64_encode bs = []")
  case True
  then have bs: "bs = []" using b64_groups_encode [of bs] by simp
  have "has_prefix (tl pemEnd @ pem_tail t tail) (tl pemEnd)" by (rule has_prefix_append)
  then have "pem_end_index True (tl pemEnd @ pem_tail t tail) = Some (0, length pemEnd - 1)"
    by (simp add: pem_end_index_def)
  from pem_body_ok [OF this, of t tail bs] show ?thesis
    using True bs getLine_dashes [OF t, of tail]
    by (simp add: pemEnd_def pem_tail_def break_lines.simps [of "[]"] b64_decode_def)
next
  case False
  then obtain a where a: "break_lines (b64_encode bs) = a @ [NL]" using break_lines_last by blast
  let ?r = "a @ pemEnd @ pem_tail t tail"
  have r: "break_lines (b64_encode bs) @ tl pemEnd @ pem_tail t tail = ?r"
    using a by (simp add: pemEnd_def)
  have chars: "b64_char ch \<or> ch = NL" if "ch \<in> set a" for ch
    using break_lines_set [of "b64_encode bs"] b64_encode_chars [of ch bs] that a by auto
  have dash: "CHR ''-'' \<notin> set a" using chars b64_char_facts(2) by (auto simp: NL_def)
  have blank: "filter (\<lambda>ch. \<not> is_blank ch) a = a"
    using chars b64_char_facts(3) by (auto simp: filter_id_conv is_blank_def NL_def)
  have nonl: "filter (\<lambda>ch. \<not> is_newline ch) a = b64_encode bs"
    using break_lines_filter [of "b64_encode bs"] b64_encode_chars [of _ bs] b64_char_facts(4) a
    by (auto simp: is_newline_def NL_def)
  have "a \<noteq> []" using nonl False by auto
  then have "\<not> has_prefix ?r (tl pemEnd)" using dash by (cases a) (auto simp: pemEnd_def)
  moreover have "index_of pemEnd ?r = Some (length a)"
    using index_of_after [OF dash, of NL "''----END ''" "pem_tail t tail"] by (simp add: pemEnd_def NL_def)
  ultimately have "pem_end_index True ?r = Some (length a, length a + length pemEnd)"
    by (simp add: pem_end_index_def)
  moreover have "drop (length a + length pemEnd) ?r = t @ pemEndOfLine @ NL # tail"
    by (simp add: pem_tail_def)
  moreover have "b64_decode (filter (\<lambda>ch. \<not> is_blank ch) (take (length a) ?r)) = Some bs"
    using blank b64_decode_encode [OF nonl] by simp
  moreover have "snd (getLine (drop (length a + length pemEnd - 1) ?r)) = tail"
    using getLine_dashes [of "'' '' @ t" tail] t by (simp add: pemEnd_def pem_tail_def NL_def)
  ultimately show ?thesis unfolding r by (rule pem_body_ok)
qed

lemma pem_headers_encoded:
  assumes "CHR '':'' \<notin> set t"
  shows "pem_headers trim (break_lines (b64_encode bs) @ tl pemEnd @ pem_tail t tail) []
    = Some ([], break_lines (b64_encode bs) @ tl pemEnd @ pem_tail t tail)"
proof -
  let ?r = "break_lines (b64_encode bs) @ tl pemEnd @ pem_tail t tail"
  have colon: "CHR '':'' \<notin> set (break_lines (b64_encode bs))"
    using break_lines_set [of "b64_encode bs"] b64_encode_chars [of _ bs] b64_char_facts(1)
    by (auto simp: NL_def)
  have "?r = (break_lines (b64_encode bs) @ tl pemEnd @ t @ pemEndOfLine) @ NL # tail"
    by (simp add: pem_tail_def)
  from getLine_set [of "break_lines (b64_encode bs) @ tl pemEnd @ t @ pemEndOfLine" tail, folded this]
  have "CHR '':'' \<notin> set (fst (getLine ?r))"
    using colon assms by (auto simp: pemEnd_def pemEndOfLine_def)
  then show ?thesis
    by (subst pem_headers.simps) (simp add: cut_def index_of_char_None pem_tail_def)
qed

text \<open>The text of a block without headers.\<close>

definition pem_text :: "string \<Rightarrow> string \<Rightarrow> string" where
  "pem_text t bs = tl pemStart @ t @ pemEndOfLine @ [NL] @ break_lines (b64_encode bs)
     @ tl pemEnd @ t @ pemEndOfLine @ [NL]"

abbreviation plain_block :: "string \<Rightarrow> string \<Rightarrow> pem_block" where
  "plain_block t bs \<equiv> \<lparr>pem_Type = t, pem_Headers = [], pem_Bytes = bs\<rparr>"

lemma pem_Encode_text [simp]: "pem_Encode (plain_block t bs) = Inr (pem_text t bs)"
  by (simp add: pem_Encode_def header_lines_def pem_text_def)

lemma pem_Decode_text:
  assumes "NL \<notin> set t" and "CHR '':'' \<notin> set t"
  shows "pem_Decode trim (pem_text t bs @ tail) = (Some (plain_block t bs), tail)"
proof -
  let ?r = "break_lines (b64_encode bs) @ tl pemEnd @ pem_tail t tail"
  have "pem_text t bs @ tail = tl pemStart @ t @ pemEndOfLine @ NL # ?r"
    by (simp add: pem_text_def pem_tail_def)
  moreover have "has_prefix (tl pemStart @ t @ pemEndOfLine @ NL # ?r) (tl pemStart)"
    by (rule has_prefix_append)
  ultimately have "after_start (pem_text t bs @ tail) = Some (t @ pemEndOfLine @ NL # ?r)"
    by (simp add: after_start_def pemStart_def)
  then show ?thesis
    unfolding pem_Decode_def using assms
    by (subst pem_scan.simps) (simp add: getLine_dashes pem_headers_encoded pem_body_encoded)
qed

text \<open>
  The PEM codec round trip the authority relies on. The decoder, at the text of an encoded
  block with no headers and a type without line feed and colon, returns exactly that block and
  exactly what follows the text, whatever that is; and the encoder never fails on such a block.
\<close>

lemma pem_round_trip:
  assumes "pem_Headers b = []" and "NL \<notin> set (pem_Type b)" and "CHR '':'' \<notin> set (pem_Type b)"
  shows "\<exists>s. pem_Encode b = Inr s \<and> pem_Decode trim (s @ tail) = (Some b, tail)"
proof -
  have "b = plain_block (pem_Type b) (pem_Bytes b)" using assms(1) by simp
  then show ?thesis
    using pem_Decode_text [OF assms(2,3), of trim "pem_Bytes b" tail]
      pem_Encode_text [of "pem_Type b" "pem_Bytes b"] by metis
qed

lemma pem_round_trip_witness:
  "\<exists>s. pem_Encode \<lparr>pem_Type = ''CERTIFICATE'', pem_Headers = [], pem_Bytes = ''some bytes''\<rparr> = Inr s
     \<and> pem_Decode (\<lambda>s. s) (s @ ''rest'')
       = (Some \<lparr>pem_Type = ''CERTIFICATE'', pem_Headers = [], pem_Bytes = ''some bytes''\<rparr>, ''rest'')"
  by (rule pem_round_trip) (simp_all add: NL_def)

end
