(* ===== verification/Authority.thy ===== *)
theory Authority
  imports Pem AuthProvider
begin

text \<open>
  The certificate authority of \<open>pkg/csrctrl/authority.go\<close>. The parsers, the signature check
  and the signing of \<open>crypto/x509\<close> and the random source are the parameter record \<open>crypto\<close>
  (with \<open>bytes.TrimSpace\<close>, which the PEM decoder of theory Pem uses); the state \<open>'w\<close> is that of the random source and of the signer's key
  operations. Byte slices are strings, times are the nanoseconds of theory AuthProvider.
\<close>

section \<open>Data\<close>

datatype priv_key = PrivKey nat
datatype pub_key = PubKey nat

text \<open>
  A \<open>crypto.Signer\<close>: the nil interface, an interface that holds a nil key (what a failed
  parse leaves), or a key.
\<close>

datatype crypto_signer = NoSigner | NilKey | Signer priv_key

record x509_subject =
  sub_CommonName :: string
  sub_rest :: string

text \<open>The fields of a certificate request that \<open>Sign\<close> copies.\<close>

record x509_csr =
  cr_Raw :: string
  cr_Subject :: x509_subject
  cr_DNSNames :: "string list"
  cr_IPAddresses :: "string list"
  cr_EmailAddresses :: "string list"
  cr_URIs :: "string list"
  cr_PublicKeyAlgorithm :: int
  cr_PublicKey :: pub_key
  cr_Extensions :: "string list"
  cr_ExtraExtensions :: "string list"

record x509_cert =
  ct_SerialNumber :: int
  ct_Subject :: x509_subject
  ct_Issuer :: x509_subject
  ct_DNSNames :: "string list"
  ct_IPAddresses :: "string list"
  ct_EmailAddresses :: "string list"
  ct_URIs :: "string list"
  ct_PublicKeyAlgorithm :: int
  ct_PublicKey :: "pub_key option"
  ct_Extensions :: "string list"
  ct_ExtraExtensions :: "string list"
  ct_NotBefore :: int
  ct_NotAfter :: int

definition no_subject :: x509_subject where
  "no_subject = \<lparr>sub_CommonName = [], sub_rest = []\<rparr>"

definition zero_cert :: x509_cert where
  "zero_cert = \<lparr>ct_SerialNumber = 0, ct_Subject = no_subject, ct_Issuer = no_subject,
     ct_DNSNames = [], ct_IPAddresses = [], ct_EmailAddresses = [], ct_URIs = [],
     ct_PublicKeyAlgorithm = 0, ct_PublicKey = None, ct_Extensions = [], ct_ExtraExtensions = [],
     ct_NotBefore = zero_time, ct_NotAfter = zero_time\<rparr>"

record CertificateAuthority =
  ca_Chain :: string
  ca_Roots :: string
  ca_Key :: string
  ca_Certificate :: "x509_cert option"
  ca_PrivateKey :: crypto_signer

record 'w crypto =
  trim_space :: "string \<Rightarrow> string"
  parse_pkcs1_key :: "string \<Rightarrow> go_error + priv_key"
  parse_ec_key :: "string \<Rightarrow> go_error + priv_key"
  parse_cert :: "string \<Rightarrow> go_error + x509_cert"
  parse_csr :: "string \<Rightarrow> go_error + x509_csr"
  check_signature :: "x509_csr \<Rightarrow> go_error option"
  rand_int :: "int \<Rightarrow> 'w \<Rightarrow> (go_error + int) \<times> 'w"
  create_certificate :: "x509_cert \<Rightarrow> x509_cert \<Rightarrow> pub_key \<Rightarrow> crypto_signer \<Rightarrow> 'w \<Rightarrow> (go_error + string) \<times> 'w"

definition serialNumberLimit :: int where
  "serialNumberLimit = 2 ^ 128"

section \<open>Init\<close>

definition pem_decode :: "'w crypto \<Rightarrow> string \<Rightarrow> pem_block option \<times> string" where
  "pem_decode c = pem_Decode (trim_space c)"

text \<open>
  The loop over the blocks of a PEM bundle; the result is the list of certificates it logs. It
  ends because every block leaves a shorter rest.
\<close>

lemma pem_decode_progress: "pem_decode c s = (Some b, rest) \<Longrightarrow> length rest < length s"
  unfolding pem_decode_def by (rule pem_Decode_progress)

function pem_certs :: "'w crypto \<Rightarrow> string \<Rightarrow> x509_cert list \<Rightarrow> x509_cert list" where
  "pem_certs c pemCerts seen =
     (if pemCerts = [] then rev seen
      else case pem_decode c pemCerts of
        (None, rest) \<Rightarrow> rev seen
      | (Some block, rest) \<Rightarrow>
          (if pem_Type block \<noteq> ''CERTIFICATE'' \<or> pem_Headers block \<noteq> [] then pem_certs c rest seen
           else case parse_cert c (pem_Bytes block) of
             Inl err \<Rightarrow> pem_certs c rest seen
           | Inr cert \<Rightarrow> pem_certs c rest (cert # seen)))"
  by pat_completeness auto
termination
  by (relation "measure (\<lambda>(c, s, seen). length s)")
    (auto dest: sym [THEN pem_decode_progress])

declare pem_certs.simps [simp del]

definition parse_key :: "'w crypto \<Rightarrow> pem_block \<Rightarrow> go_error + priv_key" where
  "parse_key c block =
     (if contains (pem_Type block) ''RSA'' then parse_pkcs1_key c (pem_Bytes block)
      else parse_ec_key c (pem_Bytes block))"

text \<open>
  \<open>Init\<close> returns its error, the authority it was called on, and the certificates it logged
  for the chain and for the roots.
\<close>

definition Init :: "'w crypto \<Rightarrow> CertificateAuthority
    \<Rightarrow> (go_error option \<times> CertificateAuthority \<times> x509_cert list \<times> x509_cert list) exec" where
  "Init c ca =
     (case fst (pem_decode c (ca_Key ca)) of
        None \<Rightarrow> Inl NilDeref
      | Some block \<Rightarrow>
          (case parse_key c block of
             Inl err \<Rightarrow> Inr (Some err, ca\<lparr>ca_PrivateKey := NilKey\<rparr>, [], [])
           | Inr key \<Rightarrow>
               (let ca' = ca\<lparr>ca_PrivateKey := Signer key\<rparr>
                in Inr (None, ca', pem_certs c (ca_Chain ca') [], pem_certs c (ca_Roots ca') []))))"

section \<open>Sign and SignCSR\<close>

text \<open>The template of the new certificate, before its \<open>NotAfter\<close> is decided.\<close>

definition sign_template :: "x509_csr \<Rightarrow> int \<Rightarrow> int \<Rightarrow> x509_cert" where
  "sign_template cr serial now = zero_cert\<lparr>
     ct_SerialNumber := serial,
     ct_Subject := cr_Subject cr,
     ct_DNSNames := cr_DNSNames cr,
     ct_IPAddresses := cr_IPAddresses cr,
     ct_EmailAddresses := cr_EmailAddresses cr,
     ct_URIs := cr_URIs cr,
     ct_PublicKeyAlgorithm := cr_PublicKeyAlgorithm cr,
     ct_PublicKey := Some (cr_PublicKey cr),
     ct_Extensions := cr_Extensions cr,
     ct_ExtraExtensions := cr_ExtraExtensions cr,
     ct_NotBefore := now\<rparr>"

definition Sign :: "'w crypto \<Rightarrow> CertificateAuthority option \<Rightarrow> int \<Rightarrow> string \<Rightarrow> 'w
    \<Rightarrow> ((go_error + string) \<times> 'w) exec" where
  "Sign c ca now crDER w =
     (case parse_csr c crDER of
        Inl err \<Rightarrow> Inr (Inl (ErrNew (''unable to parse certificate request: '' @ error_string err)), w)
      | Inr cr \<Rightarrow>
     (case check_signature c cr of
        Some err \<Rightarrow> Inr (Inl (ErrNew (''unable to verify certificate request signature: '' @ error_string err)), w)
      | None \<Rightarrow>
     (case rand_int c serialNumberLimit w of
        (Inl err, w1) \<Rightarrow> Inr (Inl (ErrNew (''unable to generate a serial number for ''
            @ sub_CommonName (cr_Subject cr) @ '': '' @ error_string err)), w1)
      | (Inr serial, w1) \<Rightarrow>
     (case ca of None \<Rightarrow> Inl NilDeref | Some a \<Rightarrow>
     (case ca_Certificate a of None \<Rightarrow> Inl NilDeref | Some cert \<Rightarrow>
        (let tmpl = sign_template cr serial now;
             tmpl = (if \<not> ct_NotAfter tmpl < ct_NotAfter cert
                     then tmpl\<lparr>ct_NotAfter := ct_NotAfter cert\<rparr> else tmpl)
         in if \<not> now < ct_NotAfter cert
            then Inr (Inl (ErrNew ''refusing to sign a certificate that expired in the past''), w1)
            else (case create_certificate c tmpl cert (cr_PublicKey cr) (ca_PrivateKey a) w1 of
                (Inl err, w2) \<Rightarrow> Inr (Inl (ErrNew (''failed to sign certificate: '' @ error_string err)), w2)
              | (Inr der, w2) \<Rightarrow> Inr (Inr der, w2))))))))"

definition SignCSR :: "'w crypto \<Rightarrow> CertificateAuthority option \<Rightarrow> int \<Rightarrow> x509_csr \<Rightarrow> 'w
    \<Rightarrow> ((go_error + string) \<times> 'w) exec" where
  "SignCSR c s now x509cr w =
     bnd (Sign c s now (cr_Raw x509cr) w) (\<lambda>(res, w1).
       case res of Inl err \<Rightarrow> Inr (Inl err, w1)
       | Inr der \<Rightarrow>
           (case parse_cert c der of
              Inl err \<Rightarrow> Inr (Inl (ErrNew (''error decoding DER certificate bytes: '' @ error_string err)), w1)
            | Inr _ \<Rightarrow>
                (case pem_Encode \<lparr>pem_Type = ''CERTIFICATE'', pem_Headers = [], pem_Bytes = der\<rparr> of
                   Inl err \<Rightarrow> Inr (Inl (ErrNew (''error encoding certificate PEM: '' @ error_string err)), w1)
                 | Inr pem \<Rightarrow> Inr (Inr pem, w1))))"

section \<open>What Init and Sign do\<close>

text \<open>The certificates of a bundle: the reference the loop is compared with.\<close>

definition block_cert :: "'w crypto \<Rightarrow> pem_block \<Rightarrow> x509_cert list" where
  "block_cert c block =
     (if pem_Type block = ''CERTIFICATE'' \<and> pem_Headers block = [] then
        (case parse_cert c (pem_Bytes block) of Inl _ \<Rightarrow> [] | Inr cert \<Rightarrow> [cert])
      else [])"

inductive pem_bundle :: "'w crypto \<Rightarrow> string \<Rightarrow> pem_block list \<Rightarrow> bool" for c where
  bundle_end: "s = [] \<or> fst (pem_decode c s) = None \<Longrightarrow> pem_bundle c s []"
| bundle_block: "s \<noteq> [] \<Longrightarrow> pem_decode c s = (Some b, rest) \<Longrightarrow> pem_bundle c rest bs
    \<Longrightarrow> pem_bundle c s (b # bs)"

inductive_cases pem_bundle_NilE: "pem_bundle c s []"
inductive_cases pem_bundle_ConsE: "pem_bundle c s (b # bs)"

lemma pem_bundle_exists: "\<exists>bs. pem_bundle c s bs"
proof (induction s rule: length_induct)
  case (1 s)
  show ?case
  proof (cases "s = [] \<or> fst (pem_decode c s) = None")
    case True
    then show ?thesis by (blast intro: bundle_end)
  next
    case False
    then obtain b rest where d: "pem_decode c s = (Some b, rest)" "s \<noteq> []"
      by (cases "pem_decode c s") auto
    with "1" pem_decode_progress [OF d(1)] obtain bs where "pem_bundle c rest bs" by blast
    with d show ?thesis by (blast intro: bundle_block)
  qed
qed

lemma pem_bundle_unique: "pem_bundle c s bs \<Longrightarrow> pem_bundle c s bs' \<Longrightarrow> bs' = bs"
proof (induction arbitrary: bs' rule: pem_bundle.induct)
  case (bundle_end s)
  from bundle_end.prems show ?case
  proof cases
    case (bundle_block b rest bs)
    with bundle_end.hyps show ?thesis by simp
  qed simp
next
  case (bundle_block s b rest bs)
  from bundle_block.prems obtain bs1 where "bs' = b # bs1" "pem_bundle c rest bs1"
    by (rule pem_bundle.cases) (use bundle_block.hyps in auto)
  with bundle_block.IH show ?case by simp
qed

lemma pem_certs_bundle:
  "pem_bundle c s bs \<Longrightarrow> pem_certs c s seen = rev seen @ concat (map (block_cert c) bs)"
proof (induction arbitrary: seen rule: pem_bundle.induct)
  case (bundle_end s)
  then show ?case
    by (subst pem_certs.simps) (auto split: prod.splits option.splits)
next
  case (bundle_block s b rest bs)
  then show ?case
    by (subst pem_certs.simps) (simp add: block_cert_def [of c b] split: sum.split)
qed

text \<open>A text of encoded blocks is the bundle of these blocks.\<close>

definition plain_type :: "string \<Rightarrow> bool" where
  "plain_type t \<longleftrightarrow> NL \<notin> set t \<and> CHR '':'' \<notin> set t"

lemma pem_decode_text [simp]:
  "plain_type t \<Longrightarrow> pem_decode c (pem_text t bs @ tail) = (Some (plain_block t bs), tail)"
  by (simp add: pem_decode_def plain_type_def pem_Decode_text)

lemma pem_decode_text_end [simp]:
  "plain_type t \<Longrightarrow> pem_decode c (pem_text t bs) = (Some (plain_block t bs), [])"
  using pem_decode_text [of t c bs "[]"] by simp

lemma plain_types [simp]: "plain_type ''CERTIFICATE''" "plain_type ''EC PRIVATE KEY''"
  "plain_type ''RSA PRIVATE KEY''" "plain_type ''CERTIFICATE REQUEST''"
  by (simp_all add: plain_type_def NL_def)

lemma pem_text_not_Nil [simp]: "pem_text t bs \<noteq> []"
  by (simp add: pem_text_def)

lemma pem_bundle_text:
  "list_all (\<lambda>(t, bs). plain_type t) blocks \<Longrightarrow>
    pem_bundle c (concat (map (\<lambda>(t, bs). pem_text t bs) blocks)) (map (\<lambda>(t, bs). plain_block t bs) blocks)"
  by (induction blocks) (auto intro: bundle_end bundle_block)

lemma Sign_ok:
  assumes "parse_csr c der = Inr cr" and "check_signature c cr = None"
    and "rand_int c serialNumberLimit w = (Inr serial, w1)"
    and "ca_Certificate a = Some cert" and "now < ct_NotAfter cert" and "zero_time < ct_NotAfter cert"
  shows "Sign c (Some a) now der w =
    (case create_certificate c (sign_template cr serial now) cert (cr_PublicKey cr) (ca_PrivateKey a) w1 of
       (Inl err, w2) \<Rightarrow> Inr (Inl (ErrNew (''failed to sign certificate: '' @ error_string err)), w2)
     | (Inr der', w2) \<Rightarrow> Inr (Inr der', w2))"
  using assms by (simp add: Sign_def Let_def sign_template_def zero_cert_def)

lemma Sign_no_certificate:
  assumes "parse_csr c der = Inr cr" and "check_signature c cr = None"
    and "rand_int c serialNumberLimit w = (Inr serial, w1)" and "ca_Certificate a = None"
  shows "Sign c (Some a) now der w = Inl NilDeref"
  using assms by (simp add: Sign_def)

lemma Init_cases:
  assumes "Init c ca = Inr (err, ca', chain, roots)"
  shows "ca_Certificate ca' = ca_Certificate ca \<and> ca_Chain ca' = ca_Chain ca
    \<and> ca_Roots ca' = ca_Roots ca \<and> ca_Key ca' = ca_Key ca"
  using assms by (auto simp: Init_def Let_def split: option.splits sum.splits)

section \<open>A concrete instance for the witnesses\<close>

text \<open>
  A toy of the libraries: every string parses as a certificate and a key; a certificate request
  is the string of its subject.
\<close>

definition demo_cert :: x509_cert where
  "demo_cert = zero_cert\<lparr>ct_NotAfter := 1000\<rparr>"

definition demo_csr :: "string \<Rightarrow> x509_csr" where
  "demo_csr s = \<lparr>cr_Raw = s, cr_Subject = \<lparr>sub_CommonName = s, sub_rest = []\<rparr>, cr_DNSNames = [s],
     cr_IPAddresses = [], cr_EmailAddresses = [], cr_URIs = [], cr_PublicKeyAlgorithm = 1,
     cr_PublicKey = PubKey 5, cr_Extensions = [], cr_ExtraExtensions = []\<rparr>"

definition demo_crypto :: "nat crypto" where
  "demo_crypto = \<lparr>
     trim_space = (\<lambda>s. s),
     parse_pkcs1_key = (\<lambda>s. Inl (ErrNew ''no RSA'')),
     parse_ec_key = (\<lambda>s. Inr (PrivKey 1)),
     parse_cert = (\<lambda>s. Inr demo_cert),
     parse_csr = (\<lambda>s. Inr (demo_csr s)),
     check_signature = (\<lambda>cr. None),
     rand_int = (\<lambda>n w. (Inr (int w), Suc w)),
     create_certificate = (\<lambda>t p k s w. (Inr (''DER'' @ sub_CommonName (ct_Subject t)), w))\<rparr>"

definition demo_ca :: CertificateAuthority where
  "demo_ca = \<lparr>ca_Chain = pem_text ''CERTIFICATE'' ''A'' @ pem_text ''CERTIFICATE'' ''B'',
     ca_Roots = pem_text ''CERTIFICATE'' ''R'', ca_Key = pem_text ''EC PRIVATE KEY'' ''K'', ca_Certificate = Some demo_cert,
     ca_PrivateKey = Signer (PrivKey 1)\<rparr>"

lemma demo_key: "fst (pem_decode demo_crypto (ca_Key demo_ca)) = Some (plain_block ''EC PRIVATE KEY'' ''K'')"
  by (simp add: demo_ca_def)

lemma demo_parse_key: "parse_key demo_crypto (plain_block ''EC PRIVATE KEY'' ''K'') = Inr (PrivKey 1)"
  by (simp add: parse_key_def contains_def demo_crypto_def)

section \<open>Properties\<close>

text \<open>
  C30: \<open>Init\<close> on every input. A key without a PEM block is a nil dereference; a block that does not
  parse gives its error, a signer that holds a nil key, and reads nothing. With a key that parses,
  \<open>Init\<close> keeps it and returns no error, and the certificates it logs are exactly those of the
  \<open>CERTIFICATE\<close> blocks without headers that parse, in order, of the chain and of the roots. Blocks of
  another type and certificates that do not parse are skipped, not reported. And a chain that was
  written by the encoder is read back block for block.
\<close>

theorem Init_reads_bundles:
  "(fst (pem_decode c (ca_Key ca)) = None \<longrightarrow> Init c ca = Inl NilDeref)
   \<and> (\<forall>block err. fst (pem_decode c (ca_Key ca)) = Some block \<and> parse_key c block = Inl err \<longrightarrow>
        Init c ca = Inr (Some err, ca\<lparr>ca_PrivateKey := NilKey\<rparr>, [], []))
   \<and> (\<forall>block key. fst (pem_decode c (ca_Key ca)) = Some block \<and> parse_key c block = Inr key \<longrightarrow>
        (\<exists>chain roots. pem_bundle c (ca_Chain ca) chain \<and> pem_bundle c (ca_Roots ca) roots
          \<and> Init c ca = Inr (None, ca\<lparr>ca_PrivateKey := Signer key\<rparr>,
              concat (map (block_cert c) chain), concat (map (block_cert c) roots))
          \<and> (\<forall>blocks. list_all (\<lambda>(t, bs). plain_type t) blocks
                \<and> ca_Chain ca = concat (map (\<lambda>(t, bs). pem_text t bs) blocks)
                \<longrightarrow> chain = map (\<lambda>(t, bs). plain_block t bs) blocks)))"
proof (intro conjI allI impI)
  fix block key
  assume key: "fst (pem_decode c (ca_Key ca)) = Some block \<and> parse_key c block = Inr key"
  obtain chain roots where b: "pem_bundle c (ca_Chain ca) chain" "pem_bundle c (ca_Roots ca) roots"
    using pem_bundle_exists by meson
  have "Init c ca = Inr (None, ca\<lparr>ca_PrivateKey := Signer key\<rparr>,
      concat (map (block_cert c) chain), concat (map (block_cert c) roots))"
    using key by (simp add: Init_def Let_def pem_certs_bundle [OF b(1)] pem_certs_bundle [OF b(2)])
  with b show "\<exists>chain roots. pem_bundle c (ca_Chain ca) chain \<and> pem_bundle c (ca_Roots ca) roots
          \<and> Init c ca = Inr (None, ca\<lparr>ca_PrivateKey := Signer key\<rparr>,
              concat (map (block_cert c) chain), concat (map (block_cert c) roots))
          \<and> (\<forall>blocks. list_all (\<lambda>(t, bs). plain_type t) blocks
                \<and> ca_Chain ca = concat (map (\<lambda>(t, bs). pem_text t bs) blocks)
                \<longrightarrow> chain = map (\<lambda>(t, bs). plain_block t bs) blocks)"
    using pem_bundle_unique [OF b(1)] pem_bundle_text by metis
qed (auto simp: Init_def)

theorem Init_reads_bundles_witness:
  "Init demo_crypto demo_ca = Inr (None, demo_ca\<lparr>ca_PrivateKey := Signer (PrivKey 1)\<rparr>,
     [demo_cert, demo_cert], [demo_cert])"
proof -
  have chain: "ca_Chain demo_ca = concat (map (\<lambda>(t, bs). pem_text t bs) [(''CERTIFICATE'', ''A''), (''CERTIFICATE'', ''B'')])"
    by (simp add: demo_ca_def)
  have roots: "pem_certs demo_crypto (ca_Roots demo_ca) [] = [demo_cert]"
    using pem_certs_bundle [OF pem_bundle_text [of "[(''CERTIFICATE'', ''R'')]" demo_crypto], of "[]"]
    by (simp add: demo_ca_def block_cert_def demo_crypto_def)
  from Init_reads_bundles [THEN conjunct2, THEN conjunct2, rule_format, OF conjI [OF demo_key demo_parse_key]] obtain bs rs
    where i: "Init demo_crypto demo_ca = Inr (None, demo_ca\<lparr>ca_PrivateKey := Signer (PrivKey 1)\<rparr>,
        concat (map (block_cert demo_crypto) bs), concat (map (block_cert demo_crypto) rs))"
      "pem_bundle demo_crypto (ca_Roots demo_ca) rs"
      "\<forall>blocks. list_all (\<lambda>(t, bs). plain_type t) blocks
          \<and> ca_Chain demo_ca = concat (map (\<lambda>(t, bs). pem_text t bs) blocks)
          \<longrightarrow> bs = map (\<lambda>(t, bs). plain_block t bs) blocks"
    by blast
  have "bs = map (\<lambda>(t, bs). plain_block t bs) [(''CERTIFICATE'', ''A''), (''CERTIFICATE'', ''B'')]"
    by (rule i(3) [rule_format]) (simp add: chain)
  then show ?thesis
    using i(1) roots pem_certs_bundle [OF i(2), of "[]"] by (simp add: block_cert_def demo_crypto_def)
qed

lemma SignCSR_InrE:
  assumes "SignCSR c s now x509cr w = Inr (Inr pem, w')"
  obtains der cert where "Sign c s now (cr_Raw x509cr) w = Inr (Inr der, w')"
    and "parse_cert c der = Inr cert" and "pem = pem_text ''CERTIFICATE'' der"
proof -
  from assms obtain res w1 where s: "Sign c s now (cr_Raw x509cr) w = Inr (res, w1)"
    by (auto simp: SignCSR_def elim: bnd_InrE)
  with assms show thesis
    by (cases res) (auto simp: SignCSR_def intro: that split: sum.splits)
qed

text \<open>
  C31: What the authority issues can be read back. When \<open>SignCSR\<close> succeeds, the text it returns
  is the one of the certificate \<open>Sign\<close> made; with anything written behind it, the reader of
  bundles finds exactly this certificate first and then reads what follows. By itself the text is
  that one certificate and not the full chain that the comment of \<open>SignCSR\<close> promises: no
  certificate of \<open>Chain\<close> or \<open>Roots\<close> is in it, whatever these are.
\<close>

theorem issued_reads_back:
  assumes "SignCSR c s now x509cr w = Inr (Inr pem, w')"
  shows "\<exists>der cert. Sign c s now (cr_Raw x509cr) w = Inr (Inr der, w') \<and> parse_cert c der = Inr cert
    \<and> pem_decode c (pem @ tail) = (Some (plain_block ''CERTIFICATE'' der), tail)
    \<and> pem_certs c (pem @ tail) [] = cert # pem_certs c tail []
    \<and> pem_bundle c pem [plain_block ''CERTIFICATE'' der] \<and> pem_certs c pem [] = [cert]"
proof -
  from assms obtain der cert where d: "Sign c s now (cr_Raw x509cr) w = Inr (Inr der, w')"
    "parse_cert c der = Inr cert" "pem = pem_text ''CERTIFICATE'' der"
    by (elim SignCSR_InrE)
  obtain bs where bs: "pem_bundle c tail bs" using pem_bundle_exists by blast
  then have "pem_bundle c (pem @ tail) (plain_block ''CERTIFICATE'' der # bs)"
    using d(3) by (auto intro: bundle_block)
  from pem_certs_bundle [OF this, of "[]"] pem_certs_bundle [OF bs, of "[]"] d(2)
  have "pem_certs c (pem @ tail) [] = cert # pem_certs c tail []" by (simp add: block_cert_def)
  moreover have one: "pem_bundle c pem [plain_block ''CERTIFICATE'' der]"
    using d(3) by (auto intro: bundle_block bundle_end)
  moreover from pem_certs_bundle [OF one, of "[]"] d(2) have "pem_certs c pem [] = [cert]" by (simp add: block_cert_def)
  ultimately show ?thesis using d by simp
qed

theorem issued_reads_back_witness:
  "pem_certs demo_crypto (pem_text ''CERTIFICATE'' ''DERx'') [] = [demo_cert]"
proof -
  have "Sign demo_crypto (Some demo_ca) 5 ''x'' 0 = Inr (Inr ''DERx'', 1)"
    by (subst Sign_ok [where cr = "demo_csr ''x''" and serial = 0 and ?w1.0 = 1 and cert = demo_cert])
      (simp_all add: demo_crypto_def demo_ca_def demo_cert_def zero_cert_def zero_time_def
        sign_template_def demo_csr_def)
  then have "SignCSR demo_crypto (Some demo_ca) 5 (demo_csr ''x'') 0 = Inr (Inr (pem_text ''CERTIFICATE'' ''DERx''), 1)"
    by (simp add: SignCSR_def demo_csr_def) (simp add: demo_crypto_def)
  from issued_reads_back [OF this, of "[]"] show ?thesis
    by (auto simp: demo_crypto_def)
qed

text \<open>
  \<open>Init\<close> parses the certificates of the chain but keeps none of them, so an authority
  that was set up by \<open>Init\<close> alone has no certificate, and \<open>Sign\<close> dereferences nil on the
  first valid request.
\<close>

lemma Sign_after_Init_panics:
  assumes "ca_Certificate ca = None" and "Init c ca = Inr (err, ca', chain, roots)"
    and "parse_csr c der = Inr cr" and "check_signature c cr = None"
    and "rand_int c serialNumberLimit w = (Inr serial, w1)"
  shows "Sign c (Some ca') now der w = Inl NilDeref"
  using Sign_no_certificate [OF assms(3-5)] Init_cases [OF assms(2)] assms(1) by simp

lemma Sign_after_Init_panics_witness:
  "Sign demo_crypto (Some (demo_ca\<lparr>ca_Certificate := None, ca_PrivateKey := Signer (PrivKey 1)\<rparr>)) 5 ''x'' 0
     = Inl NilDeref"
proof -
  let ?ca = "demo_ca\<lparr>ca_Certificate := None\<rparr>"
  have "\<exists>chain roots. Init demo_crypto ?ca = Inr (None, ?ca\<lparr>ca_PrivateKey := Signer (PrivKey 1)\<rparr>, chain, roots)"
    using demo_key demo_parse_key by (simp add: Init_def Let_def)
  then obtain chain roots
    where "Init demo_crypto ?ca = Inr (None, ?ca\<lparr>ca_PrivateKey := Signer (PrivKey 1)\<rparr>, chain, roots)" by blast
  from Sign_after_Init_panics [OF _ this, of "''x''" "demo_csr ''x''" 0 0 1 5]
  show ?thesis by (simp add: demo_crypto_def)
qed

text \<open>
  C26: A certificate is only issued for a request that parses, whose signature verifies, by an
  authority whose certificate has not expired; it is made by signing, with the authority's
  certificate and key, a template that has the fresh serial number, the present time as
  \<open>NotBefore\<close>, and from the request, field by field, the subject, the DNS names, addresses, mail
  addresses and URIs, the public key with its algorithm, and both lists of extensions.
\<close>

theorem Sign_issues_only:
  assumes "Sign c (Some a) now der w = Inr (Inr issued, w')"
  shows "\<exists>cr cert serial w1 tmpl. parse_csr c der = Inr cr \<and> check_signature c cr = None
    \<and> rand_int c serialNumberLimit w = (Inr serial, w1)
    \<and> ca_Certificate a = Some cert \<and> now < ct_NotAfter cert
    \<and> create_certificate c tmpl cert (cr_PublicKey cr) (ca_PrivateKey a) w1 = (Inr issued, w')
    \<and> ct_SerialNumber tmpl = serial \<and> ct_Subject tmpl = cr_Subject cr \<and> ct_DNSNames tmpl = cr_DNSNames cr
    \<and> ct_IPAddresses tmpl = cr_IPAddresses cr \<and> ct_EmailAddresses tmpl = cr_EmailAddresses cr
    \<and> ct_URIs tmpl = cr_URIs cr \<and> ct_PublicKeyAlgorithm tmpl = cr_PublicKeyAlgorithm cr
    \<and> ct_PublicKey tmpl = Some (cr_PublicKey cr) \<and> ct_Extensions tmpl = cr_Extensions cr
    \<and> ct_ExtraExtensions tmpl = cr_ExtraExtensions cr
    \<and> ct_NotBefore tmpl = now \<and> ct_NotAfter tmpl \<le> ct_NotAfter cert"
  using assms
  by (auto simp: Sign_def Let_def sign_template_def zero_cert_def
      split: sum.splits option.splits prod.splits if_splits)

theorem Sign_issues_only_witness:
  "\<exists>tmpl. create_certificate demo_crypto tmpl demo_cert (PubKey 5) (Signer (PrivKey 1)) 1 = (Inr ''DERx'', 1)"
proof -
  have "Sign demo_crypto (Some demo_ca) 5 ''x'' 0 = Inr (Inr ''DERx'', 1)"
    by (subst Sign_ok [where cr = "demo_csr ''x''" and serial = 0 and ?w1.0 = 1 and cert = demo_cert])
      (simp_all add: demo_crypto_def demo_ca_def demo_cert_def zero_cert_def zero_time_def
        sign_template_def demo_csr_def)
  from Sign_issues_only [OF this] show ?thesis
    by (auto simp: demo_ca_def demo_crypto_def demo_csr_def)
qed

text \<open>
  C40: Every certificate an unexpired authority issues has the zero time as \<open>NotAfter\<close>,
  which lies before its \<open>NotBefore\<close>: the test meant to cap the expiry at the authority's
  leaves the template's zero value alone, as it is earlier than any real expiry, and nothing
  else sets it. So the certificate is not valid at any time.
\<close>

theorem Sign_never_valid:
  assumes "parse_csr c der = Inr cr" and "check_signature c cr = None"
    and "rand_int c serialNumberLimit w = (Inr serial, w1)"
    and "ca_Certificate a = Some cert" and "now < ct_NotAfter cert" and "zero_time < now"
  shows "\<exists>tmpl. Sign c (Some a) now der w =
    (case create_certificate c tmpl cert (cr_PublicKey cr) (ca_PrivateKey a) w1 of
       (Inl err, w2) \<Rightarrow> Inr (Inl (ErrNew (''failed to sign certificate: '' @ error_string err)), w2)
     | (Inr der', w2) \<Rightarrow> Inr (Inr der', w2))
    \<and> ct_NotBefore tmpl = now \<and> ct_NotAfter tmpl = zero_time
    \<and> \<not> (\<exists>t. ct_NotBefore tmpl \<le> t \<and> t \<le> ct_NotAfter tmpl)"
proof -
  have z: "zero_time < ct_NotAfter cert" using assms(5,6) by simp
  have "ct_NotBefore (sign_template cr serial now) = now"
    "ct_NotAfter (sign_template cr serial now) = zero_time"
    by (simp_all add: sign_template_def zero_cert_def)
  then show ?thesis using Sign_ok [OF assms(1-5) z] assms(6) by fastforce
qed

theorem Sign_never_valid_witness:
  "\<exists>tmpl. Sign demo_crypto (Some demo_ca) 5 ''x'' 0 =
     (case create_certificate demo_crypto tmpl demo_cert (PubKey 5) (Signer (PrivKey 1)) 1 of
       (Inl err, w2) \<Rightarrow> Inr (Inl (ErrNew (''failed to sign certificate: '' @ error_string err)), w2)
     | (Inr der', w2) \<Rightarrow> Inr (Inr der', w2)) \<and> ct_NotAfter tmpl = zero_time"
proof -
  have "parse_csr demo_crypto ''x'' = Inr (demo_csr ''x'')"
    "check_signature demo_crypto (demo_csr ''x'') = None"
    "rand_int demo_crypto serialNumberLimit 0 = (Inr 0, 1)"
    "ca_Certificate demo_ca = Some demo_cert" "5 < ct_NotAfter demo_cert" "zero_time < 5"
    by (simp_all add: demo_crypto_def demo_ca_def demo_cert_def zero_time_def)
  from Sign_never_valid [OF this] show ?thesis by (auto simp: demo_csr_def demo_ca_def)
qed

end
