(* ===== verification/CsrController.thy ===== *)
theory CsrController
  imports Authority
begin

text \<open>
  The signing controller of \<open>pkg/csrctrl/csr_controller.go\<close>: an informer handler that signs
  certificate signing requests. The API server's \<open>UpdateStatus\<close> is a parameter; each call
  of a handler also returns the object it sent there, if any.
\<close>

section \<open>Data\<close>

record csr_condition =
  cond_Type :: string
  cond_Status :: string

text \<open>
  A \<open>CertificateSigningRequest\<close>. The certificate is \<open>None\<close> for a nil slice; the rest of
  the object is only copied.
\<close>

record csr_object =
  csr_Name :: string
  csr_Request :: string
  csr_SignerName :: string
  csr_Certificate :: "string option"
  csr_Conditions :: "csr_condition list"

datatype csr_event_obj = CSRObj csr_object | NotCSR string

record K8SSigner =
  ks_Name :: string
  ks_Signer :: "CertificateAuthority option"

type_synonym 'w update_status = "csr_object \<Rightarrow> 'w \<Rightarrow> go_error option \<times> 'w"

text \<open>\<open>NewK8SSigner\<close> also registers itself with the informer, whose handlers are a list.\<close>

definition NewK8SSigner :: "string \<Rightarrow> CertificateAuthority option \<Rightarrow> K8SSigner list
    \<Rightarrow> K8SSigner \<times> K8SSigner list" where
  "NewK8SSigner s signers handlers =
     (let c = \<lparr>ks_Name = s, ks_Signer = signers\<rparr> in (c, handlers @ [c]))"

section \<open>Approval\<close>

definition CertificateApproved :: string where "CertificateApproved = ''Approved''"
definition CertificateDenied :: string where "CertificateDenied = ''Denied''"

text \<open>The loop over the conditions, with the two named results as its state.\<close>

fun getCertApprovalCondition_loop :: "csr_condition list \<Rightarrow> bool \<times> bool \<Rightarrow> bool \<times> bool" where
  "getCertApprovalCondition_loop [] (approved, denied) = (approved, denied)"
| "getCertApprovalCondition_loop (c # cs) (approved, denied) =
     (let approved = (if cond_Type c = CertificateApproved then True else approved);
          denied = (if cond_Type c = CertificateDenied then True else denied)
      in getCertApprovalCondition_loop cs (approved, denied))"

definition getCertApprovalCondition :: "csr_object \<Rightarrow> bool \<times> bool" where
  "getCertApprovalCondition csr = getCertApprovalCondition_loop (csr_Conditions csr) (False, False)"

definition isCertificateRequestApproved :: "csr_object \<Rightarrow> bool" where
  "isCertificateRequestApproved csr =
     (case getCertApprovalCondition csr of (approved, denied) \<Rightarrow> approved \<and> \<not> denied)"

section \<open>Handlers\<close>

text \<open>
  \<open>OnUpdate\<close> returns the object as the handler leaves it (it is the informer's own copy and
  is changed in place), the object it sent to the server, and whether it logged
  "CSR is not approved, Ignoring.".
\<close>

definition OnUpdate :: "'w crypto \<Rightarrow> 'w update_status \<Rightarrow> K8SSigner \<Rightarrow> int \<Rightarrow> csr_event_obj \<Rightarrow> 'w
    \<Rightarrow> (csr_event_obj \<times> csr_object option \<times> bool \<times> 'w) exec" where
  "OnUpdate c update k now newObj w =
     (case newObj of
        NotCSR s \<Rightarrow> Inl TypeAssertion
      | CSRObj csr \<Rightarrow>
     (case fst (pem_decode c (csr_Request csr)) of
        None \<Rightarrow> Inr (newObj, None, False, w)
      | Some block \<Rightarrow>
     (case parse_csr c (pem_Bytes block) of
        Inl err \<Rightarrow> Inr (newObj, None, False, w)
      | Inr x509cr \<Rightarrow>
     (if csr_SignerName csr \<noteq> ks_Name k then Inr (newObj, None, False, w)
      else if csr_Certificate csr \<noteq> None then Inr (newObj, None, False, w)
      else (let ignoring = \<not> isCertificateRequestApproved csr in
        bnd (SignCSR c (ks_Signer k) now x509cr w) (\<lambda>(res, w1).
          case res of
            Inl err \<Rightarrow> Inr (newObj, None, ignoring, w1)
          | Inr cert \<Rightarrow>
              (let csr' = csr\<lparr>csr_Certificate := Some cert\<rparr> in
               case update csr' w1 of (err, w2) \<Rightarrow>
                 Inr (CSRObj csr', Some csr', ignoring, w2))))))))"

definition OnAdd :: "'w crypto \<Rightarrow> 'w update_status \<Rightarrow> K8SSigner \<Rightarrow> int \<Rightarrow> csr_event_obj \<Rightarrow> bool \<Rightarrow> 'w
    \<Rightarrow> (csr_event_obj \<times> csr_object option \<times> bool \<times> 'w) exec" where
  "OnAdd c update k now obj isInInitialList w = OnUpdate c update k now obj w"

definition OnDelete :: "K8SSigner \<Rightarrow> csr_event_obj \<Rightarrow> unit" where
  "OnDelete k obj = ()"

section \<open>Lemmas\<close>

lemma getCertApprovalCondition_loop_eq:
  "getCertApprovalCondition_loop cs (a, d) =
     (a \<or> CertificateApproved \<in> cond_Type ` set cs,
      d \<or> CertificateDenied \<in> cond_Type ` set cs)"
  by (induction cs arbitrary: a d) (auto simp: Let_def)

text \<open>
  The requests a signer acts on: a request that decodes and parses, addressed to this
  signer, and not yet signed.
\<close>

definition actionable :: "'w crypto \<Rightarrow> K8SSigner \<Rightarrow> csr_object \<Rightarrow> x509_csr \<Rightarrow> bool" where
  "actionable c k csr x509cr \<longleftrightarrow>
     (\<exists>block. fst (pem_decode c (csr_Request csr)) = Some block
        \<and> parse_csr c (pem_Bytes block) = Inr x509cr)
     \<and> csr_SignerName csr = ks_Name k \<and> csr_Certificate csr = None"

lemma OnUpdate_actionable:
  assumes "actionable c k csr x509cr" and "SignCSR c (ks_Signer k) now x509cr w = Inr (Inr cert, w1)"
    and "update (csr\<lparr>csr_Certificate := Some cert\<rparr>) w1 = (err, w2)"
  shows "OnUpdate c update k now (CSRObj csr) w =
    Inr (CSRObj (csr\<lparr>csr_Certificate := Some cert\<rparr>), Some (csr\<lparr>csr_Certificate := Some cert\<rparr>),
      \<not> isCertificateRequestApproved csr, w2)"
  using assms by (auto simp: OnUpdate_def actionable_def Let_def)

lemma OnUpdate_not_actionable:
  assumes "\<nexists>x509cr. actionable c k csr x509cr"
  shows "OnUpdate c update k now (CSRObj csr) w = Inr (CSRObj csr, None, False, w)"
  using assms by (auto simp: OnUpdate_def actionable_def Let_def split: option.splits sum.splits)

lemma OnUpdate_sent:
  assumes "OnUpdate c update k now (CSRObj csr) w = Inr (obj', Some sent, ignoring, w')"
  shows "\<exists>x509cr cert w1 err. actionable c k csr x509cr
    \<and> SignCSR c (ks_Signer k) now x509cr w = Inr (Inr cert, w1)
    \<and> sent = csr\<lparr>csr_Certificate := Some cert\<rparr> \<and> obj' = CSRObj sent
    \<and> update sent w1 = (err, w') \<and> ignoring = (\<not> isCertificateRequestApproved csr)"
proof -
  have "\<exists>x. actionable c k csr x"
    using assms OnUpdate_not_actionable [of c k csr update now w] by fastforce
  then obtain x where x: "actionable c k csr x" by blast
  with assms obtain res w1 where s: "SignCSR c (ks_Signer k) now x w = Inr (res, w1)"
    by (cases "SignCSR c (ks_Signer k) now x w") (auto simp: OnUpdate_def actionable_def Let_def)
  show ?thesis
  proof (cases res)
    case (Inl err)
    with assms x s show ?thesis by (auto simp: OnUpdate_def actionable_def Let_def)
  next
    case (Inr cert)
    have s': "SignCSR c (ks_Signer k) now x w = Inr (Inr cert, w1)" using s Inr by simp
    obtain err w2 where u: "update (csr\<lparr>csr_Certificate := Some cert\<rparr>) w1 = (err, w2)"
      by fastforce
    from OnUpdate_actionable [where csr = csr and update = update, OF x s' u] assms x s' u
    show ?thesis by auto
  qed
qed

definition demo_signer :: K8SSigner where
  "demo_signer = \<lparr>ks_Name = ''ex.com/s'', ks_Signer = Some demo_ca\<rparr>"

definition demo_denied :: csr_object where
  "demo_denied = \<lparr>csr_Name = ''r1'', csr_Request = pem_text ''CERTIFICATE REQUEST'' ''x'', csr_SignerName = ''ex.com/s'',
     csr_Certificate = None, csr_Conditions = [\<lparr>cond_Type = ''Denied'', cond_Status = ''True''\<rparr>]\<rparr>"

lemma demo_denied_actionable: "actionable demo_crypto demo_signer demo_denied (demo_csr ''x'')"
  by (simp add: actionable_def demo_crypto_def demo_signer_def demo_denied_def)

lemma demo_SignCSR: "SignCSR demo_crypto (Some demo_ca) 5 (demo_csr ''x'') 0 = Inr (Inr (pem_text ''CERTIFICATE'' ''DERx''), 1)"
proof -
  have "Sign demo_crypto (Some demo_ca) 5 ''x'' 0 = Inr (Inr ''DERx'', 1)"
    by (subst Sign_ok [where cr = "demo_csr ''x''" and serial = 0 and ?w1.0 = 1 and cert = demo_cert])
      (simp_all add: demo_crypto_def demo_ca_def demo_cert_def zero_cert_def zero_time_def
        sign_template_def demo_csr_def)
  then show ?thesis by (simp add: SignCSR_def demo_csr_def) (simp add: demo_crypto_def)
qed

section \<open>Properties\<close>

text \<open>
  The approval test is right: a request counts as approved exactly when it has a
  condition of type \<open>Approved\<close> and none of type \<open>Denied\<close>, in any order.
\<close>

lemma isCertificateRequestApproved_iff:
  "isCertificateRequestApproved csr \<longleftrightarrow>
     CertificateApproved \<in> cond_Type ` set (csr_Conditions csr)
     \<and> CertificateDenied \<notin> cond_Type ` set (csr_Conditions csr)"
  by (auto simp: isCertificateRequestApproved_def getCertApprovalCondition_def
      getCertApprovalCondition_loop_eq)

text \<open>
  C39: The controller signs requests that were never approved, and requests that were denied.
  The test only writes a log line; whatever the conditions of a request, the certificate, the
  call to the server and every later effect are the same as for an approved one.
\<close>

theorem approval_does_not_matter:
  assumes "actionable c k csr x509cr" and "SignCSR c (ks_Signer k) now x509cr w = Inr (Inr cert, w1)"
  shows "\<exists>w2. OnUpdate c update k now (CSRObj (csr\<lparr>csr_Conditions := conds\<rparr>)) w =
    Inr (CSRObj (csr\<lparr>csr_Conditions := conds, csr_Certificate := Some cert\<rparr>),
      Some (csr\<lparr>csr_Conditions := conds, csr_Certificate := Some cert\<rparr>),
      \<not> isCertificateRequestApproved (csr\<lparr>csr_Conditions := conds\<rparr>), w2)"
proof -
  have "actionable c k (csr\<lparr>csr_Conditions := conds\<rparr>) x509cr"
    using assms(1) by (simp add: actionable_def)
  from OnUpdate_actionable [OF this assms(2)] show ?thesis by (metis surj_pair)
qed

theorem approval_does_not_matter_witness:
  "\<not> isCertificateRequestApproved demo_denied \<and>
   (\<exists>obj sent w'. OnUpdate demo_crypto (\<lambda>u w. (None, w)) demo_signer 5 (CSRObj demo_denied) 0
       = Inr (obj, Some sent, True, w') \<and> csr_Certificate sent = Some (pem_text ''CERTIFICATE'' ''DERx''))"
proof -
  have "\<not> isCertificateRequestApproved demo_denied"
    by (simp add: isCertificateRequestApproved_def getCertApprovalCondition_def
        getCertApprovalCondition_loop_eq demo_denied_def CertificateApproved_def CertificateDenied_def)
  moreover have "SignCSR demo_crypto (ks_Signer demo_signer) 5 (demo_csr ''x'') 0 = Inr (Inr (pem_text ''CERTIFICATE'' ''DERx''), 1)"
    using demo_SignCSR by (simp add: demo_signer_def)
  moreover have "demo_denied\<lparr>csr_Conditions := csr_Conditions demo_denied\<rparr> = demo_denied" by simp
  ultimately show ?thesis
    using approval_does_not_matter [OF demo_denied_actionable,
        of 5 0 "pem_text ''CERTIFICATE'' ''DERx''" 1 "\<lambda>u w. (None, w)" "csr_Conditions demo_denied"]
    by force
qed

text \<open>
  C25: What \<open>OnUpdate\<close> does, on every branch. On an object that is no certificate request it panics.
  A request that does not decode or parse, names another signer or has a certificate is left alone
  and nothing is sent. Every other request goes to \<open>SignCSR\<close>: a panic of it is a panic of the
  handler; its error is dropped, and nothing is sent or changed; and the certificate it makes is put
  into the object, with everything else as it was, and this object is sent to the server by
  \<open>UpdateStatus\<close>, once, whose error changes nothing but the world. The only other effect of the
  approval is the log line.
\<close>

theorem OnUpdate_effects:
  "OnUpdate c update k now (NotCSR x) w = Inl TypeAssertion
   \<and> ((\<nexists>x509cr. actionable c k csr x509cr) \<longrightarrow>
        OnUpdate c update k now (CSRObj csr) w = Inr (CSRObj csr, None, False, w))
   \<and> (\<forall>x509cr. actionable c k csr x509cr \<longrightarrow>
        OnUpdate c update k now (CSRObj csr) w = (case SignCSR c (ks_Signer k) now x509cr w of
            Inl p \<Rightarrow> Inl p
          | Inr (Inl err, w1) \<Rightarrow> Inr (CSRObj csr, None, \<not> isCertificateRequestApproved csr, w1)
          | Inr (Inr cert, w1) \<Rightarrow>
              Inr (CSRObj (csr\<lparr>csr_Certificate := Some cert\<rparr>), Some (csr\<lparr>csr_Certificate := Some cert\<rparr>),
                \<not> isCertificateRequestApproved csr, snd (update (csr\<lparr>csr_Certificate := Some cert\<rparr>) w1))))"
proof (intro conjI allI impI)
  show "OnUpdate c update k now (NotCSR x) w = Inl TypeAssertion" by (simp add: OnUpdate_def)
next
  assume "\<nexists>x509cr. actionable c k csr x509cr"
  then show "OnUpdate c update k now (CSRObj csr) w = Inr (CSRObj csr, None, False, w)"
    by (rule OnUpdate_not_actionable)
next
  fix x509cr
  assume "actionable c k csr x509cr"
  then show "OnUpdate c update k now (CSRObj csr) w = (case SignCSR c (ks_Signer k) now x509cr w of
            Inl p \<Rightarrow> Inl p
          | Inr (Inl err, w1) \<Rightarrow> Inr (CSRObj csr, None, \<not> isCertificateRequestApproved csr, w1)
          | Inr (Inr cert, w1) \<Rightarrow>
              Inr (CSRObj (csr\<lparr>csr_Certificate := Some cert\<rparr>), Some (csr\<lparr>csr_Certificate := Some cert\<rparr>),
                \<not> isCertificateRequestApproved csr, snd (update (csr\<lparr>csr_Certificate := Some cert\<rparr>) w1)))"
    by (auto simp: OnUpdate_def actionable_def Let_def split: sum.split prod.split)
qed

text \<open>A server that counts the updates it gets.\<close>

theorem OnUpdate_effects_witness:
  "OnUpdate demo_crypto (\<lambda>u w. (None, w + 10)) demo_signer 5 (CSRObj demo_denied) 0
   = Inr (CSRObj (demo_denied\<lparr>csr_Certificate := Some (pem_text ''CERTIFICATE'' ''DERx'')\<rparr>),
       Some (demo_denied\<lparr>csr_Certificate := Some (pem_text ''CERTIFICATE'' ''DERx'')\<rparr>),
       \<not> isCertificateRequestApproved demo_denied, 11)"
proof -
  have sign: "SignCSR demo_crypto (ks_Signer demo_signer) 5 (demo_csr ''x'') 0 = Inr (Inr (pem_text ''CERTIFICATE'' ''DERx''), 1)"
    using demo_SignCSR by (simp add: demo_signer_def)
  from OnUpdate_effects [THEN conjunct2, THEN conjunct2, rule_format, OF demo_denied_actionable,
      of "\<lambda>u w. (None, w + 10)" 5 0]
  show ?thesis by (simp add: sign)
qed

text \<open>
  The handler signs an object at most once, but also gives up on it after a failed update.
  After a call that sent the object, the informer's copy carries the certificate, whether the
  server accepted it or not; so every later call on that copy, at any time, sends nothing. A
  failed \<open>UpdateStatus\<close> is therefore not retried.
\<close>

lemma OnUpdate_once:
  assumes "OnUpdate c update k now (CSRObj csr) w = Inr (obj', Some sent, ign, w')"
  shows "OnUpdate c update' k now' obj' w'' = Inr (obj', None, False, w'')"
proof -
  from OnUpdate_sent [OF assms] obtain cert where
    eq: "obj' = CSRObj (csr\<lparr>csr_Certificate := Some cert\<rparr>)"
    by blast
  have "\<nexists>x. actionable c k (csr\<lparr>csr_Certificate := Some cert\<rparr>) x"
    by (simp add: actionable_def)
  with eq show ?thesis by (simp add: OnUpdate_not_actionable)
qed

lemma OnUpdate_once_witness:
  "\<exists>obj' sent ign w'.
     OnUpdate demo_crypto (\<lambda>u w. (Some (ErrNew ''conflict''), w)) demo_signer 5 (CSRObj demo_denied) 0
       = Inr (obj', Some sent, ign, w')
   \<and> OnUpdate demo_crypto (\<lambda>u w. (None, w)) demo_signer 6 obj' w' = Inr (obj', None, False, w')"
proof -
  have s: "SignCSR demo_crypto (ks_Signer demo_signer) 5 (demo_csr ''x'') 0 = Inr (Inr (pem_text ''CERTIFICATE'' ''DERx''), 1)"
    using demo_SignCSR by (simp add: demo_signer_def)
  have "OnUpdate demo_crypto (\<lambda>u w. (Some (ErrNew ''conflict''), w)) demo_signer 5 (CSRObj demo_denied) 0
      = Inr (CSRObj (demo_denied\<lparr>csr_Certificate := Some (pem_text ''CERTIFICATE'' ''DERx'')\<rparr>),
          Some (demo_denied\<lparr>csr_Certificate := Some (pem_text ''CERTIFICATE'' ''DERx'')\<rparr>),
          \<not> isCertificateRequestApproved demo_denied, 1)"
    by (rule OnUpdate_actionable [OF demo_denied_actionable s]) simp
  with OnUpdate_once [OF this] show ?thesis by blast
qed

text \<open>
  C32: A signing controller that is set up as the code provides for, with an authority that was
  only initialised, crashes on the first request it should sign: \<open>Init\<close> succeeds and leaves the
  authority without a certificate, \<open>NewK8SSigner\<close> registers the controller with it, and the
  handler of the informer dereferences nil on any request for this signer that decodes, parses
  and verifies, approved or not, from the initial list or as an update.
\<close>

theorem initialised_signer_panics:
  assumes "ca_Certificate ca = None" and "Init c ca = Inr (None, ca', chain, roots)"
    and "NewK8SSigner n (Some ca') handlers = (k, handlers')"
    and "actionable c k csr x509cr" and "parse_csr c (cr_Raw x509cr) = Inr x509cr"
    and "check_signature c x509cr = None" and "rand_int c serialNumberLimit w = (Inr serial, w1)"
  shows "k \<in> set handlers' \<and> OnUpdate c update k now (CSRObj csr) w = Inl NilDeref
    \<and> OnAdd c update k now (CSRObj csr) initial w = Inl NilDeref"
proof -
  have k: "ks_Signer k = Some ca'" "k \<in> set handlers'"
    using assms(3) by (auto simp: NewK8SSigner_def Let_def)
  have "ca_Certificate ca' = None" using Init_cases [OF assms(2)] assms(1) by simp
  from Sign_no_certificate [OF assms(5-7) this] have "SignCSR c (ks_Signer k) now x509cr w = Inl NilDeref"
    by (simp add: SignCSR_def k(1))
  then have "OnUpdate c update k now (CSRObj csr) w = Inl NilDeref"
    using assms(4) by (auto simp: OnUpdate_def actionable_def Let_def)
  then show ?thesis using k(2) by (simp add: OnAdd_def)
qed

theorem initialised_signer_panics_witness:
  "\<exists>ca'. OnUpdate demo_crypto (\<lambda>u w. (None, w)) \<lparr>ks_Name = ''ex.com/s'', ks_Signer = Some ca'\<rparr> 5 (CSRObj demo_denied) 0
     = Inl NilDeref"
proof -
  let ?ca = "demo_ca\<lparr>ca_Certificate := None\<rparr>"
  have "fst (pem_decode demo_crypto (ca_Key ?ca)) = Some (plain_block ''EC PRIVATE KEY'' ''K'')"
    using demo_key by simp
  then obtain ca' chain roots where i: "Init demo_crypto ?ca = Inr (None, ca', chain, roots)"
    using demo_parse_key by (simp add: Init_def Let_def)
  let ?k = "\<lparr>ks_Name = ''ex.com/s'', ks_Signer = Some ca'\<rparr>"
  have "actionable demo_crypto ?k demo_denied (demo_csr ''x'')"
    using demo_denied_actionable by (simp add: actionable_def demo_signer_def)
  note act = this
  have new: "NewK8SSigner ''ex.com/s'' (Some ca') [] = (?k, [?k])" by (simp add: NewK8SSigner_def Let_def)
  have env: "ca_Certificate ?ca = None" "parse_csr demo_crypto (cr_Raw (demo_csr ''x'')) = Inr (demo_csr ''x'')"
    "check_signature demo_crypto (demo_csr ''x'') = None" "rand_int demo_crypto serialNumberLimit 0 = (Inr 0, 1)"
    by (simp_all add: demo_crypto_def demo_csr_def)
  from initialised_signer_panics [OF env(1) i new act env(2-4)] show ?thesis by blast
qed

end
