(* ===== verification/ClusterSet.thy ===== *)
theory ClusterSet
  imports ClusterTokens
begin

text \<open>
  The set of clusters of a process: \<open>kube.go\<close> and \<open>kubeconfig.go\<close>. Clusters are shared by
  pointer between \<open>ByName\<close> and \<open>Default\<close>, so they live in a store. The operating system,
  the kubeconfig loader of client-go and its certificate pool are the parameter record
  \<open>host_env\<close>.
\<close>

section \<open>Data\<close>

record K8S =
  k8_Namespace :: string
  k8_KSA :: string
  k8_QPS :: float32
  k8_Burst :: "64 word"
  k8_Default :: "ref option"
  k8_ByName :: "(string, ref) gomap"

definition zero_K8S :: K8S where
  "zero_K8S = \<lparr>k8_Namespace = [], k8_KSA = [], k8_QPS = F32 0 0, k8_Burst = 0,
     k8_Default = None, k8_ByName = None\<rparr>"

type_synonym clusters = "K8SCluster store"
type_synonym set_state = "K8S \<times> clusters"

text \<open>
  A merged kubeconfig: its contexts, each a pointer to the context (\<open>None\<close> is nil) with the
  cluster it names, and the current context.
\<close>

record api_config =
  ac_Contexts :: "(string, string option) gomap"
  ac_CurrentContext :: string

record host_env =
  Getenv :: "string \<Rightarrow> string"
  Stat :: "string \<Rightarrow> go_error option"
  ReadFile :: "string \<Rightarrow> go_error + string"
  NewPool :: "string \<Rightarrow> go_error option"
  RawConfig :: "string \<Rightarrow> go_error + api_config"
  ClientConfig :: "api_config \<Rightarrow> string \<Rightarrow> go_error + rest_config"
  ContextNamespace :: "api_config \<Rightarrow> string \<Rightarrow> string"

definition NewK8SSet :: "string \<Rightarrow> string \<Rightarrow> K8S" where
  "NewK8SSet ns name = zero_K8S"

section \<open>LoadKubeConfig\<close>

definition config_file :: "host_env \<Rightarrow> string \<Rightarrow> string" where
  "config_file env configFile =
     (let f = (if configFile = [] then Getenv env ''KUBECONFIG'' else configFile)
      in if f = [] then Getenv env ''HOME'' @ ''/.kube/config'' else f)"

text \<open>The rate limits of the set replace those of the context's configuration when positive.\<close>

definition rate_limits :: "K8S \<Rightarrow> rest_config \<Rightarrow> rest_config" where
  "rate_limits kr rc =
     (let rc = (if f32_pos (k8_QPS kr) then rc\<lparr>rc_QPS := k8_QPS kr\<rparr> else rc)
      in if 0 < sint (k8_Burst kr) then rc\<lparr>rc_Burst := k8_Burst kr\<rparr> else rc)"

definition context_cluster :: "host_env \<Rightarrow> K8S \<Rightarrow> api_config \<Rightarrow> string \<Rightarrow> rest_config \<Rightarrow> K8SCluster" where
  "context_cluster env kr cfg k rc = zero_cluster\<lparr>kc_Name := k,
     kc_Namespace := ContextNamespace env cfg k,
     kc_RestConfig := Some (rate_limits kr rc),
     kc_RawConfig := RawClientConfig k\<rparr>"

text \<open>
  One turn of the loop over the contexts. A context whose configuration does not load is
  logged, which reads the cluster of the context, and skipped.
\<close>

definition load_context :: "host_env \<Rightarrow> api_config \<Rightarrow> string \<Rightarrow> set_state \<Rightarrow> set_state exec" where
  "load_context env cfg k st = (case st of (kr, h) \<Rightarrow>
     (case map_get (ac_Contexts cfg) k of
        None \<Rightarrow> Inr (kr, h)
      | Some cc \<Rightarrow>
          (case ClientConfig env cfg k of
             Inl err \<Rightarrow> (case cc of None \<Rightarrow> Inl NilDeref | Some cluster \<Rightarrow> Inr (kr, h))
           | Inr rc \<Rightarrow>
               (case alloc (context_cluster env kr cfg k rc) h of (r, h') \<Rightarrow>
                  bnd (map_put (k8_ByName kr) k r) (\<lambda>m.
                    let kr' = kr\<lparr>k8_ByName := m\<rparr> in
                    Inr (if k8_Default kr' = None \<and> k = ac_CurrentContext cfg
                         then kr'\<lparr>k8_Default := Some r\<rparr> else kr', h'))))))"

definition LoadKubeConfig :: "host_env \<Rightarrow> string list \<Rightarrow> string \<Rightarrow> set_state \<Rightarrow> (go_error option \<times> set_state) exec" where
  "LoadKubeConfig env order configFile st =
     (let f = config_file env configFile in
      case Stat env f of
        Some err \<Rightarrow> Inr (None, st)
      | None \<Rightarrow>
          (case RawConfig env f of
             Inl err \<Rightarrow> Inr (Some err, st)
           | Inr cfg \<Rightarrow> bnd (loopM (load_context env cfg) order st) (\<lambda>st'. Inr (None, st'))))"

section \<open>loadInCluster\<close>

definition tokenFile :: string where
  "tokenFile = ''/var/run/secrets/kubernetes.io/serviceaccount/token''"

definition rootCAFile :: string where
  "rootCAFile = ''/var/run/secrets/kubernetes.io/serviceaccount/ca.crt''"

definition incluster_cluster :: "host_env \<Rightarrow> string \<Rightarrow> K8SCluster" where
  "incluster_cluster env token =
     (let host = Getenv env ''KUBERNETES_SERVICE_HOST'';
          host = (if host = [] then ''10.0.0.1'' else host);
          port = Getenv env ''KUBERNETES_SERVICE_PORT'';
          port = (if length port = 0 then ''443'' else port);
          config = zero_rest_config\<lparr>rc_Host := ''https://'' @ join_host_port host port,
            rc_CAFile := rootCAFile, rc_BearerToken := token, rc_BearerTokenFile := tokenFile\<rparr>
      in zero_cluster\<lparr>kc_Name := ''incluster'', kc_Namespace := Getenv env ''POD_NAMESPACE'',
           kc_RestConfig := Some config\<rparr>)"

definition loadInCluster :: "host_env \<Rightarrow> set_state \<Rightarrow> (go_error option \<times> set_state) exec" where
  "loadInCluster env st = (case st of (kr, h) \<Rightarrow>
     (case ReadFile env tokenFile of
        Inl err \<Rightarrow> Inr (None, (kr, h))
      | Inr token \<Rightarrow>
     (case NewPool env rootCAFile of
        Some err \<Rightarrow> Inr (Some err, (kr, h))
      | None \<Rightarrow>
          (let ic = incluster_cluster env token in
           case alloc ic h of (r, h') \<Rightarrow>
             bnd (map_put (k8_ByName kr) (kc_Name ic) r) (\<lambda>m.
               let kr' = kr\<lparr>k8_ByName := m\<rparr> in
               Inr (None, (if k8_Default kr' = None then kr'\<lparr>k8_Default := Some r\<rparr> else kr', h')))))))"

section \<open>init and New\<close>

text \<open>The deferred function of \<open>init\<close>: it writes through the pointer of the default cluster.\<close>

definition default_names :: "K8SCluster \<Rightarrow> (unit \<times> K8SCluster) exec" where
  "default_names k =
     (let k = (if kc_Namespace k = [] then k\<lparr>kc_Namespace := ''default''\<rparr> else k);
          k = (if kc_Name k = [] then k\<lparr>kc_Name := ''default''\<rparr> else k)
      in Inr ((), k))"

definition init_deferred :: "set_state \<Rightarrow> set_state exec" where
  "init_deferred st = (case st of (kr, h) \<Rightarrow>
     (case k8_Default kr of
        None \<Rightarrow> Inr (kr, h)
      | Some r \<Rightarrow> bnd (via default_names (Some r) h) (\<lambda>(_, h'). Inr (kr, h'))))"

definition init_body :: "host_env \<Rightarrow> string list \<Rightarrow> set_state \<Rightarrow> (go_error option \<times> set_state) exec" where
  "init_body env order st =
     (if k8_Default (fst st) \<noteq> None then Inr (None, st)
      else bnd (LoadKubeConfig env order [] st) (\<lambda>(err, st1).
        case err of Some e \<Rightarrow> Inr (Some e, st1)
        | None \<Rightarrow> loadInCluster env st1))"

definition K8S_init :: "host_env \<Rightarrow> string list \<Rightarrow> set_state \<Rightarrow> (go_error option \<times> set_state) exec" where
  "K8S_init env order st =
     bnd (init_body env order st) (\<lambda>(err, st1). bnd (init_deferred st1) (\<lambda>st2. Inr (err, st2)))"

text \<open>The arguments \<open>SetK8SLogging\<close> parses into the flags of klog.\<close>

definition SetK8SLogging :: "string \<Rightarrow> string list" where
  "SetK8SLogging flags = go_split flags '' ''"

text \<open>
  \<open>New\<close> returns the set with its error, even when there is one, and the klog arguments it
  set, if any.
\<close>

definition K8S_New :: "host_env \<Rightarrow> string list \<Rightarrow> clusters
    \<Rightarrow> (go_error option \<times> string list option \<times> set_state) exec" where
  "K8S_New env order h =
     (let k = zero_K8S\<lparr>k8_ByName := Some (\<lambda>_. None)\<rparr> in
      bnd (K8S_init env order (k, h)) (\<lambda>(err, st).
        let logging = Getenv env ''KLOG_FLAGS'' in
        Inr (err, if logging \<noteq> [] then Some (SetK8SLogging logging) else None, st)))"

text \<open>\<open>Default\<close>: the set is made once per process, and its error is dropped.\<close>

definition K8S_Default :: "host_env \<Rightarrow> string list \<Rightarrow> K8S option \<Rightarrow> clusters
    \<Rightarrow> (K8S \<times> K8S option \<times> clusters) exec" where
  "K8S_Default env order cache h =
     (case cache of
        Some k \<Rightarrow> Inr (k, cache, h)
      | None \<Rightarrow> bnd (K8S_New env order h) (\<lambda>(err, _, (k, h')). Inr (k, Some k, h')))"

section \<open>GetToken\<close>

definition K8S_GetToken :: "'w k8s_api \<Rightarrow> set_state \<Rightarrow> string \<Rightarrow> 'w
    \<Rightarrow> ((string \<times> go_error option) \<times> set_state \<times> 'w) exec" where
  "K8S_GetToken api st aud w = (case st of (kr, h) \<Rightarrow>
     (case k8_Default kr of
        None \<Rightarrow> Inr (([], Some (ErrNew ''No default cluster'')), (kr, h), w)
      | Some r \<Rightarrow>
          bnd (via (\<lambda>k. bnd (GetTokenRaw api k (kc_Namespace k) (kc_KSA k) aud w)
                 (\<lambda>(res, k', w'). Inr ((res, w'), k'))) (Some r) h)
            (\<lambda>((res, w'), h'). Inr (res, (kr, h'), w'))))"

end
