(* ===== verification/ClusterSetFacts.thy ===== *)
theory ClusterSetFacts
  imports ClusterSet AuthProvider
begin

text \<open>
  What loading promises. The abstract view of a set is the map from names to clusters that
  \<open>ByName\<close> and the store give together, and the cluster \<open>Default\<close> points to; the loaders
  are specified on the view, whatever addresses they allocate and in whatever order they
  visit the contexts.
\<close>

section \<open>The abstract view\<close>

definition set_view :: "set_state \<Rightarrow> string \<Rightarrow> K8SCluster option" where
  "set_view st k = (case map_get (k8_ByName (fst st)) k of None \<Rightarrow> None | Some r \<Rightarrow> cells (snd st) r)"

definition default_view :: "set_state \<Rightarrow> K8SCluster option" where
  "default_view st = (case k8_Default (fst st) of None \<Rightarrow> None | Some r \<Rightarrow> cells (snd st) r)"

text \<open>No dangling pointers, and a map that can be written.\<close>

definition set_ok :: "set_state \<Rightarrow> bool" where
  "set_ok st \<longleftrightarrow> wf_store (snd st) \<and> k8_ByName (fst st) \<noteq> None
     \<and> (\<forall>k r. map_get (k8_ByName (fst st)) k = Some r \<longrightarrow> cells (snd st) r \<noteq> None)
     \<and> (\<forall>r. k8_Default (fst st) = Some r \<longrightarrow> cells (snd st) r \<noteq> None)"

text \<open>The settings of the set that the loaders only read.\<close>

definition settings :: "K8S \<Rightarrow> string \<times> string \<times> float32 \<times> 64 word" where
  "settings kr = (k8_Namespace kr, k8_KSA kr, k8_QPS kr, k8_Burst kr)"

lemma context_cluster_settings:
  "settings kr' = settings kr \<Longrightarrow> context_cluster env kr' cfg k rc = context_cluster env kr cfg k rc"
  by (simp add: settings_def context_cluster_def rate_limits_def)

lemma set_ok_ByName: "set_ok (kr, h) \<Longrightarrow> \<exists>m. k8_ByName kr = Some m"
  by (auto simp: set_ok_def)

text \<open>
  Registering a new cluster under a name: the step both loaders share. \<open>d\<close> says whether
  the cluster also becomes the default.
\<close>

definition register :: "bool \<Rightarrow> string \<Rightarrow> K8SCluster \<Rightarrow> set_state \<Rightarrow> set_state exec" where
  "register d k c st = (case alloc c (snd st) of (r, h') \<Rightarrow>
     bnd (map_put (k8_ByName (fst st)) k r) (\<lambda>m.
       let kr' = (fst st)\<lparr>k8_ByName := m\<rparr> in
       Inr (if k8_Default kr' = None \<and> d then kr'\<lparr>k8_Default := Some r\<rparr> else kr', h')))"

lemma register_run:
  assumes "set_ok st"
  shows "\<exists>st'. register d k c st = Inr st' \<and> set_ok st' \<and> settings (fst st') = settings (fst st)
    \<and> set_view st' = (set_view st)(k := Some c)
    \<and> default_view st' = (if k8_Default (fst st) = None \<and> d then Some c else default_view st)
    \<and> k8_Default (fst st') = (if k8_Default (fst st) = None \<and> d
          then map_get (k8_ByName (fst st')) k else k8_Default (fst st))
    \<and> (\<forall>r v. cells (snd st) r = Some v \<longrightarrow> cells (snd st') r = Some v)
    \<and> (\<forall>j. j \<noteq> k \<longrightarrow> map_get (k8_ByName (fst st')) j = map_get (k8_ByName (fst st)) j)"
proof -
  obtain kr h where st: "st = (kr, h)" by (cases st)
  with assms obtain m where m: "k8_ByName kr = Some m" by (auto dest: set_ok_ByName)
  obtain r h' where a: "alloc c h = (r, h')" by (cases "alloc c h")
  have wf: "wf_store h" using assms st by (simp add: set_ok_def)
  note new = rs.load_alloc [OF wf a] and keep = rs.load_alloc_other [OF wf a]
    and wf' = rs.ok_alloc [OF wf a]
  have keep': "cells h p = Some v \<Longrightarrow> cells h' p = Some v" for p v
    using keep [of "Some p" v] by simp
  have same: "cells h p \<noteq> None \<Longrightarrow> cells h' p = cells h p" for p
    using keep' by auto
  have live: "m j = Some p \<Longrightarrow> cells h p \<noteq> None" for j p
    using assms st m by (simp add: set_ok_def)
  have dlive: "k8_Default kr = Some p \<Longrightarrow> cells h p \<noteq> None" for p
    using assms st by (simp add: set_ok_def)
  let ?kr' = "(if k8_Default kr = None \<and> d then kr\<lparr>k8_ByName := Some (m(k \<mapsto> r)), k8_Default := Some r\<rparr>
      else kr\<lparr>k8_ByName := Some (m(k \<mapsto> r))\<rparr>)"
  have run: "register d k c st = Inr (?kr', h')"
    using a m by (simp add: register_def st Let_def)
  have "set_ok (?kr', h')"
    using wf' new same live dlive by (auto simp: set_ok_def)
  moreover have "set_view (?kr', h') = (set_view st)(k := Some c)"
    using new same live m by (auto simp: set_view_def st fun_eq_iff split: option.splits)
  moreover have "default_view (?kr', h') =
      (if k8_Default kr = None \<and> d then Some c else default_view st)"
    using new same dlive by (auto simp: default_view_def st split: option.splits)
  ultimately show ?thesis
    using run m keep' by (auto simp: st settings_def)
qed

section \<open>LoadKubeConfig against its specification\<close>

text \<open>The cluster a context stands for: none if it does not exist or its configuration fails.\<close>

definition ctx_cluster :: "host_env \<Rightarrow> K8S \<Rightarrow> api_config \<Rightarrow> string \<Rightarrow> K8SCluster option" where
  "ctx_cluster env kr cfg k = (case map_get (ac_Contexts cfg) k of
       None \<Rightarrow> None
     | Some _ \<Rightarrow> (case ClientConfig env cfg k of
           Inl _ \<Rightarrow> None | Inr rc \<Rightarrow> Some (context_cluster env kr cfg k rc)))"

text \<open>A context whose configuration fails is not a nil pointer, so it can be logged.\<close>

definition contexts_ok :: "host_env \<Rightarrow> api_config \<Rightarrow> bool" where
  "contexts_ok env cfg \<longleftrightarrow>
     (\<forall>k err. ClientConfig env cfg k = Inl err \<longrightarrow> map_get (ac_Contexts cfg) k \<noteq> Some None)"

lemma load_context_register:
  assumes "contexts_ok env cfg"
  shows "load_context env cfg k st = (case ctx_cluster env (fst st) cfg k of
      None \<Rightarrow> Inr st | Some c \<Rightarrow> register (k = ac_CurrentContext cfg) k c st)"
proof -
  obtain kr h where st: "st = (kr, h)" by (cases st)
  show ?thesis
  proof (cases "map_get (ac_Contexts cfg) k")
    case None
    then show ?thesis by (simp add: st load_context_def ctx_cluster_def)
  next
    case (Some cc)
    show ?thesis
    proof (cases "ClientConfig env cfg k")
      case (Inl err)
      then obtain x where "cc = Some x" using assms Some by (cases cc) (auto simp: contexts_ok_def)
      with Inl Some show ?thesis by (simp add: st load_context_def ctx_cluster_def)
    next
      case (Inr rc)
      obtain r h' where a: "alloc (context_cluster env kr cfg k rc) h = (r, h')"
        by (cases "alloc (context_cluster env kr cfg k rc) h")
      have "load_context env cfg k st = register (k = ac_CurrentContext cfg) k (context_cluster env kr cfg k rc) st"
        unfolding load_context_def register_def st prod.case Some Inr option.case sum.case fst_conv snd_conv a ..
      then show ?thesis
        using Some Inr by (simp only: st ctx_cluster_def option.case sum.case fst_conv)
    qed
  qed
qed

text \<open>The state after the contexts \<open>seen\<close>, related to the state before the loop.\<close>

definition loaded :: "host_env \<Rightarrow> api_config \<Rightarrow> set_state \<Rightarrow> string list \<Rightarrow> set_state \<Rightarrow> bool" where
  "loaded env cfg st seen st' \<longleftrightarrow> set_ok st' \<and> settings (fst st') = settings (fst st)
     \<and> (\<forall>k. set_view st' k = (if k \<in> set seen \<and> ctx_cluster env (fst st) cfg k \<noteq> None
            then ctx_cluster env (fst st) cfg k else set_view st k))
     \<and> default_view st' = (if k8_Default (fst st) = None
          then (if ac_CurrentContext cfg \<in> set seen then ctx_cluster env (fst st) cfg (ac_CurrentContext cfg)
                else None)
          else default_view st)
     \<and> (k8_Default (fst st) \<noteq> None \<longrightarrow> k8_Default (fst st') = k8_Default (fst st))
     \<and> (k8_Default (fst st) = None \<longrightarrow> k8_Default (fst st') \<noteq> None \<longrightarrow>
          k8_Default (fst st') = map_get (k8_ByName (fst st')) (ac_CurrentContext cfg))"

lemma default_view_None_iff: "set_ok st \<Longrightarrow> default_view st = None \<longleftrightarrow> k8_Default (fst st) = None"
  by (auto simp: default_view_def set_ok_def split: option.splits)

lemma ctx_cluster_settings:
  "settings kr' = settings kr \<Longrightarrow> ctx_cluster env kr' cfg k = ctx_cluster env kr cfg k"
  unfolding ctx_cluster_def by (simp only: context_cluster_settings [of kr' kr])

lemma loaded_step:
  assumes "contexts_ok env cfg" and "loaded env cfg st seen t" and "k \<notin> set seen"
  shows "\<exists>t'. load_context env cfg k t = Inr t' \<and> loaded env cfg st (seen @ [k]) t'"
proof -
  have ok: "set_ok t" and set: "settings (fst t) = settings (fst st)"
    using assms(2) by (simp_all add: loaded_def)
  note cl = ctx_cluster_settings [OF set, of env cfg k]
  show ?thesis
  proof (cases "ctx_cluster env (fst st) cfg k")
    case None
    then have "load_context env cfg k t = Inr t"
      by (simp add: load_context_register [OF assms(1)] cl)
    moreover have "loaded env cfg st (seen @ [k]) t"
      using assms(2,3) None by (auto simp: loaded_def)
    ultimately show ?thesis by blast
  next
    case (Some c)
    let ?d = "k = ac_CurrentContext cfg"
    from register_run [OF ok, of ?d k c] obtain t' where t':
      "register ?d k c t = Inr t'" "set_ok t'" "settings (fst t') = settings (fst t)"
      "set_view t' = (set_view t)(k := Some c)"
      "default_view t' = (if k8_Default (fst t) = None \<and> ?d then Some c else default_view t)"
      "k8_Default (fst t') = (if k8_Default (fst t) = None \<and> ?d
          then map_get (k8_ByName (fst t')) k else k8_Default (fst t))"
      "\<forall>j. j \<noteq> k \<longrightarrow> map_get (k8_ByName (fst t')) j = map_get (k8_ByName (fst t)) j"
      by blast
    have nodef: "k8_Default (fst t) = None" if "k8_Default (fst st) = None" "?d"
      using assms(2,3) that default_view_None_iff [OF ok] by (simp add: loaded_def)
    have run: "load_context env cfg k t = Inr t'"
      using t'(1) Some by (simp add: load_context_register [OF assms(1)] cl)
    have "loaded env cfg st (seen @ [k]) t'"
      unfolding loaded_def
    proof (intro conjI allI impI)
      show "default_view t' = (if k8_Default (fst st) = None
          then (if ac_CurrentContext cfg \<in> set (seen @ [k]) then ctx_cluster env (fst st) cfg (ac_CurrentContext cfg)
                else None)
          else default_view st)"
        using assms(2,3) t'(5) Some nodef by (auto simp: loaded_def)
    next
      assume "k8_Default (fst st) = None" "k8_Default (fst t') \<noteq> None"
      then show "k8_Default (fst t') = map_get (k8_ByName (fst t')) (ac_CurrentContext cfg)"
        using assms(2) t'(6) t'(7) [rule_format, of "ac_CurrentContext cfg"] nodef
        by (cases ?d) (simp_all add: loaded_def)
    qed (use assms(2) t' set Some in \<open>auto simp: loaded_def\<close>)
    with run show ?thesis by blast
  qed
qed

lemma load_contexts_loaded:
  assumes "contexts_ok env cfg" and "set_ok st" and "distinct order"
  shows "\<exists>st'. loopM (load_context env cfg) order st = Inr st' \<and> loaded env cfg st order st'"
proof (rule loopM_rule [where P = "loaded env cfg st"])
  show "loaded env cfg st [] st"
    using assms(2) by (simp add: loaded_def default_view_def)
next
  fix seen x rest t
  assume "order = seen @ x # rest" and "loaded env cfg st seen t"
  with assms(3) show "\<exists>t'. load_context env cfg x t = Inr t' \<and> loaded env cfg st (seen @ [x]) t'"
    by (intro loaded_step [OF assms(1)]) auto
qed

text \<open>
  What the file of a path gives: an error, nothing when it does not exist, or the merged
  configuration.
\<close>

definition kubeconfig :: "host_env \<Rightarrow> string \<Rightarrow> go_error + api_config option" where
  "kubeconfig env f = (case Stat env f of
       Some err \<Rightarrow> Inr None
     | None \<Rightarrow> (case RawConfig env f of Inl err \<Rightarrow> Inl err | Inr cfg \<Rightarrow> Inr (Some cfg)))"

lemma LoadKubeConfig_run:
  "kubeconfig env (config_file env f) = Inl err \<Longrightarrow> LoadKubeConfig env order f st = Inr (Some err, st)"
  "kubeconfig env (config_file env f) = Inr None \<Longrightarrow> LoadKubeConfig env order f st = Inr (None, st)"
  "kubeconfig env (config_file env f) = Inr (Some cfg) \<Longrightarrow> LoadKubeConfig env order f st =
     bnd (loopM (load_context env cfg) order st) (\<lambda>st'. Inr (None, st'))"
  by (simp_all add: kubeconfig_def LoadKubeConfig_def Let_def split: option.splits sum.splits)

lemma LoadKubeConfig_effect:
  assumes "kubeconfig env (config_file env f) = Inr (Some cfg)" and "contexts_ok env cfg"
    and "set_ok st" and "range_order order (map_get (ac_Contexts cfg))"
  shows "\<exists>st'. LoadKubeConfig env order f st = Inr (None, st') \<and> set_ok st'
    \<and> (\<forall>k. set_view st' k = (case ctx_cluster env (fst st) cfg k of
          None \<Rightarrow> set_view st k | Some c \<Rightarrow> Some c))
    \<and> default_view st' = (if k8_Default (fst st) = None
          then ctx_cluster env (fst st) cfg (ac_CurrentContext cfg) else default_view st)"
proof -
  from load_contexts_loaded [OF assms(2,3) range_orderD(1) [OF assms(4)]] obtain st'
    where run: "loopM (load_context env cfg) order st = Inr st'" and l: "loaded env cfg st order st'"
    by blast
  have dom: "k \<in> set order" if "ctx_cluster env (fst st) cfg k \<noteq> None" for k
    using that range_orderD(2) [OF assms(4)]
    by (auto simp: ctx_cluster_def split: option.splits)
  have "set_view st' k = (case ctx_cluster env (fst st) cfg k of
      None \<Rightarrow> set_view st k | Some c \<Rightarrow> Some c)" for k
    using l dom [of k] by (auto simp: loaded_def split: option.split)
  moreover have "default_view st' = (if k8_Default (fst st) = None
          then ctx_cluster env (fst st) cfg (ac_CurrentContext cfg) else default_view st)"
    using l dom [of "ac_CurrentContext cfg"]
    by (cases "ctx_cluster env (fst st) cfg (ac_CurrentContext cfg)") (simp_all add: loaded_def)
  ultimately show ?thesis
    using l run LoadKubeConfig_run(3) [OF assms(1)] by (auto simp: loaded_def)
qed

text \<open>A kubeconfig file with two contexts, of which one does not load.\<close>

definition demo_config :: api_config where
  "demo_config = \<lparr>ac_Contexts = Some [''a'' \<mapsto> Some ''ca'', ''b'' \<mapsto> Some ''cb''],
     ac_CurrentContext = ''a''\<rparr>"

definition demo_env :: host_env where
  "demo_env = \<lparr>Getenv = (\<lambda>v. if v = ''HOME'' then ''/h'' else []),
     Stat = (\<lambda>f. None),
     ReadFile = (\<lambda>f. Inl (ErrNew ''no such file'')),
     NewPool = (\<lambda>f. None),
     RawConfig = (\<lambda>f. if f = ''/h/.kube/config'' then Inr demo_config else Inl EOF),
     ClientConfig = (\<lambda>cfg k. if k = ''a'' then Inr zero_rest_config else Inl (ErrNew ''no cluster'')),
     ContextNamespace = (\<lambda>cfg k. [])\<rparr>"

definition empty_set :: set_state where
  "empty_set = (zero_K8S\<lparr>k8_ByName := Some (\<lambda>_. None)\<rparr>, empty_store)"

lemma set_ok_empty: "wf_store h \<Longrightarrow> set_ok (zero_K8S\<lparr>k8_ByName := Some (\<lambda>_. None)\<rparr>, h)"
  by (simp add: set_ok_def zero_K8S_def)

lemma demo_env_config: "kubeconfig demo_env (config_file demo_env []) = Inr (Some demo_config)"
  by (simp add: kubeconfig_def config_file_def demo_env_def)

lemma demo_contexts_ok: "contexts_ok demo_env demo_config"
  by (auto simp: contexts_ok_def demo_env_def demo_config_def)

lemma demo_range: "range_order [''b'', ''a''] (map_get (ac_Contexts demo_config))"
  by (auto simp: range_order_def demo_config_def split: if_splits)

text \<open>
  C11: \<open>LoadKubeConfig\<close> adds every context whose client configuration loads, under the
  context's name, with the namespace of the context and the rate limits of the set; a
  context that does not load is skipped and keeps an earlier cluster of that name. A set
  without a default takes the current context, if it loads; a default that is set stays.
  The outcome is the same for every order in which the map of contexts is visited.
\<close>

theorem LoadKubeConfig_spec:
  assumes "kubeconfig env (config_file env f) = Inr (Some cfg)" and "contexts_ok env cfg"
    and "set_ok st" and "range_order order (map_get (ac_Contexts cfg))"
  shows "\<exists>st'. LoadKubeConfig env order f st = Inr (None, st') \<and> set_ok st'
    \<and> (\<forall>k. set_view st' k = (case ctx_cluster env (fst st) cfg k of
          None \<Rightarrow> set_view st k | Some c \<Rightarrow> Some c))
    \<and> default_view st' = (if k8_Default (fst st) = None
          then ctx_cluster env (fst st) cfg (ac_CurrentContext cfg) else default_view st)"
  by (rule LoadKubeConfig_effect [OF assms])

theorem LoadKubeConfig_spec_witness:
  "\<exists>st'. LoadKubeConfig demo_env [''b'', ''a''] [] empty_set = Inr (None, st')
    \<and> set_view st' ''b'' = None \<and> set_view st' ''a'' \<noteq> None \<and> default_view st' = set_view st' ''a''"
proof -
  have ok: "set_ok empty_set"
    by (simp add: empty_set_def set_ok_empty wf_store_empty)
  have c: "ctx_cluster demo_env (fst empty_set) demo_config ''a'' \<noteq> None"
    "ctx_cluster demo_env (fst empty_set) demo_config ''b'' = None"
    "set_view empty_set ''b'' = None" "k8_Default (fst empty_set) = None"
    "ac_CurrentContext demo_config = ''a''"
    by (simp_all add: ctx_cluster_def demo_env_def demo_config_def set_view_def empty_set_def zero_K8S_def)
  from LoadKubeConfig_spec [OF demo_env_config demo_contexts_ok ok demo_range] c
  show ?thesis by fastforce
qed

text \<open>
  The set that \<open>NewK8SSet\<close> returns cannot be loaded: its map of clusters is nil, so
  \<open>LoadKubeConfig\<close> panics with a write to a nil map as soon as one context loads.
\<close>

lemma NewK8SSet_cannot_load:
  assumes "kubeconfig env (config_file env f) = Inr (Some cfg)" and "contexts_ok env cfg"
    and "range_order order (map_get (ac_Contexts cfg))"
    and "ctx_cluster env (NewK8SSet ns name) cfg k = Some c"
  shows "LoadKubeConfig env order f (NewK8SSet ns name, h) = Inl NilMapWrite"
proof -
  let ?st = "(NewK8SSet ns name, h)"
  have reg: "register d j x ?st = Inl NilMapWrite" for d j x
    by (simp add: register_def NewK8SSet_def zero_K8S_def split: prod.split)
  have "k \<in> set order"
    using assms(4) range_orderD(2) [OF assms(3)] by (auto simp: ctx_cluster_def split: option.splits)
  then have "loopM (load_context env cfg) order ?st = Inl NilMapWrite"
  proof (induction order)
    case Nil
    then show ?case by simp
  next
    case (Cons x xs)
    show ?case
    proof (cases "ctx_cluster env (NewK8SSet ns name) cfg x")
      case None
      with Cons assms(4) have "loopM (load_context env cfg) xs ?st = Inl NilMapWrite" by auto
      then show ?thesis using None by (simp add: load_context_register [OF assms(2), of x])
    next
      case (Some y)
      then show ?thesis by (simp add: load_context_register [OF assms(2), of x] reg)
    qed
  qed
  then show ?thesis by (simp add: LoadKubeConfig_run(3) [OF assms(1)])
qed

lemma NewK8SSet_cannot_load_witness:
  "LoadKubeConfig demo_env [''b'', ''a''] [] (NewK8SSet [] [], empty_store) = Inl NilMapWrite"
proof -
  have "ctx_cluster demo_env (NewK8SSet [] []) demo_config ''a''
      = Some (context_cluster demo_env (NewK8SSet [] []) demo_config ''a'' zero_rest_config)"
    by (simp add: ctx_cluster_def demo_env_def demo_config_def)
  from NewK8SSet_cannot_load [OF demo_env_config demo_contexts_ok demo_range this]
  show ?thesis .
qed

section \<open>New against its specification\<close>

text \<open>What the service account of a pod gives: an error, nothing, or the local cluster.\<close>

definition in_cluster :: "host_env \<Rightarrow> go_error + K8SCluster option" where
  "in_cluster env = (case ReadFile env tokenFile of
       Inl err \<Rightarrow> Inr None
     | Inr token \<Rightarrow> (case NewPool env rootCAFile of
           Some err \<Rightarrow> Inl err | None \<Rightarrow> Inr (Some (incluster_cluster env token))))"

definition named :: "K8SCluster \<Rightarrow> K8SCluster" where
  "named k = k\<lparr>kc_Namespace := or_default (kc_Namespace k), kc_Name := or_default (kc_Name k)\<rparr>"

lemma default_names_run: "default_names k = Inr ((), named k)"
  by (cases k) (simp add: default_names_def named_def or_default_def Let_def)

lemma named_not_empty: "kc_Namespace (named k) \<noteq> []" "kc_Name (named k) \<noteq> []"
  by (simp_all add: named_def or_default_def)

lemma loadInCluster_run:
  "in_cluster env = Inl err \<Longrightarrow> loadInCluster env st = Inr (Some err, st)"
  "in_cluster env = Inr None \<Longrightarrow> loadInCluster env st = Inr (None, st)"
  "in_cluster env = Inr (Some c) \<Longrightarrow>
     loadInCluster env st = bnd (register True ''incluster'' c st) (\<lambda>st'. Inr (None, st'))"
proof -
  obtain kr h where st: "st = (kr, h)" by (cases st)
  show "in_cluster env = Inl err \<Longrightarrow> loadInCluster env st = Inr (Some err, st)"
    "in_cluster env = Inr None \<Longrightarrow> loadInCluster env st = Inr (None, st)"
    by (simp_all add: st in_cluster_def loadInCluster_def split: option.splits sum.splits)
  assume "in_cluster env = Inr (Some c)"
  then obtain token where t: "ReadFile env tokenFile = Inr token" "NewPool env rootCAFile = None"
    and c: "c = incluster_cluster env token"
    by (auto simp: in_cluster_def split: option.splits sum.splits)
  have "kc_Name c = ''incluster''" by (simp add: c incluster_cluster_def Let_def)
  moreover obtain r h' where "alloc c h = (r, h')" by (cases "alloc c h")
  ultimately show "loadInCluster env st = bnd (register True ''incluster'' c st) (\<lambda>st'. Inr (None, st'))"
    using t by (simp add: st loadInCluster_def register_def bnd_assoc Let_def flip: c)
qed

text \<open>The deferred naming shows under every name that shares the default's pointer.\<close>

lemma init_deferred_run:
  assumes "set_ok st"
  shows "\<exists>st'. init_deferred st = Inr st' \<and> set_ok st' \<and> fst st' = fst st
    \<and> default_view st' = map_option named (default_view st)
    \<and> (\<forall>k. set_view st' k = (if k8_Default (fst st) \<noteq> None
            \<and> map_get (k8_ByName (fst st)) k = k8_Default (fst st)
          then default_view st' else set_view st k))"
proof -
  obtain kr h where st: "st = (kr, h)" by (cases st)
  show ?thesis
  proof (cases "k8_Default kr")
    case None
    with assms show ?thesis by (auto simp: st init_deferred_def default_view_def)
  next
    case (Some r)
    with assms obtain c where c: "cells h r = Some c" by (auto simp: st set_ok_def)
    let ?h = "h\<lparr>cells := (cells h)(r \<mapsto> named c)\<rparr>"
    have run: "init_deferred st = Inr (kr, ?h)"
      using Some via_run [of h r c default_names "()" "named c"]
      by (simp add: st init_deferred_def c default_names_run)
    have "wf_store ?h" using assms c by (auto simp: st set_ok_def wf_store_def)
    then have "set_ok (kr, ?h)" using assms by (auto simp: st set_ok_def)
    moreover have "default_view (kr, ?h) = map_option named (default_view st)"
      by (simp add: st default_view_def Some c)
    moreover have "set_view (kr, ?h) k = (if map_get (k8_ByName kr) k = Some r
          then default_view (kr, ?h) else set_view st k)" for k
      by (auto simp: st set_view_def default_view_def Some split: option.split)
    ultimately show ?thesis using run Some by (auto simp: st)
  qed
qed

text \<open>
  The error, the default cluster and the names of a new set: the kubeconfig comes first, and
  its current context wins over the local cluster.
\<close>

definition kube_default :: "host_env \<Rightarrow> api_config option \<Rightarrow> K8SCluster option" where
  "kube_default env c = (case c of None \<Rightarrow> None
     | Some cfg \<Rightarrow> ctx_cluster env zero_K8S cfg (ac_CurrentContext cfg))"

definition kube_names :: "host_env \<Rightarrow> api_config option \<Rightarrow> string set" where
  "kube_names env c = (case c of None \<Rightarrow> {}
     | Some cfg \<Rightarrow> {k. ctx_cluster env zero_K8S cfg k \<noteq> None})"

definition new_spec :: "host_env \<Rightarrow> go_error option \<times> K8SCluster option \<times> string set" where
  "new_spec env = (case kubeconfig env (config_file env []) of
       Inl err \<Rightarrow> (Some err, None, {})
     | Inr c \<Rightarrow> (case in_cluster env of
           Inl err \<Rightarrow> (Some err, map_option named (kube_default env c), kube_names env c)
         | Inr None \<Rightarrow> (None, map_option named (kube_default env c), kube_names env c)
         | Inr (Some l) \<Rightarrow> (None,
             Some (named (case kube_default env c of None \<Rightarrow> l | Some k \<Rightarrow> k)),
             insert ''incluster'' (kube_names env c))))"

text \<open>The environment the loader is run in: contexts that can be logged, visited in full.\<close>

definition env_ok :: "host_env \<Rightarrow> string list \<Rightarrow> bool" where
  "env_ok env order \<longleftrightarrow> (\<forall>cfg. kubeconfig env (config_file env []) = Inr (Some cfg) \<longrightarrow>
     contexts_ok env cfg \<and> range_order order (map_get (ac_Contexts cfg)))"

text \<open>The state between the two loaders.\<close>

lemma load_kube_empty:
  assumes "kubeconfig env (config_file env []) = Inr c" and "env_ok env order"
    and "st = (zero_K8S\<lparr>k8_ByName := Some (\<lambda>_. None)\<rparr>, h)" and "wf_store h"
  shows "\<exists>st'. LoadKubeConfig env order [] st = Inr (None, st') \<and> set_ok st'
    \<and> {k. set_view st' k \<noteq> None} = kube_names env c \<and> default_view st' = kube_default env c"
proof -
  have ok: "set_ok st" and none: "set_view st k = None" "k8_Default (fst st) = None"
    "default_view st = None" for k
    using set_ok_empty [OF assms(4)] by (simp_all add: assms(3) set_view_def zero_K8S_def default_view_def)
  have same: "ctx_cluster env (fst st) = ctx_cluster env zero_K8S"
    by (intro ext ctx_cluster_settings) (simp add: assms(3) settings_def)
  show ?thesis
  proof (cases c)
    case None
    with assms(1) ok none show ?thesis
      by (simp add: LoadKubeConfig_run kube_names_def kube_default_def)
  next
    case (Some cfg)
    with assms(1,2) have "contexts_ok env cfg" "range_order order (map_get (ac_Contexts cfg))"
      "kubeconfig env (config_file env []) = Inr (Some cfg)"
      by (simp_all add: env_ok_def)
    from LoadKubeConfig_effect [OF this(3,1) ok this(2)] obtain st'
      where st': "LoadKubeConfig env order [] st = Inr (None, st')" "set_ok st'"
        "\<forall>k. set_view st' k = (case ctx_cluster env (fst st) cfg k of
          None \<Rightarrow> set_view st k | Some c \<Rightarrow> Some c)"
        "default_view st' = (if k8_Default (fst st) = None
          then ctx_cluster env (fst st) cfg (ac_CurrentContext cfg) else default_view st)"
      by blast
    have "{k. set_view st' k \<noteq> None} = kube_names env c"
      using st'(3) none same Some by (auto simp: kube_names_def split: option.splits)
    with st' none same Some show ?thesis by (simp add: kube_default_def)
  qed
qed

lemma register_incluster:
  assumes "set_ok st" and "default_view st = d"
  shows "\<exists>st'. register True k c st = Inr st' \<and> set_ok st'
    \<and> {k. set_view st' k \<noteq> None} = insert k {k. set_view st k \<noteq> None}
    \<and> default_view st' = Some (case d of None \<Rightarrow> c | Some x \<Rightarrow> x)"
proof -
  from register_run [OF assms(1), of True k c] obtain st' where st': "register True k c st = Inr st'"
    "set_ok st'" "set_view st' = (set_view st)(k := Some c)"
    "default_view st' = (if k8_Default (fst st) = None \<and> True then Some c else default_view st)"
    by blast
  have "default_view st' = Some (case d of None \<Rightarrow> c | Some x \<Rightarrow> x)"
    using st'(4) default_view_None_iff [OF assms(1)] assms(2) by (cases d) auto
  with st'(1-3) show ?thesis by auto
qed

lemma init_body_empty:
  assumes "env_ok env order" and "st = (zero_K8S\<lparr>k8_ByName := Some (\<lambda>_. None)\<rparr>, h)" and "wf_store h"
  shows "\<exists>err st' d. init_body env order st = Inr (err, st') \<and> set_ok st' \<and> default_view st' = d
    \<and> new_spec env = (err, map_option named d, {k. set_view st' k \<noteq> None})"
proof -
  have nodef: "k8_Default (fst st) = None" by (simp add: assms(2) zero_K8S_def)
  show ?thesis
  proof (cases "kubeconfig env (config_file env [])")
    case (Inl err)
    have "set_ok st" "set_view st k = None" "default_view st = None" for k
      using set_ok_empty [OF assms(3)] by (simp_all add: assms(2) set_view_def zero_K8S_def default_view_def)
    with Inl nodef show ?thesis by (simp add: init_body_def LoadKubeConfig_run new_spec_def)
  next
    case (Inr c)
    from load_kube_empty [OF Inr assms] obtain st1
      where st1: "LoadKubeConfig env order [] st = Inr (None, st1)" "set_ok st1"
        "{k. set_view st1 k \<noteq> None} = kube_names env c" "default_view st1 = kube_default env c"
      by blast
    show ?thesis
    proof (cases "in_cluster env")
      case (Inl err)
      with Inr nodef st1 show ?thesis by (simp add: init_body_def loadInCluster_run new_spec_def)
    next
      case inc: (Inr l)
      show ?thesis
      proof (cases l)
        case None
        with Inr inc nodef st1 show ?thesis
          by (simp add: init_body_def loadInCluster_run new_spec_def)
      next
        case (Some x)
        from register_incluster [OF st1(2,4), of "''incluster''" x] obtain st2
          where "register True ''incluster'' x st1 = Inr st2" "set_ok st2"
            "{k. set_view st2 k \<noteq> None} = insert ''incluster'' {k. set_view st1 k \<noteq> None}"
            "default_view st2 = Some (case kube_default env c of None \<Rightarrow> x | Some x \<Rightarrow> x)"
          by blast
        with Inr inc nodef st1 Some show ?thesis
          by (simp add: init_body_def loadInCluster_run new_spec_def)
      qed
    qed
  qed
qed

lemma K8S_New_run:
  assumes "env_ok env order" and "wf_store h"
  shows "\<exists>err log st'. K8S_New env order h = Inr (err, log, st') \<and> set_ok st'
    \<and> new_spec env = (err, default_view st', {k. set_view st' k \<noteq> None})"
proof -
  let ?st = "(zero_K8S\<lparr>k8_ByName := Some (\<lambda>_. None)\<rparr>, h)"
  from init_body_empty [OF assms(1) refl assms(2)] obtain err st1
    where b: "init_body env order ?st = Inr (err, st1)" "set_ok st1"
      "new_spec env = (err, map_option named (default_view st1), {k. set_view st1 k \<noteq> None})"
    by blast
  from init_deferred_run [OF b(2)] obtain st2
    where d: "init_deferred st1 = Inr st2" "set_ok st2" "default_view st2 = map_option named (default_view st1)"
      "\<forall>k. set_view st2 k = (if k8_Default (fst st1) \<noteq> None
            \<and> map_get (k8_ByName (fst st1)) k = k8_Default (fst st1)
          then default_view st2 else set_view st1 k)"
    by blast
  have "set_view st1 k = default_view st1"
    if "map_get (k8_ByName (fst st1)) k = k8_Default (fst st1)" for k
    by (simp add: that set_view_def default_view_def)
  then have "(set_view st2 k \<noteq> None) = (set_view st1 k \<noteq> None)" for k
    using d(3,4) by simp
  with b d show ?thesis by (auto simp: K8S_New_def K8S_init_def Let_def)
qed

lemma demo_env_ok: "env_ok demo_env [''b'', ''a'']"
  using demo_env_config demo_contexts_ok demo_range by (simp add: env_ok_def)

lemma demo_new_spec: "\<exists>c. new_spec demo_env = (None, Some c, {''a''})"
proof -
  have load: "ctx_cluster demo_env zero_K8S demo_config k =
      (if k = ''a'' then Some (context_cluster demo_env zero_K8S demo_config k zero_rest_config) else None)" for k
    by (simp add: ctx_cluster_def demo_env_def demo_config_def)
  have "in_cluster demo_env = Inr None" by (simp add: in_cluster_def demo_env_def)
  moreover have "kube_names demo_env (Some demo_config) = {''a''}"
    using load by (auto simp: kube_names_def split: if_splits)
  moreover have "kube_default demo_env (Some demo_config) \<noteq> None"
    by (simp add: kube_default_def load) (simp add: demo_config_def)
  ultimately show ?thesis by (auto simp: new_spec_def demo_env_config)
qed

text \<open>
  C3: \<open>New\<close> never panics, whatever the order in which the contexts are visited, and its
  outcome is that of its specification: the error of the kubeconfig or of the pod's service
  account; the clusters are the contexts that load, and the local one; the default is the
  current context of the kubeconfig if it loads, otherwise the local cluster, otherwise nil.
\<close>

theorem K8S_New_spec:
  assumes "env_ok env order" and "wf_store h"
  shows "\<exists>err log st'. K8S_New env order h = Inr (err, log, st')
    \<and> new_spec env = (err, default_view st', {k. set_view st' k \<noteq> None})"
  using K8S_New_run [OF assms] by blast

theorem K8S_New_spec_witness:
  "\<exists>log st'. K8S_New demo_env [''b'', ''a''] empty_store = Inr (None, log, st')
    \<and> default_view st' \<noteq> None \<and> {k. set_view st' k \<noteq> None} = {''a''}"
  using K8S_New_spec [OF demo_env_ok wf_store_empty] demo_new_spec by auto

text \<open>
  After \<open>New\<close> the default cluster, if there is one, has a namespace and a name, and
  every name of the set that shares the default's pointer shows the completed cluster.
\<close>

lemma K8S_New_default_named:
  assumes "env_ok env order" and "wf_store h"
    and "K8S_New env order h = Inr (err, log, (kr, h'))" and "k8_Default kr = Some r"
  shows "\<exists>c. cells h' r = Some c \<and> kc_Namespace c \<noteq> [] \<and> kc_Name c \<noteq> []
    \<and> (\<forall>k. map_get (k8_ByName kr) k = Some r \<longrightarrow> set_view (kr, h') k = Some c)"
proof -
  from K8S_New_run [OF assms(1,2)] assms(3) have ok: "set_ok (kr, h')"
    and sp: "new_spec env = (err, default_view (kr, h'), {k. set_view (kr, h') k \<noteq> None})"
    by auto
  from ok assms(4) obtain c where c: "cells h' r = Some c" by (auto simp: set_ok_def)
  with assms(4) have "default_view (kr, h') = Some c" by (simp add: default_view_def)
  with sp obtain x where "c = named x"
    by (auto simp: new_spec_def split: sum.splits option.splits)
  with c show ?thesis by (auto simp: named_not_empty set_view_def)
qed

lemma K8S_New_default_named_witness:
  "\<exists>err log kr h' r c. K8S_New demo_env [''b'', ''a''] empty_store = Inr (err, log, (kr, h'))
    \<and> k8_Default kr = Some r \<and> cells h' r = Some c \<and> kc_Namespace c \<noteq> []"
proof -
  from K8S_New_run [OF demo_env_ok wf_store_empty] demo_new_spec obtain log kr h'
    where n: "K8S_New demo_env [''b'', ''a''] empty_store = Inr (None, log, (kr, h'))"
      "default_view (kr, h') \<noteq> None"
    by (metis option.distinct(1) prod.exhaust prod.inject)
  then obtain r where "k8_Default kr = Some r" by (auto simp: default_view_def split: option.splits)
  from K8S_New_default_named [OF demo_env_ok wf_store_empty n(1) this] n(1) this show ?thesis by blast
qed

text \<open>
  A set can have clusters and no default: when the current context does not load and the
  process is not in a cluster, \<open>New\<close> reports no error, the loaded contexts are in the set,
  the default is nil, and every token request of the set fails with \<open>No default cluster\<close>.
\<close>

lemma K8S_New_no_default:
  assumes "env_ok env order" and "wf_store h"
    and "kubeconfig env (config_file env []) = Inr (Some cfg)" and "in_cluster env = Inr None"
    and "ctx_cluster env zero_K8S cfg (ac_CurrentContext cfg) = None"
    and "ctx_cluster env zero_K8S cfg k \<noteq> None"
  shows "\<exists>log st'. K8S_New env order h = Inr (None, log, st')
    \<and> set_view st' k \<noteq> None \<and> k8_Default (fst st') = None
    \<and> K8S_GetToken api st' aud w = Inr (([], Some (ErrNew ''No default cluster'')), st', w)"
proof -
  have "new_spec env = (None, None, kube_names env (Some cfg))"
    using assms(3-5) by (simp add: new_spec_def kube_default_def)
  moreover have "k \<in> kube_names env (Some cfg)"
    using assms(6) by (simp add: kube_names_def)
  moreover note K8S_New_run [OF assms(1,2)]
  ultimately obtain log st' where st': "K8S_New env order h = Inr (None, log, st')" "set_ok st'"
    "default_view st' = None" "set_view st' k \<noteq> None"
    by auto
  then have "k8_Default (fst st') = None" by (simp add: default_view_None_iff)
  moreover from this have "K8S_GetToken api st' aud w = Inr (([], Some (ErrNew ''No default cluster'')), st', w)"
    by (cases st') (simp add: K8S_GetToken_def)
  ultimately show ?thesis using st' by blast
qed

lemma K8S_New_no_default_witness:
  "\<exists>log st'. K8S_New (demo_env\<lparr>RawConfig := \<lambda>f. Inr (demo_config\<lparr>ac_CurrentContext := ''b''\<rparr>)\<rparr>)
       [''b'', ''a''] empty_store = Inr (None, log, st') \<and> set_view st' ''a'' \<noteq> None
     \<and> k8_Default (fst st') = None"
proof -
  let ?cfg = "demo_config\<lparr>ac_CurrentContext := ''b''\<rparr>"
  let ?env = "demo_env\<lparr>RawConfig := \<lambda>f. Inr ?cfg\<rparr>"
  have k: "kubeconfig ?env (config_file ?env []) = Inr (Some ?cfg)"
    by (simp add: kubeconfig_def demo_env_def)
  have "contexts_ok ?env ?cfg" by (auto simp: contexts_ok_def demo_env_def demo_config_def)
  moreover have "range_order [''b'', ''a''] (map_get (ac_Contexts ?cfg))"
    using demo_range by simp
  ultimately have ok: "env_ok ?env [''b'', ''a'']" using k by (simp add: env_ok_def)
  have i: "in_cluster ?env = Inr None" by (simp add: in_cluster_def demo_env_def)
  have "ctx_cluster ?env zero_K8S ?cfg (ac_CurrentContext ?cfg) = None"
    "ctx_cluster ?env zero_K8S ?cfg ''a'' \<noteq> None"
    by (simp_all add: ctx_cluster_def demo_env_def demo_config_def)
  from K8S_New_no_default [OF ok wf_store_empty k i this, of demo_api "[]" 0]
  show ?thesis by blast
qed

section \<open>The set as a token source\<close>

text \<open>
  The set is ready when its default, if any, can have a clientset. Without a default the
  calls still return.
\<close>

definition set_ready :: "'w k8s_api \<Rightarrow> set_state \<Rightarrow> bool" where
  "set_ready api st \<longleftrightarrow> (\<forall>r. k8_Default (fst st) = Some r \<longrightarrow>
     (\<exists>k. cells (snd st) r = Some k \<and> client_of api k \<noteq> None))"

lemma K8S_GetToken_none:
  "k8_Default (fst st) = None \<Longrightarrow>
     K8S_GetToken api st aud w = Inr (([], Some (ErrNew ''No default cluster'')), st, w)"
  by (cases st) (simp add: K8S_GetToken_def)

lemma K8S_GetToken_run:
  assumes "k8_Default kr = Some r" and "cells h r = Some k" and "client_of api k = Some c"
  shows "K8S_GetToken api (kr, h) aud w =
    (case create_token api c (or_default (kc_Namespace k)) (or_default (kc_KSA k)) [aud] w of
       (res, w') \<Rightarrow> Inr (token_result res,
          (kr, h\<lparr>cells := (cells h)(r \<mapsto> k\<lparr>kc_client := Some c\<rparr>)\<rparr>), w'))"
  using assms
  by (simp add: K8S_GetToken_def via_def load_def save_def GetTokenRaw_run split: prod.split)

interpretation ks: token_source "K8S_GetToken api" "set_ready api" for api
proof
  fix st aud w
  assume r: "set_ready api st"
  show "\<exists>res s' w'. K8S_GetToken api st aud w = Inr (res, s', w')"
  proof (cases "k8_Default (fst st)")
    case None
    then show ?thesis by (simp add: K8S_GetToken_none)
  next
    case (Some p)
    with r obtain k c where "cells (snd st) p = Some k" "client_of api k = Some c"
      by (auto simp: set_ready_def)
    with Some K8S_GetToken_run [of "fst st" p "snd st" k api c] show ?thesis
      by (cases st) (simp split: prod.splits)
  qed
next
  fix st aud w res s' w'
  assume r: "set_ready api st" and g: "K8S_GetToken api st aud w = Inr (res, s', w')"
  show "set_ready api s'"
  proof (cases "k8_Default (fst st)")
    case None
    with g r show ?thesis by (simp add: K8S_GetToken_none)
  next
    case (Some p)
    with r obtain k c where "cells (snd st) p = Some k" "client_of api k = Some c"
      by (auto simp: set_ready_def)
    with Some g K8S_GetToken_run [of "fst st" p "snd st" k api c] show ?thesis
      by (cases st) (auto simp: set_ready_def split: prod.splits)
  qed
next
  fix st aud w tok err s' w'
  assume r: "set_ready api st" and g: "K8S_GetToken api st aud w = Inr ((tok, Some err), s', w')"
  show "tok = []"
  proof (cases "k8_Default (fst st)")
    case None
    with g show ?thesis by (simp add: K8S_GetToken_none)
  next
    case (Some p)
    with r obtain k c where "cells (snd st) p = Some k" "client_of api k = Some c"
      by (auto simp: set_ready_def)
    with Some g K8S_GetToken_run [of "fst st" p "snd st" k api c] show ?thesis
      by (cases st) (auto simp: token_result_def split: prod.splits sum.splits)
  qed
qed

end
