(* ===== verification/Gke.thy ===== *)
theory Gke
  imports ClusterSetFacts AuthProvider Base64
begin

text \<open>
  The GKE module of \<open>gcp/gke.go\<close>: its data, its tokens, and the loading of clusters from the
  GKE and Hub APIs. The Google clients, the metadata server and the mesh library are the
  parameter record \<open>gcp_api\<close>, over a state \<open>'w\<close> of the services they reach. The set of
  clusters the module points to is the set of theory ClusterSet.
\<close>

section \<open>Data\<close>

text \<open>
  Where tokens come from. An access token source is a handle; a federated source is the
  configuration given to \<open>stsd.NewFederatedTokenSource\<close>, over a cluster or the whole set.
\<close>

datatype access_source = ComputeSource string | CredsSource nat

datatype raw_source = ClusterSource "ref option" | SetSource

record sts_config =
  sts_AudienceSource :: string
  sts_TokenSource :: raw_source
  sts_GSA :: string

datatype auth_provider = ClusterProvider "ref option" | FedProvider sts_config

record mesh =
  ms_Namespace :: string
  ms_MeshAddr :: string
  ms_GSA :: string
  ms_AuthProviders :: "(string, auth_provider) gomap"

text \<open>\<open>ot_id_token\<close> is what \<open>Extra("id_token")\<close> gives: \<open>None\<close> when it is not a string.\<close>

record oauth_token =
  ot_AccessToken :: string
  ot_id_token :: "string option"

record crm_project =
  crm_ProjectNumber :: "64 word"

record GKE =
  g_Mesh :: mesh
  g_AccessTokenSource :: "access_source option"
  g_TokenSource :: "sts_config option"
  g_projectData :: "crm_project option"
  g_authScheme :: string

definition new_GKE :: "mesh \<Rightarrow> GKE" where
  "new_GKE ms = \<lparr>g_Mesh = ms, g_AccessTokenSource = None, g_TokenSource = None,
     g_projectData = None, g_authScheme = []\<rparr>"

datatype client_option = WithQuotaProject string | WithTokenSource

record membership =
  mb_Name :: string

datatype gke_client = GKEClient nat
datatype hub_client = HubClient nat
datatype hub_iter = HubIter nat

record 'w gcp_api =
  mds_ProjectID :: string
  mds_NumericProjectID :: string
  metadata_get :: "string \<Rightarrow> 'w \<Rightarrow> (go_error + string) \<times> 'w"
  access_token :: "access_source \<Rightarrow> 'w \<Rightarrow> (go_error + oauth_token) \<times> 'w"
  fed_token :: "sts_config \<Rightarrow> string \<Rightarrow> 'w \<Rightarrow> (string \<times> go_error option) \<times> 'w"
  new_cluster_manager :: "client_option list \<Rightarrow> 'w \<Rightarrow> (go_error + gke_client) \<times> 'w"
  get_cluster :: "gke_client \<Rightarrow> string \<Rightarrow> 'w \<Rightarrow> (go_error + pb_cluster) \<times> 'w"
  list_clusters :: "gke_client \<Rightarrow> string \<Rightarrow> 'w \<Rightarrow> (go_error + pb_cluster list) \<times> 'w"
  new_hub_client :: "client_option list \<Rightarrow> 'w \<Rightarrow> (go_error + hub_client) \<times> 'w"
  list_memberships :: "hub_client \<Rightarrow> string \<Rightarrow> 'w \<Rightarrow> hub_iter \<times> 'w"
  next_membership :: "hub_iter \<Rightarrow> 'w \<Rightarrow> (go_error + membership) \<times> 'w"
  crm_service :: "'w \<Rightarrow> go_error option \<times> 'w"
  crm_get :: "string \<Rightarrow> 'w \<Rightarrow> (go_error + crm_project) \<times> 'w"

type_synonym gke_state = "GKE \<times> set_state"

section \<open>Projects\<close>

text \<open>
  What \<open>mdsd.Get(mesh)\<close> answers for the project is configuration of the mesh, read from the
  environment or the metadata server once.
\<close>

definition ProjectId :: "'w gcp_api \<Rightarrow> GKE \<Rightarrow> string" where
  "ProjectId api g = mds_ProjectID api"

definition ProjectData :: "'w gcp_api \<Rightarrow> GKE \<Rightarrow> 'w \<Rightarrow> crm_project option \<times> GKE \<times> 'w" where
  "ProjectData api g w =
     (case g_projectData g of
        Some p \<Rightarrow> (Some p, g, w)
      | None \<Rightarrow>
          (case crm_service api w of
             (Some err, w1) \<Rightarrow> (None, g, w1)
           | (None, w1) \<Rightarrow>
               (let pid = ProjectId api g in
                if pid = [] then (None, g, w1)
                else (case crm_get api pid w1 of
                    (Inl err, w2) \<Rightarrow> (None, g, w2)
                  | (Inr pdata, w2) \<Rightarrow> (Some pdata, g\<lparr>g_projectData := Some pdata\<rparr>, w2)))))"

definition NumericProjectIdResourceManager :: "'w gcp_api \<Rightarrow> GKE \<Rightarrow> 'w \<Rightarrow> string \<times> GKE \<times> 'w" where
  "NumericProjectIdResourceManager api g w =
     (case ProjectData api g w of
        (None, g1, w1) \<Rightarrow> ([], g1, w1)
      | (Some pdata, g1, w1) \<Rightarrow> (itoa (sint (crm_ProjectNumber pdata)), g1, w1))"

definition NumericProjectId :: "'w gcp_api \<Rightarrow> GKE \<Rightarrow> 'w \<Rightarrow> string \<times> GKE \<times> 'w" where
  "NumericProjectId api g w =
     (let n = mds_NumericProjectID api in
      if n \<noteq> [] then (n, g, w) else NumericProjectIdResourceManager api g w)"

definition RegionFromMetadata :: "'w gcp_api \<Rightarrow> 'w \<Rightarrow> (string \<times> go_error option) \<times> 'w" where
  "RegionFromMetadata api w =
     (case metadata_get api ''instance/region'' w of
        (Inl err, w1) \<Rightarrow> (([], Some err), w1)
      | (Inr v, w1) \<Rightarrow>
          (let vs = go_split_after v ''/regions/'' in
           if length vs \<noteq> 2 then (([], Some (ErrNew ''malformed region value'')), w1)
           else ((vs ! 1, None), w1)))"

section \<open>Tokens\<close>

definition GKE_GetToken :: "'w gcp_api \<Rightarrow> GKE \<Rightarrow> string \<Rightarrow> 'w
    \<Rightarrow> ((string \<times> go_error option) \<times> GKE \<times> 'w) exec" where
  "GKE_GetToken api g aud w =
     (if aud \<noteq> [] \<and> g_TokenSource g \<noteq> None then
        (case fed_token api (the (g_TokenSource g)) aud w of (r, w1) \<Rightarrow> Inr (r, g, w1))
      else
        (case g_AccessTokenSource g of
           None \<Rightarrow> Inl NilDeref
         | Some s \<Rightarrow>
             (case access_token api s w of
                (Inl err, w1) \<Rightarrow> Inr (([], Some err), g, w1)
              | (Inr t, w1) \<Rightarrow>
                  (if aud \<noteq> [] then
                     (case ot_id_token t of
                        Some idts \<Rightarrow> Inr ((idts, None), g, w1)
                      | None \<Rightarrow> Inr (([], Some (ErrNew ''Unsupported ID tokens'')), g, w1))
                   else Inr ((ot_AccessToken t, None), g, w1)))))"

definition Token :: "'w gcp_api \<Rightarrow> GKE \<Rightarrow> 'w \<Rightarrow> ((go_error + oauth_token) \<times> 'w) exec" where
  "Token api g w =
     (case g_AccessTokenSource g of
        Some s \<Rightarrow> Inr (access_token api s w)
      | None \<Rightarrow>
          (case g_TokenSource g of
             None \<Rightarrow> Inl NilDeref
           | Some s \<Rightarrow>
               (case fed_token api s [] w of
                  ((t, Some err), w1) \<Rightarrow> Inr (Inl err, w1)
                | ((t, None), w1) \<Rightarrow> Inr (Inr \<lparr>ot_AccessToken = t, ot_id_token = None\<rparr>, w1))))"

section \<open>Loading clusters\<close>

definition gke_options :: "'w gcp_api \<Rightarrow> GKE \<Rightarrow> string \<Rightarrow> client_option list" where
  "gke_options api g configProjectId =
     (let p = (if configProjectId = [] then ProjectId api g else configProjectId)
      in (if p \<noteq> ProjectId api g then [WithQuotaProject p] else []) @ [WithTokenSource])"

definition loadRestsConfig :: "GKE \<Rightarrow> pb_cluster \<Rightarrow> rest_config exec" where
  "loadRestsConfig g c =
     (case pb_ClusterCaCertificate c of
        None \<Rightarrow> Inl NilDeref
      | Some ca \<Rightarrow> Inr (zero_rest_config\<lparr>rc_Host := pb_Endpoint c,
          rc_AuthProvider := Some (g_authScheme g), rc_CAData := b64_decode ca\<rparr>))"

definition hubConfig :: "GKE \<Rightarrow> string \<Rightarrow> string \<Rightarrow> rest_config" where
  "hubConfig g url ctxName = zero_rest_config\<lparr>
     rc_Host := ''https://connectgateway.googleapis.com'' @ url,
     rc_AuthProvider := Some (g_authScheme g)\<rparr>"

text \<open>One cluster of the answer of the GKE API: it is new in the store, and registered if its name is not.\<close>

definition gke_cluster :: "GKE \<Rightarrow> string \<Rightarrow> pb_cluster \<Rightarrow> rest_config \<Rightarrow> K8SCluster" where
  "gke_cluster g project c rc = zero_cluster\<lparr>
     kc_Name := ''gke_'' @ project @ ''_'' @ pb_Location c @ ''_'' @ pb_Name c,
     kc_RestConfig := Some rc,
     kc_Namespace := ms_Namespace (g_Mesh g),
     kc_RawConfig := RawGKE c\<rparr>"

definition load_gke_cluster :: "GKE \<Rightarrow> string \<Rightarrow> pb_cluster \<Rightarrow> ref list \<times> set_state
    \<Rightarrow> (ref list \<times> set_state) exec" where
  "load_gke_cluster g project c s = (case s of (l, kr, h) \<Rightarrow>
     bnd (loadRestsConfig g c) (\<lambda>rc.
       let gkk = gke_cluster g project c rc in
       case alloc gkk h of (r, h') \<Rightarrow>
         (if map_get (k8_ByName kr) (kc_Name gkk) = None
          then bnd (map_put (k8_ByName kr) (kc_Name gkk) r) (\<lambda>m. Inr (l @ [r], kr\<lparr>k8_ByName := m\<rparr>, h'))
          else Inr (l @ [r], kr, h'))))"

definition LoadGKEClusters :: "'w gcp_api \<Rightarrow> string \<Rightarrow> string \<Rightarrow> gke_state \<Rightarrow> 'w
    \<Rightarrow> ((go_error + ref list) \<times> gke_state \<times> 'w) exec" where
  "LoadGKEClusters api configProjectId location st w = (case st of (g, ks) \<Rightarrow>
     (let opts = gke_options api g configProjectId;
          project = (if configProjectId = [] then ProjectId api g else configProjectId)
      in case new_cluster_manager api opts w of
        (Inl err, w1) \<Rightarrow> Inr (Inl err, (g, ks), w1)
      | (Inr cl, w1) \<Rightarrow>
          (let location = (if location = [] then ''-'' else location) in
           case list_clusters api cl (''projects/'' @ project @ ''/locations/'' @ location) w1 of
             (Inl err, w2) \<Rightarrow> Inr (Inl err, (g, ks), w2)
           | (Inr clusters, w2) \<Rightarrow>
               bnd (loopM (load_gke_cluster g project) clusters ([], ks)) (\<lambda>(l, ks').
                 Inr (Inr l, (g, ks'), w2)))))"

text \<open>
  One member of the hub. The last part of its name is its short name; the number of the
  project is asked for with every member.
\<close>

definition hub_member :: "'w gcp_api \<Rightarrow> membership \<Rightarrow> gke_state \<Rightarrow> 'w \<Rightarrow> (ref \<times> gke_state \<times> 'w) exec" where
  "hub_member api nxt st w = (case st of (g, kr, h) \<Rightarrow>
     (let mna = go_split (mb_Name nxt) ''/'' in
      bnd (idx mna (length mna - 1)) (\<lambda>mn.
        let ctxName = ''connectgateway_'' @ ProjectId api g @ ''_global_'' @ mn in
        case NumericProjectId api g w of (num, g1, w1) \<Rightarrow>
          let curl = ''/v1/projects/'' @ num @ ''/locations/global/gkeMemberships/'' @ mn;
              gk = zero_cluster\<lparr>kc_Name := ctxName, kc_RestConfig := Some (hubConfig g1 curl ctxName)\<rparr>
          in case alloc gk h of (r, h') \<Rightarrow>
            bnd (map_put (k8_ByName kr) (kc_Name gk) r) (\<lambda>m.
              Inr (r, (g1, kr\<lparr>k8_ByName := m\<rparr>, h'), w1)))))"

text \<open>The loop over the iterator. \<open>None\<close> is a run that never returns.\<close>

partial_function (option) hub_loop :: "'w gcp_api \<Rightarrow> hub_iter \<Rightarrow> ref list \<Rightarrow> gke_state \<Rightarrow> 'w
    \<Rightarrow> ((go_error + ref list) \<times> gke_state \<times> 'w) exec option" where
  "hub_loop api mr l st w =
     (case next_membership api mr w of
        (Inl err, w1) \<Rightarrow>
          (if err = IteratorDone then Some (Inr (Inr l, st, w1)) else Some (Inr (Inl err, st, w1)))
      | (Inr nxt, w1) \<Rightarrow>
          (case hub_member api nxt st w1 of
             Inl p \<Rightarrow> Some (Inl p)
           | Inr res \<Rightarrow>
               (case res of (r, st', w2) \<Rightarrow> hub_loop api mr (l @ [r]) st' w2)))"

definition LoadHubClusters :: "'w gcp_api \<Rightarrow> string \<Rightarrow> gke_state \<Rightarrow> 'w
    \<Rightarrow> ((go_error + ref list) \<times> gke_state \<times> 'w) exec option" where
  "LoadHubClusters api configProjectId st w =
     (case new_hub_client api (gke_options api (fst st) configProjectId) w of
        (Inl err, w1) \<Rightarrow> Some (Inr (Inl err, st, w1))
      | (Inr mc, w1) \<Rightarrow>
          (let project = (if configProjectId = [] then ProjectId api (fst st) else configProjectId)
           in case list_memberships api mc (''projects/'' @ project @ ''/locations/-'') w1 of
             (mr, w2) \<Rightarrow> hub_loop api mr [] st w2))"

text \<open>
  \<open>GKECluster\<close> asks for one cluster, at most five times. The loop has the tries left and
  the error of the last try.
\<close>

fun get_cluster_tries :: "'w gcp_api \<Rightarrow> gke_client \<Rightarrow> string \<Rightarrow> nat \<Rightarrow> go_error option \<Rightarrow> 'w
    \<Rightarrow> (go_error option + pb_cluster) \<times> 'w" where
  "get_cluster_tries api cl p 0 err w = (Inl err, w)"
| "get_cluster_tries api cl p (Suc n) err w =
     (case get_cluster api cl p w of
        (Inr c, w1) \<Rightarrow> (Inr c, w1)
      | (Inl e, w1) \<Rightarrow> get_cluster_tries api cl p n (Some e) w1)"

definition GKECluster :: "'w gcp_api \<Rightarrow> string \<Rightarrow> gke_state \<Rightarrow> 'w
    \<Rightarrow> ((ref option \<times> go_error option) \<times> gke_state \<times> 'w) exec" where
  "GKECluster api p st w = (case st of (g, kr, h) \<Rightarrow>
     (case new_cluster_manager api (gke_options api g []) w of
        (Inl err, w1) \<Rightarrow> Inr ((None, Some err), st, w1)
      | (Inr cl, w1) \<Rightarrow>
          (case get_cluster_tries api cl p 5 None w1 of
             (Inl err, w2) \<Rightarrow> Inr ((None, err), st, w2)
           | (Inr c, w2) \<Rightarrow>
               bnd (loadRestsConfig g c) (\<lambda>rc.
                 let k = zero_cluster\<lparr>kc_RestConfig := Some rc, kc_RawConfig := RawGKE c,
                       kc_Name := ''gke_'' @ p @ ''_'' @ pb_Location c @ ''_'' @ pb_Name c\<rparr>
                 in case alloc k h of (r, h') \<Rightarrow> Inr ((Some r, None), (g, kr, h'), w2)))))"

end
