(* ===== verification/GkeFacts.thy ===== *)
theory GkeFacts
  imports Gke
begin

text \<open>
  What the loading of clusters and the tokens of the GKE module promise.
\<close>

section \<open>LoadGKEClusters against its specification\<close>

text \<open>The cluster an answer of the API stands for; the API documents that \<open>MasterAuth\<close> is set.\<close>

definition gke_rest :: "GKE \<Rightarrow> pb_cluster \<Rightarrow> rest_config" where
  "gke_rest g c = zero_rest_config\<lparr>rc_Host := pb_Endpoint c,
     rc_AuthProvider := Some (g_authScheme g),
     rc_CAData := (case pb_ClusterCaCertificate c of None \<Rightarrow> None | Some ca \<Rightarrow> b64_decode ca)\<rparr>"

definition gke_entry :: "GKE \<Rightarrow> string \<Rightarrow> pb_cluster \<Rightarrow> K8SCluster" where
  "gke_entry g project c = gke_cluster g project c (gke_rest g c)"

lemma loadRestsConfig_run:
  "pb_ClusterCaCertificate c \<noteq> None \<Longrightarrow> loadRestsConfig g c = Inr (gke_rest g c)"
  by (auto simp: loadRestsConfig_def gke_rest_def)

text \<open>A cluster that is created but not registered.\<close>

lemma alloc_unregistered:
  assumes "set_ok st" and "alloc c (snd st) = (r, h')"
  shows "set_ok (fst st, h') \<and> set_view (fst st, h') = set_view st
    \<and> default_view (fst st, h') = default_view st \<and> cells h' r = Some c
    \<and> (\<forall>p v. cells (snd st) p = Some v \<longrightarrow> cells h' p = Some v)"
proof -
  have wf: "wf_store (snd st)" using assms(1) by (simp add: set_ok_def)
  note new = rs.load_alloc [OF wf assms(2)] and wf' = rs.ok_alloc [OF wf assms(2)]
  have keep: "cells (snd st) p = Some v \<Longrightarrow> cells h' p = Some v" for p v
    using rs.load_alloc_other [OF wf assms(2), of "Some p" v] by simp
  have same: "cells (snd st) p \<noteq> None \<Longrightarrow> cells h' p = cells (snd st) p" for p
    using keep by auto
  have "set_ok (fst st, h')" using assms(1) wf' same by (simp add: set_ok_def)
  moreover have "set_view (fst st, h') = set_view st"
    using assms(1) same by (auto simp: set_view_def set_ok_def fun_eq_iff split: option.split)
  moreover have "default_view (fst st, h') = default_view st"
    using assms(1) same by (auto simp: default_view_def set_ok_def split: option.split)
  ultimately show ?thesis using new keep by auto
qed

lemma set_view_None_iff: "set_ok st \<Longrightarrow> set_view st k = None \<longleftrightarrow> map_get (k8_ByName (fst st)) k = None"
  by (auto simp: set_view_def set_ok_def split: option.splits)

text \<open>
  Progress of the loop: the pointers returned so far show the clusters seen so far, a name
  that was known keeps its cluster, and a new name has the first cluster seen with it.
\<close>

definition gke_loaded :: "GKE \<Rightarrow> string \<Rightarrow> set_state \<Rightarrow> pb_cluster list \<Rightarrow> ref list \<times> set_state \<Rightarrow> bool" where
  "gke_loaded g project ks seen s = (case s of (l, ks') \<Rightarrow> set_ok ks'
     \<and> default_view ks' = default_view ks
     \<and> map (cells (snd ks')) l = map (Some \<circ> gke_entry g project) seen
     \<and> (\<forall>k. set_view ks' k = (case set_view ks k of Some c \<Rightarrow> Some c
          | None \<Rightarrow> find (\<lambda>c. kc_Name c = k) (map (gke_entry g project) seen))))"

lemma cells_kept:
  assumes "map (cells h) l = map (Some \<circ> f) xs" and "\<forall>p v. cells h p = Some v \<longrightarrow> cells h' p = Some v"
  shows "map (cells h') l = map (Some \<circ> f) xs"
proof -
  have "cells h' p = cells h p" if "p \<in> set l" for p
  proof -
    have "cells h p \<in> set (map (Some \<circ> f) xs)" using that assms(1) [symmetric] by simp
    then obtain v where "cells h p = Some v" by auto
    with assms(2) show ?thesis by simp
  qed
  then have "map (cells h') l = map (cells h) l" by simp
  with assms(1) show ?thesis by simp
qed

lemma load_gke_step:
  assumes "gke_loaded g project ks seen s" and "pb_ClusterCaCertificate c \<noteq> None"
  shows "\<exists>s'. load_gke_cluster g project c s = Inr s' \<and> gke_loaded g project ks (seen @ [c]) s'"
proof -
  obtain l kr h where s: "s = (l, kr, h)" by (cases s)
  let ?c = "gke_entry g project c" and ?st = "(kr, h)"
  have ok: "set_ok ?st" and view: "set_view ?st k = (case set_view ks k of Some c \<Rightarrow> Some c
      | None \<Rightarrow> find (\<lambda>c. kc_Name c = k) (map (gke_entry g project) seen))"
    and cells: "map (cells h) l = map (Some \<circ> gke_entry g project) seen"
    and def: "default_view ?st = default_view ks" for k
    using assms(1) by (simp_all add: gke_loaded_def s)
  obtain r h' where a: "alloc ?c h = (r, h')" by (cases "alloc ?c h")
  show ?thesis
  proof (cases "map_get (k8_ByName kr) (kc_Name ?c) = None")
    case True
    from register_run [OF ok, of False "kc_Name ?c" ?c] obtain st'
      where reg: "register False (kc_Name ?c) ?c ?st = Inr st'" "set_ok st'"
        "set_view st' = (set_view ?st)(kc_Name ?c := Some ?c)"
        "default_view st' = default_view ?st"
        "\<forall>r v. cells h r = Some v \<longrightarrow> cells (snd st') r = Some v"
      by (auto simp del: fun_upd_apply)
    from reg(1) a obtain m where m: "map_put (k8_ByName kr) (kc_Name ?c) r = Inr m"
      "st' = (kr\<lparr>k8_ByName := m\<rparr>, h')"
      by (auto simp: register_def bnd_eq_Inr_iff Let_def)
    have run: "load_gke_cluster g project c s = Inr (l @ [r], st')"
      using True a m by (simp add: s load_gke_cluster_def loadRestsConfig_run [OF assms(2)] Let_def
          flip: gke_entry_def)
    have "cells h' r = Some ?c"
      using alloc_unregistered [OF ok, of ?c r h'] a by simp
    moreover have "map (cells h') l = map (Some \<circ> gke_entry g project) seen"
      using cells_kept [OF cells] reg(5) m(2) by simp
    moreover have "set_view ?st (kc_Name ?c) = None"
      using True set_view_None_iff [OF ok] by simp
    ultimately have "gke_loaded g project ks (seen @ [c]) (l @ [r], st')"
      using reg(2-4) m(2) def view
      by (auto simp: gke_loaded_def find_append split: option.splits)
    with run show ?thesis by blast
  next
    case False
    note un = alloc_unregistered [OF ok, of ?c r h', simplified, OF a]
    have run: "load_gke_cluster g project c s = Inr (l @ [r], kr, h')"
      using False a by (auto simp: s load_gke_cluster_def loadRestsConfig_run [OF assms(2)] Let_def
          simp flip: gke_entry_def)
    have "map (cells h') l = map (Some \<circ> gke_entry g project) seen"
      using cells_kept [OF cells] un by blast
    moreover have "set_view ?st (kc_Name ?c) \<noteq> None"
      using False set_view_None_iff [OF ok] by simp
    ultimately have "gke_loaded g project ks (seen @ [c]) (l @ [r], kr, h')"
      using un def view by (auto simp: gke_loaded_def find_append split: option.splits)
    with run show ?thesis by blast
  qed
qed

lemma load_gke_loop:
  assumes "set_ok ks" and "\<forall>c \<in> set cs. pb_ClusterCaCertificate c \<noteq> None"
  shows "\<exists>s'. loopM (load_gke_cluster g project) cs ([], ks) = Inr s' \<and> gke_loaded g project ks cs s'"
proof (rule loopM_rule [where P = "gke_loaded g project ks"])
  show "gke_loaded g project ks [] ([], ks)"
    using assms(1) by (simp add: gke_loaded_def split: option.split)
next
  fix seen x rest t
  assume "cs = seen @ x # rest" and "gke_loaded g project ks seen t"
  with assms(2) show "\<exists>t'. load_gke_cluster g project x t = Inr t' \<and> gke_loaded g project ks (seen @ [x]) t'"
    by (intro load_gke_step) auto
qed

lemma LoadGKEClusters_run:
  assumes "new_cluster_manager api (gke_options api g p) w = (Inr cl, w1)"
    and "list_clusters api cl (''projects/'' @ project @ ''/locations/'' @ (if loc = [] then ''-'' else loc)) w1
      = (Inr cs, w2)"
    and "project = (if p = [] then ProjectId api g else p)"
    and "set_ok ks" and "\<forall>c \<in> set cs. pb_ClusterCaCertificate c \<noteq> None"
  shows "\<exists>l ks'. LoadGKEClusters api p loc (g, ks) w = Inr (Inr l, (g, ks'), w2)
    \<and> gke_loaded g project ks cs (l, ks')"
proof -
  from load_gke_loop [OF assms(4,5), of g project] obtain s'
    where "loopM (load_gke_cluster g project) cs ([], ks) = Inr s'" "gke_loaded g project ks cs s'"
    by blast
  with assms(1,2,3) show ?thesis
    by (cases s') (simp add: LoadGKEClusters_def Let_def)
qed

text \<open>A concrete Google API for the witnesses: two clusters, one of which answers by name.\<close>

definition demo_pb :: "string \<Rightarrow> string \<Rightarrow> pb_cluster" where
  "demo_pb l n = \<lparr>pb_Name = n, pb_Location = l, pb_Endpoint = ''1.2.3.4'',
     pb_ClusterCaCertificate = Some ''Y2E=''\<rparr>"

text \<open>The state counts the calls; the third try of \<open>get_cluster\<close> succeeds.\<close>

definition demo_gcp :: "nat gcp_api" where
  "demo_gcp = \<lparr>mds_ProjectID = ''p1'', mds_NumericProjectID = ''42'',
     metadata_get = (\<lambda>k w. (Inr ''projects/42/regions/us-west1'', w)),
     access_token = (\<lambda>s w. (Inr \<lparr>ot_AccessToken = ''at'', ot_id_token = None\<rparr>, w)),
     fed_token = (\<lambda>s aud w. ((''fed'', None), w)),
     new_cluster_manager = (\<lambda>opts w. (Inr (GKEClient 0), w)),
     get_cluster = (\<lambda>cl p w. (if w < 2 then Inl EOF else Inr (demo_pb ''l'' ''n''), Suc w)),
     list_clusters = (\<lambda>cl p w. (Inr [demo_pb ''us-west1'' ''istio'', demo_pb ''eu'' ''b''], Suc w)),
     new_hub_client = (\<lambda>opts w. (Inr (HubClient 0), w)),
     list_memberships = (\<lambda>cl p w. (HubIter 0, 0)),
     next_membership = (\<lambda>it w. (if w < 2 then Inr \<lparr>mb_Name = ''projects/p1/memberships/asm''\<rparr>
        else Inl IteratorDone, Suc w)),
     crm_service = (\<lambda>w. (None, w)),
     crm_get = (\<lambda>p w. (Inr \<lparr>crm_ProjectNumber = 42\<rparr>, w))\<rparr>"

definition demo_mesh :: mesh where
  "demo_mesh = \<lparr>ms_Namespace = ''ns'', ms_MeshAddr = [], ms_GSA = [], ms_AuthProviders = Some (\<lambda>_. None)\<rparr>"

definition demo_gke :: GKE where
  "demo_gke = (new_GKE demo_mesh)\<lparr>g_authScheme := ''gke''\<rparr>"

lemma set_ok_empty_set: "set_ok empty_set"
  unfolding empty_set_def by (rule set_ok_empty) (rule wf_store_empty)

lemma empty_set_view [simp]: "set_view empty_set k = None" "default_view empty_set = None"
  by (simp_all add: set_view_def default_view_def empty_set_def zero_K8S_def)

text \<open>
  C15: \<open>LoadGKEClusters\<close> returns one new cluster for each cluster the API lists, in order,
  named after the project, with the endpoint and the decoded certificate authority of the
  answer. It registers a cluster under its name only if that name is free, so of two with
  one name the first stays, a cluster of the kubeconfig is never replaced, and the default
  is untouched.
\<close>

theorem LoadGKEClusters_spec:
  assumes "new_cluster_manager api (gke_options api g p) w = (Inr cl, w1)"
    and "list_clusters api cl (''projects/'' @ project @ ''/locations/'' @ (if loc = [] then ''-'' else loc)) w1
      = (Inr cs, w2)"
    and "project = (if p = [] then ProjectId api g else p)"
    and "set_ok ks" and "\<forall>c \<in> set cs. pb_ClusterCaCertificate c \<noteq> None"
  shows "\<exists>l ks'. LoadGKEClusters api p loc (g, ks) w = Inr (Inr l, (g, ks'), w2)
    \<and> map (cells (snd ks')) l = map (Some \<circ> gke_entry g project) cs
    \<and> default_view ks' = default_view ks
    \<and> (\<forall>k. set_view ks' k = (case set_view ks k of Some c \<Rightarrow> Some c
          | None \<Rightarrow> find (\<lambda>c. kc_Name c = k) (map (gke_entry g project) cs)))"
  using LoadGKEClusters_run [OF assms] by (fastforce simp: gke_loaded_def)

theorem LoadGKEClusters_spec_witness:
  "\<exists>l ks'. LoadGKEClusters demo_gcp [] [] (demo_gke, empty_set) 0 = Inr (Inr l, (demo_gke, ks'), 1)
    \<and> length l = 2 \<and> set_view ks' ''gke_p1_eu_b'' \<noteq> None"
proof -
  let ?cs = "[demo_pb ''us-west1'' ''istio'', demo_pb ''eu'' ''b'']"
  have "\<exists>l ks'. LoadGKEClusters demo_gcp [] [] (demo_gke, empty_set) 0 = Inr (Inr l, (demo_gke, ks'), 1)
    \<and> map (cells (snd ks')) l = map (Some \<circ> gke_entry demo_gke ''p1'') ?cs
    \<and> default_view ks' = default_view empty_set
    \<and> (\<forall>k. set_view ks' k = (case set_view empty_set k of Some c \<Rightarrow> Some c
          | None \<Rightarrow> find (\<lambda>c. kc_Name c = k) (map (gke_entry demo_gke ''p1'') ?cs)))"
    by (rule LoadGKEClusters_spec [of demo_gcp demo_gke _ _ "GKEClient 0" 0, OF _ _ _ set_ok_empty_set])
      (simp_all add: demo_gcp_def ProjectId_def demo_pb_def)
  then obtain l ks' where r: "LoadGKEClusters demo_gcp [] [] (demo_gke, empty_set) 0 = Inr (Inr l, (demo_gke, ks'), 1)"
    "map (cells (snd ks')) l = map (Some \<circ> gke_entry demo_gke ''p1'') ?cs"
    "\<forall>k. set_view ks' k = find (\<lambda>c. kc_Name c = k) (map (gke_entry demo_gke ''p1'') ?cs)"
    by auto
  have "length l = length ?cs" using arg_cong [OF r(2), of length] by simp
  moreover have "set_view ks' ''gke_p1_eu_b'' \<noteq> None"
    using r(3) by (simp add: gke_entry_def gke_cluster_def demo_pb_def)
  ultimately show ?thesis using r(1) by auto
qed

section \<open>The certificate authority of a GKE cluster\<close>

text \<open>
  The connection of a GKE cluster goes to its endpoint, authenticates with the module's
  scheme, and trusts the bytes the API sent in base 64: every byte string comes back as it was
  encoded, whatever line breaks the text has. A text that was cut, so that its length is no
  multiple of four, gives a configuration without a certificate authority and not an error.
\<close>

lemma loadRestsConfig_ca:
  assumes "pb_ClusterCaCertificate c = Some t"
  shows "\<exists>rc. loadRestsConfig g c = Inr rc \<and> rc_Host rc = pb_Endpoint c
    \<and> rc_AuthProvider rc = Some (g_authScheme g)
    \<and> (\<forall>ca. filter (\<lambda>ch. \<not> is_newline ch) t = b64_encode ca \<longrightarrow> rc_CAData rc = Some ca)
    \<and> (length (filter (\<lambda>ch. \<not> is_newline ch) t) mod 4 \<noteq> 0 \<longrightarrow> rc_CAData rc = None)"
  using assms by (simp add: loadRestsConfig_def b64_decode_encode b64_decode_length)

lemma loadRestsConfig_ca_witness:
  "\<exists>rc. loadRestsConfig demo_gke ((demo_pb ''l'' ''n'')\<lparr>pb_ClusterCaCertificate
       := Some (''aGVs'' @ [CHR 0x0A] @ ''bG8='')\<rparr>) = Inr rc \<and> rc_CAData rc = Some ''hello''"
proof -
  let ?t = "''aGVs'' @ [CHR 0x0A] @ ''bG8=''"
  have "filter (\<lambda>ch. \<not> is_newline ch) ?t = b64_encode ''hello''"
    by (simp add: is_newline_def code_of_def b64_code_def b64_alphabet_def)
  with loadRestsConfig_ca [of "(demo_pb ''l'' ''n'')\<lparr>pb_ClusterCaCertificate := Some ?t\<rparr>" ?t demo_gke]
  show ?thesis by auto
qed

section \<open>Retrying GKECluster\<close>

text \<open>The answers to repeated requests, with the state after each.\<close>

fun answers :: "'w gcp_api \<Rightarrow> gke_client \<Rightarrow> string \<Rightarrow> nat \<Rightarrow> 'w \<Rightarrow> ((go_error + pb_cluster) \<times> 'w) list" where
  "answers api cl p 0 w = []"
| "answers api cl p (Suc n) w =
     (case get_cluster api cl p w of (r, w1) \<Rightarrow> (r, w1) # answers api cl p n w1)"

lemma length_answers: "length (answers api cl p n w) = n"
  by (induction n arbitrary: w) (auto split: prod.split)

lemma get_cluster_tries_success:
  assumes "i < n" and "answers api cl p n w ! i = (Inr c, w')"
    and "\<forall>j < i. \<exists>e w''. answers api cl p n w ! j = (Inl e, w'')"
  shows "get_cluster_tries api cl p n err w = (Inr c, w')"
  using assms
proof (induction n arbitrary: i w err)
  case 0
  then show ?case by simp
next
  case (Suc n)
  obtain r w1 where a: "get_cluster api cl p w = (r, w1)" by (cases "get_cluster api cl p w")
  show ?case
  proof (cases i)
    case 0
    with Suc.prems a show ?thesis by simp
  next
    case (Suc j)
    from Suc.prems(3) a Suc obtain e where "r = Inl e" by auto
    moreover have "\<forall>k < j. \<exists>e w''. answers api cl p n w1 ! k = (Inl e, w'')"
      using Suc.prems(3) a Suc by fastforce
    moreover have "answers api cl p n w1 ! j = (Inr c, w')" "j < n"
      using Suc.prems(1,2) a Suc by simp_all
    ultimately show ?thesis using Suc.IH a by simp
  qed
qed

lemma get_cluster_tries_failure:
  assumes "\<forall>a \<in> set (answers api cl p n w). \<exists>e w'. a = (Inl e, w')"
  shows "get_cluster_tries api cl p n err w =
    (if n = 0 then (Inl err, w)
     else (case last (answers api cl p n w) of (Inl e, w') \<Rightarrow> (Inl (Some e), w') | (Inr c, w') \<Rightarrow> (Inr c, w')))"
  using assms
proof (induction n arbitrary: w err)
  case 0
  then show ?case by simp
next
  case (Suc n)
  obtain r w1 where r: "get_cluster api cl p w = (r, w1)" by (cases "get_cluster api cl p w")
  with Suc.prems obtain e where "r = Inl e" by auto
  with r have a: "get_cluster api cl p w = (Inl e, w1)" by simp
  have ne: "n \<noteq> 0 \<Longrightarrow> answers api cl p n w1 \<noteq> []"
    using length_answers [of api cl p n w1] by auto
  have "get_cluster_tries api cl p n (Some e) w1 = (if n = 0 then (Inl (Some e), w1)
     else (case last (answers api cl p n w1) of (Inl e, w') \<Rightarrow> (Inl (Some e), w') | (Inr c, w') \<Rightarrow> (Inr c, w')))"
    using Suc a by auto
  with a ne show ?case by (cases n) auto
qed

text \<open>
  \<open>GKECluster\<close> makes at most five requests. It uses the first of five that is answered,
  however many fail before it; the cluster is returned but not registered in the set. Its
  name is built from the whole resource path, so \<open>GcpInfo\<close> later gives that path where the
  project should be.
\<close>

lemma GKECluster_success:
  assumes "new_cluster_manager api (gke_options api g []) w = (Inr cl, w1)"
    and "i < 5" and "answers api cl p 5 w1 ! i = (Inr c, w2)"
    and "\<forall>j < i. \<exists>e w'. answers api cl p 5 w1 ! j = (Inl e, w')"
    and "pb_ClusterCaCertificate c \<noteq> None"
    and "CHR ''_'' \<notin> set p" and "CHR ''_'' \<notin> set (pb_Location c)" and "CHR ''_'' \<notin> set (pb_Name c)"
    and "set_ok ks"
  shows "\<exists>r k h'. GKECluster api p (g, ks) w = Inr ((Some r, None), (g, fst ks, h'), w2)
    \<and> cells h' r = Some k \<and> kc_RestConfig k = Some (gke_rest g c)
    \<and> set_view (fst ks, h') = set_view ks
    \<and> (\<exists>k'. GcpInfo k = Inr ((p, pb_Location c, pb_Name c), k'))"
proof -
  obtain kr h where ks: "ks = (kr, h)" by (cases ks)
  let ?k = "zero_cluster\<lparr>kc_RestConfig := Some (gke_rest g c), kc_RawConfig := RawGKE c,
      kc_Name := gke_name p (pb_Location c) (pb_Name c)\<rparr>"
  obtain r h' where a: "alloc ?k h = (r, h')" by (cases "alloc ?k h")
  have "GKECluster api p (g, ks) w = Inr ((Some r, None), (g, kr, h'), w2)"
    using assms(1) get_cluster_tries_success [OF assms(2-4)] loadRestsConfig_run [OF assms(5)] a
    by (simp add: GKECluster_def ks Let_def gke_name_def)
  moreover have "cells h' r = Some ?k" "set_view (kr, h') = set_view ks"
    using alloc_unregistered [OF assms(9), of ?k r h'] a ks by simp_all
  moreover have "\<exists>k'. GcpInfo ?k = Inr ((p, pb_Location c, pb_Name c), k')"
    using assms(6-8) by (simp add: GcpInfo_gke parts_of_gke_name zero_cluster_def)
  ultimately show ?thesis using ks by force
qed

lemma GKECluster_success_witness:
  "\<exists>r h'. GKECluster demo_gcp ''/projects/p1/locations/l/clusters/n'' (demo_gke, empty_set) 0
     = Inr ((Some r, None), (demo_gke, fst empty_set, h'), 3)"
proof -
  have "\<exists>r k h'. GKECluster demo_gcp ''/projects/p1/locations/l/clusters/n'' (demo_gke, empty_set) 0
      = Inr ((Some r, None), (demo_gke, fst empty_set, h'), 3)
    \<and> cells h' r = Some k \<and> kc_RestConfig k = Some (gke_rest demo_gke (demo_pb ''l'' ''n''))
    \<and> set_view (fst empty_set, h') = set_view empty_set
    \<and> (\<exists>k'. GcpInfo k = Inr ((''/projects/p1/locations/l/clusters/n'',
          pb_Location (demo_pb ''l'' ''n''), pb_Name (demo_pb ''l'' ''n'')), k'))"
    by (rule GKECluster_success [of demo_gcp demo_gke 0 "GKEClient 0" 0 2 _ "demo_pb ''l'' ''n''"
          , OF _ _ _ _ _ _ _ _ set_ok_empty_set])
      (auto simp: demo_gcp_def demo_pb_def eval_nat_numeral less_Suc_eq)
  then show ?thesis by blast
qed

text \<open>
  When five requests in a row fail, \<open>GKECluster\<close> returns the error of the fifth and no
  cluster, and leaves the module and the set as they were.
\<close>

lemma GKECluster_failure:
  assumes "new_cluster_manager api (gke_options api g []) w = (Inr cl, w1)"
    and "\<forall>a \<in> set (answers api cl p 5 w1). \<exists>e w'. a = (Inl e, w')"
    and "last (answers api cl p 5 w1) = (Inl e5, w5)"
  shows "GKECluster api p (g, ks) w = Inr ((None, Some e5), (g, ks), w5)"
  using assms(1,3) get_cluster_tries_failure [OF assms(2), of None]
  by (cases ks) (simp add: GKECluster_def)

section \<open>The hub\<close>

text \<open>
  What the iterator of the hub hands out: members, each with the number of the project that
  was read with it, and then the end of the list or an error.
\<close>

inductive hub_feed :: "'w gcp_api \<Rightarrow> hub_iter \<Rightarrow> GKE \<Rightarrow> 'w \<Rightarrow> (membership \<times> string) list
    \<Rightarrow> go_error \<Rightarrow> GKE \<Rightarrow> 'w \<Rightarrow> bool" for api mr where
  stop: "next_membership api mr w = (Inl err, w1) \<Longrightarrow> hub_feed api mr g w [] err g w1"
| more: "next_membership api mr w = (Inr m, w1) \<Longrightarrow> NumericProjectId api g w1 = (num, g2, w2)
    \<Longrightarrow> hub_feed api mr g2 w2 ms err g3 w3 \<Longrightarrow> hub_feed api mr g w ((m, num) # ms) err g3 w3"

inductive_cases hub_feed_NilE: "hub_feed api mr g w [] err g' w'"
inductive_cases hub_feed_ConsE: "hub_feed api mr g w (x # ms) err g' w'"

definition short_name :: "string \<Rightarrow> string" where
  "short_name n = last (go_split n ''/'')"

definition hub_entry :: "'w gcp_api \<Rightarrow> GKE \<Rightarrow> membership \<times> string \<Rightarrow> K8SCluster" where
  "hub_entry api g x = (case x of (m, num) \<Rightarrow>
     zero_cluster\<lparr>kc_Name := connect_name (ProjectId api g) (short_name (mb_Name m)),
       kc_RestConfig := Some (hubConfig g (''/v1/projects/'' @ num
         @ ''/locations/global/gkeMemberships/'' @ short_name (mb_Name m)) [])\<rparr>)"

text \<open>Reading the number of the project changes the cached project data and nothing else.\<close>

definition same_identity :: "GKE \<Rightarrow> GKE \<Rightarrow> bool" where
  "same_identity g g' \<longleftrightarrow> g\<lparr>g_projectData := None\<rparr> = g'\<lparr>g_projectData := None\<rparr>"

lemma same_identity_refl [simp]: "same_identity g g"
  by (simp add: same_identity_def)

lemma same_identityD:
  assumes "same_identity g g'"
  shows "g_Mesh g' = g_Mesh g" "g_authScheme g' = g_authScheme g" "ProjectId api g' = ProjectId api g"
    "hub_entry api g' = hub_entry api g"
proof -
  have *: "g_Mesh g' = g_Mesh g \<and> g_authScheme g' = g_authScheme g"
    using assms by (cases g; cases g') (simp add: same_identity_def)
  then show "g_Mesh g' = g_Mesh g" "g_authScheme g' = g_authScheme g" "ProjectId api g' = ProjectId api g"
    by (simp_all add: ProjectId_def)
  from * show "hub_entry api g' = hub_entry api g"
    by (simp add: hub_entry_def ProjectId_def hubConfig_def fun_eq_iff)
qed

lemma NumericProjectId_identity:
  "NumericProjectId api g w = (num, g', w') \<Longrightarrow> same_identity g g'"
  by (auto simp: NumericProjectId_def NumericProjectIdResourceManager_def ProjectData_def
      same_identity_def Let_def split: option.splits prod.splits sum.splits if_splits)

lemma same_identity_trans: "same_identity g g1 \<Longrightarrow> same_identity g1 g2 \<Longrightarrow> same_identity g g2"
  by (simp add: same_identity_def)

lemma hub_feed_identity: "hub_feed api mr g w ms err g' w' \<Longrightarrow> same_identity g g'"
  by (induction rule: hub_feed.induct) (auto intro: same_identity_trans NumericProjectId_identity)

lemma hub_member_run:
  assumes "set_ok ks" and "NumericProjectId api g w = (num, g', w')"
  shows "\<exists>r ks'. hub_member api m (g, ks) w = Inr (r, (g', ks'), w') \<and> set_ok ks'
    \<and> cells (snd ks') r = Some (hub_entry api g (m, num))
    \<and> set_view ks' = (set_view ks)(kc_Name (hub_entry api g (m, num)) := Some (hub_entry api g (m, num)))
    \<and> default_view ks' = default_view ks
    \<and> (\<forall>p v. cells (snd ks) p = Some v \<longrightarrow> cells (snd ks') p = Some v)"
proof -
  obtain kr h where ks: "ks = (kr, h)" by (cases ks)
  let ?c = "hub_entry api g (m, num)"
  note id = same_identityD [OF NumericProjectId_identity [OF assms(2)]]
  obtain r h' where a: "alloc ?c h = (r, h')" by (cases "alloc ?c h")
  from register_run [OF assms(1), of False "kc_Name ?c" ?c] obtain st'
    where reg: "register False (kc_Name ?c) ?c ks = Inr st'" "set_ok st'"
      "set_view st' = (set_view ks)(kc_Name ?c := Some ?c)" "default_view st' = default_view ks"
      "\<forall>r v. cells (snd ks) r = Some v \<longrightarrow> cells (snd st') r = Some v"
    by (auto simp del: fun_upd_apply)
  from reg(1) a ks obtain mp where mp: "map_put (k8_ByName kr) (kc_Name ?c) r = Inr mp"
    "st' = (kr\<lparr>k8_ByName := mp\<rparr>, h')"
    by (auto simp: register_def bnd_eq_Inr_iff Let_def)
  let ?mna = "go_split (mb_Name m) ''/''"
  have "idx ?mna (length ?mna - 1) = Inr (short_name (mb_Name m))"
    using go_split_not_Nil [of "mb_Name m" "''/''"] by (simp add: idx_def short_name_def last_conv_nth)
  moreover have "zero_cluster\<lparr>kc_Name := ''connectgateway_'' @ ProjectId api g @ ''_global_'' @ short_name (mb_Name m),
      kc_RestConfig := Some (hubConfig g' (''/v1/projects/'' @ num
        @ ''/locations/global/gkeMemberships/'' @ short_name (mb_Name m)) x)\<rparr> = ?c" for x
    using id(2) by (simp add: hub_entry_def connect_name_def hubConfig_def)
  ultimately have "hub_member api m (g, ks) w = Inr (r, (g', st'), w')"
    using assms(2) a mp by (simp add: hub_member_def ks Let_def connect_name_def hub_entry_def
        del: append_Cons) 
  moreover have "cells h' r = Some ?c"
    using alloc_unregistered [OF assms(1), of ?c r h'] a ks by simp
  ultimately show ?thesis using reg mp(2) by auto
qed

text \<open>The outcome of a feed: the last member of a name is the one registered.\<close>

definition hub_loaded :: "'w gcp_api \<Rightarrow> GKE \<Rightarrow> set_state \<Rightarrow> (membership \<times> string) list
    \<Rightarrow> ref list \<Rightarrow> set_state \<Rightarrow> bool" where
  "hub_loaded api g ks ms l ks' \<longleftrightarrow> set_ok ks' \<and> default_view ks' = default_view ks
     \<and> map (cells (snd ks')) l = map (Some \<circ> hub_entry api g) ms
     \<and> (\<forall>p v. cells (snd ks) p = Some v \<longrightarrow> cells (snd ks') p = Some v)
     \<and> (\<forall>k. set_view ks' k = (case find (\<lambda>c. kc_Name c = k) (rev (map (hub_entry api g) ms)) of
          Some c \<Rightarrow> Some c | None \<Rightarrow> set_view ks k))"

lemma hub_loop_run:
  assumes "hub_feed api mr g w ms err g' w'" and "set_ok ks"
  shows "\<exists>l' ks'. hub_loop api mr l (g, ks) w =
      Some (Inr (if err = IteratorDone then Inr (l @ l') else Inl err, (g', ks'), w'))
    \<and> same_identity g g' \<and> hub_loaded api g ks ms l' ks'"
  using assms
proof (induction arbitrary: l ks rule: hub_feed.induct)
  case (stop w err w1 g)
  have "hub_loaded api g ks [] [] ks" using stop.prems by (simp add: hub_loaded_def)
  moreover have "hub_loop api mr l (g, ks) w =
      Some (Inr (if err = IteratorDone then Inr (l @ []) else Inl err, (g, ks), w1))"
    using stop.hyps by (subst hub_loop.simps) simp
  ultimately show ?case by (meson same_identity_refl)
next
  case (more w m w1 g num g2 w2 ms err g3 w3)
  let ?e = "hub_entry api g"
  from hub_member_run [OF more.prems more.hyps(2), of m] obtain r ks1 where r:
    "hub_member api m (g, ks) w1 = Inr (r, (g2, ks1), w2)" "set_ok ks1"
    "cells (snd ks1) r = Some (?e (m, num))"
    "set_view ks1 = (set_view ks)(kc_Name (?e (m, num)) := Some (?e (m, num)))"
    "default_view ks1 = default_view ks"
    "\<forall>p v. cells (snd ks) p = Some v \<longrightarrow> cells (snd ks1) p = Some v"
    by (auto simp del: fun_upd_apply)
  note id = NumericProjectId_identity [OF more.hyps(2)]
  from more.IH [OF r(2), of "l @ [r]"] obtain l' ks' where ih:
    "hub_loop api mr (l @ [r]) (g2, ks1) w2 =
      Some (Inr (if err = IteratorDone then Inr ((l @ [r]) @ l') else Inl err, (g3, ks'), w3))"
    "same_identity g2 g3" "hub_loaded api g ks1 ms l' ks'"
    using same_identityD(4) [OF id, of api] by (auto simp: hub_loaded_def)
  have "hub_loop api mr l (g, ks) w =
      Some (Inr (if err = IteratorDone then Inr (l @ r # l') else Inl err, (g3, ks'), w3))"
    using more.hyps(1) r(1) ih(1) by (subst hub_loop.simps) simp
  moreover have "same_identity g g3" using id ih(2) by (simp add: same_identity_def)
  moreover have "hub_loaded api g ks ((m, num) # ms) (r # l') ks'"
    using ih(3) r by (auto simp: hub_loaded_def find_append split: option.splits)
  ultimately show ?case by blast
qed

text \<open>
  C16: \<open>LoadHubClusters\<close> returns for every feed of the hub that ends. It creates one
  cluster per member, in order, named \<open>connectgateway_PROJECT_global_MEMBER\<close> after the last
  part of the member's name, and registers each, also over a cluster that had the name: the
  last member wins. If the feed ends with an error the error is returned and no list, but
  the members before it stay registered.
\<close>

theorem LoadHubClusters_spec:
  assumes "new_hub_client api (gke_options api g p) w = (Inr mc, w1)"
    and "list_memberships api mc (''projects/'' @ (if p = [] then ProjectId api g else p) @ ''/locations/-'') w1
      = (mr, w2)"
    and "hub_feed api mr g w2 ms err g' w3" and "set_ok ks"
  shows "\<exists>l ks'. LoadHubClusters api p (g, ks) w =
      Some (Inr (if err = IteratorDone then Inr l else Inl err, (g', ks'), w3))
    \<and> map (cells (snd ks')) l = map (Some \<circ> hub_entry api g) ms
    \<and> default_view ks' = default_view ks
    \<and> (\<forall>k. set_view ks' k = (case find (\<lambda>c. kc_Name c = k) (rev (map (hub_entry api g) ms)) of
          Some c \<Rightarrow> Some c | None \<Rightarrow> set_view ks k))"
proof -
  from hub_loop_run [OF assms(3,4), of "[]"] obtain l ks' where
    "hub_loop api mr [] (g, ks) w2 = Some (Inr (if err = IteratorDone then Inr l else Inl err, (g', ks'), w3))"
    "hub_loaded api g ks ms l ks'"
    by auto
  moreover from this(1) assms(1,2) have "LoadHubClusters api p (g, ks) w =
      Some (Inr (if err = IteratorDone then Inr l else Inl err, (g', ks'), w3))"
    unfolding LoadHubClusters_def Let_def fst_conv by (simp only: prod.case sum.case)
  ultimately show ?thesis unfolding hub_loaded_def by blast
qed

lemma demo_hub_feed:
  "hub_feed demo_gcp (HubIter 0) g 0
     [(\<lparr>mb_Name = ''projects/p1/memberships/asm''\<rparr>, ''42''), (\<lparr>mb_Name = ''projects/p1/memberships/asm''\<rparr>, ''42'')]
     IteratorDone g 3"
  by (rule hub_feed.more [where ?w1.0 = 1 and ?w2.0 = 1 and ?g2.0 = g],
      simp_all add: demo_gcp_def NumericProjectId_def)
    (rule hub_feed.more [where ?w1.0 = 2 and ?w2.0 = 2 and ?g2.0 = g],
      simp_all add: NumericProjectId_def hub_feed.stop)

theorem LoadHubClusters_spec_witness:
  "\<exists>l ks'. LoadHubClusters demo_gcp [] (demo_gke, empty_set) 0 = Some (Inr (Inr l, (demo_gke, ks'), 3))
    \<and> set_view ks' ''connectgateway_p1_global_asm'' \<noteq> None"
proof -
  let ?m = "(\<lparr>mb_Name = ''projects/p1/memberships/asm''\<rparr>, ''42'')"
  have "\<exists>l ks'. LoadHubClusters demo_gcp [] (demo_gke, empty_set) 0 =
      Some (Inr (if IteratorDone = IteratorDone then Inr l else Inl IteratorDone, (demo_gke, ks'), 3))
    \<and> map (cells (snd ks')) l = map (Some \<circ> hub_entry demo_gcp demo_gke) [?m, ?m]
    \<and> default_view ks' = default_view empty_set
    \<and> (\<forall>k. set_view ks' k = (case find (\<lambda>c. kc_Name c = k) (rev (map (hub_entry demo_gcp demo_gke) [?m, ?m])) of
          Some c \<Rightarrow> Some c | None \<Rightarrow> set_view empty_set k))"
    by (rule LoadHubClusters_spec [OF _ _ demo_hub_feed set_ok_empty_set]) (simp_all add: demo_gcp_def)
  moreover have "kc_Name (hub_entry demo_gcp demo_gke ?m) = ''connectgateway_p1_global_asm''"
  proof -
    have "short_name ''projects/p1/memberships/asm'' = ''asm''" by code_simp
    then show ?thesis by (simp add: hub_entry_def connect_name_def ProjectId_def demo_gcp_def)
  qed
  ultimately show ?thesis by fastforce
qed

section \<open>Tokens of the module\<close>

text \<open>
  The module is ready when it has an access token source. The federated source is one of
  the mesh library; as every \<open>TokenSource\<close> it gives no token beside an error.
\<close>

definition gke_ready :: "'w gcp_api \<Rightarrow> GKE \<Rightarrow> bool" where
  "gke_ready api g \<longleftrightarrow> g_AccessTokenSource g \<noteq> None
     \<and> (\<forall>s aud w tok e w'. fed_token api s aud w = ((tok, Some e), w') \<longrightarrow> tok = [])"

lemma GKE_GetToken_same: "GKE_GetToken api g aud w = Inr (res, g', w') \<Longrightarrow> g' = g"
  by (auto simp: GKE_GetToken_def split: if_splits option.splits sum.splits prod.splits)

interpretation gk: token_source "GKE_GetToken api" "gke_ready api" for api
proof
  fix g aud w
  assume "gke_ready api g"
  then show "\<exists>res s' w'. GKE_GetToken api g aud w = Inr (res, s', w')"
    by (auto simp: GKE_GetToken_def gke_ready_def split: option.split sum.split prod.split)
next
  fix g aud w res s' w'
  assume "gke_ready api g" and "GKE_GetToken api g aud w = Inr (res, s', w')"
  then show "gke_ready api s'" by (auto dest: GKE_GetToken_same)
next
  fix g aud w tok err s' w'
  assume "gke_ready api g" and "GKE_GetToken api g aud w = Inr ((tok, Some err), s', w')"
  then show "tok = []"
    by (auto simp: GKE_GetToken_def gke_ready_def split: if_splits option.splits sum.splits prod.splits)
      blast
qed

text \<open>
  A module that has an access token source never panics in \<open>GetToken\<close>: the empty
  audience gives the access token, exactly the one \<open>Token\<close> hands to the Google clients; an
  audience goes to the federated source when there is one, and otherwise gives the ID token
  or the error that there is none.
\<close>

lemma GKE_GetToken_total:
  assumes "g_AccessTokenSource g = Some s" and "access_token api s w = (Inr t, w')"
  shows "GKE_GetToken api g [] w = Inr ((ot_AccessToken t, None), g, w')
    \<and> Token api g w = Inr (Inr t, w')
    \<and> (aud \<noteq> [] \<longrightarrow> GKE_GetToken api g aud w = Inr (case g_TokenSource g of
          Some f \<Rightarrow> (case fed_token api f aud w of (r, w1) \<Rightarrow> (r, g, w1))
        | None \<Rightarrow> (case ot_id_token t of
            Some i \<Rightarrow> (i, None) | None \<Rightarrow> ([], Some (ErrNew ''Unsupported ID tokens'')), g, w')))"
  using assms by (auto simp: GKE_GetToken_def Token_def split: option.split prod.split)

end
