(* ===== verification/Autodetect.thy ===== *)
theory Autodetect
  imports GkeFacts "HOL-Library.List_Lexorder" "HOL-Library.Char_ord"
begin

text \<open>
  The choice of a default cluster: \<open>gcp/autodetect.go\<close>. \<open>FindCluster\<close> visits the map of
  clusters up to four times, each time in an order of its own; the test by region calls
  \<open>Location\<close>, which fills the caches of the clusters it visits.
\<close>

section \<open>FindCluster\<close>

definition in_region :: "string \<Rightarrow> ref \<Rightarrow> clusters \<Rightarrow> (bool \<times> clusters) exec" where
  "in_region myRegion r h =
     (if myRegion \<noteq> [] then
        bnd (via Location (Some r) h) (\<lambda>(loc, h'). Inr (has_prefix loc myRegion, h'))
      else Inr (True, h))"

definition has_name :: "string \<Rightarrow> ref \<Rightarrow> clusters \<Rightarrow> (bool \<times> clusters) exec" where
  "has_name clusterName r h = bnd (load h (Some r)) (\<lambda>c. Inr (contains (kc_Name c) clusterName, h))"

definition in_region_has_name :: "string \<Rightarrow> string \<Rightarrow> ref \<Rightarrow> clusters \<Rightarrow> (bool \<times> clusters) exec" where
  "in_region_has_name myRegion clusterName r h =
     bnd (in_region myRegion r h) (\<lambda>(hit, h'). if hit then has_name clusterName r h' else Inr (False, h'))"

text \<open>One \<open>for ... range kr.K8S.ByName\<close> loop that breaks at the first hit.\<close>

definition range_test :: "K8S \<Rightarrow> (ref \<Rightarrow> clusters \<Rightarrow> (bool \<times> clusters) exec) \<Rightarrow> string \<Rightarrow> clusters
    \<Rightarrow> (bool \<times> clusters) exec" where
  "range_test kr t k h = (case map_get (k8_ByName kr) k of None \<Rightarrow> Inr (False, h) | Some r \<Rightarrow> t r h)"

definition range_find :: "K8S \<Rightarrow> string list \<Rightarrow> (ref \<Rightarrow> clusters \<Rightarrow> (bool \<times> clusters) exec) \<Rightarrow> clusters
    \<Rightarrow> (ref option \<times> clusters) exec" where
  "range_find kr order t h =
     bnd (searchM (range_test kr t) order h) (\<lambda>(hit, h').
       Inr (case hit of None \<Rightarrow> None | Some k \<Rightarrow> map_get (k8_ByName kr) k, h'))"

definition FindCluster :: "(nat \<Rightarrow> string list) \<Rightarrow> K8S \<Rightarrow> string \<Rightarrow> string \<Rightarrow> clusters
    \<Rightarrow> (ref option \<times> clusters) exec" where
  "FindCluster order kr myRegion clusterName h =
     bnd (if clusterName \<noteq> [] then
            bnd (range_find kr (order 0) (in_region_has_name myRegion clusterName) h) (\<lambda>(cl, h1).
              if cl = None then range_find kr (order 1) (has_name clusterName) h1 else Inr (cl, h1))
          else Inr (None, h)) (\<lambda>(cl, h2).
     bnd (if cl = None then range_find kr (order 2) (in_region myRegion) h2 else Inr (cl, h2)) (\<lambda>(cl, h3).
       if cl = None then range_find kr (order 3) (\<lambda>r h. Inr (True, h)) h3 else Inr (cl, h3)))"

section \<open>Autodetect\<close>

text \<open>The orders the map of a set is visited in depend on the set.\<close>

definition autodetect_default :: "'w gcp_api \<Rightarrow> (set_state \<Rightarrow> nat \<Rightarrow> string list) \<Rightarrow> string
    \<Rightarrow> gke_state \<Rightarrow> 'w \<Rightarrow> (go_error option \<times> gke_state \<times> 'w) exec" where
  "autodetect_default api order findClusterN st w = (case st of (g, kr, h) \<Rightarrow>
     (if k8_Default kr = None then
        (case RegionFromMetadata api w of ((myRegion, _), w1) \<Rightarrow>
           bnd (FindCluster (order (kr, h)) kr myRegion findClusterN h) (\<lambda>(cl, h').
             Inr (None, (g, kr\<lparr>k8_Default := cl\<rparr>, h'), w1)))
      else Inr (None, st, w)))"

definition autodetect :: "'w gcp_api \<Rightarrow> (set_state \<Rightarrow> nat \<Rightarrow> string list) \<Rightarrow> string
    \<Rightarrow> gke_state \<Rightarrow> 'w \<Rightarrow> (go_error option \<times> gke_state \<times> 'w) exec option" where
  "autodetect api order findClusterN st w =
     (case LoadGKEClusters api [] [] st w of
        Inl p \<Rightarrow> Some (Inl p)
      | Inr (Inl err, st1, w1) \<Rightarrow> Some (Inr (Some err, st1, w1))
      | Inr (Inr _, st1, w1) \<Rightarrow>
          (case LoadHubClusters api [] st1 w1 of
             None \<Rightarrow> None
           | Some (Inl p) \<Rightarrow> Some (Inl p)
           | Some (Inr (Inl err, st2, w2)) \<Rightarrow> Some (Inr (Some err, st2, w2))
           | Some (Inr (Inr _, st2, w2)) \<Rightarrow> Some (autodetect_default api order findClusterN st2 w2)))"

section \<open>What the loops find\<close>

text \<open>The stores that differ from \<open>h0\<close> only in caches, and whose caches still agree with the names.\<close>

definition cached_alike :: "clusters \<Rightarrow> clusters \<Rightarrow> bool" where
  "cached_alike h0 h \<longleftrightarrow> (\<forall>r c0. cells h0 r = Some c0 \<longrightarrow>
     (\<exists>c. cells h r = Some c \<and> same_cluster c0 c \<and> (cache_ok c0 \<longrightarrow> cache_ok c)))
     \<and> (\<forall>r. cells h0 r = None \<longrightarrow> cells h r = None) \<and> (wf_store h0 \<longrightarrow> wf_store h)"

lemma cached_alike_refl [simp]: "cached_alike h h"
  by (auto simp: cached_alike_def)

lemma cached_alikeD:
  assumes "cached_alike h0 h" and "cells h0 r = Some c0"
  obtains c where "cells h r = Some c" and "same_cluster c0 c" and "cache_ok c0 \<longrightarrow> cache_ok c"
  using assms unfolding cached_alike_def by blast

text \<open>The clusters of a set whose names can be read, and whose caches agree with them.\<close>

definition readable :: "K8S \<Rightarrow> clusters \<Rightarrow> bool" where
  "readable kr h \<longleftrightarrow> (\<forall>k r. map_get (k8_ByName kr) k = Some r \<longrightarrow>
     (\<exists>c. cells h r = Some c \<and> name_ok (kc_Name c) \<and> cache_ok c))"

definition name_of :: "K8S \<Rightarrow> clusters \<Rightarrow> string \<Rightarrow> string option" where
  "name_of kr h k = map_option kc_Name (set_view (kr, h) k)"

definition region_fits :: "string \<Rightarrow> string \<Rightarrow> bool" where
  "region_fits myRegion n \<longleftrightarrow> myRegion = [] \<or> has_prefix (loc_of n) myRegion"

lemma has_name_run:
  assumes "cached_alike h0 h" and "cells h0 r = Some c0"
  shows "has_name clusterName r h = Inr (contains (kc_Name c0) clusterName, h)"
  using assms by (elim cached_alikeD) (auto simp: has_name_def load_def dest: same_cluster_Name)

lemma in_region_run:
  assumes "cached_alike h0 h" and "cells h0 r = Some c0" and "name_ok (kc_Name c0)" and "cache_ok c0"
  shows "\<exists>h'. in_region myRegion r h = Inr (region_fits myRegion (kc_Name c0), h') \<and> cached_alike h0 h'"
proof (cases "myRegion = []")
  case True
  with assms(1) show ?thesis by (auto simp: in_region_def region_fits_def)
next
  case False
  from assms(1,2) obtain c where c: "cells h r = Some c" "same_cluster c0 c" "cache_ok c0 \<longrightarrow> cache_ok c"
    by (rule cached_alikeD)
  have name: "kc_Name c = kc_Name c0" using same_cluster_Name [OF c(2)] by simp
  with Location_run [of c] c assms(3,4) obtain c'
    where l: "Location c = Inr (loc_of (kc_Name c0), c')" "same_cluster c c'" "cache_ok c'" by auto
  let ?h = "h\<lparr>cells := (cells h)(r \<mapsto> c')\<rparr>"
  have "in_region myRegion r h = Inr (region_fits myRegion (kc_Name c0), ?h)"
    using via_run [of h r c Location, OF c(1) l(1)] False by (simp add: in_region_def region_fits_def)
  moreover have "cached_alike h0 ?h"
    using assms(1,2) l(2,3) same_cluster_trans [OF c(2) l(2)] c(1)
    by (auto simp: cached_alike_def wf_store_def)
  ultimately show ?thesis by blast
qed

text \<open>A test that decides by the name, whatever caches it fills.\<close>

definition decides :: "clusters \<Rightarrow> (ref \<Rightarrow> clusters \<Rightarrow> (bool \<times> clusters) exec) \<Rightarrow> (string \<Rightarrow> bool) \<Rightarrow> bool" where
  "decides h0 t T \<longleftrightarrow> (\<forall>r c0 h. cells h0 r = Some c0 \<longrightarrow> name_ok (kc_Name c0) \<longrightarrow> cache_ok c0 \<longrightarrow>
     cached_alike h0 h \<longrightarrow> (\<exists>h'. t r h = Inr (T (kc_Name c0), h') \<and> cached_alike h0 h'))"

lemma decides_any: "decides h0 (\<lambda>r h. Inr (True, h)) (\<lambda>_. True)"
  by (simp add: decides_def)

lemma decides_name: "decides h0 (has_name clusterName) (\<lambda>n. contains n clusterName)"
  using has_name_run by (auto simp: decides_def)

lemma decides_region: "decides h0 (in_region myRegion) (region_fits myRegion)"
  using in_region_run unfolding decides_def by blast

lemma decides_both: "decides h0 (in_region_has_name myRegion clusterName)
    (\<lambda>n. region_fits myRegion n \<and> contains n clusterName)"
  unfolding decides_def
proof (intro allI impI)
  fix r c0 h
  assume c0: "cells h0 r = Some c0" "name_ok (kc_Name c0)" "cache_ok c0" and h: "cached_alike h0 h"
  from in_region_run [OF h c0] obtain h1
    where h1: "in_region myRegion r h = Inr (region_fits myRegion (kc_Name c0), h1)" "cached_alike h0 h1"
    by blast
  with has_name_run [OF h1(2) c0(1)]
  show "\<exists>h'. in_region_has_name myRegion clusterName r h =
      Inr (region_fits myRegion (kc_Name c0) \<and> contains (kc_Name c0) clusterName, h') \<and> cached_alike h0 h'"
    by (simp add: in_region_has_name_def)
qed

text \<open>The result of a loop: nil if no name fits, otherwise a cluster whose name fits.\<close>

definition found :: "K8S \<Rightarrow> clusters \<Rightarrow> (string \<Rightarrow> bool) \<Rightarrow> ref option \<Rightarrow> bool" where
  "found kr h T cl \<longleftrightarrow> (cl = None \<longrightarrow> (\<forall>k n. name_of kr h k = Some n \<longrightarrow> \<not> T n))
     \<and> (\<forall>r. cl = Some r \<longrightarrow> (\<exists>k n. map_get (k8_ByName kr) k = Some r \<and> name_of kr h k = Some n \<and> T n))"

text \<open>A loop whose test decides by the name finds the first name that fits.\<close>

lemma range_find_run:
  assumes "decides h0 t T"
    and "readable kr h0" and "range_order order (map_get (k8_ByName kr))" and "cached_alike h0 h"
  shows "\<exists>cl h'. range_find kr order t h = Inr (cl, h') \<and> cached_alike h0 h' \<and> found kr h0 T cl"
proof -
  let ?T = "\<lambda>k. case name_of kr h0 k of None \<Rightarrow> False | Some n \<Rightarrow> T n"
  have step: "\<exists>h'. range_test kr t k g = Inr (?T k, h') \<and> cached_alike h0 h'"
    if "k \<in> set order" "cached_alike h0 g" for k g
  proof -
    from that(1) assms(3) obtain r where r: "map_get (k8_ByName kr) k = Some r"
      by (auto simp: range_order_in_iff)
    with assms(2) obtain c0 where c0: "cells h0 r = Some c0" "name_ok (kc_Name c0)" "cache_ok c0"
      by (auto simp: readable_def)
    with r have "name_of kr h0 k = Some (kc_Name c0)" by (simp add: name_of_def set_view_def)
    with assms(1) c0 that(2) r show ?thesis by (simp add: range_test_def decides_def)
  qed
  from searchM_find [of "cached_alike h0" h order "range_test kr t" ?T, OF assms(4) step] obtain h'
    where s: "searchM (range_test kr t) order h = Inr (find ?T order, h')" "cached_alike h0 h'"
    by blast
  let ?cl = "case find ?T order of None \<Rightarrow> None | Some k \<Rightarrow> map_get (k8_ByName kr) k"
  have known: "name_of kr h0 k \<noteq> None \<Longrightarrow> k \<in> set order" for k
    using assms(3) by (auto simp: range_order_in_iff name_of_def set_view_def split: option.splits)
  have reg: "k \<in> set order \<Longrightarrow> map_get (k8_ByName kr) k \<noteq> None" for k
    using assms(3) by (auto simp: range_order_in_iff)
  have "?cl = None \<longrightarrow> (\<forall>k n. name_of kr h0 k = Some n \<longrightarrow> \<not> T n)"
  proof (cases "find ?T order")
    case None
    then show ?thesis using known by (fastforce simp: find_None_iff)
  next
    case (Some k)
    then have "k \<in> set order" by (auto dest: find_SomeD)
    with Some reg [of k] show ?thesis by auto
  qed
  moreover have "\<forall>r. ?cl = Some r \<longrightarrow>
      (\<exists>k n. map_get (k8_ByName kr) k = Some r \<and> name_of kr h0 k = Some n \<and> T n)"
    by (auto dest!: find_SomeD split: option.splits)
  ultimately show ?thesis using s by (simp add: range_find_def found_def)
qed

section \<open>The specification of the choice\<close>

text \<open>
  How well a cluster fits: its region and its name, its name, its region, or nothing. The
  name counts only when one is asked for.
\<close>

datatype fitness = NoFit | RegionFit | NameFit | NameRegionFit

primrec fit_rank :: "fitness \<Rightarrow> nat" where
  "fit_rank NoFit = 0"
| "fit_rank RegionFit = 1"
| "fit_rank NameFit = 2"
| "fit_rank NameRegionFit = 3"

instantiation fitness :: linorder
begin

definition less_eq_fitness :: "fitness \<Rightarrow> fitness \<Rightarrow> bool" where
  "less_eq_fitness a b \<longleftrightarrow> fit_rank a \<le> fit_rank b"

definition less_fitness :: "fitness \<Rightarrow> fitness \<Rightarrow> bool" where
  "less_fitness a b \<longleftrightarrow> fit_rank a < fit_rank b"

instance
proof
  fix a b c :: fitness
  show "a < b \<longleftrightarrow> a \<le> b \<and> \<not> b \<le> a" and "a \<le> a" and "a \<le> b \<or> b \<le> a"
    by (auto simp: less_eq_fitness_def less_fitness_def)
  show "a \<le> b \<Longrightarrow> b \<le> c \<Longrightarrow> a \<le> c" by (simp add: less_eq_fitness_def)
  show "a \<le> b \<Longrightarrow> b \<le> a \<Longrightarrow> a = b" by (cases a; cases b) (simp_all add: less_eq_fitness_def)
qed

end

lemmas fit_le = less_eq_fitness_def

definition fit :: "string \<Rightarrow> string \<Rightarrow> string \<Rightarrow> fitness" where
  "fit myRegion clusterName n =
     (if clusterName \<noteq> [] \<and> contains n clusterName
      then (if region_fits myRegion n then NameRegionFit else NameFit)
      else (if region_fits myRegion n then RegionFit else NoFit))"

definition best_choice :: "string \<Rightarrow> string \<Rightarrow> K8S \<Rightarrow> clusters \<Rightarrow> ref option \<Rightarrow> bool" where
  "best_choice myRegion clusterName kr h cl \<longleftrightarrow>
     (cl = None \<longrightarrow> (\<forall>k. name_of kr h k = None)) \<and>
     (\<forall>r. cl = Some r \<longrightarrow> (\<exists>k n. map_get (k8_ByName kr) k = Some r \<and> name_of kr h k = Some n \<and>
        (\<forall>k' n'. name_of kr h k' = Some n' \<longrightarrow> fit myRegion clusterName n' \<le> fit myRegion clusterName n)))"

lemma best_choiceI:
  assumes "found kr h T cl"
    and "\<And>n. T n \<Longrightarrow> m \<le> fit myRegion clusterName n"
    and "\<And>k n. name_of kr h k = Some n \<Longrightarrow> fit myRegion clusterName n \<le> m"
    and "cl \<noteq> None \<or> (\<forall>n. T n)"
  shows "best_choice myRegion clusterName kr h cl"
proof (cases cl)
  case None
  with assms(1,4) show ?thesis by (auto simp: best_choice_def found_def)
next
  case (Some r)
  with assms(1) obtain k n
    where k: "map_get (k8_ByName kr) k = Some r" "name_of kr h k = Some n" "T n"
    by (auto simp: found_def)
  have "fit myRegion clusterName n' \<le> fit myRegion clusterName n" if "name_of kr h k' = Some n'" for k' n'
    using assms(3) [OF that] assms(2) [OF k(3)] by (rule order_trans)
  with k(1,2) Some show ?thesis by (auto simp: best_choice_def)
qed

text \<open>The two loops by name: a best choice, or no cluster has the name.\<close>

lemma find_by_name_run:
  assumes "readable kr h" and "\<forall>i. range_order (order i) (map_get (k8_ByName kr))" and "clusterName \<noteq> []"
  shows "\<exists>cl h2. bnd (range_find kr (order 0) (in_region_has_name myRegion clusterName) h) (\<lambda>(cl, h1).
        if cl = None then range_find kr (order 1) (has_name clusterName) h1 else Inr (cl, h1)) = Inr (cl, h2)
    \<and> cached_alike h h2
    \<and> (cl = None \<longrightarrow> (\<forall>k n. name_of kr h k = Some n \<longrightarrow> fit myRegion clusterName n \<le> RegionFit))
    \<and> (cl \<noteq> None \<longrightarrow> best_choice myRegion clusterName kr h cl)"
proof -
  note order = assms(2) [rule_format]
  from range_find_run [OF decides_both [of h myRegion clusterName] assms(1) order [of 0] cached_alike_refl] obtain cl h1
    where f: "range_find kr (order 0) (in_region_has_name myRegion clusterName) h = Inr (cl, h1)"
      "cached_alike h h1" "found kr h (\<lambda>n. region_fits myRegion n \<and> contains n clusterName) cl"
    by blast
  show ?thesis
  proof (cases cl)
    case (Some r)
    have "best_choice myRegion clusterName kr h cl"
      by (rule best_choiceI [OF f(3), where m = NameRegionFit]) (use assms(3) Some in \<open>auto simp: fit_le fit_def\<close>)
    with f(1,2) Some show ?thesis by simp
  next
    case None
    from range_find_run [OF decides_name [of h clusterName] assms(1) order [of 1] f(2)] obtain cl2 h2
      where g: "range_find kr (order 1) (has_name clusterName) h1 = Inr (cl2, h2)" "cached_alike h h2"
        "found kr h (\<lambda>n. contains n clusterName) cl2"
      by blast
    have le: "fit myRegion clusterName n \<le> NameFit" if "name_of kr h k = Some n" for k n
      using f(3) None that by (auto simp: fit_le fit_def found_def)
    have "best_choice myRegion clusterName kr h cl2" if "cl2 \<noteq> None"
      by (rule best_choiceI [OF g(3), where m = NameFit]) (use assms(3) that le in \<open>auto simp: fit_le fit_def\<close>)
    moreover have "fit myRegion clusterName n \<le> RegionFit" if "cl2 = None" "name_of kr h k = Some n" for k n
      using g(3) that by (auto simp: fit_le fit_def found_def)
    ultimately show ?thesis using f(1) g(1,2) None by simp
  qed
qed

text \<open>The two loops after them, entered when no cluster has the name.\<close>

lemma find_by_region_run:
  assumes "readable kr h" and "\<forall>i. range_order (order i) (map_get (k8_ByName kr))" and "cached_alike h h2"
    and low: "\<And>k n. name_of kr h k = Some n \<Longrightarrow> fit myRegion clusterName n \<le> RegionFit"
  shows "\<exists>cl h'. bnd (range_find kr (order 2) (in_region myRegion) h2) (\<lambda>(cl, h3).
        if cl = None then range_find kr (order 3) (\<lambda>r h. Inr (True, h)) h3 else Inr (cl, h3)) = Inr (cl, h')
    \<and> cached_alike h h' \<and> best_choice myRegion clusterName kr h cl"
proof -
  note order = assms(2) [rule_format]
  from range_find_run [OF decides_region [of h myRegion] assms(1) order [of 2] assms(3)] obtain cl h3
    where g: "range_find kr (order 2) (in_region myRegion) h2 = Inr (cl, h3)" "cached_alike h h3"
      "found kr h (region_fits myRegion) cl"
    by blast
  show ?thesis
  proof (cases cl)
    case (Some r)
    have "best_choice myRegion clusterName kr h cl"
      by (rule best_choiceI [OF g(3), where m = RegionFit]) (use low Some in \<open>auto simp: fit_le fit_def\<close>)
    with g(1,2) Some show ?thesis by simp
  next
    case None
    from range_find_run [OF decides_any assms(1) order [of 3] g(2)] obtain cl4 h4
      where f: "range_find kr (order 3) (\<lambda>r h. Inr (True, h)) h3 = Inr (cl4, h4)" "cached_alike h h4"
        "found kr h (\<lambda>_. True) cl4"
      by blast
    have zero: "fit myRegion clusterName n \<le> NoFit" if "name_of kr h k = Some n" for k n
      using low [OF that] g(3) None that by (auto simp: fit_le fit_def found_def split: if_splits)
    have "best_choice myRegion clusterName kr h cl4"
      by (rule best_choiceI [OF f(3), where m = NoFit]) (use zero in \<open>auto simp: fit_le\<close>)
    with g(1) f(1,2) None show ?thesis by simp
  qed
qed

lemma FindCluster_run:
  assumes "readable kr h" and "\<forall>i. range_order (order i) (map_get (k8_ByName kr))"
  shows "\<exists>cl h'. FindCluster order kr myRegion clusterName h = Inr (cl, h')
    \<and> cached_alike h h' \<and> best_choice myRegion clusterName kr h cl"
proof (cases "clusterName = []")
  case True
  then have "\<And>n. fit myRegion clusterName n \<le> RegionFit" by (simp add: fit_le fit_def)
  from find_by_region_run [OF assms cached_alike_refl this] True show ?thesis
    by (simp add: FindCluster_def)
next
  case False
  from find_by_name_run [OF assms False, of myRegion] obtain cl h2
    where n: "bnd (range_find kr (order 0) (in_region_has_name myRegion clusterName) h) (\<lambda>(cl, h1).
        if cl = None then range_find kr (order 1) (has_name clusterName) h1 else Inr (cl, h1)) = Inr (cl, h2)"
      "cached_alike h h2"
      "cl = None \<longrightarrow> (\<forall>k n. name_of kr h k = Some n \<longrightarrow> fit myRegion clusterName n \<le> RegionFit)"
      "cl \<noteq> None \<longrightarrow> best_choice myRegion clusterName kr h cl"
    by blast
  show ?thesis
  proof (cases cl)
    case (Some r)
    with n False show ?thesis by (simp add: FindCluster_def)
  next
    case None
    with n(3) find_by_region_run [OF assms n(2)] have "\<exists>cl h'.
      bnd (range_find kr (order 2) (in_region myRegion) h2) (\<lambda>(cl, h3).
        if cl = None then range_find kr (order 3) (\<lambda>r h. Inr (True, h)) h3 else Inr (cl, h3)) = Inr (cl, h')
    \<and> cached_alike h h' \<and> best_choice myRegion clusterName kr h cl"
      by blast
    with n(1) False None show ?thesis by (simp add: FindCluster_def)
  qed
qed

section \<open>Properties of FindCluster\<close>

lemma gke_name_of:
  assumes "map_get (k8_ByName kr) k = Some r" and "cells h r = Some c"
  shows "name_of kr h k = Some (kc_Name c)"
  using assms by (simp add: name_of_def set_view_def)

text \<open>A set of two clusters: a hub member called istio, and a GKE cluster in us-west1.\<close>

definition two_clusters :: "K8S \<times> clusters" where
  "two_clusters = (zero_K8S\<lparr>k8_ByName := Some [''a'' \<mapsto> 0, ''b'' \<mapsto> 1]\<rparr>,
     \<lparr>cells = [0 \<mapsto> NewK8SCluster [] ''connectgateway_p_global_istio'',
        1 \<mapsto> NewK8SCluster [] ''gke_p_us-west1_b''], next_ref = 2\<rparr>)"

lemma two_clusters_readable: "readable (fst two_clusters) (snd two_clusters)"
proof -
  have "name_ok ''connectgateway_p_global_istio''" "name_ok ''gke_p_us-west1_b''"
    by (simp_all add: name_ok_def)
  then show ?thesis
    by (auto simp: readable_def two_clusters_def NewK8SCluster_def zero_cluster_def cache_ok_def
        split: if_splits)
qed

lemma two_clusters_order: "range_order [''b'', ''a''] (map_get (k8_ByName (fst two_clusters)))"
  by (auto simp: range_order_def two_clusters_def split: if_splits)

text \<open>
  C12: On a set whose names can be read, \<open>FindCluster\<close> never panics and makes a best choice,
  in whatever orders the map is visited: nil only for an empty set; otherwise a cluster such
  that no other fits better, where a cluster in the region with the name fits best, then one
  with the name anywhere, then one in the region, then any. Nothing in the set changes but
  the cached parts of names.
\<close>

theorem FindCluster_best:
  assumes "readable kr h" and "\<forall>i. range_order (order i) (map_get (k8_ByName kr))"
  shows "\<exists>cl h'. FindCluster order kr myRegion clusterName h = Inr (cl, h')
    \<and> best_choice myRegion clusterName kr h cl \<and> cached_alike h h'"
  using FindCluster_run [OF assms] by blast

theorem FindCluster_best_witness:
  "\<exists>h'. FindCluster (\<lambda>_. [''b'', ''a'']) (fst two_clusters) ''us-west1'' ''istio'' (snd two_clusters)
      = Inr (Some 0, h')"
proof -
  let ?kr = "fst two_clusters" and ?h = "snd two_clusters"
  from FindCluster_best [OF two_clusters_readable, of "\<lambda>_. [''b'', ''a'']" "''us-west1''" "''istio''"]
    two_clusters_order
  obtain cl h' where f: "FindCluster (\<lambda>_. [''b'', ''a'']) ?kr ''us-west1'' ''istio'' ?h = Inr (cl, h')"
    and b: "best_choice ''us-west1'' ''istio'' ?kr ?h cl" by blast
  have a: "name_of ?kr ?h ''a'' = Some ''connectgateway_p_global_istio''"
    by (simp add: name_of_def set_view_def two_clusters_def NewK8SCluster_def zero_cluster_def)
  have fit_a: "fit ''us-west1'' ''istio'' ''connectgateway_p_global_istio'' = NameFit"
    and fit_b: "fit ''us-west1'' ''istio'' ''gke_p_us-west1_b'' = RegionFit"
    by code_simp+
  from a b obtain r where r: "cl = Some r" by (cases cl) (auto simp: best_choice_def)
  with b obtain k n where k: "map_get (k8_ByName ?kr) k = Some r" "name_of ?kr ?h k = Some n"
    "NameFit \<le> fit ''us-west1'' ''istio'' n"
    using a fit_a unfolding best_choice_def by metis
  have "k = ''a'' \<or> k = ''b''" using k(1) by (auto simp: two_clusters_def split: if_splits)
  moreover have "name_of ?kr ?h ''b'' = Some ''gke_p_us-west1_b''"
    by (simp add: name_of_def set_view_def two_clusters_def NewK8SCluster_def zero_cluster_def)
  ultimately have "k = ''a''" using k(2,3) fit_b by (auto simp: fit_le)
  with k(1) have "r = 0" by (simp add: two_clusters_def)
  with f r show ?thesis by blast
qed

text \<open>
  A name that starts with \<open>gke_\<close> and has fewer than three underscores, such as a
  hand-written context \<open>gke_dev\<close>, crashes the choice of a default: when every cluster of a
  non-empty set has such a name and the region is known, \<open>FindCluster\<close> panics with an index
  out of range, in every order.
\<close>

lemma FindCluster_malformed_panics:
  assumes "\<forall>k r. map_get (k8_ByName kr) k = Some r \<longrightarrow>
      (\<exists>c. cells h r = Some c \<and> kc_location c = [] \<and> \<not> name_ok (kc_Name c))"
    and "\<forall>i. range_order (order i) (map_get (k8_ByName kr))"
    and "map_get (k8_ByName kr) k = Some r" and "myRegion \<noteq> []"
  shows "FindCluster order kr myRegion clusterName h = Inl IndexOutOfRange"
proof -
  have loop: "range_find kr (order i) t h = Inl IndexOutOfRange"
    if "\<And>r. t r h = bnd (via Location (Some r) h) (u r)" for i t and u :: "ref \<Rightarrow> string \<times> clusters \<Rightarrow> _"
  proof -
    note in_order = range_order_in_iff [OF assms(2) [rule_format], of _ i]
    have "k \<in> set (order i)" using assms(3) by (simp add: in_order)
    then obtain x xs where xs: "order i = x # xs" by (cases "order i") auto
    then have "x \<in> set (order i)" by simp
    then obtain p where p: "map_get (k8_ByName kr) x = Some p" by (auto simp: in_order)
    with assms(1) obtain c where c: "cells h p = Some c" "kc_location c = []" "\<not> name_ok (kc_Name c)"
      by blast
    then have "Location c = Inl IndexOutOfRange"
      using GcpInfo_panics_iff [of c IndexOutOfRange] by (simp add: Location_def)
    with c(1) have "via Location (Some p) h = Inl IndexOutOfRange" by (rule via_panic)
    with p that [of p] show ?thesis by (simp add: range_find_def range_test_def xs)
  qed
  have region: "in_region myRegion r h =
      bnd (via Location (Some r) h) (\<lambda>(loc, h'). Inr (has_prefix loc myRegion, h'))" for r
    using assms(4) by (simp add: in_region_def)
  have both: "in_region_has_name myRegion clusterName r h = bnd (via Location (Some r) h)
      (\<lambda>x. bnd (case x of (loc, h') \<Rightarrow> Inr (has_prefix loc myRegion, h'))
        (\<lambda>(hit, h'). if hit then has_name clusterName r h' else Inr (False, h')))" for r
    by (simp add: in_region_has_name_def region bnd_assoc)
  show ?thesis
  proof -
    have "range_find kr (order 2) (in_region myRegion) h = Inl IndexOutOfRange"
      by (rule loop, rule region)
    moreover have "range_find kr (order 0) (in_region_has_name myRegion clusterName) h = Inl IndexOutOfRange"
      by (rule loop, rule both)
    ultimately show ?thesis by (simp add: FindCluster_def)
  qed
qed

lemma FindCluster_malformed_panics_witness:
  "FindCluster (\<lambda>_. [''dev'']) (zero_K8S\<lparr>k8_ByName := Some [''dev'' \<mapsto> 0]\<rparr>) ''us-west1'' ''istio''
     \<lparr>cells = [0 \<mapsto> NewK8SCluster [] ''gke_dev''], next_ref = 1\<rparr> = Inl IndexOutOfRange"
  by (rule FindCluster_malformed_panics [where k = "''dev''" and r = 0])
    (auto simp: NewK8SCluster_def zero_cluster_def name_ok_def range_order_def split: if_splits)

section \<open>Autodetect\<close>

text \<open>Every order the map of a set is visited in lists each name once.\<close>

definition orders_ok :: "(set_state \<Rightarrow> nat \<Rightarrow> string list) \<Rightarrow> bool" where
  "orders_ok order \<longleftrightarrow> (\<forall>ks i. finite {k. set_view ks k \<noteq> None} \<longrightarrow> set_ok ks \<longrightarrow>
     range_order (order ks i) (map_get (k8_ByName (fst ks))))"

definition sorted_order :: "set_state \<Rightarrow> nat \<Rightarrow> string list" where
  "sorted_order ks i = sorted_list_of_set (dom (map_get (k8_ByName (fst ks))))"

lemma dom_set_view: "set_ok ks \<Longrightarrow> dom (map_get (k8_ByName (fst ks))) = {k. set_view ks k \<noteq> None}"
  using set_view_None_iff [of ks] by auto

lemma orders_ok_sorted: "orders_ok sorted_order"
proof -
  have "range_order (sorted_order ks i) (map_get (k8_ByName (fst ks)))"
    if "finite {k. set_view ks k \<noteq> None}" "set_ok ks" for ks i
    using that(1) unfolding dom_set_view [OF that(2), symmetric] sorted_order_def range_order_def by simp
  then show ?thesis by (simp add: orders_ok_def)
qed

lemma readable_iff:
  assumes "set_ok (kr, h)"
  shows "readable kr h \<longleftrightarrow> (\<forall>k c. set_view (kr, h) k = Some c \<longrightarrow> name_ok (kc_Name c) \<and> cache_ok c)"
  using assms by (fastforce simp: readable_def set_view_def set_ok_def split: option.splits)

lemma name_of_alike:
  assumes "cached_alike h h'" and "k8_ByName kr' = k8_ByName kr"
  shows "name_of kr' h' k = name_of kr h k"
proof (cases "map_get (k8_ByName kr) k")
  case None
  then show ?thesis using assms by (simp add: name_of_def set_view_def)
next
  case (Some r)
  then show ?thesis
  proof (cases "cells h r")
    case None
    with Some assms show ?thesis by (simp add: name_of_def set_view_def cached_alike_def)
  next
    case c: (Some c)
    with assms(1) obtain c' where "cells h' r = Some c'" "same_cluster c c'" by (rule cached_alikeD)
    with Some c assms(2) show ?thesis
      by (auto simp: name_of_def set_view_def dest: same_cluster_Name)
  qed
qed

lemma best_choice_alike:
  assumes "cached_alike h h'" and "k8_ByName kr' = k8_ByName kr" and "best_choice R N kr h cl"
  shows "best_choice R N kr' h' cl"
  using assms(3) by (simp add: best_choice_def name_of_alike [OF assms(1,2)] assms(2))

text \<open>The clusters of both APIs have readable names and empty caches.\<close>

lemma entry_readable:
  "name_ok (kc_Name (gke_entry g p c))" "cache_ok (gke_entry g p c)"
  "name_ok (kc_Name (hub_entry api g x))" "cache_ok (hub_entry api g x)"
proof -
  have "kc_Name (gke_entry g p c) = gke_name p (pb_Location c) (pb_Name c)"
    by (simp add: gke_entry_def gke_cluster_def gke_name_def)
  then show "name_ok (kc_Name (gke_entry g p c))" by (simp only: name_ok_gke_name)
  show "cache_ok (gke_entry g p c)" "cache_ok (hub_entry api g x)"
    "name_ok (kc_Name (hub_entry api g x))"
    by (simp_all add: gke_entry_def gke_cluster_def hub_entry_def cache_ok_def zero_cluster_def
        split: prod.split)
qed

text \<open>Both loaders, and the names they leave in the set.\<close>

lemma loaders_run:
  assumes "new_cluster_manager api (gke_options api g []) w = (Inr cl, w1)"
    and "list_clusters api cl (''projects/'' @ ProjectId api g @ ''/locations/-'') w1 = (Inr cs, w2)"
    and "\<forall>c \<in> set cs. pb_ClusterCaCertificate c \<noteq> None"
    and "new_hub_client api (gke_options api g []) w2 = (Inr mc, w3)"
    and "list_memberships api mc (''projects/'' @ ProjectId api g @ ''/locations/-'') w3 = (mr, w4)"
    and "hub_feed api mr g w4 ms IteratorDone g' w5"
    and "set_ok ks" and "readable (fst ks) (snd ks)" and "finite {k. set_view ks k \<noteq> None}"
  shows "\<exists>l ks1 l' ks2. LoadGKEClusters api [] [] (g, ks) w = Inr (Inr l, (g, ks1), w2)
    \<and> LoadHubClusters api [] (g, ks1) w2 = Some (Inr (Inr l', (g', ks2), w5))
    \<and> set_ok ks2 \<and> readable (fst ks2) (snd ks2) \<and> default_view ks2 = default_view ks
    \<and> {k. set_view ks2 k \<noteq> None} = {k. set_view ks k \<noteq> None}
        \<union> kc_Name ` (gke_entry g (ProjectId api g) ` set cs \<union> hub_entry api g ` set ms)
    \<and> finite {k. set_view ks2 k \<noteq> None}
    \<and> (\<forall>k c. set_view ks2 k = Some c \<longrightarrow> set_view ks k = Some c
        \<or> c \<in> gke_entry g (ProjectId api g) ` set cs \<union> hub_entry api g ` set ms)"
proof -
  let ?ge = "gke_entry g (ProjectId api g)" and ?he = "hub_entry api g"
  from LoadGKEClusters_run [OF assms(1), of "ProjectId api g" "[]" cs w2 ks] assms(2,3,7)
  obtain l ks1 where gl: "LoadGKEClusters api [] [] (g, ks) w = Inr (Inr l, (g, ks1), w2)"
    "gke_loaded g (ProjectId api g) ks cs (l, ks1)" by auto
  have ok1: "set_ok ks1" and def1: "default_view ks1 = default_view ks"
    and view1: "set_view ks1 k = (case set_view ks k of Some c \<Rightarrow> Some c
        | None \<Rightarrow> find (\<lambda>c. kc_Name c = k) (map ?ge cs))" for k
    using gl(2) by (simp_all add: gke_loaded_def)
  from hub_loop_run [OF assms(6) ok1, of "[]"] obtain l' ks2 where
    hl: "hub_loop api mr [] (g, ks1) w4 = Some (Inr (Inr l', (g', ks2), w5))" "hub_loaded api g ks1 ms l' ks2"
    by auto
  have run2: "LoadHubClusters api [] (g, ks1) w2 = Some (Inr (Inr l', (g', ks2), w5))"
    using assms(4,5) hl(1) by (simp add: LoadHubClusters_def Let_def)
  have ok2: "set_ok ks2" and def2: "default_view ks2 = default_view ks1"
    and view2: "set_view ks2 k = (case find (\<lambda>c. kc_Name c = k) (rev (map ?he ms)) of
        Some c \<Rightarrow> Some c | None \<Rightarrow> set_view ks1 k)" for k
    using hl(2) by (simp_all add: hub_loaded_def)
  have old: "set_view ks k = Some c \<Longrightarrow> name_ok (kc_Name c) \<and> cache_ok c" for k c
    using assms(7,8) readable_iff [of "fst ks" "snd ks"] by simp
  have new: "name_ok (kc_Name c) \<and> cache_ok c" if "set_view ks2 k = Some c" for k c
  proof (cases "find (\<lambda>c. kc_Name c = k) (rev (map ?he ms))")
    case None
    with that view1 [of k] view2 [of k] show ?thesis
      using old entry_readable(1,2) by (auto dest!: find_SomeD split: option.splits)
  next
    case (Some x)
    with that view2 [of k] show ?thesis using entry_readable(3,4) by (auto dest!: find_SomeD)
  qed
  then have "readable (fst ks2) (snd ks2)" using readable_iff [of "fst ks2" "snd ks2"] ok2 by simp
  moreover have names: "{k. set_view ks2 k \<noteq> None} = {k. set_view ks k \<noteq> None} \<union> kc_Name ` (?ge ` set cs \<union> ?he ` set ms)"
    (is "_ = ?names")
  proof (intro set_eqI)
    fix k
    show "k \<in> {k. set_view ks2 k \<noteq> None} \<longleftrightarrow> k \<in> ?names"
      using view1 [of k] view2 [of k]
      by (cases "set_view ks k"; cases "find (\<lambda>c. kc_Name c = k) (map ?ge cs)";
          cases "find (\<lambda>c. kc_Name c = k) (rev (map ?he ms))")
        (auto simp: find_None_iff dest!: find_SomeD)
  qed
  moreover have "finite {k. set_view ks2 k \<noteq> None}" using assms(9) unfolding names by simp
  moreover have "set_view ks k = Some c \<or> c \<in> ?ge ` set cs \<union> ?he ` set ms" if "set_view ks2 k = Some c" for k c
  proof -
    have "set_view ks k = Some c \<or> find (\<lambda>c. kc_Name c = k) (map ?ge cs) = Some c
        \<or> find (\<lambda>c. kc_Name c = k) (rev (map ?he ms)) = Some c"
      using that view1 [of k] view2 [of k] by (simp split: option.splits)
    then show ?thesis by (auto dest!: find_SomeD)
  qed
  moreover have "default_view ks2 = default_view ks" using def1 def2 by simp
  ultimately show ?thesis using gl(1) run2 ok2 by blast
qed

lemma same_cluster_RestConfig: "same_cluster a b \<Longrightarrow> kc_RestConfig b = kc_RestConfig a"
  by (cases a; cases b) (simp add: same_cluster_def)

text \<open>
  Where a cluster of the set comes from: it was there, or it is one of \<open>new\<close>; only its cached names
  may have changed.
\<close>

definition comes_from :: "set_state \<Rightarrow> K8SCluster set \<Rightarrow> set_state \<Rightarrow> bool" where
  "comes_from ks new ks' \<longleftrightarrow> (\<forall>k c. set_view ks' k = Some c \<longrightarrow>
     (\<exists>c0. same_cluster c0 c \<and> (set_view ks k = Some c0 \<or> c0 \<in> new)))"

lemma comes_from_new:
  "comes_from ks new ks' \<Longrightarrow> set_view ks k = None \<Longrightarrow> set_view ks' k = Some c \<Longrightarrow> \<exists>c0 \<in> new. same_cluster c0 c"
  unfolding comes_from_def by fastforce

lemma comes_from_alike:
  assumes "\<forall>k c. set_view (kr, h) k = Some c \<longrightarrow> set_view ks k = Some c \<or> c \<in> new"
    and "cached_alike h h'" and "k8_ByName kr' = k8_ByName kr"
  shows "comes_from ks new (kr', h')"
  unfolding comes_from_def
proof (intro allI impI)
  fix k c
  assume "set_view (kr', h') k = Some c"
  then obtain r where r: "map_get (k8_ByName kr) k = Some r" "cells h' r = Some c"
    using assms(3) by (auto simp: set_view_def split: option.splits)
  then obtain c0 where c0: "cells h r = Some c0" using assms(2) by (fastforce simp: cached_alike_def)
  with assms(2) obtain c' where "cells h' r = Some c'" "same_cluster c0 c'" by (rule cached_alikeD)
  with r c0 have "set_view (kr, h) k = Some c0" "same_cluster c0 c" by (simp_all add: set_view_def)
  with assms(1) show "\<exists>c0. same_cluster c0 c \<and> (set_view ks k = Some c0 \<or> c0 \<in> new)" by blast
qed

lemma autodetect_run:
  assumes "new_cluster_manager api (gke_options api g []) w = (Inr cl, w1)"
    and "list_clusters api cl (''projects/'' @ ProjectId api g @ ''/locations/-'') w1 = (Inr cs, w2)"
    and "\<forall>c \<in> set cs. pb_ClusterCaCertificate c \<noteq> None"
    and "new_hub_client api (gke_options api g []) w2 = (Inr mc, w3)"
    and "list_memberships api mc (''projects/'' @ ProjectId api g @ ''/locations/-'') w3 = (mr, w4)"
    and "hub_feed api mr g w4 ms IteratorDone g' w5"
    and "set_ok ks" and "readable (fst ks) (snd ks)" and "finite {k. set_view ks k \<noteq> None}"
    and "k8_Default (fst ks) = None" and "orders_ok order"
    and "RegionFromMetadata api w5 = ((region, e), w6)"
  shows "\<exists>kr' h'. autodetect api order name (g, ks) w = Some (Inr (None, (g', kr', h'), w6))
    \<and> {k. set_view (kr', h') k \<noteq> None} = {k. set_view ks k \<noteq> None}
        \<union> kc_Name ` (gke_entry g (ProjectId api g) ` set cs \<union> hub_entry api g ` set ms)
    \<and> best_choice region name kr' h' (k8_Default kr')
    \<and> comes_from ks (gke_entry g (ProjectId api g) ` set cs \<union> hub_entry api g ` set ms) (kr', h')"
proof -
  from loaders_run [OF assms(1-9)] obtain l ks1 l' ks2 where r:
    "LoadGKEClusters api [] [] (g, ks) w = Inr (Inr l, (g, ks1), w2)"
    "LoadHubClusters api [] (g, ks1) w2 = Some (Inr (Inr l', (g', ks2), w5))"
    "set_ok ks2" "readable (fst ks2) (snd ks2)" "default_view ks2 = default_view ks"
    "{k. set_view ks2 k \<noteq> None} = {k. set_view ks k \<noteq> None}
        \<union> kc_Name ` (gke_entry g (ProjectId api g) ` set cs \<union> hub_entry api g ` set ms)"
    "finite {k. set_view ks2 k \<noteq> None}"
    "\<forall>k c. set_view ks2 k = Some c \<longrightarrow> set_view ks k = Some c
        \<or> c \<in> gke_entry g (ProjectId api g) ` set cs \<union> hub_entry api g ` set ms"
    by iprover
  obtain kr2 h2 where ks2: "ks2 = (kr2, h2)" by (cases ks2)
  have nodef: "k8_Default kr2 = None"
    using r(3,5) assms(7,10) default_view_None_iff [of ks] default_view_None_iff [of ks2] ks2 by simp
  have ord: "\<forall>i. range_order (order ks2 i) (map_get (k8_ByName kr2))"
    using assms(11) r(3,7) ks2 by (auto simp: orders_ok_def)
  from FindCluster_run [of kr2 h2, OF _ ord, of region name] r(4) ks2 obtain d h' where
    f: "FindCluster (order ks2) kr2 region name h2 = Inr (d, h')" "cached_alike h2 h'"
      "best_choice region name kr2 h2 d" by auto
  let ?kr = "kr2\<lparr>k8_Default := d\<rparr>"
  have "autodetect_default api order name (g', ks2) w5 = Inr (None, (g', ?kr, h'), w6)"
    using nodef f(1) assms(12) ks2 by (simp add: autodetect_default_def)
  then have "autodetect api order name (g, ks) w = Some (Inr (None, (g', ?kr, h'), w6))"
    using r(1,2) by (simp add: autodetect_def)
  moreover have "best_choice region name ?kr h' (k8_Default ?kr)"
    using best_choice_alike [OF f(2) _ f(3), of ?kr] by simp
  moreover have "name_of ?kr h' k = name_of kr2 h2 k" for k by (rule name_of_alike [OF f(2)]) simp
  then have "(set_view (?kr, h') k = None) = (set_view ks2 k = None)" for k
    by (metis ks2 name_of_def option.map_disc_iff)
  then have "{k. set_view (?kr, h') k \<noteq> None} = {k. set_view ks2 k \<noteq> None}" by simp
  moreover have "comes_from ks (gke_entry g (ProjectId api g) ` set cs \<union> hub_entry api g ` set ms) (?kr, h')"
    by (rule comes_from_alike [OF _ f(2)]) (use r(8) ks2 in simp_all)
  ultimately show ?thesis using r(6) by metis
qed

text \<open>
  C4: Without a default, and with both APIs answering, \<open>Autodetect\<close> returns no error and
  does not panic. The set then has the clusters it had, the project's GKE clusters and the
  hub's members, and the default is a best choice among all of them for the region of the
  metadata server (no region when that fails): nil only when there is no cluster at all.
\<close>

theorem autodetect_best_default:
  assumes "new_cluster_manager api (gke_options api g []) w = (Inr cl, w1)"
    and "list_clusters api cl (''projects/'' @ ProjectId api g @ ''/locations/-'') w1 = (Inr cs, w2)"
    and "\<forall>c \<in> set cs. pb_ClusterCaCertificate c \<noteq> None"
    and "new_hub_client api (gke_options api g []) w2 = (Inr mc, w3)"
    and "list_memberships api mc (''projects/'' @ ProjectId api g @ ''/locations/-'') w3 = (mr, w4)"
    and "hub_feed api mr g w4 ms IteratorDone g' w5"
    and "set_ok ks" and "readable (fst ks) (snd ks)" and "finite {k. set_view ks k \<noteq> None}"
    and "k8_Default (fst ks) = None" and "orders_ok order"
    and "RegionFromMetadata api w5 = ((region, e), w6)"
  shows "\<exists>kr' h'. autodetect api order name (g, ks) w = Some (Inr (None, (g', kr', h'), w6))
    \<and> {k. set_view (kr', h') k \<noteq> None} = {k. set_view ks k \<noteq> None}
        \<union> kc_Name ` (gke_entry g (ProjectId api g) ` set cs \<union> hub_entry api g ` set ms)
    \<and> best_choice region name kr' h' (k8_Default kr')"
  using autodetect_run [OF assms] by iprover

theorem autodetect_best_default_witness:
  "\<exists>kr' h'. autodetect demo_gcp sorted_order ''istio'' (demo_gke, empty_set) 0
      = Some (Inr (None, (demo_gke, kr', h'), 3)) \<and> k8_Default kr' \<noteq> None"
proof -
  let ?cs = "[demo_pb ''us-west1'' ''istio'', demo_pb ''eu'' ''b'']"
  let ?m = "(\<lparr>mb_Name = ''projects/p1/memberships/asm''\<rparr>, ''42'')"
  have region: "RegionFromMetadata demo_gcp 3 = ((''us-west1'', None), 3)"
    by code_simp
  have r: "readable (fst empty_set) (snd empty_set)"
    using readable_iff [of "fst empty_set" "snd empty_set"] set_ok_empty_set by simp
  have "\<exists>kr' h'. autodetect demo_gcp sorted_order ''istio'' (demo_gke, empty_set) 0
      = Some (Inr (None, (demo_gke, kr', h'), 3))
    \<and> {k. set_view (kr', h') k \<noteq> None} = {k. set_view empty_set k \<noteq> None}
        \<union> kc_Name ` (gke_entry demo_gke (ProjectId demo_gcp demo_gke) ` set ?cs
          \<union> hub_entry demo_gcp demo_gke ` set [?m, ?m])
    \<and> best_choice ''us-west1'' ''istio'' kr' h' (k8_Default kr')"
    by (rule autodetect_best_default [OF _ _ _ _ _ demo_hub_feed set_ok_empty_set r _ _ orders_ok_sorted region])
      (simp_all add: demo_gcp_def demo_pb_def ProjectId_def, simp add: empty_set_def zero_K8S_def)
  then obtain kr' h' where a: "autodetect demo_gcp sorted_order ''istio'' (demo_gke, empty_set) 0
      = Some (Inr (None, (demo_gke, kr', h'), 3))"
    and n: "{k. set_view (kr', h') k \<noteq> None} = {k. set_view empty_set k \<noteq> None}
        \<union> kc_Name ` (gke_entry demo_gke (ProjectId demo_gcp demo_gke) ` set ?cs
          \<union> hub_entry demo_gcp demo_gke ` set [?m, ?m])"
    and b: "best_choice ''us-west1'' ''istio'' kr' h' (k8_Default kr')"
    by iprover
  have "kc_Name (hub_entry demo_gcp demo_gke ?m) \<in> {k. set_view (kr', h') k \<noteq> None}"
    unfolding n by simp
  then have "name_of kr' h' (kc_Name (hub_entry demo_gcp demo_gke ?m)) \<noteq> None"
    by (auto simp: name_of_def)
  with b have "k8_Default kr' \<noteq> None" by (auto simp: best_choice_def)
  with a show ?thesis by blast
qed

end
