(* ===== verification/Url.thy ===== *)
theory Url
  imports GoStrings
begin

text \<open>
  \<open>url.Parse\<close> of the Go standard library (Go 1.22), as far as the program depends on it: the
  scheme, the host and the path of a URL, and whether it is refused. The query, the fragment
  and the user are only checked.
\<close>

record url =
  u_Scheme :: string
  u_Host :: string
  u_Path :: string

section \<open>Characters and escapes\<close>

abbreviation code :: "char \<Rightarrow> nat" where
  "code ch \<equiv> of_char ch"

definition is_lower :: "char \<Rightarrow> bool" where "is_lower c \<longleftrightarrow> 97 \<le> code c \<and> code c \<le> 122"
definition is_upper :: "char \<Rightarrow> bool" where "is_upper c \<longleftrightarrow> 65 \<le> code c \<and> code c \<le> 90"
definition is_digit :: "char \<Rightarrow> bool" where "is_digit c \<longleftrightarrow> 48 \<le> code c \<and> code c \<le> 57"
definition is_alnum :: "char \<Rightarrow> bool" where
  "is_alnum c \<longleftrightarrow> is_lower c \<or> is_upper c \<or> is_digit c"

definition to_lower :: "char \<Rightarrow> char" where
  "to_lower c = (if is_upper c then char_of (code c + 32) else c)"

definition is_ctl :: "char \<Rightarrow> bool" where "is_ctl c \<longleftrightarrow> code c < 32 \<or> code c = 127"

definition hex_val :: "char \<Rightarrow> nat option" where
  "hex_val c = (if is_digit c then Some (code c - 48)
     else if 97 \<le> code c \<and> code c \<le> 102 then Some (code c - 87)
     else if 65 \<le> code c \<and> code c \<le> 70 then Some (code c - 55) else None)"

datatype encoding = EncodeHost | EncodeZone | EncodeOther

text \<open>The characters \<open>shouldEscape\<close> leaves alone in a host.\<close>

definition host_char :: "char \<Rightarrow> bool" where
  "host_char c \<longleftrightarrow> is_alnum c \<or> c \<in> set ''!$&()*+,;=:[]<>-_.~'' \<or> code c = 34 \<or> code c = 39"

definition escape_error :: go_error where "escape_error = ErrNew ''invalid URL escape''"
definition host_error :: go_error where "host_error = ErrNew ''invalid character in host name''"

fun unescape :: "encoding \<Rightarrow> string \<Rightarrow> go_error + string" where
  "unescape m [] = Inr []"
| "unescape m (c # s) =
     (if c = CHR ''%'' then
        (case s of
           a # b # rest \<Rightarrow>
             (case (hex_val a, hex_val b) of
                (Some x, Some y) \<Rightarrow>
                  (let v = char_of (16 * x + y) :: char; pct = (a = CHR ''2'' \<and> b = CHR ''5'') in
                   if m = EncodeHost \<and> x < 8 \<and> \<not> pct then Inl escape_error
                   else if m = EncodeZone \<and> \<not> pct \<and> v \<noteq> CHR '' '' \<and> \<not> host_char v then Inl escape_error
                   else (case unescape m rest of Inl e \<Rightarrow> Inl e | Inr t \<Rightarrow> Inr (v # t)))
              | _ \<Rightarrow> Inl escape_error)
         | _ \<Rightarrow> Inl escape_error)
      else if m \<noteq> EncodeOther \<and> code c < 128 \<and> \<not> host_char c then Inl host_error
      else (case unescape m s of Inl e \<Rightarrow> Inl e | Inr t \<Rightarrow> Inr (c # t)))"

section \<open>Authority\<close>

text \<open>\<open>strings.Cut\<close> with a one-byte separator, and the last index of a byte.\<close>

definition cut :: "char \<Rightarrow> string \<Rightarrow> string \<times> string" where
  "cut c s = (takeWhile (\<lambda>x. x \<noteq> c) s, drop 1 (dropWhile (\<lambda>x. x \<noteq> c) s))"

fun last_index :: "char \<Rightarrow> string \<Rightarrow> nat option" where
  "last_index c [] = None"
| "last_index c (x # s) = (case last_index c s of
     Some i \<Rightarrow> Some (Suc i) | None \<Rightarrow> if x = c then Some 0 else None)"

fun valid_optional_port :: "string \<Rightarrow> bool" where
  "valid_optional_port [] = True"
| "valid_optional_port (c # s) = (c = CHR '':'' \<and> list_all is_digit s)"

definition port_error :: go_error where "port_error = ErrNew ''invalid port after host''"

definition parse_host :: "string \<Rightarrow> go_error + string" where
  "parse_host host =
     (if has_prefix host ''['' then
        (case last_index (CHR '']'') host of
           None \<Rightarrow> Inl (ErrNew ''missing ']' in host'')
         | Some i \<Rightarrow>
             (if \<not> valid_optional_port (drop (i + 1) host) then Inl port_error
              else (case index_of ''%25'' (take i host) of
                None \<Rightarrow> unescape EncodeHost host
              | Some z \<Rightarrow>
                  (case unescape EncodeHost (take z host) of Inl e \<Rightarrow> Inl e | Inr h1 \<Rightarrow>
                  (case unescape EncodeZone (drop z (take i host)) of Inl e \<Rightarrow> Inl e | Inr h2 \<Rightarrow>
                  (case unescape EncodeHost (drop i host) of Inl e \<Rightarrow> Inl e | Inr h3 \<Rightarrow>
                    Inr (h1 @ h2 @ h3)))))))
      else (case last_index (CHR '':'') host of
          Some i \<Rightarrow> (if \<not> valid_optional_port (drop i host) then Inl port_error
                     else unescape EncodeHost host)
        | None \<Rightarrow> unescape EncodeHost host))"

definition user_char :: "char \<Rightarrow> bool" where
  "user_char c \<longleftrightarrow> is_alnum c \<or> c \<in> set ''-._:~!$&()*+,;=%@'' \<or> code c = 39"

definition parse_authority :: "string \<Rightarrow> go_error + string" where
  "parse_authority authority =
     (case last_index (CHR ''@'') authority of
        None \<Rightarrow> parse_host authority
      | Some i \<Rightarrow>
          (case parse_host (drop (i + 1) authority) of
             Inl e \<Rightarrow> Inl e
           | Inr host \<Rightarrow>
               (let userinfo = take i authority; (user, password) = cut (CHR '':'') userinfo in
                if \<not> list_all user_char userinfo then Inl (ErrNew ''net/url: invalid userinfo'')
                else (case unescape EncodeOther user of Inl e \<Rightarrow> Inl e | Inr _ \<Rightarrow>
                     (case unescape EncodeOther password of Inl e \<Rightarrow> Inl e | Inr _ \<Rightarrow> Inr host)))))"

section \<open>Parse\<close>

text \<open>
  The scheme and the rest. Without a scheme the rest is the whole URL; \<open>seen\<close> is what was
  read, reversed.
\<close>

fun get_scheme :: "string \<Rightarrow> string \<Rightarrow> string \<Rightarrow> go_error + string \<times> string" where
  "get_scheme raw seen [] = Inr ([], raw)"
| "get_scheme raw seen (c # s) =
     (if is_lower c \<or> is_upper c then get_scheme raw (c # seen) s
      else if is_digit c \<or> c = CHR ''+'' \<or> c = CHR ''-'' \<or> c = CHR ''.'' then
        (if seen = [] then Inr ([], raw) else get_scheme raw (c # seen) s)
      else if c = CHR '':'' then
        (if seen = [] then Inl (ErrNew ''missing protocol scheme'') else Inr (rev seen, s))
      else Inr ([], raw))"

definition parse_rest :: "string \<Rightarrow> string \<Rightarrow> go_error + url" where
  "parse_rest scheme rest0 =
     (let rest = fst (cut (CHR ''?'') rest0) in
      if \<not> has_prefix rest ''/'' then
        (if scheme \<noteq> [] then Inr \<lparr>u_Scheme = scheme, u_Host = [], u_Path = []\<rparr>
         else if CHR '':'' \<in> set (fst (cut (CHR ''/'') rest))
           then Inl (ErrNew ''first path segment in URL cannot contain colon'')
         else (case unescape EncodeOther rest of Inl e \<Rightarrow> Inl e
           | Inr p \<Rightarrow> Inr \<lparr>u_Scheme = scheme, u_Host = [], u_Path = p\<rparr>))
      else if (scheme \<noteq> [] \<or> \<not> has_prefix rest ''///'') \<and> has_prefix rest ''//'' then
        (let r = drop 2 rest; authority = takeWhile (\<lambda>x. x \<noteq> CHR ''/'') r;
             path = dropWhile (\<lambda>x. x \<noteq> CHR ''/'') r
         in case parse_authority authority of Inl e \<Rightarrow> Inl e
            | Inr host \<Rightarrow> (case unescape EncodeOther path of Inl e \<Rightarrow> Inl e
                | Inr p \<Rightarrow> Inr \<lparr>u_Scheme = scheme, u_Host = host, u_Path = p\<rparr>))
      else (case unescape EncodeOther rest of Inl e \<Rightarrow> Inl e
        | Inr p \<Rightarrow> Inr \<lparr>u_Scheme = scheme, u_Host = [], u_Path = p\<rparr>))"

definition url_parse :: "string \<Rightarrow> go_error + url" where
  "url_parse rawURL =
     (let (u, frag) = cut (CHR ''#'') rawURL in
      if list_ex is_ctl u then Inl (ErrNew ''net/url: invalid control character in URL'')
      else if u = ''*'' then Inr \<lparr>u_Scheme = [], u_Host = [], u_Path = ''*''\<rparr>
      else (case get_scheme u [] u of
          Inl e \<Rightarrow> Inl e
        | Inr (scheme, rest) \<Rightarrow>
            (case parse_rest (map to_lower scheme) rest of
               Inl e \<Rightarrow> Inl e
             | Inr res \<Rightarrow> (case unescape EncodeOther frag of Inl e \<Rightarrow> Inl e | Inr _ \<Rightarrow> Inr res))))"

section \<open>URLs with a plain path\<close>

text \<open>A character that no step of the parser treats specially in a path.\<close>

definition plain :: "char \<Rightarrow> bool" where
  "plain c \<longleftrightarrow> c \<noteq> CHR ''%'' \<and> c \<noteq> CHR ''?'' \<and> c \<noteq> CHR ''#'' \<and> \<not> is_ctl c"

lemma unescape_plain: "list_all plain s \<Longrightarrow> unescape EncodeOther s = Inr s"
  by (induction s) (simp_all add: plain_def)

lemma cut_absent: "c \<notin> set s \<Longrightarrow> cut c s = (s, [])"
proof -
  assume c: "c \<notin> set s"
  then have "takeWhile (\<lambda>x. x \<noteq> c) s = s" "dropWhile (\<lambda>x. x \<noteq> c) s = []"
    by (induction s) auto
  then show "cut c s = (s, [])" by (simp only: cut_def drop_Nil)
qed

lemma plain_absent: "list_all plain s \<Longrightarrow> CHR ''%'' \<notin> set s \<and> CHR ''?'' \<notin> set s \<and> CHR ''#'' \<notin> set s"
  by (auto simp: plain_def list_all_iff)

lemma plain_no_ctl: "list_all plain s \<Longrightarrow> \<not> list_ex is_ctl s"
  by (auto simp: plain_def list_all_iff list_ex_iff)

text \<open>A URL \<open>gke://PATH\<close> whose path is absolute and plain.\<close>

lemma url_parse_gke:
  assumes "list_all plain path" and "has_prefix path ''/''"
  shows "url_parse (''gke://'' @ path) = Inr \<lparr>u_Scheme = ''gke'', u_Host = [], u_Path = path\<rparr>"
proof -
  let ?u = "''gke://'' @ path"
  obtain t where t: "path = CHR ''/'' # t" using assms(2) by (auto simp: has_prefix_iff)
  have plain: "list_all plain ?u"
    using assms(1) by (simp add: plain_def is_ctl_def)
  note abs = plain_absent [OF plain]
  have "get_scheme ?u [] ?u = Inr (''gke'', ''//'' @ path)"
    by (simp add: is_lower_def is_upper_def is_digit_def)
  moreover have "map to_lower ''gke'' = ''gke''"
    by (simp add: to_lower_def is_upper_def)
  moreover have "parse_rest ''gke'' (''//'' @ path) = Inr \<lparr>u_Scheme = ''gke'', u_Host = [], u_Path = path\<rparr>"
  proof -
    have "cut (CHR ''?'') (''//'' @ path) = (''//'' @ path, [])"
      using plain_absent [OF assms(1)] by (intro cut_absent) auto
    moreover have "parse_authority [] = Inr []"
      by (simp add: parse_authority_def parse_host_def)
    ultimately show ?thesis
      using unescape_plain [OF assms(1)] by (simp add: parse_rest_def t)
  qed
  moreover have "cut (CHR ''#'') ?u = (?u, [])" using abs by (intro cut_absent) simp
  ultimately show ?thesis
    using plain_no_ctl [OF plain] by (simp add: url_parse_def)
qed

end
