(* ===== verification/GkeModule.thy ===== *)
theory GkeModule
  imports Autodetect Url
begin

text \<open>
  Starting the GKE module: \<open>initGKE\<close>, \<open>New\<close> and \<open>NewModule\<close> of \<open>gcp/gke.go\<close>. The process
  environment, the metadata client, the default credentials, the random source, the plugin
  registry of client-go and the emulated metadata server are the parameter record
  \<open>boot_env\<close>.
\<close>

section \<open>initGKE\<close>

record 'w boot_env =
  be_Getenv :: "string \<Rightarrow> string"
  be_OnGCE :: "'w \<Rightarrow> bool \<times> 'w"
  be_FindDefaultCredentials :: "string \<Rightarrow> 'w \<Rightarrow> (go_error + access_source) \<times> 'w"
  be_random :: "nat \<Rightarrow> 'w \<Rightarrow> string \<times> 'w"
  be_register :: "string \<Rightarrow> (unit, unit) mdsAuth \<Rightarrow> 'w \<Rightarrow> go_error option \<times> 'w"
  be_Setenv :: "string \<Rightarrow> string \<Rightarrow> 'w \<Rightarrow> 'w"
  be_SetupAgent :: "mesh \<Rightarrow> 'w \<Rightarrow> go_error option \<times> 'w"
  be_ListenAndServe :: "string \<Rightarrow> 'w \<Rightarrow> 'w"

text \<open>The explicit URL of a cluster, and the name to look for when there is none.\<close>

definition explicit_path :: "url \<Rightarrow> string option" where
  "explicit_path u =
     (if (u_Scheme u = ''gke'' \<or> u_Host u = ''container.googleapis.com'') \<and> length (u_Path u) > 1
      then Some (u_Path u) else None)"

definition initGKE :: "'w gcp_api \<Rightarrow> 'w boot_env \<Rightarrow> (set_state \<Rightarrow> nat \<Rightarrow> string list) \<Rightarrow> gke_state \<Rightarrow> 'w
    \<Rightarrow> (go_error option \<times> gke_state \<times> 'w) exec option" where
  "initGKE api env order st w =
     (let addr = ms_MeshAddr (g_Mesh (fst st));
          addr = (if addr = [] then be_Getenv env ''MESH_URL'' else addr)
      in if addr \<noteq> [] then
           (case url_parse addr of
              Inl err \<Rightarrow> Some (Inl NilDeref)
            | Inr u \<Rightarrow>
                (case explicit_path u of
                   Some p \<Rightarrow>
                     Some (bnd (GKECluster api p st w) (\<lambda>((cl, err), (g, kr, h), w1).
                       case err of Some e \<Rightarrow> Inr (Some e, (g, kr, h), w1)
                       | None \<Rightarrow> Inr (None, (g, kr\<lparr>k8_Default := cl\<rparr>, h), w1)))
                 | None \<Rightarrow>
                     autodetect api order (if u_Scheme u = ''cluster'' then u_Host u else ''istio'') st w))
         else autodetect api order ''istio'' st w)"

section \<open>New\<close>

text \<open>
  The sources of tokens: with an address the module emulates the metadata server for the
  default cluster; without one it uses the metadata server, if there is one. The error is
  that of a module that is not created.
\<close>

definition fed_source :: "string \<Rightarrow> raw_source \<Rightarrow> string \<Rightarrow> sts_config" where
  "fed_source pid src gsa = \<lparr>sts_AudienceSource = pid @ ''.svc.id.goog'', sts_TokenSource = src, sts_GSA = gsa\<rparr>"

definition gsa_name :: "string \<Rightarrow> string \<Rightarrow> string" where
  "gsa_name ns pid = ''k8s-'' @ ns @ ''@'' @ pid @ ''.iam.gserviceaccount.com''"

definition new_sources :: "'w gcp_api \<Rightarrow> 'w boot_env \<Rightarrow> string \<Rightarrow> K8S \<Rightarrow> GKE \<Rightarrow> 'w
    \<Rightarrow> ((go_error + GKE) \<times> 'w) exec" where
  "new_sources api env address ks g w =
     (if address = [] then
        (case (if be_Getenv env ''GCE_METADATA_HOST'' \<noteq> [] then (True, w) else be_OnGCE env w) of
           (gce, w1) \<Rightarrow>
             Inr (Inr (if gce then g\<lparr>g_AccessTokenSource := Some (ComputeSource ''default'')\<rparr> else g), w1))
      else
        (case k8_Default ks of
           None \<Rightarrow> Inr (Inl (ErrNew ''Missing credentials source''), w)
         | Some r \<Rightarrow>
             (let pid = ProjectId api g;
                  f = fed_source pid (ClusterSource (Some r)) (gsa_name ''default'' pid)
              in bnd (map_put (ms_AuthProviders (g_Mesh g)) ''gcp'' (FedProvider f)) (\<lambda>m.
                   Inr (Inr (g\<lparr>g_TokenSource := Some f, g_Mesh := (g_Mesh g)\<lparr>ms_AuthProviders := m\<rparr>\<rparr>), w)))))"

definition new_credentials :: "'w boot_env \<Rightarrow> GKE \<Rightarrow> 'w \<Rightarrow> GKE \<times> 'w" where
  "new_credentials env g w =
     (if be_Getenv env ''GOOGLE_APPLICATION_CREDENTIALS'' \<noteq> [] then
        (case be_FindDefaultCredentials env ''https://www.googleapis.com/auth/cloud-platform'' w of
           (Inr s, w1) \<Rightarrow> (g\<lparr>g_AccessTokenSource := Some s\<rparr>, w1)
         | (Inl err, w1) \<Rightarrow> (g, w1))
      else (g, w))"

text \<open>
  \<open>New\<close> returns whether it returned a module, the error, and the state: the module
  (assigned to \<open>mod.Module\<close> before anything can fail), the set and the services. The set is
  a nil pointer if the mesh has no module k8s. An error of \<open>initGKE\<close> is logged and dropped: the
  module is returned with whatever was loaded before it.
\<close>

definition GKE_New :: "'w gcp_api \<Rightarrow> 'w boot_env \<Rightarrow> (set_state \<Rightarrow> nat \<Rightarrow> string list) \<Rightarrow> string \<Rightarrow> mesh
    \<Rightarrow> set_state option \<Rightarrow> 'w \<Rightarrow> ((bool \<times> go_error option) \<times> gke_state \<times> 'w) exec option" where
  "GKE_New api env order address ma ks w =
     (case ks of None \<Rightarrow> Some (Inl NilDeref)
      | Some (kr, h) \<Rightarrow>
          (case new_sources api env address kr (new_GKE ma) w of
             Inl p \<Rightarrow> Some (Inl p)
           | Inr (Inl err, w1) \<Rightarrow> Some (Inr ((False, Some err), (new_GKE ma, kr, h), w1))
           | Inr (Inr g1, w1) \<Rightarrow>
               (case new_credentials env g1 w1 of (g2, w2) \<Rightarrow>
               (case be_random env 8 w2 of (rnd, w3) \<Rightarrow>
                  let g3 = g2\<lparr>g_authScheme := ''gke'' @ rnd\<rparr>;
                      w4 = RegisterK8STokenProvider (be_register env) (g_authScheme g3) () w3
                  in if k8_Default kr = None then
                       (case initGKE api env order (g3, kr, h) w4 of
                          None \<Rightarrow> None
                        | Some res \<Rightarrow> Some (bnd res (\<lambda>(err, st', w5). Inr ((True, None), st', w5))))
                     else Some (Inr ((True, None), (g3, kr, h), w4))))))"

section \<open>NewModule\<close>

text \<open>
  The providers \<open>NewModule\<close> puts into the mesh. The cluster provider is the default pointer,
  also when it is nil.
\<close>

definition module_providers :: "'w gcp_api \<Rightarrow> gke_state \<Rightarrow> gke_state exec" where
  "module_providers api st = (case st of (g, kr, h) \<Rightarrow>
     (let ma = g_Mesh g; pid = ProjectId api g; fedS = fed_source pid SetSource [] in
      bnd (map_put (ms_AuthProviders ma) ''k8s'' (ClusterProvider (k8_Default kr))) (\<lambda>m1.
      bnd (map_put m1 ''gcp_fed'' (FedProvider fedS)) (\<lambda>m2.
        let gsa = (if ms_GSA ma = [] then gsa_name (ms_Namespace ma) pid else ms_GSA ma);
            gcp = (if gsa \<noteq> ''-'' then fed_source pid SetSource gsa else fedS)
        in bnd (map_put m2 ''gcp'' (FedProvider gcp)) (\<lambda>m3.
             Inr (g\<lparr>g_Mesh := ma\<lparr>ms_AuthProviders := m3, ms_GSA := gsa\<rparr>\<rparr>, kr, h))))))"

definition NewModule :: "'w gcp_api \<Rightarrow> 'w boot_env \<Rightarrow> (set_state \<Rightarrow> nat \<Rightarrow> string list) \<Rightarrow> string \<Rightarrow> mesh
    \<Rightarrow> set_state option \<Rightarrow> 'w \<Rightarrow> (go_error option \<times> gke_state \<times> 'w) exec option" where
  "NewModule api env order address ma ks w =
     (case GKE_New api env order address ma ks w of
        None \<Rightarrow> None
      | Some (Inl p) \<Rightarrow> Some (Inl p)
      | Some (Inr ((_, Some err), st, w1)) \<Rightarrow> Some (Inr (Some err, st, w1))
      | Some (Inr ((_, None), st, w1)) \<Rightarrow>
          Some (bnd (module_providers api st) (\<lambda>st'.
            if address \<noteq> [] then
              (let w2 = be_Setenv env ''GCE_METADATA_HOST'' ''localhost:15021'' w1 in
               case be_SetupAgent env (g_Mesh (fst st')) w2 of
                 (Some err, w3) \<Rightarrow> Inr (Some err, st', w3)
               | (None, w3) \<Rightarrow> Inr (None, st', be_ListenAndServe env ''localhost:15021'' w3))
            else Inr (None, st', w1))))"

section \<open>Properties\<close>

text \<open>A concrete process for the witnesses: it is not on GCP, and nothing fails.\<close>

definition demo_boot :: "nat boot_env" where
  "demo_boot = \<lparr>be_Getenv = (\<lambda>v. []), be_OnGCE = (\<lambda>w. (False, w)),
     be_FindDefaultCredentials = (\<lambda>s w. (Inl EOF, w)), be_random = (\<lambda>n w. (''abcdefgh'', w)),
     be_register = (\<lambda>n m w. (None, w)), be_Setenv = (\<lambda>k v w. w),
     be_SetupAgent = (\<lambda>m w. (None, w)), be_ListenAndServe = (\<lambda>a w. w)\<rparr>"

text \<open>What \<open>GKECluster\<close> returns: a cluster or an error, and the set as it was.\<close>

lemma get_cluster_tries_error:
  "n \<noteq> 0 \<or> e \<noteq> None \<Longrightarrow> get_cluster_tries api c p n e w = (Inl err, w') \<Longrightarrow> err \<noteq> None"
  by (induction api c p n e w rule: get_cluster_tries.induct) (auto split: prod.splits sum.splits)

lemma GKECluster_result:
  assumes "GKECluster api p (g, kr, h) w = Inr ((cl, err), (g1, kr1, h1), w1)"
  shows "kr1 = kr \<and> g1 = g \<and> (cl = None \<longleftrightarrow> err \<noteq> None)"
  using assms get_cluster_tries_error [of 5 None api]
  by (auto simp: GKECluster_def Let_def bnd_eq_Inr_iff alloc_def split: prod.splits sum.splits)

text \<open>
  A mesh address \<open>gke://PATH\<close> selects one cluster: the module asks the GKE API for
  exactly the path of the URL, with its leading slash, and makes the answer the default
  without registering it under a name; an error is returned and the default stays. Neither
  API is listed, and \<open>MESH_URL\<close> is not read.
\<close>

lemma initGKE_explicit:
  assumes "ms_MeshAddr (g_Mesh g) = ''gke://'' @ path"
    and "list_all plain path" and "has_prefix path ''/''" and "1 < length path"
    and "GKECluster api path (g, kr, h) w = Inr ((cl, err), (g1, kr1, h1), w1)"
  shows "initGKE api env order (g, kr, h) w =
      Some (Inr (err, (g1, if err = None then kr\<lparr>k8_Default := cl\<rparr> else kr, h1), w1))
    \<and> g1 = g \<and> (cl = None \<longleftrightarrow> err \<noteq> None)"
proof -
  note GKECluster_result [OF assms(5)]
  moreover have "url_parse (''gke://'' @ path) = Inr \<lparr>u_Scheme = ''gke'', u_Host = [], u_Path = path\<rparr>"
    using assms(2,3) by (rule url_parse_gke)
  ultimately show ?thesis
    using assms(1,4,5) by (cases err) (simp_all add: initGKE_def explicit_path_def)
qed

lemma initGKE_explicit_witness:
  "\<exists>h1. initGKE (demo_gcp\<lparr>get_cluster := \<lambda>cl p w. (Inl EOF, w)\<rparr>) demo_boot sorted_order
      (demo_gke\<lparr>g_Mesh := demo_mesh\<lparr>ms_MeshAddr := ''gke:///projects/p/locations/l/clusters/c''\<rparr>\<rparr>, empty_set) 0
    = Some (Inr (Some EOF, (demo_gke\<lparr>g_Mesh := demo_mesh\<lparr>ms_MeshAddr := ''gke:///projects/p/locations/l/clusters/c''\<rparr>\<rparr>,
        fst empty_set, h1), 0))"
proof -
  let ?path = "''/projects/p/locations/l/clusters/c''"
  let ?g = "demo_gke\<lparr>g_Mesh := demo_mesh\<lparr>ms_MeshAddr := ''gke:///projects/p/locations/l/clusters/c''\<rparr>\<rparr>"
  let ?api = "demo_gcp\<lparr>get_cluster := \<lambda>cl p w. (Inl EOF, w)\<rparr>"
  have addr: "ms_MeshAddr (g_Mesh ?g) = ''gke://'' @ ?path" by simp
  have plain: "list_all plain ?path" by (simp add: plain_def is_ctl_def)
  have run: "GKECluster ?api ?path (?g, fst empty_set, snd empty_set) 0 =
      Inr ((None, Some EOF), (?g, fst empty_set, snd empty_set), 0)"
    by (simp add: GKECluster_def demo_gcp_def eval_nat_numeral)
  from initGKE_explicit [OF addr plain _ _ run, of demo_boot sorted_order] show ?thesis
    by (intro exI [of _ "snd empty_set"]) simp
qed

text \<open>
  The error of \<open>url.Parse\<close> is dropped and the nil URL is read: any mesh address or
  \<open>MESH_URL\<close> that does not parse crashes the start of the module.
\<close>

lemma initGKE_bad_url_panics:
  assumes "addr = (if ms_MeshAddr (g_Mesh g) = [] then be_Getenv env ''MESH_URL'' else ms_MeshAddr (g_Mesh g))"
    and "addr \<noteq> []" and "url_parse addr = Inl err"
  shows "initGKE api env order (g, ks) w = Some (Inl NilDeref)"
  using assms by (simp add: initGKE_def Let_def)

text \<open>
  In the emulated mode, with an address, a default cluster and no application
  credentials, \<open>New\<close> succeeds with a federated source over that cluster and no access token
  source. \<open>Token\<close> then gives the federated token, but \<open>GetToken\<close> with the empty audience,
  which the code says the Kubernetes library uses for access tokens, panics.
\<close>

lemma emulated_GetToken_panics:
  assumes "address \<noteq> []" and "k8_Default kr = Some r"
    and "be_Getenv env ''GOOGLE_APPLICATION_CREDENTIALS'' = []"
    and "ms_AuthProviders ma = Some m"
  shows "\<exists>g w'. GKE_New api env order address ma (Some (kr, h)) w = Some (Inr ((True, None), (g, kr, h), w'))
    \<and> g_TokenSource g = Some (fed_source (ProjectId api g) (ClusterSource (Some r))
        (gsa_name ''default'' (ProjectId api g)))
    \<and> GKE_GetToken api g [] w2 = Inl NilDeref
    \<and> (\<forall>t w3. fed_token api (the (g_TokenSource g)) [] w2 = ((t, None), w3) \<longrightarrow>
         Token api g w2 = Inr (Inr \<lparr>ot_AccessToken = t, ot_id_token = None\<rparr>, w3))"
proof -
  obtain rnd w3 where r: "be_random env 8 w = (rnd, w3)" by (cases "be_random env 8 w")
  let ?pid = "mds_ProjectID api"
  let ?f = "fed_source ?pid (ClusterSource (Some r)) (gsa_name ''default'' ?pid)"
  let ?g = "(new_GKE ma)\<lparr>g_TokenSource := Some ?f,
      g_Mesh := ma\<lparr>ms_AuthProviders := Some (m(''gcp'' \<mapsto> FedProvider ?f))\<rparr>, g_authScheme := ''gke'' @ rnd\<rparr>"
  have src: "new_sources api env address kr (new_GKE ma) w =
      Inr (Inr ((new_GKE ma)\<lparr>g_TokenSource := Some ?f,
        g_Mesh := ma\<lparr>ms_AuthProviders := Some (m(''gcp'' \<mapsto> FedProvider ?f))\<rparr>\<rparr>), w)"
    using assms(1,2,4) by (simp add: new_sources_def ProjectId_def new_GKE_def Let_def)
  have "\<exists>w'. GKE_New api env order address ma (Some (kr, h)) w = Some (Inr ((True, None), (?g, kr, h), w'))"
    using src assms(2,3) r by (simp add: GKE_New_def new_credentials_def Let_def)
  moreover have "GKE_GetToken api ?g [] w2 = Inl NilDeref"
    by (simp add: GKE_GetToken_def new_GKE_def)
  moreover have "\<forall>t w3. fed_token api ?f [] w2 = ((t, None), w3) \<longrightarrow>
      Token api ?g w2 = Inr (Inr \<lparr>ot_AccessToken = t, ot_id_token = None\<rparr>, w3)"
    by (simp add: Token_def new_GKE_def)
  ultimately show ?thesis by (intro exI [of _ ?g]) (simp add: ProjectId_def)
qed

lemma emulated_GetToken_panics_witness:
  "\<exists>g w'. GKE_New demo_gcp demo_boot sorted_order '':15014'' demo_mesh
       (Some (zero_K8S\<lparr>k8_Default := Some 0\<rparr>, empty_store)) 0
     = Some (Inr ((True, None), (g, zero_K8S\<lparr>k8_Default := Some 0\<rparr>, empty_store), w'))
   \<and> GKE_GetToken demo_gcp g [] 0 = Inl NilDeref"
  using emulated_GetToken_panics [of "'':15014''" "zero_K8S\<lparr>k8_Default := Some 0\<rparr>" 0 demo_boot demo_mesh
      "\<lambda>_. None" demo_gcp sorted_order empty_store 0 0]
  by (auto simp: demo_boot_def demo_mesh_def)

text \<open>
  When \<open>New\<close> succeeds, \<open>NewModule\<close> leaves three token providers in the mesh: the default
  cluster, the federated tokens of the set, and the tokens of the service account, which is
  named after the namespace and the project when it is unset, or the federated ones again
  when it is a dash. The provider that \<open>New\<close> had put there in the emulated mode is replaced,
  the other providers of the mesh stay, and a failing metadata agent changes only the error.
\<close>

lemma NewModule_providers:
  assumes "GKE_New api env order address ma ks w = Some (Inr ((b, None), (g, kr, h), w1))"
    and "ms_AuthProviders (g_Mesh g) = Some m"
    and "pid = ProjectId api g"
    and "gsa = (if ms_GSA (g_Mesh g) = [] then gsa_name (ms_Namespace (g_Mesh g)) pid else ms_GSA (g_Mesh g))"
  shows "\<exists>err g' w'. NewModule api env order address ma ks w = Some (Inr (err, (g', kr, h), w'))
    \<and> (address = [] \<longrightarrow> err = None \<and> w' = w1) \<and> ms_GSA (g_Mesh g') = gsa
    \<and> g_AccessTokenSource g' = g_AccessTokenSource g
    \<and> ms_AuthProviders (g_Mesh g') = Some (m(''k8s'' \<mapsto> ClusterProvider (k8_Default kr),
        ''gcp_fed'' \<mapsto> FedProvider (fed_source pid SetSource []),
        ''gcp'' \<mapsto> FedProvider (fed_source pid SetSource (if gsa = ''-'' then [] else gsa))))"
proof -
  let ?m3 = "m(''k8s'' \<mapsto> ClusterProvider (k8_Default kr),
        ''gcp_fed'' \<mapsto> FedProvider (fed_source pid SetSource []),
        ''gcp'' \<mapsto> FedProvider (fed_source pid SetSource (if gsa = ''-'' then [] else gsa)))"
  let ?g = "g\<lparr>g_Mesh := (g_Mesh g)\<lparr>ms_AuthProviders := Some ?m3, ms_GSA := gsa\<rparr>\<rparr>"
  have mp: "module_providers api (g, kr, h) = Inr (?g, kr, h)"
    using assms(2) by (auto simp: module_providers_def Let_def assms(3,4) gsa_name_def)
  have "\<exists>err w'. NewModule api env order address ma ks w = Some (Inr (err, (?g, kr, h), w'))
      \<and> (address = [] \<longrightarrow> err = None \<and> w' = w1)"
    using assms(1) mp by (auto simp: NewModule_def Let_def split: prod.split option.split)
  then show ?thesis by fastforce
qed

lemma NewModule_providers_witness:
  "\<exists>err g' w' m. NewModule demo_gcp demo_boot sorted_order '':15014'' demo_mesh
       (Some (zero_K8S\<lparr>k8_Default := Some 0\<rparr>, empty_store)) 0
     = Some (Inr (err, (g', zero_K8S\<lparr>k8_Default := Some 0\<rparr>, empty_store), w'))
   \<and> ms_AuthProviders (g_Mesh g') = Some m \<and> ms_GSA (g_Mesh g') = ''k8s-ns@p1.iam.gserviceaccount.com''
   \<and> m ''gcp'' = Some (FedProvider \<lparr>sts_AudienceSource = ''p1.svc.id.goog'', sts_TokenSource = SetSource,
        sts_GSA = ''k8s-ns@p1.iam.gserviceaccount.com''\<rparr>)"
proof -
  let ?kr = "zero_K8S\<lparr>k8_Default := Some 0\<rparr>"
  let ?f = "fed_source ''p1'' (ClusterSource (Some 0)) (gsa_name ''default'' ''p1'')"
  let ?m = "[''gcp'' \<mapsto> FedProvider ?f]"
  let ?g = "(new_GKE demo_mesh)\<lparr>g_TokenSource := Some ?f,
      g_Mesh := demo_mesh\<lparr>ms_AuthProviders := Some ?m\<rparr>, g_authScheme := ''gkeabcdefgh''\<rparr>"
  have new: "GKE_New demo_gcp demo_boot sorted_order '':15014'' demo_mesh (Some (?kr, empty_store)) 0
      = Some (Inr ((True, None), (?g, ?kr, empty_store), 0))"
    by (simp add: GKE_New_def new_sources_def new_credentials_def demo_boot_def demo_gcp_def demo_mesh_def
        new_GKE_def ProjectId_def RegisterK8STokenProvider_def Let_def)
  have "ms_AuthProviders (g_Mesh ?g) = Some ?m" by simp
  from NewModule_providers [OF new this refl refl] show ?thesis
    by (force simp: demo_mesh_def ProjectId_def demo_gcp_def gsa_name_def fed_source_def)
qed

section \<open>Starting on a machine of the cloud\<close>

text \<open>The module as it is before the clusters are loaded, on a machine with a metadata server.\<close>

definition gce_module :: "mesh \<Rightarrow> string \<Rightarrow> GKE" where
  "gce_module ma rnd = (new_GKE ma)\<lparr>g_AccessTokenSource := Some (ComputeSource ''default''),
     g_authScheme := ''gke'' @ rnd\<rparr>"

text \<open>Whether the clusters can be loaded or not, the module is returned without an error.\<close>

lemma cloud_start:
  assumes "(if be_Getenv boot ''GCE_METADATA_HOST'' \<noteq> [] then (True, w) else be_OnGCE boot w) = (True, w1)"
    and "be_Getenv boot ''GOOGLE_APPLICATION_CREDENTIALS'' = []" and "be_random boot 8 w1 = (rnd, w2)"
    and "RegisterK8STokenProvider (be_register boot) (''gke'' @ rnd) () w2 = w3"
    and "ms_MeshAddr ma = []" and "be_Getenv boot ''MESH_URL'' = []" and "k8_Default (fst ks) = None"
    and "autodetect api order ''istio'' (gce_module ma rnd, ks) w3 = Some (Inr (err, (g', kr, h), w4))"
  shows "GKE_New api boot order [] ma (Some ks) w = Some (Inr ((True, None), (g', kr, h), w4))"
proof -
  obtain kr0 h0 where ks: "ks = (kr0, h0)" by (cases ks)
  have "initGKE api boot order (gce_module ma rnd, kr0, h0) w3 = Some (Inr (err, (g', kr, h), w4))"
    using assms(5,6,8) by (simp add: initGKE_def gce_module_def new_GKE_def ks)
  with assms(1-4,7) show ?thesis
    by (simp add: GKE_New_def ks new_sources_def new_credentials_def gce_module_def)
qed

end
