(* ===== verification/IpData.thy ===== *)
theory IpData
  imports GoStrings RefStore
begin

text \<open>
  The database of addresses that the informers keep: \<open>pkg/ip/ipdata.go\<close>. The counters are
  \<open>int32\<close>, the two \<open>sync.Map\<close>s are maps. One informer delivers its events one after the
  other, and only the pod informer's events touch the maps.
\<close>

section \<open>Data\<close>

text \<open>The fields of the objects the handlers read; \<open>pod_Spec\<close> is only compared for the log.\<close>

record pod =
  pod_Name :: string
  pod_Namespace :: string
  pod_IP :: string
  pod_Spec :: string

record node =
  node_Name :: string

record endpoint_slice =
  es_Endpoints :: "string list"

datatype kube_object =
    PodObj pod
  | NodeObj node
  | SliceObj endpoint_slice
  | DeletedFinalStateUnknown string
  | OtherObj

record K8SData =
  kd_IPToSrc :: "string \<Rightarrow> pod option"
  kd_PodInfo :: "string \<Rightarrow> pod option"
  kd_synced :: bool
  kd_Pods :: "32 word"
  kd_Slices :: "32 word"
  kd_SliceIPs :: "32 word"

definition zero_K8SData :: K8SData where
  "zero_K8SData = \<lparr>kd_IPToSrc = (\<lambda>_. None), kd_PodInfo = (\<lambda>_. None), kd_synced = False,
     kd_Pods = 0, kd_Slices = 0, kd_SliceIPs = 0\<rparr>"

section \<open>Handlers\<close>

definition pod_key :: "pod \<Rightarrow> string" where
  "pod_key v = pod_Name v @ ''.'' @ pod_Namespace v"

definition Data_OnAdd :: "K8SData \<Rightarrow> kube_object \<Rightarrow> bool \<Rightarrow> K8SData" where
  "Data_OnAdd k obj isInInitialList =
     (case obj of
        SliceObj v \<Rightarrow> k\<lparr>kd_Slices := kd_Slices k + 1,
          kd_SliceIPs := kd_SliceIPs k + of_nat (length (es_Endpoints v))\<rparr>
      | PodObj v \<Rightarrow>
          (let k = k\<lparr>kd_PodInfo := (kd_PodInfo k)(pod_key v \<mapsto> v)\<rparr>;
               k = k\<lparr>kd_Pods := kd_Pods k + 1\<rparr>;
               ip = pod_IP v
           in if ip \<noteq> [] then k\<lparr>kd_IPToSrc := (kd_IPToSrc k)(ip \<mapsto> v)\<rparr> else k)
      | _ \<Rightarrow> k)"

text \<open>The old object is asserted to be a pod when the new one is.\<close>

definition Data_OnUpdate :: "K8SData \<Rightarrow> kube_object \<Rightarrow> kube_object \<Rightarrow> K8SData exec" where
  "Data_OnUpdate k old new =
     (case new of
        PodObj v \<Rightarrow>
          (case old of
             PodObj oldPod \<Rightarrow> Inr (k\<lparr>kd_IPToSrc := (kd_IPToSrc k)(pod_IP v \<mapsto> v)\<rparr>)
           | _ \<Rightarrow> Inl TypeAssertion)
      | _ \<Rightarrow> Inr k)"

definition Data_OnDelete :: "K8SData \<Rightarrow> kube_object \<Rightarrow> K8SData" where
  "Data_OnDelete k obj =
     (case obj of
        PodObj v \<Rightarrow>
          (let k = k\<lparr>kd_Pods := kd_Pods k + (- 1)\<rparr>; ip = pod_IP v
           in if ip \<noteq> [] then k\<lparr>kd_IPToSrc := (kd_IPToSrc k)(ip := None)\<rparr> else k)
      | _ \<Rightarrow> k)"

text \<open>The events of an informer, and the handler that each calls.\<close>

datatype informer_event =
    Added kube_object bool
  | Updated kube_object kube_object
  | Deleted kube_object

fun handle :: "informer_event \<Rightarrow> K8SData \<Rightarrow> K8SData exec" where
  "handle (Added obj initial) k = Inr (Data_OnAdd k obj initial)"
| "handle (Updated old new) k = Data_OnUpdate k old new"
| "handle (Deleted obj) k = Inr (Data_OnDelete k obj)"

section \<open>The cluster behind the events\<close>

text \<open>
  The pods of the cluster by namespace and name. \<open>observe\<close> is the pods after an event, for
  an event the informer can deliver in this state, as its documentation has it: an object is
  added once, updated from its last known state, and deleted with its final state.
\<close>

datatype pod_name = PodId string string

type_synonym pods = "pod_name \<Rightarrow> pod option"

definition pod_id :: "pod \<Rightarrow> pod_name" where
  "pod_id p = PodId (pod_Namespace p) (pod_Name p)"

fun observe :: "informer_event \<Rightarrow> pods \<Rightarrow> pods option" where
  "observe (Added (PodObj p) initial) S = (if S (pod_id p) = None then Some (S(pod_id p \<mapsto> p)) else None)"
| "observe (Updated (PodObj p) (PodObj q)) S =
     (if S (pod_id p) = Some p \<and> pod_id q = pod_id p then Some (S(pod_id p \<mapsto> q)) else None)"
| "observe (Deleted (PodObj p)) S = (if S (pod_id p) = Some p then Some (S(pod_id p := None)) else None)"
| "observe (Updated old (PodObj q)) S = None"
| "observe (Updated (PodObj p) new) S = None"
| "observe (Deleted (DeletedFinalStateUnknown key)) S = None"
| "observe e S = Some S"

fun observe_all :: "informer_event list \<Rightarrow> pods \<Rightarrow> pods option" where
  "observe_all [] S = Some S"
| "observe_all (e # es) S = (case observe e S of None \<Rightarrow> None | Some S' \<Rightarrow> observe_all es S')"

text \<open>
  Addresses as the network assigns them: a pod keeps its address once it has one, and no two
  pods of the cluster share one.
\<close>

definition free_ip :: "pods \<Rightarrow> pod_name \<Rightarrow> string \<Rightarrow> bool" where
  "free_ip S i ip \<longleftrightarrow> ip = [] \<or> (\<forall>j p. j \<noteq> i \<longrightarrow> S j = Some p \<longrightarrow> pod_IP p \<noteq> ip)"

fun ips_ok :: "informer_event \<Rightarrow> pods \<Rightarrow> bool" where
  "ips_ok (Added (PodObj p) initial) S = free_ip S (pod_id p) (pod_IP p)"
| "ips_ok (Updated (PodObj p) (PodObj q)) S =
     (free_ip S (pod_id q) (pod_IP q) \<and> (pod_IP p = [] \<or> pod_IP q = pod_IP p))"
| "ips_ok e S = True"

fun ips_ok_all :: "informer_event list \<Rightarrow> pods \<Rightarrow> bool" where
  "ips_ok_all [] S = True"
| "ips_ok_all (e # es) S = (ips_ok e S \<and> (case observe e S of None \<Rightarrow> True | Some S' \<Rightarrow> ips_ok_all es S'))"

section \<open>The database follows the cluster\<close>

text \<open>The abstraction: the address map holds exactly the pods that have an address.\<close>

definition ips_match :: "K8SData \<Rightarrow> pods \<Rightarrow> bool" where
  "ips_match k S \<longleftrightarrow> (\<forall>ip p. ip \<noteq> [] \<longrightarrow>
     (kd_IPToSrc k ip = Some p \<longleftrightarrow> (\<exists>i. S i = Some p \<and> pod_IP p = ip)))"

text \<open>Every pod is listed under its own name, and the pods are finitely many.\<close>

definition pods_ok :: "pods \<Rightarrow> bool" where
  "pods_ok S \<longleftrightarrow> finite (dom S) \<and> (\<forall>i p. S i = Some p \<longrightarrow> pod_id p = i)"

lemma observe_cases:
  assumes "observe e S = Some S'"
  obtains (add) p initial where "e = Added (PodObj p) initial" and "S (pod_id p) = None"
      and "S' = S(pod_id p \<mapsto> p)"
    | (update) p q where "e = Updated (PodObj p) (PodObj q)" and "S (pod_id p) = Some p"
      and "pod_id q = pod_id p" and "S' = S(pod_id p \<mapsto> q)"
    | (delete) p where "e = Deleted (PodObj p)" and "S (pod_id p) = Some p" and "S' = S(pod_id p := None)"
    | (other) "S' = S" and "\<And>k. \<exists>k'. handle e k = Inr k' \<and> kd_IPToSrc k' = kd_IPToSrc k
        \<and> kd_PodInfo k' = kd_PodInfo k \<and> kd_Pods k' = kd_Pods k"
proof -
  consider "\<exists>p initial. e = Added (PodObj p) initial" | "\<exists>p q. e = Updated (PodObj p) (PodObj q)"
    | "\<exists>p. e = Deleted (PodObj p)"
    | "S' = S \<and> (\<forall>k. \<exists>k'. handle e k = Inr k' \<and> kd_IPToSrc k' = kd_IPToSrc k
        \<and> kd_PodInfo k' = kd_PodInfo k \<and> kd_Pods k' = kd_Pods k)"
    using assms
    by (cases "(e, S)" rule: observe.cases)
      (auto simp: Data_OnAdd_def Data_OnUpdate_def Data_OnDelete_def)
  then show thesis
    using assms add update delete other
    by cases (auto split: if_splits)
qed

lemma pods_ok_upd: "pods_ok S \<Longrightarrow> pod_id p = i \<Longrightarrow> pods_ok (S(i \<mapsto> p))"
  by (simp add: pods_ok_def)

lemma pods_ok_del: "pods_ok S \<Longrightarrow> pods_ok (S(i := None))"
  by (simp add: pods_ok_def)

lemma pods_ok_step:
  assumes "observe e S = Some S'" and "pods_ok S"
  shows "pods_ok S'"
  using assms(1)
proof (cases rule: observe_cases)
  case (add p initial)
  then show ?thesis using pods_ok_upd [OF assms(2)] by simp
next
  case (update p q)
  then show ?thesis using pods_ok_upd [OF assms(2) update(3)] by simp
next
  case (delete p)
  then show ?thesis using pods_ok_del [OF assms(2)] by simp
next
  case other
  with assms(2) show ?thesis by simp
qed

text \<open>Which pods a changed cluster has.\<close>

lemma ex_pod_upd: "(\<exists>i. (S(j \<mapsto> x)) i = Some q \<and> P) \<longleftrightarrow> (x = q \<or> (\<exists>i. i \<noteq> j \<and> S i = Some q)) \<and> P"
  by (metis fun_upd_apply option.inject)

lemma ex_pod_del: "(\<exists>i. (S(j := None)) i = Some q \<and> P) \<longleftrightarrow> (\<exists>i. i \<noteq> j \<and> S i = Some q) \<and> P"
  by (metis fun_upd_apply option.distinct(1))

lemma count_step:
  assumes "observe e S = Some S'" and "pods_ok S" and "kd_Pods k = of_nat (card (dom S))"
  shows "\<exists>k'. handle e k = Inr k' \<and> kd_Pods k' = of_nat (card (dom S'))"
  using assms(1)
proof (cases rule: observe_cases)
  case (add p initial)
  then have "card (dom S') = Suc (card (dom S))"
    using assms(2) by (simp add: pods_ok_def domIff)
  with add assms(3) show ?thesis by (simp add: Data_OnAdd_def Let_def)
next
  case (update p q)
  have "pod_id p \<in> dom S" using update(2) by blast
  then have "dom S' = dom S" by (simp add: update(4) insert_absorb)
  with update(1) assms(3) show ?thesis by (simp add: Data_OnUpdate_def)
next
  case (delete p)
  have "dom S' = dom S - {pod_id p}" by (simp add: delete(3))
  moreover have "finite (dom S)" using assms(2) by (simp add: pods_ok_def)
  moreover have "pod_id p \<in> dom S" using delete(2) by blast
  ultimately have "card (dom S) = Suc (card (dom S'))" by (metis card_Suc_Diff1)
  with delete(1) assms(3) show ?thesis by (simp add: Data_OnDelete_def Let_def)
next
  case other
  from other(2) [of k] obtain k' where "handle e k = Inr k'" "kd_Pods k' = kd_Pods k" by blast
  with other(1) assms(3) show ?thesis by simp
qed

text \<open>One event keeps the address map and the pods together.\<close>

lemma ips_step:
  assumes "observe e S = Some S'" and "pods_ok S" and "ips_ok e S" and "ips_match k S"
  shows "\<exists>k'. handle e k = Inr k' \<and> ips_match k' S'"
  using assms(1)
proof (cases rule: observe_cases)
  case (add p initial)
  have free: "pod_IP p = [] \<or> (\<forall>j q. j \<noteq> pod_id p \<longrightarrow> S j = Some q \<longrightarrow> pod_IP q \<noteq> pod_IP p)"
    using assms(3) add(1) by (simp add: free_ip_def)
  have others: "(\<exists>i. i \<noteq> pod_id p \<and> S i = Some q) \<longleftrightarrow> (\<exists>i. S i = Some q)" for q
    using add(2) by (metis option.distinct(1))
  have uniq: "S i = Some q \<Longrightarrow> pod_IP q = pod_IP p \<Longrightarrow> pod_IP p = []" for i q
    using free add(2) by (metis option.distinct(1))
  have "ips_match (Data_OnAdd k (PodObj p) initial) S'"
    unfolding ips_match_def
  proof (intro allI impI)
    fix ip q
    assume ip: "ip \<noteq> ([] :: string)"
    show "kd_IPToSrc (Data_OnAdd k (PodObj p) initial) ip = Some q \<longleftrightarrow> (\<exists>i. S' i = Some q \<and> pod_IP q = ip)"
      using ip assms(4) uniq unfolding add(3) ex_pod_upd others
      by (cases "pod_IP p = ip") (auto simp: Data_OnAdd_def Let_def ips_match_def)
  qed
  with add(1) show ?thesis by simp
next
  case (update p q)
  have free: "pod_IP q = [] \<or> (\<forall>j x. j \<noteq> pod_id p \<longrightarrow> S j = Some x \<longrightarrow> pod_IP x \<noteq> pod_IP q)"
    and stable: "pod_IP p = [] \<or> pod_IP q = pod_IP p"
    using assms(3) update(1,3) by (simp_all add: free_ip_def)
  let ?k = "k\<lparr>kd_IPToSrc := (kd_IPToSrc k)(pod_IP q \<mapsto> q)\<rparr>"
  have "ips_match ?k S'"
    unfolding ips_match_def
  proof (intro allI impI)
    fix ip x
    assume ip: "ip \<noteq> ([] :: string)"
    show "kd_IPToSrc ?k ip = Some x \<longleftrightarrow> (\<exists>i. S' i = Some x \<and> pod_IP x = ip)"
      unfolding update(4) ex_pod_upd
    proof (cases "pod_IP q = ip")
      case True
      then have "\<not> (\<exists>i. i \<noteq> pod_id p \<and> S i = Some x)" if "pod_IP x = ip"
        using free ip that by blast
      with True show "kd_IPToSrc ?k ip = Some x \<longleftrightarrow>
          (q = x \<or> (\<exists>i. i \<noteq> pod_id p \<and> S i = Some x)) \<and> pod_IP x = ip" by auto
    next
      case False
      have "i \<noteq> pod_id p" if "S i = Some x" "pod_IP x = ip" for i
        using that update(2) stable ip False by auto
      moreover have "kd_IPToSrc k ip = Some x \<longleftrightarrow> (\<exists>i. S i = Some x \<and> pod_IP x = ip)"
        using assms(4) ip by (simp add: ips_match_def)
      ultimately show "kd_IPToSrc ?k ip = Some x \<longleftrightarrow>
          (q = x \<or> (\<exists>i. i \<noteq> pod_id p \<and> S i = Some x)) \<and> pod_IP x = ip"
        using False by auto
    qed
  qed
  with update(1) show ?thesis by (simp add: Data_OnUpdate_def)
next
  case (delete p)
  have "ips_match (Data_OnDelete k (PodObj p)) S'"
    unfolding ips_match_def
  proof (intro allI impI)
    fix ip q
    assume ip: "ip \<noteq> ([] :: string)"
    have here: "kd_IPToSrc k ip = Some q \<longleftrightarrow> (\<exists>i. S i = Some q \<and> pod_IP q = ip)" for q
      using assms(4) ip by (simp add: ips_match_def)
    show "kd_IPToSrc (Data_OnDelete k (PodObj p)) ip = Some q \<longleftrightarrow> (\<exists>i. S' i = Some q \<and> pod_IP q = ip)"
      unfolding delete(3) ex_pod_del
    proof (cases "pod_IP p = ip")
      case True
      have "i = pod_id p" if "S i = Some q" "pod_IP q = ip" for i
      proof -
        have "kd_IPToSrc k ip = Some q" "kd_IPToSrc k ip = Some p"
          using that True delete(2) unfolding here by blast+
        with that(1) assms(2) show ?thesis unfolding pods_ok_def by (metis option.inject)
      qed
      then have "\<not> ((\<exists>i. i \<noteq> pod_id p \<and> S i = Some q) \<and> pod_IP q = ip)" by blast
      moreover have "kd_IPToSrc (Data_OnDelete k (PodObj p)) ip = None"
        using True ip by (simp add: Data_OnDelete_def Let_def)
      ultimately show "kd_IPToSrc (Data_OnDelete k (PodObj p)) ip = Some q \<longleftrightarrow>
          (\<exists>i. i \<noteq> pod_id p \<and> S i = Some q) \<and> pod_IP q = ip" by simp
    next
      case False
      then have "kd_IPToSrc (Data_OnDelete k (PodObj p)) ip = kd_IPToSrc k ip"
        by (simp add: Data_OnDelete_def Let_def)
      moreover have "i \<noteq> pod_id p" if "S i = Some q" "pod_IP q = ip" for i
        using that delete(2) False by auto
      ultimately show "kd_IPToSrc (Data_OnDelete k (PodObj p)) ip = Some q \<longleftrightarrow>
          (\<exists>i. i \<noteq> pod_id p \<and> S i = Some q) \<and> pod_IP q = ip"
        using here [of q] by auto
    qed
  qed
  with delete(1) show ?thesis by simp
next
  case other
  from other(2) [of k] obtain k' where "handle e k = Inr k'" "kd_IPToSrc k' = kd_IPToSrc k" by blast
  with other(1) assms(4) show ?thesis by (simp add: ips_match_def)
qed

lemma counter_run:
  assumes "observe_all es S = Some S'" and "pods_ok S" and "kd_Pods k = of_nat (card (dom S))"
  shows "\<exists>k'. loopM handle es k = Inr k' \<and> kd_Pods k' = of_nat (card (dom S'))"
  using assms
proof (induction es arbitrary: S k)
  case Nil
  then show ?case by simp
next
  case (Cons e es)
  then obtain S1 where S1: "observe e S = Some S1" "observe_all es S1 = Some S'"
    by (auto split: option.splits)
  from count_step [OF S1(1) Cons.prems(2,3)] obtain k1
    where k1: "handle e k = Inr k1" "kd_Pods k1 = of_nat (card (dom S1))" by blast
  from Cons.IH [OF S1(2) pods_ok_step [OF S1(1) Cons.prems(2)] k1(2)] k1(1) show ?case by simp
qed

lemma ips_run:
  assumes "observe_all es S = Some S'" and "pods_ok S" and "ips_ok_all es S" and "ips_match k S"
  shows "\<exists>k'. loopM handle es k = Inr k' \<and> ips_match k' S'"
  using assms
proof (induction es arbitrary: S k)
  case Nil
  then show ?case by simp
next
  case (Cons e es)
  then obtain S1 where S1: "observe e S = Some S1" "observe_all es S1 = Some S'"
    by (auto split: option.splits)
  with Cons.prems(3) have ok: "ips_ok e S" "ips_ok_all es S1" by simp_all
  from ips_step [OF S1(1) Cons.prems(2) ok(1) Cons.prems(4)] obtain k1
    where k1: "handle e k = Inr k1" "ips_match k1 S1" by blast
  from Cons.IH [OF S1(2) pods_ok_step [OF S1(1) Cons.prems(2)] ok(2) k1(2)] k1(1) show ?case by simp
qed

section \<open>Properties\<close>

definition demo_pod :: "string \<Rightarrow> string \<Rightarrow> pod" where
  "demo_pod n ip = \<lparr>pod_Name = n, pod_Namespace = ''ns'', pod_IP = ip, pod_Spec = []\<rparr>"

definition demo_events :: "informer_event list" where
  "demo_events = [Added (PodObj (demo_pod ''a'' [])) True, Added (PodObj (demo_pod ''b'' ''10.0.0.2'')) True,
     Updated (PodObj (demo_pod ''a'' [])) (PodObj (demo_pod ''a'' ''10.0.0.1'')),
     Added (NodeObj \<lparr>node_Name = ''n''\<rparr>) True, Deleted (PodObj (demo_pod ''b'' ''10.0.0.2''))]"

lemma pods_ok_empty: "pods_ok Map.empty"
  by (simp add: pods_ok_def)

lemma demo_events_observed:
  "observe_all demo_events Map.empty = Some [PodId ''ns'' ''a'' \<mapsto> demo_pod ''a'' ''10.0.0.1'']"
  by (auto simp: demo_events_def demo_pod_def pod_id_def fun_eq_iff)

text \<open>
  C28: The counter of pods counts the pods of the cluster, modulo 2 to the 32: after any
  sequence of events that ends no deletion in an unknown state, started with the counter
  right, no handler has panicked and the counter is the number of pods; it reads as that
  number as long as there are fewer than 2 to the 31 pods.
\<close>

theorem pod_counter_counts:
  assumes "observe_all es S = Some S'" and "pods_ok S" and "kd_Pods k = of_nat (card (dom S))"
  shows "\<exists>k'. loopM handle es k = Inr k' \<and> kd_Pods k' = of_nat (card (dom S'))
    \<and> (card (dom S') < 2 ^ 31 \<longrightarrow> sint (kd_Pods k') = int (card (dom S')))"
proof -
  from counter_run [OF assms] obtain k'
    where k': "loopM handle es k = Inr k'" "kd_Pods k' = of_nat (card (dom S'))" by blast
  have "sint (of_nat n :: 32 word) = int n" if "n < 2 ^ 31" for n
    using that by (simp add: signed_of_nat signed_take_bit_int_eq_self)
  with k' show ?thesis by auto
qed

theorem pod_counter_counts_witness:
  "\<exists>k'. loopM handle demo_events zero_K8SData = Inr k' \<and> kd_Pods k' = 1"
  using pod_counter_counts [OF demo_events_observed pods_ok_empty, of zero_K8SData]
  by (auto simp: zero_K8SData_def)

text \<open>
  C10: The address map is a view of the cluster: while pods keep the address they got and no
  two share one, after any sequence of events each non-empty address maps to exactly the
  current version of the pod that has it, and an address no pod has is absent.
\<close>

theorem address_map_follows:
  assumes "observe_all es Map.empty = Some S'" and "ips_ok_all es Map.empty"
  shows "\<exists>k'. loopM handle es zero_K8SData = Inr k'
    \<and> (\<forall>ip p. ip \<noteq> [] \<longrightarrow> (kd_IPToSrc k' ip = Some p \<longleftrightarrow> (\<exists>i. S' i = Some p \<and> pod_IP p = ip)))"
proof -
  have "ips_match zero_K8SData Map.empty" by (simp add: ips_match_def zero_K8SData_def)
  from ips_run [OF assms(1) pods_ok_empty assms(2) this] show ?thesis
    by (simp add: ips_match_def)
qed

theorem address_map_follows_witness:
  "\<exists>k'. loopM handle demo_events zero_K8SData = Inr k'
    \<and> kd_IPToSrc k' ''10.0.0.1'' = Some (demo_pod ''a'' ''10.0.0.1'') \<and> kd_IPToSrc k' ''10.0.0.2'' = None"
proof -
  have "ips_ok_all demo_events Map.empty"
    by (simp add: demo_events_def demo_pod_def pod_id_def free_ip_def)
  from address_map_follows [OF demo_events_observed this] obtain k'
    where k': "loopM handle demo_events zero_K8SData = Inr k'"
      "\<And>ip p. ip \<noteq> [] \<Longrightarrow> kd_IPToSrc k' ip = Some p \<longleftrightarrow>
        (\<exists>i. [PodId ''ns'' ''a'' \<mapsto> demo_pod ''a'' ''10.0.0.1''] i = Some p \<and> pod_IP p = ip)"
    by blast
  have "kd_IPToSrc k' ''10.0.0.1'' = Some (demo_pod ''a'' ''10.0.0.1'')"
    by (subst k'(2)) (auto simp: demo_pod_def)
  moreover have "kd_IPToSrc k' ''10.0.0.2'' \<noteq> Some p" for p
    by (subst k'(2)) (auto simp: demo_pod_def split: if_splits)
  ultimately show ?thesis using k'(1) by blast
qed

text \<open>
  Without those assumptions the map goes stale, and it stays so. A pod that changes its
  address leaves its old address mapped to its old version after it is deleted; a pod
  without an address is stored under the empty address by an update; and when the deletion
  of a pod arrives in an unknown state, the counter and both maps keep the pod.
\<close>

lemma stale_addresses:
  assumes "pod_IP p \<noteq> []" and "pod_IP q \<noteq> pod_IP p" and "pod_IP r = []"
  shows "(\<exists>k'. loopM handle [Added (PodObj p) i, Updated (PodObj p) (PodObj q), Deleted (PodObj q)] k = Inr k'
      \<and> kd_IPToSrc k' (pod_IP p) = Some p \<and> kd_Pods k' = kd_Pods k)
    \<and> (\<exists>k'. loopM handle [Added (PodObj r) i, Updated (PodObj r) (PodObj r), Deleted (PodObj r)] k = Inr k'
      \<and> kd_IPToSrc k' [] = Some r)
    \<and> (\<exists>k'. loopM handle [Added (PodObj p) i, Deleted (DeletedFinalStateUnknown key)] k = Inr k'
      \<and> kd_IPToSrc k' (pod_IP p) = Some p \<and> kd_Pods k' = kd_Pods k + 1)"
  using assms by (simp add: Data_OnAdd_def Data_OnUpdate_def Data_OnDelete_def Let_def)

lemma stale_addresses_witness:
  "\<exists>k'. loopM handle [Added (PodObj (demo_pod ''a'' ''1'')) True,
       Updated (PodObj (demo_pod ''a'' ''1'')) (PodObj (demo_pod ''a'' ''2'')),
       Deleted (PodObj (demo_pod ''a'' ''2''))] zero_K8SData = Inr k'
     \<and> kd_IPToSrc k' ''1'' = Some (demo_pod ''a'' ''1'')"
  using stale_addresses [of "demo_pod ''a'' ''1''" "demo_pod ''a'' ''2''" "demo_pod ''b'' []" True zero_K8SData]
  by (auto simp: demo_pod_def)

text \<open>
  The map of pods by name only grows: deletions and updates do not reach it.
\<close>

lemma PodInfo_step: "handle e k = Inr k' \<Longrightarrow> dom (kd_PodInfo k) \<subseteq> dom (kd_PodInfo k')"
  by (cases e)
    (auto simp: Data_OnAdd_def Data_OnUpdate_def Data_OnDelete_def Let_def
      split: kube_object.splits if_splits)

text \<open>
  \<open>PodInfo\<close> only grows: whatever the events, every pod that was ever added stays in it
  under its key, also after its deletion, and holds the version of its last addition.
\<close>

lemma PodInfo_never_shrinks:
  assumes "loopM handle es (Data_OnAdd k (PodObj p) i) = Inr k'"
  shows "\<exists>q. kd_PodInfo k' (pod_key p) = Some q
    \<and> (q = p \<or> (\<exists>initial. Added (PodObj q) initial \<in> set es \<and> pod_key q = pod_key p))"
proof -
  let ?P = "\<lambda>k. \<exists>q. kd_PodInfo k (pod_key p) = Some q
    \<and> (q = p \<or> (\<exists>initial. Added (PodObj q) initial \<in> set es \<and> pod_key q = pod_key p))"
  show ?thesis
  proof (rule loopM_inv [OF assms, of ?P])
    show "?P (Data_OnAdd k (PodObj p) i)" by (simp add: Data_OnAdd_def Let_def)
  next
    fix e t t'
    assume e: "e \<in> set es" and P: "?P t" and run: "handle e t = Inr t'"
    show "?P t'"
    proof (cases "kd_PodInfo t' (pod_key p) = kd_PodInfo t (pod_key p)")
      case True
      with P show ?thesis by simp
    next
      case False
      with run obtain q initial where "e = Added (PodObj q) initial" "pod_key q = pod_key p"
          "kd_PodInfo t' (pod_key p) = Some q"
        by (cases e) (auto simp: Data_OnAdd_def Data_OnUpdate_def Data_OnDelete_def Let_def
            split: kube_object.splits if_splits)
      with e show ?thesis by auto
    qed
  qed
qed

lemma PodInfo_never_shrinks_witness:
  "\<exists>k' q. loopM handle [Deleted (PodObj (demo_pod ''a'' ''1''))]
       (Data_OnAdd zero_K8SData (PodObj (demo_pod ''a'' ''1'')) True) = Inr k'
     \<and> kd_PodInfo k' ''a.ns'' = Some q"
proof -
  obtain k' where run: "loopM handle [Deleted (PodObj (demo_pod ''a'' ''1''))]
      (Data_OnAdd zero_K8SData (PodObj (demo_pod ''a'' ''1'')) True) = Inr k'"
    by simp
  from PodInfo_never_shrinks [OF this] run show ?thesis
    by (auto simp: pod_key_def demo_pod_def)
qed

end
