(* ===== verification/IpWatcher.thy ===== *)
theory IpWatcher
  imports IpData Cluster
begin

text \<open>
  The watcher of \<open>pkg/ip/shared_informer.go\<close>. A handler is a pointer to a \<open>K8SData\<close>, so the
  data lives in a store. The informer factory of client-go is the parameter record
  \<open>informer_api\<close>; \<open>ia_handlers\<close> observes the handlers an informer has.
\<close>

section \<open>Data\<close>

datatype informer = PodInformer | NodeInformer

record 'w informer_api =
  ia_NewForConfig :: "rest_config option \<Rightarrow> 'w \<Rightarrow> (go_error + clientset) \<times> 'w"
  ia_NewFactory :: "clientset \<Rightarrow> 'w \<Rightarrow> 'w"
  ia_AddEventHandler :: "informer \<Rightarrow> ref \<Rightarrow> 'w \<Rightarrow> go_error option \<times> 'w"
  ia_WaitForCacheSync :: "informer list \<Rightarrow> 'w \<Rightarrow> bool \<times> 'w"
  ia_Start :: "'w \<Rightarrow> 'w"
  ia_handlers :: "informer \<Rightarrow> 'w \<Rightarrow> ref list"

record K8SIPWatcher =
  iw_K8SData :: "ref option"
  iw_Stop :: bool \<comment> \<open>whether the channel \<open>Stop\<close> was made\<close>

type_synonym ip_store = "K8SData store"

section \<open>Operations\<close>

text \<open>\<open>newK8SWatcher\<close> makes its own data and registers it with both informers.\<close>

definition newK8SWatcher :: "'w informer_api \<Rightarrow> ip_store \<Rightarrow> 'w
    \<Rightarrow> (go_error + K8SIPWatcher) \<times> ip_store \<times> 'w" where
  "newK8SWatcher api h w =
     (case alloc zero_K8SData h of (r, h') \<Rightarrow>
        let c = \<lparr>iw_K8SData = Some r, iw_Stop = False\<rparr> in
        (case ia_AddEventHandler api PodInformer r w of
           (Some err, w1) \<Rightarrow> (Inl err, h', w1)
         | (None, w1) \<Rightarrow>
             (case ia_AddEventHandler api NodeInformer r w1 of
                (Some err, w2) \<Rightarrow> (Inl err, h', w2)
              | (None, w2) \<Rightarrow> (Inr c, h', w2))))"

definition Start :: "'w informer_api \<Rightarrow> ref option \<Rightarrow> rest_config option \<Rightarrow> ip_store \<Rightarrow> 'w
    \<Rightarrow> (go_error + K8SIPWatcher) \<times> ip_store \<times> 'w" where
  "Start api kd config h w =
     (case ia_NewForConfig api config w of
        (Inl err, w1) \<Rightarrow> (Inl err, h, w1)
      | (Inr client, w1) \<Rightarrow>
          (case newK8SWatcher api h (ia_NewFactory api client w1) of
             (Inl err, h', w2) \<Rightarrow> (Inl err, h', w2)
           | (Inr pods, h', w2) \<Rightarrow>
               (Inr (pods\<lparr>iw_K8SData := kd, iw_Stop := True\<rparr>), h', ia_Start api w2)))"

definition set_synced :: "K8SData \<Rightarrow> (32 word \<times> K8SData) exec" where
  "set_synced k = Inr (kd_Pods k, k\<lparr>kd_synced := True\<rparr>)"

text \<open>\<open>WaitForInit\<close> also returns the number of pods it logs.\<close>

definition WaitForInit :: "'w informer_api \<Rightarrow> K8SIPWatcher \<Rightarrow> ip_store \<Rightarrow> 'w
    \<Rightarrow> ((go_error + 32 word) \<times> ip_store \<times> 'w) exec" where
  "WaitForInit api c h w =
     (case ia_WaitForCacheSync api [PodInformer, NodeInformer] w of
        (False, w1) \<Rightarrow> Inr (Inl (ErrNew ''failed to sync''), h, w1)
      | (True, w1) \<Rightarrow> bnd (via set_synced (iw_K8SData c) h) (\<lambda>(n, h'). Inr (Inr n, h', w1)))"

section \<open>Events reach the handlers\<close>

text \<open>An informer hands an event to each of its handlers.\<close>

definition deliver :: "informer_event \<Rightarrow> ref \<Rightarrow> ip_store \<Rightarrow> ip_store exec" where
  "deliver e r h = bnd (via (\<lambda>k. bnd (handle e k) (\<lambda>k'. Inr ((), k'))) (Some r) h) (\<lambda>(_, h'). Inr h')"

definition deliver_event :: "(informer \<Rightarrow> ref list) \<Rightarrow> informer \<times> informer_event \<Rightarrow> ip_store \<Rightarrow> ip_store exec" where
  "deliver_event hs ie h = loopM (deliver (snd ie)) (hs (fst ie)) h"

text \<open>
  The contract of the informers: \<open>AddEventHandler\<close> without an error appends the handler to
  its informer, and neither the other calls nor an error change any list; a new factory has
  informers without handlers.
\<close>

definition informers_ok :: "'w informer_api \<Rightarrow> bool" where
  "informers_ok api \<longleftrightarrow>
     (\<forall>i r w w'. ia_AddEventHandler api i r w = (None, w') \<longrightarrow>
        (\<forall>j. ia_handlers api j w' = ia_handlers api j w @ (if j = i then [r] else [])))
     \<and> (\<forall>c w i. ia_handlers api i (ia_NewFactory api c w) = [])
     \<and> (\<forall>w i. ia_handlers api i (ia_Start api w) = ia_handlers api i w)"

lemma newK8SWatcher_handlers:
  assumes "informers_ok api" and "newK8SWatcher api h w = (Inr c, h', w')" and "wf_store h"
    and "\<And>i. ia_handlers api i w = []"
  shows "\<exists>r. alloc zero_K8SData h = (r, h') \<and> iw_K8SData c = Some r \<and> (\<forall>i. ia_handlers api i w' = [r])"
proof -
  obtain r h1 where a: "alloc zero_K8SData h = (r, h1)" by (cases "alloc zero_K8SData h")
  from assms(2) a obtain w1 where w1: "ia_AddEventHandler api PodInformer r w = (None, w1)"
    "ia_AddEventHandler api NodeInformer r w1 = (None, w')" "h' = h1" "iw_K8SData c = Some r"
    by (auto simp: newK8SWatcher_def Let_def split: prod.splits option.splits)
  have "ia_handlers api i w' = [r]" for i
    using assms(1,4) w1(1,2) by (cases i) (auto simp: informers_ok_def)
  with a w1 show ?thesis by blast
qed

lemma deliver_other:
  assumes "deliver e r h = Inr h'" and "q \<noteq> r"
  shows "cells h' q = cells h q"
  using assms by (auto simp: deliver_def bnd_eq_Inr_iff elim!: viaE)

lemma deliver_all_other:
  assumes "loopM (deliver_event hs) es h = Inr h'" and "\<And>i. hs i = [r]" and "q \<noteq> r"
  shows "cells h' q = cells h q"
  by (rule loopM_inv [OF assms(1), of "\<lambda>g. cells g q = cells h q"])
    (use assms(2,3) deliver_other in \<open>auto simp: deliver_event_def\<close>)

section \<open>Properties\<close>

text \<open>A concrete factory: its state is the two lists of handlers.\<close>

definition demo_informers :: "(ref list \<times> ref list) informer_api" where
  "demo_informers = \<lparr>ia_NewForConfig = (\<lambda>c w. (Inr (Clientset 0), w)),
     ia_NewFactory = (\<lambda>c w. ([], [])),
     ia_AddEventHandler = (\<lambda>i r w. (None, case i of PodInformer \<Rightarrow> (fst w @ [r], snd w)
       | NodeInformer \<Rightarrow> (fst w, snd w @ [r]))),
     ia_WaitForCacheSync = (\<lambda>is w. (True, w)),
     ia_Start = (\<lambda>w. w),
     ia_handlers = (\<lambda>i w. case i of PodInformer \<Rightarrow> fst w | NodeInformer \<Rightarrow> snd w)\<rparr>"

lemma demo_informers_ok: "informers_ok demo_informers"
  by (auto simp: informers_ok_def demo_informers_def split: informer.splits)

text \<open>
  C38: The data the caller hands to \<open>Start\<close> is never filled. The watcher keeps the caller's
  pointer, but the informers were given another object, so whatever events arrive the
  caller's data stays as it was, and so does the number of pods \<open>WaitForInit\<close> reports.
\<close>

theorem Start_data_unused:
  assumes "informers_ok api" and "wf_store h" and "cells h kd = Some d"
    and "Start api (Some kd) config h w = (Inr c, h1, w1)"
    and "loopM (deliver_event (\<lambda>i. ia_handlers api i w1)) es h1 = Inr h2"
    and "ia_WaitForCacheSync api [PodInformer, NodeInformer] w1 = (True, w2)"
  shows "iw_K8SData c = Some kd \<and> cells h2 kd = Some d
    \<and> (\<exists>h3. WaitForInit api c h2 w1 = Inr (Inr (kd_Pods d), h3, w2)
        \<and> cells h3 kd = Some (d\<lparr>kd_synced := True\<rparr>))"
proof -
  from assms(4) obtain cl w0 p w3 where s: "ia_NewForConfig api config w = (Inr cl, w0)"
    "newK8SWatcher api h (ia_NewFactory api cl w0) = (Inr p, h1, w3)" "w1 = ia_Start api w3"
    "iw_K8SData c = Some kd"
    by (auto simp: Start_def split: prod.splits sum.splits)
  have empty: "\<And>i. ia_handlers api i (ia_NewFactory api cl w0) = []"
    using assms(1) by (simp add: informers_ok_def)
  from newK8SWatcher_handlers [OF assms(1) s(2) assms(2) empty] obtain r
    where r: "alloc zero_K8SData h = (r, h1)" "\<forall>i. ia_handlers api i w3 = [r]" by blast
  have hs: "\<And>i. ia_handlers api i w1 = [r]"
    using r(2) s(3) assms(1) by (simp add: informers_ok_def)
  have kd: "load h (Some kd) = Inr d" using assms(3) by simp
  have "kd \<noteq> r" by (rule rs.alloc_neq [OF assms(2) r(1) kd])
  moreover have "cells h1 kd = Some d"
    using rs.load_alloc_other [OF assms(2) r(1) kd] by simp
  ultimately have keep: "cells h2 kd = Some d"
    using deliver_all_other [OF assms(5) hs] by simp
  moreover have "WaitForInit api c h2 w1 = Inr (Inr (kd_Pods d),
      h2\<lparr>cells := (cells h2)(kd \<mapsto> d\<lparr>kd_synced := True\<rparr>)\<rparr>, w2)"
    using assms(6) s(4) via_run [of h2 kd d set_synced, OF keep] by (simp add: WaitForInit_def set_synced_def)
  ultimately show ?thesis using s(4) by simp
qed

theorem Start_data_unused_witness:
  "\<exists>c h1 w1 h2. Start demo_informers (Some 0) None \<lparr>cells = [0 \<mapsto> zero_K8SData], next_ref = 1\<rparr> ([], [])
       = (Inr c, h1, w1)
     \<and> loopM (deliver_event (\<lambda>i. ia_handlers demo_informers i w1))
         [(PodInformer, Added (PodObj (demo_pod ''a'' ''10.0.0.1'')) True)] h1 = Inr h2
     \<and> cells h2 0 = Some zero_K8SData"
proof -
  let ?h = "\<lparr>cells = [0 \<mapsto> zero_K8SData], next_ref = 1\<rparr> :: ip_store"
  let ?h1 = "\<lparr>cells = [0 \<mapsto> zero_K8SData, 1 \<mapsto> zero_K8SData], next_ref = 2\<rparr> :: ip_store"
  let ?es = "[(PodInformer, Added (PodObj (demo_pod ''a'' ''10.0.0.1'')) True)]"
  have start: "Start demo_informers (Some 0) None ?h ([], []) =
      (Inr \<lparr>iw_K8SData = Some 0, iw_Stop = True\<rparr>, ?h1, ([1], [1]))"
    by (simp add: Start_def newK8SWatcher_def demo_informers_def alloc_def)
  have "\<exists>h2. loopM (deliver_event (\<lambda>i. ia_handlers demo_informers i ([1], [1]))) ?es ?h1 = Inr h2"
    by (simp add: deliver_event_def demo_informers_def deliver_def via_def load_def save_def)
  then obtain h2 where run:
    "loopM (deliver_event (\<lambda>i. ia_handlers demo_informers i ([1], [1]))) ?es ?h1 = Inr h2" ..
  have "wf_store ?h" by (simp add: wf_store_def)
  moreover have "ia_WaitForCacheSync demo_informers [PodInformer, NodeInformer] ([1], [1]) = (True, ([1], [1]))"
    by (simp add: demo_informers_def)
  ultimately have "cells h2 0 = Some zero_K8SData"
    using Start_data_unused [OF demo_informers_ok _ _ start run] by simp
  with start run show ?thesis by blast
qed

end
