(* ===== verification/DeepCopy.thy ===== *)
theory DeepCopy
  imports RefStore
begin

text \<open>
  Deep copies. A value that refers to other memory (a slice to its array, a map, a pointer) is
  copied deeply when the copy has the same contents and shares no memory with it. The contract
  is stated once, for a function that copies a value of any type on any store, and is closed
  under the ways the generated code builds one copy from others: field by field, element by
  element into a new slice, and behind a pointer.
\<close>

section \<open>The contract\<close>

type_synonym ('a, 'c) copier = "'a \<Rightarrow> 'c store \<Rightarrow> ('a \<times> 'c store) exec"

text \<open>
  \<open>val h x\<close> is the contents of \<open>x\<close> in the store \<open>h\<close>, \<open>None\<close> if some reference dangles, and
  \<open>own h x\<close> the addresses it is kept in. The contents depend on nothing else; a copy has the
  same contents, in memory that was not in use before, and leaves the memory in use alone.
\<close>

definition contents_ok :: "('c store \<Rightarrow> 'a \<Rightarrow> 'v option) \<Rightarrow> ('c store \<Rightarrow> 'a \<Rightarrow> ref set) \<Rightarrow> bool" where
  "contents_ok val own \<longleftrightarrow>
     (\<forall>h h' x. (\<forall>r \<in> own h x. cells h' r = cells h r) \<longrightarrow> own h' x = own h x \<and> val h' x = val h x)
     \<and> (\<forall>h x v. val h x = Some v \<longrightarrow> own h x \<subseteq> dom (cells h))"

definition copies_deeply ::
    "('a, 'c) copier \<Rightarrow> ('c store \<Rightarrow> 'a \<Rightarrow> 'v option) \<Rightarrow> ('c store \<Rightarrow> 'a \<Rightarrow> ref set) \<Rightarrow> bool" where
  "copies_deeply copy val own \<longleftrightarrow>
     contents_ok val own
     \<and> (\<forall>h x v. wf_store h \<and> val h x = Some v \<longrightarrow>
          (\<exists>y h'. copy x h = Inr (y, h') \<and> wf_store h' \<and> cells h \<subseteq>\<^sub>m cells h'
             \<and> val h' y = Some v \<and> own h' y \<inter> dom (cells h) = {}))"

lemma map_leD: "m \<subseteq>\<^sub>m m' \<Longrightarrow> m k = Some v \<Longrightarrow> m' k = Some v"
  by (metis domI map_le_def)

lemma map_le_domD: "m \<subseteq>\<^sub>m m' \<Longrightarrow> dom m \<subseteq> dom m'"
  by (rule map_le_implies_dom_le)

locale contents =
  fixes val :: "'c store \<Rightarrow> 'a \<Rightarrow> 'v option"
    and own :: "'c store \<Rightarrow> 'a \<Rightarrow> ref set"
  assumes contents: "contents_ok val own"
begin

lemma frame:
  assumes "\<And>r. r \<in> own h x \<Longrightarrow> cells h' r = cells h r"
  shows "own h' x = own h x" and "val h' x = val h x"
  using contents assms unfolding contents_ok_def by blast+

lemma live: "val h x = Some v \<Longrightarrow> own h x \<subseteq> dom (cells h)"
  using contents unfolding contents_ok_def by blast

lemma live_dom: "val h x \<noteq> None \<Longrightarrow> own h x \<subseteq> dom (cells h)"
  using live by blast

text \<open>A write elsewhere does not show.\<close>

lemma write_frame:
  assumes "a \<notin> own h x"
  shows "own (h\<lparr>cells := (cells h)(a \<mapsto> c)\<rparr>) x = own h x" and "val (h\<lparr>cells := (cells h)(a \<mapsto> c)\<rparr>) x = val h x"
proof -
  have "cells (h\<lparr>cells := (cells h)(a \<mapsto> c)\<rparr>) r = cells h r" if "r \<in> own h x" for r
    using that assms by auto
  from frame [OF this] show "own (h\<lparr>cells := (cells h)(a \<mapsto> c)\<rparr>) x = own h x"
    "val (h\<lparr>cells := (cells h)(a \<mapsto> c)\<rparr>) x = val h x" by simp_all
qed

text \<open>Contents survive in a larger store.\<close>

lemma extend:
  assumes "val h x = Some v" and "cells h \<subseteq>\<^sub>m cells h'"
  shows "val h' x = Some v" and "own h' x = own h x"
proof -
  have "cells h' r = cells h r" if "r \<in> own h x" for r
    using subsetD [OF live [OF assms(1)] that] assms(2) by (simp add: map_le_def)
  from frame [OF this] assms(1) show "val h' x = Some v" "own h' x = own h x" by simp_all
qed

end

locale deep_copy =
  fixes copy :: "('a, 'c) copier"
    and val :: "'c store \<Rightarrow> 'a \<Rightarrow> 'v option"
    and own :: "'c store \<Rightarrow> 'a \<Rightarrow> ref set"
  assumes contract: "copies_deeply copy val own"

sublocale deep_copy \<subseteq> contents val own
  by unfold_locales (use contract in \<open>simp add: copies_deeply_def\<close>)

context deep_copy
begin

lemma copy_run:
  assumes "wf_store h" and "val h x = Some v"
  obtains y h' where "copy x h = Inr (y, h')" and "wf_store h'" and "cells h \<subseteq>\<^sub>m cells h'"
    and "val h' y = Some v" and "own h' y \<inter> dom (cells h) = {}"
  using contract assms unfolding copies_deeply_def by blast

text \<open>
  What a caller relies on: whatever is written later to the memory of the copy, or to memory
  allocated later, the original keeps its contents; and the other way round.
\<close>

lemma independent:
  assumes "wf_store h" and "val h x = Some v"
  obtains y h' where "copy x h = Inr (y, h')" and "wf_store h'" and "cells h \<subseteq>\<^sub>m cells h'"
    and "val h' y = Some v"
    and "\<And>k. (\<And>r. r \<in> dom (cells h) \<Longrightarrow> cells k r = cells h r) \<Longrightarrow> val k x = Some v"
    and "\<And>k. (\<And>r. r \<in> dom (cells h') - own h x \<Longrightarrow> cells k r = cells h' r) \<Longrightarrow> val k y = Some v"
proof -
  obtain y h' where c: "copy x h = Inr (y, h')" "wf_store h'" "cells h \<subseteq>\<^sub>m cells h'"
    "val h' y = Some v" "own h' y \<inter> dom (cells h) = {}"
    using copy_run [OF assms] by blast
  have 1: "val k x = Some v" if "\<And>r. r \<in> dom (cells h) \<Longrightarrow> cells k r = cells h r" for k
    using frame(2) [of h x k] that subsetD [OF live [OF assms(2)]] assms(2) by metis
  have "own h' y \<subseteq> dom (cells h') - own h x"
    using c(5) live [OF c(4)] live [OF assms(2)] by auto
  then have 2: "val k y = Some v"
    if "\<And>r. r \<in> dom (cells h') - own h x \<Longrightarrow> cells k r = cells h' r" for k
    using frame(2) [of h' y k] that c(4) by (metis subsetD)
  from that [OF c(1-4) 1 2] show thesis by blast
qed

end

section \<open>Values without references\<close>

definition plain_copy :: "('a, 'c) copier" where
  "plain_copy x h = Inr (x, h)"

definition plain_val :: "'c store \<Rightarrow> 'a \<Rightarrow> 'a option" where
  "plain_val h x = Some x"

definition plain_own :: "'c store \<Rightarrow> 'a \<Rightarrow> ref set" where
  "plain_own h x = {}"

lemma plain_contents [simp]: "contents_ok plain_val plain_own"
  by (simp add: contents_ok_def plain_val_def plain_own_def)

interpretation plain: deep_copy plain_copy plain_val plain_own
  by unfold_locales (simp add: copies_deeply_def plain_copy_def plain_contents, simp add: plain_val_def plain_own_def)

section \<open>Pointers\<close>

text \<open>
  The generated \<open>DeepCopy\<close>: nil for nil, else a new variable into which the receiver is
  copied. \<open>mk\<close> and \<open>dest\<close> say how a variable of the type is kept in a cell of the store; \<open>z\<close>
  is the zero value \<open>new\<close> puts there.
\<close>

definition var_at :: "('c \<Rightarrow> 'a option) \<Rightarrow> 'c store \<Rightarrow> ref \<Rightarrow> 'a option" where
  "var_at dest h r = (case cells h r of None \<Rightarrow> None | Some c \<Rightarrow> dest c)"

definition DeepCopy_ptr :: "('a \<Rightarrow> 'c) \<Rightarrow> ('c \<Rightarrow> 'a option) \<Rightarrow> 'a \<Rightarrow> ('a, 'c) copier
    \<Rightarrow> (ref option, 'c) copier" where
  "DeepCopy_ptr mk dest z into p h =
     (case p of
        None \<Rightarrow> Inr (None, h)
      | Some r \<Rightarrow>
          (case alloc (mk z) h of (out, h1) \<Rightarrow>
          (case var_at dest h1 r of
             None \<Rightarrow> Inl NilDeref
           | Some x \<Rightarrow>
               bnd (into x h1) (\<lambda>(y, h2).
               bnd (save h2 (Some out) (mk y)) (\<lambda>h3. Inr (Some out, h3))))))"

definition ptr_val :: "('c \<Rightarrow> 'a option) \<Rightarrow> ('c store \<Rightarrow> 'a \<Rightarrow> 'v option)
    \<Rightarrow> 'c store \<Rightarrow> ref option \<Rightarrow> 'v option option" where
  "ptr_val dest val h p =
     (case p of None \<Rightarrow> Some None
      | Some r \<Rightarrow> (case var_at dest h r of None \<Rightarrow> None | Some x \<Rightarrow> map_option Some (val h x)))"

definition ptr_own :: "('c \<Rightarrow> 'a option) \<Rightarrow> ('c store \<Rightarrow> 'a \<Rightarrow> ref set)
    \<Rightarrow> 'c store \<Rightarrow> ref option \<Rightarrow> ref set" where
  "ptr_own dest own h p =
     (case p of None \<Rightarrow> {}
      | Some r \<Rightarrow> insert r (case var_at dest h r of None \<Rightarrow> {} | Some x \<Rightarrow> own h x))"

lemma alloc_map_le: "wf_store h \<Longrightarrow> alloc c h = (r, h') \<Longrightarrow> cells h \<subseteq>\<^sub>m cells h' \<and> cells h r = None
    \<and> cells h' r = Some c \<and> wf_store h'"
  by (auto simp: alloc_def wf_store_def map_le_def less_Suc_eq)

lemma write_map_le: "cells h r = None \<Longrightarrow> cells h \<subseteq>\<^sub>m cells h' \<Longrightarrow> cells h \<subseteq>\<^sub>m (cells h')(r \<mapsto> c)"
  by (auto simp: map_le_def)

lemma write_wf: "wf_store h \<Longrightarrow> cells h r = Some b \<Longrightarrow> wf_store (h\<lparr>cells := (cells h)(r \<mapsto> c)\<rparr>)"
  by (auto simp: wf_store_def)

lemma var_at_extend: "var_at dest h r = Some x \<Longrightarrow> cells h \<subseteq>\<^sub>m cells h' \<Longrightarrow> var_at dest h' r = Some x"
  by (auto simp: var_at_def map_leD split: option.splits)

context contents
begin

lemma ptr_contents: "contents_ok (ptr_val dest val) (ptr_own dest own)"
  unfolding contents_ok_def
proof (intro conjI allI impI)
  fix h h' :: "'c store" and p
  assume same: "\<forall>r \<in> ptr_own dest own h p. cells h' r = cells h r"
  show "ptr_own dest own h' p = ptr_own dest own h p" and "ptr_val dest val h' p = ptr_val dest val h p"
    using same frame [of h _ h']
    by (auto simp: ptr_own_def ptr_val_def var_at_def split: option.splits)
next
  fix h :: "'c store" and p v
  assume "ptr_val dest val h p = Some v"
  then show "ptr_own dest own h p \<subseteq> dom (cells h)"
    by (auto simp: ptr_own_def ptr_val_def var_at_def split: option.splits)
      (metis domD live_dom option.distinct(1) subsetD)
qed

end

context deep_copy
begin

lemma ptr_copies:
  assumes dest: "\<And>x. dest (mk x) = Some x"
  shows "copies_deeply (DeepCopy_ptr mk dest z copy) (ptr_val dest val) (ptr_own dest own)"
  unfolding copies_deeply_def
proof (intro conjI allI impI, rule ptr_contents)
  fix h :: "'c store" and p v
  assume h: "wf_store h \<and> ptr_val dest val h p = Some v"
  show "\<exists>y h'. DeepCopy_ptr mk dest z copy p h = Inr (y, h') \<and> wf_store h' \<and> cells h \<subseteq>\<^sub>m cells h'
      \<and> ptr_val dest val h' y = Some v \<and> ptr_own dest own h' y \<inter> dom (cells h) = {}"
  proof (cases p)
    case None
    with h show ?thesis by (simp add: DeepCopy_ptr_def ptr_val_def ptr_own_def)
  next
    case (Some r)
    with h obtain x u where x: "var_at dest h r = Some x" "val h x = Some u" "v = Some u"
      by (auto simp: ptr_val_def split: option.splits)
    obtain out h1 where a: "alloc (mk z) h = (out, h1)" by (cases "alloc (mk z) h")
    then have h1: "cells h \<subseteq>\<^sub>m cells h1" "cells h out = None" "cells h1 out = Some (mk z)" "wf_store h1"
      using alloc_map_le [of h "mk z" out h1] h by simp_all
    obtain y h2 where c: "copy x h1 = Inr (y, h2)" "wf_store h2" "cells h1 \<subseteq>\<^sub>m cells h2"
      "val h2 y = Some u" "own h2 y \<inter> dom (cells h1) = {}"
      using copy_run [OF h1(4) extend(1) [OF x(2) h1(1)]] by blast
    let ?h3 = "h2\<lparr>cells := (cells h2)(out \<mapsto> mk y)\<rparr>"
    have out: "cells h2 out = Some (mk z)" using c(3) h1(3) by (rule map_leD)
    have fresh: "own h2 y \<inter> dom (cells h) = {}" using c(5) map_le_domD [OF h1(1)] by blast
    have "out \<notin> own h2 y" using c(5) h1(3) by blast
    then have y: "own ?h3 y = own h2 y" "val ?h3 y = Some u"
      using write_frame [of out h2 y] c(4) by simp_all
    have "DeepCopy_ptr mk dest z copy p h = Inr (Some out, ?h3)"
      using Some a c(1) out var_at_extend [OF x(1) h1(1)] by (simp add: DeepCopy_ptr_def save_def)
    moreover have "wf_store ?h3" using c(2) out by (rule write_wf)
    moreover have "cells h \<subseteq>\<^sub>m cells ?h3"
      using write_map_le [OF h1(2)] map_le_trans [OF h1(1) c(3)] by simp
    moreover have "ptr_val dest val ?h3 (Some out) = Some v"
      using y(2) x(3) by (simp add: ptr_val_def var_at_def dest)
    moreover have "ptr_own dest own ?h3 (Some out) \<inter> dom (cells h) = {}"
      using y(1) fresh h1(2) by (auto simp: ptr_own_def var_at_def dest)
    ultimately show ?thesis by blast
  qed
qed

end

text \<open>
  A copy of values together with how variables of the type are kept in cells: then copying
  behind a pointer is itself a deep copy.
\<close>

locale deep_copy_var = deep_copy copy val own
  for copy :: "('a, 'c) copier" and val :: "'c store \<Rightarrow> 'a \<Rightarrow> 'v option" and own :: "'c store \<Rightarrow> 'a \<Rightarrow> ref set" +
  fixes mk :: "'a \<Rightarrow> 'c" and dest :: "'c \<Rightarrow> 'a option" and z :: 'a
  assumes dest_mk: "dest (mk x) = Some x"

sublocale deep_copy_var \<subseteq> ptr: deep_copy "DeepCopy_ptr mk dest z copy" "ptr_val dest val" "ptr_own dest own"
  by unfold_locales (rule ptr_copies, rule dest_mk)

section \<open>Slices\<close>

text \<open>A slice is nil or a window of an array; the array is one cell of the store.\<close>

record slice =
  sl_array :: ref
  sl_off :: nat
  sl_len :: nat
  sl_cap :: nat

definition array_at :: "('c \<Rightarrow> 'a list option) \<Rightarrow> 'c store \<Rightarrow> slice \<Rightarrow> 'a list exec" where
  "array_at dest h s = (case var_at dest h (sl_array s) of None \<Rightarrow> Inl NilDeref | Some xs \<Rightarrow> Inr xs)"

definition slice_get :: "('c \<Rightarrow> 'a list option) \<Rightarrow> slice \<Rightarrow> nat \<Rightarrow> 'c store \<Rightarrow> 'a exec" where
  "slice_get dest s i h =
     (if i < sl_len s then bnd (array_at dest h s) (\<lambda>xs. idx xs (sl_off s + i)) else Inl IndexOutOfRange)"

definition slice_set :: "('a list \<Rightarrow> 'c) \<Rightarrow> ('c \<Rightarrow> 'a list option) \<Rightarrow> slice \<Rightarrow> nat \<Rightarrow> 'a \<Rightarrow> 'c store \<Rightarrow> 'c store exec" where
  "slice_set mk dest s i x h =
     (if i < sl_len s then
        bnd (array_at dest h s) (\<lambda>xs.
          if sl_off s + i < length xs then save h (Some (sl_array s)) (mk (xs[sl_off s + i := x]))
          else Inl IndexOutOfRange)
      else Inl IndexOutOfRange)"

definition make_slice :: "('a list \<Rightarrow> 'c) \<Rightarrow> 'a \<Rightarrow> nat \<Rightarrow> 'c store \<Rightarrow> slice \<times> 'c store" where
  "make_slice mk z n h =
     (case alloc (mk (replicate n z)) h of (r, h') \<Rightarrow>
       (\<lparr>sl_array = r, sl_off = 0, sl_len = n, sl_cap = n\<rparr>, h'))"

text \<open>
  The loop over \<open>Items\<close>: nil stays nil; else a new slice of the same length, each element
  copied into its place by \<open>into\<close>.
\<close>

definition copy_items :: "('a list \<Rightarrow> 'c) \<Rightarrow> ('c \<Rightarrow> 'a list option) \<Rightarrow> 'a \<Rightarrow> ('a, 'c) copier
    \<Rightarrow> (slice option, 'c) copier" where
  "copy_items mk dest z into items h =
     (case items of
        None \<Rightarrow> Inr (None, h)
      | Some s \<Rightarrow>
          (case make_slice mk z (sl_len s) h of (t, h1) \<Rightarrow>
             bnd (loopM (\<lambda>i g. bnd (slice_get dest s i g) (\<lambda>x.
                               bnd (into x g) (\<lambda>(y, g'). slice_set mk dest t i y g')))
                    [0..<sl_len s] h1)
               (\<lambda>h2. Inr (Some t, h2))))"

text \<open>The elements of a slice, and the contents of a list of items.\<close>

definition slice_elems :: "('c \<Rightarrow> 'a list option) \<Rightarrow> 'c store \<Rightarrow> slice \<Rightarrow> 'a list option" where
  "slice_elems dest h s =
     (case var_at dest h (sl_array s) of
        None \<Rightarrow> None
      | Some xs \<Rightarrow> (if sl_off s + sl_len s \<le> length xs then Some (take (sl_len s) (drop (sl_off s) xs)) else None))"

definition items_val :: "('c \<Rightarrow> 'a list option) \<Rightarrow> ('c store \<Rightarrow> 'a \<Rightarrow> 'v option)
    \<Rightarrow> 'c store \<Rightarrow> slice option \<Rightarrow> 'v list option option" where
  "items_val dest val h items =
     (case items of None \<Rightarrow> Some None
      | Some s \<Rightarrow> (case slice_elems dest h s of None \<Rightarrow> None
          | Some xs \<Rightarrow> map_option Some (those (map (val h) xs))))"

definition items_own :: "('c \<Rightarrow> 'a list option) \<Rightarrow> ('c store \<Rightarrow> 'a \<Rightarrow> ref set)
    \<Rightarrow> 'c store \<Rightarrow> slice option \<Rightarrow> ref set" where
  "items_own dest own h items =
     (case items of None \<Rightarrow> {}
      | Some s \<Rightarrow> insert (sl_array s)
          (case slice_elems dest h s of None \<Rightarrow> {} | Some xs \<Rightarrow> (\<Union>x \<in> set xs. own h x)))"

lemma those_eq_Some_iff: "those xs = Some ys \<longleftrightarrow> xs = map Some ys"
proof (induction xs arbitrary: ys)
  case (Cons x xs)
  then show ?case by (cases x; cases ys) (auto simp: Cons.IH)
qed auto

lemma upt_split: "[0..<n] = seen @ i # rest \<Longrightarrow> i = length seen \<and> i < n"
proof -
  assume split: "[0..<n] = seen @ i # rest"
  have "length seen < n" using arg_cong [OF split, of length] by simp
  moreover have "[0..<n] ! length seen = i" by (simp add: split)
  ultimately show ?thesis by simp
qed

lemma map_Some_in: "map f xs = map Some ys \<Longrightarrow> \<forall>x \<in> set xs. f x \<noteq> None"
  by (induction xs arbitrary: ys) (auto simp: map_eq_Cons_conv)

lemma slice_elemsD:
  assumes "slice_elems dest h s = Some xs"
  shows "length xs = sl_len s"
    and "i < sl_len s \<Longrightarrow> slice_get dest s i h = Inr (xs ! i)"
    and "cells h \<subseteq>\<^sub>m cells h' \<Longrightarrow> slice_elems dest h' s = Some xs"
  using assms var_at_extend [of dest h "sl_array s" _ h']
  by (auto simp: slice_elems_def slice_get_def array_at_def idx_def split: option.splits if_splits)

context contents
begin

lemma items_contents: "contents_ok (items_val dest val) (items_own dest own)"
  unfolding contents_ok_def
proof (intro conjI allI impI)
  fix h h' :: "'c store" and p
  assume same: "\<forall>r \<in> items_own dest own h p. cells h' r = cells h r"
  have "slice_elems dest h' s = slice_elems dest h s" if "p = Some s" for s
    using same that by (simp add: items_own_def slice_elems_def var_at_def)
  moreover have "own h' x = own h x \<and> val h' x = val h x"
    if "p = Some s" "slice_elems dest h s = Some xs" "x \<in> set xs" for s xs x
    using frame [of h x h'] same that by (auto simp: items_own_def)
  ultimately show "items_own dest own h' p = items_own dest own h p"
    and "items_val dest val h' p = items_val dest val h p"
    by (auto simp: items_own_def items_val_def split: option.splits cong: map_cong)
next
  fix h :: "'c store" and p v
  assume "items_val dest val h p = Some v"
  then show "items_own dest own h p \<subseteq> dom (cells h)"
    by (auto simp: items_own_def items_val_def slice_elems_def var_at_def those_eq_Some_iff
        dest!: map_Some_in split: option.splits if_splits)
      (metis domD live_dom option.distinct(1) subsetD)
qed

text \<open>
  The state of the loop: the array \<open>a\<close> holds copies of the first elements, in memory that was
  not in use when it was made.
\<close>

definition items_copied :: "('a list \<Rightarrow> 'c) \<Rightarrow> 'c store \<Rightarrow> ref \<Rightarrow> 'v list \<Rightarrow> nat \<Rightarrow> 'c store \<Rightarrow> bool" where
  "items_copied mk h a vs i g \<longleftrightarrow> wf_store g \<and> cells h \<subseteq>\<^sub>m cells g \<and> cells h a = None
     \<and> (\<exists>zs. cells g a = Some (mk zs) \<and> length zs = length vs
          \<and> (\<forall>j < i. val g (zs ! j) = Some (vs ! j) \<and> own g (zs ! j) \<inter> dom (cells h) = {}
               \<and> a \<notin> own g (zs ! j)))"

end

context deep_copy
begin

lemma items_step:
  assumes dest: "\<And>x. dest (mk x) = Some x"
    and inv: "items_copied mk h a vs i g" and i: "i < length vs" and x: "val h x = Some (vs ! i)"
    and t: "t = \<lparr>sl_array = a, sl_off = 0, sl_len = length vs, sl_cap = length vs\<rparr>"
  shows "\<exists>g'. bnd (copy x g) (\<lambda>(y, g'). slice_set mk dest t i y g') = Inr g'
    \<and> items_copied mk h a vs (Suc i) g'"
proof -
  from inv obtain zs where g: "wf_store g" "cells h \<subseteq>\<^sub>m cells g" "cells h a = None"
    and zs: "cells g a = Some (mk zs)" "length zs = length vs"
    and prev: "\<And>j. j < i \<Longrightarrow> val g (zs ! j) = Some (vs ! j) \<and> own g (zs ! j) \<inter> dom (cells h) = {}
               \<and> a \<notin> own g (zs ! j)"
    by (auto simp: items_copied_def)
  obtain y g1 where c: "copy x g = Inr (y, g1)" "wf_store g1" "cells g \<subseteq>\<^sub>m cells g1"
    "val g1 y = Some (vs ! i)" "own g1 y \<inter> dom (cells g) = {}"
    using copy_run [OF g(1) extend(1) [OF x g(2)]] by blast
  let ?g2 = "g1\<lparr>cells := (cells g1)(a \<mapsto> mk (zs[i := y]))\<rparr>"
  have a: "cells g1 a = Some (mk zs)" using c(3) zs(1) by (rule map_leD)
  have "a \<notin> own g1 y" and fresh: "own g1 y \<inter> dom (cells h) = {}"
    using c(5) zs(1) map_le_domD [OF g(2)] by blast+
  then have y: "own ?g2 y = own g1 y" "val ?g2 y = Some (vs ! i)"
    using write_frame [of a g1 y] c(4) by simp_all
  have old: "val ?g2 (zs ! j) = Some (vs ! j) \<and> own ?g2 (zs ! j) = own g (zs ! j)" if "j < i" for j
    using write_frame [of a g1 "zs ! j"] extend [of g "zs ! j" "vs ! j" g1] prev [OF that] c(3) by simp
  have "bnd (copy x g) (\<lambda>(y, g'). slice_set mk dest t i y g') = Inr ?g2"
    using c(1) a i zs(2) by (simp add: t slice_set_def array_at_def var_at_def dest save_def)
  moreover have "items_copied mk h a vs (Suc i) ?g2"
    unfolding items_copied_def
  proof (intro conjI exI [of _ "zs[i := y]"] allI impI)
    show "wf_store ?g2" using c(2) a by (rule write_wf)
    show "cells h \<subseteq>\<^sub>m cells ?g2" using write_map_le [OF g(3) map_le_trans [OF g(2) c(3)]] by simp
    fix j assume j: "j < Suc i"
    show "val ?g2 (zs[i := y] ! j) = Some (vs ! j)" "own ?g2 (zs[i := y] ! j) \<inter> dom (cells h) = {}"
      "a \<notin> own ?g2 (zs[i := y] ! j)"
      using j i zs old [of j] prev [of j] y fresh \<open>a \<notin> own g1 y\<close>
      by (auto simp: less_Suc_eq nth_list_update)
  qed (use g(3) zs(2) in simp_all)
  ultimately show ?thesis by blast
qed

lemma items_run:
  assumes dest: "\<And>x. dest (mk x) = Some x" and "wf_store h" and s: "slice_elems dest h s = Some xs"
    and vs: "map (val h) xs = map Some vs"
  obtains t h' where "copy_items mk dest z copy (Some s) h = Inr (Some t, h')"
    and "items_copied mk h (sl_array t) vs (length vs) h'"
    and "sl_off t = 0" and "sl_len t = length vs"
proof -
  have len: "length xs = length vs" "length vs = sl_len s"
    using vs slice_elemsD(1) [OF s] by (metis length_map)+
  obtain a h1 where a: "alloc (mk (replicate (sl_len s) z)) h = (a, h1)" by fastforce
  let ?t = "\<lparr>sl_array = a, sl_off = 0, sl_len = length vs, sl_cap = length vs\<rparr>"
  have h1: "items_copied mk h a vs 0 h1"
    using alloc_map_le [OF assms(2) a] len by (auto simp: items_copied_def)
  have "\<exists>h'. loopM (\<lambda>i g. bnd (slice_get dest s i g) (\<lambda>x.
                    bnd (copy x g) (\<lambda>(y, g'). slice_set mk dest ?t i y g'))) [0..<sl_len s] h1 = Inr h'
      \<and> items_copied mk h a vs (length [0..<sl_len s]) h'"
  proof (rule loopM_rule [where P = "\<lambda>seen. items_copied mk h a vs (length seen)"])
    fix seen i rest g
    assume split: "[0..<sl_len s] = seen @ i # rest" and inv: "items_copied mk h a vs (length seen) g"
    have i: "i = length seen" "i < sl_len s"
      using upt_split [OF split] by simp_all
    have "slice_get dest s i g = Inr (xs ! i)"
      using inv slice_elemsD(2,3) [OF slice_elemsD(3) [OF s]] slice_elemsD(3) [OF s] i(2)
        slice_elemsD(2) [of dest g s xs i]
      by (auto simp: items_copied_def)
    moreover have "val h (xs ! i) = Some (vs ! i)"
      using vs len i(2) by (metis nth_map)
    ultimately show "\<exists>g'. bnd (slice_get dest s i g) (\<lambda>x.
                    bnd (copy x g) (\<lambda>(y, g'). slice_set mk dest ?t i y g')) = Inr g'
        \<and> items_copied mk h a vs (length (seen @ [i])) g'"
      using items_step [OF dest inv [folded i(1)] _ _ refl] i len by simp
  qed (simp add: h1)
  then obtain h' where "copy_items mk dest z copy (Some s) h = Inr (Some ?t, h')"
    "items_copied mk h a vs (length vs) h'"
    using a len by (auto simp: copy_items_def make_slice_def)
  with that [of ?t h'] show thesis by simp
qed

lemma items_copies:
  assumes dest: "\<And>x. dest (mk x) = Some x"
  shows "copies_deeply (copy_items mk dest z copy) (items_val dest val) (items_own dest own)"
  unfolding copies_deeply_def
proof (intro conjI allI impI, rule items_contents)
  fix h :: "'c store" and p v
  assume h: "wf_store h \<and> items_val dest val h p = Some v"
  show "\<exists>y h'. copy_items mk dest z copy p h = Inr (y, h') \<and> wf_store h' \<and> cells h \<subseteq>\<^sub>m cells h'
      \<and> items_val dest val h' y = Some v \<and> items_own dest own h' y \<inter> dom (cells h) = {}"
  proof (cases p)
    case None
    with h show ?thesis by (simp add: copy_items_def items_val_def items_own_def)
  next
    case (Some s)
    with h obtain xs vs where xs: "slice_elems dest h s = Some xs" "map (val h) xs = map Some vs" "v = Some vs"
      by (auto simp: items_val_def those_eq_Some_iff split: option.splits)
    from h have wf: "wf_store h" by simp
    obtain t h' where t: "copy_items mk dest z copy (Some s) h = Inr (Some t, h')"
      "items_copied mk h (sl_array t) vs (length vs) h'" "sl_off t = 0" "sl_len t = length vs"
      using items_run [OF dest wf xs(1,2)] by blast
    from t(2) obtain zs where zs: "cells h' (sl_array t) = Some (mk zs)" "length zs = length vs"
      and j: "\<And>j. j < length vs \<Longrightarrow> val h' (zs ! j) = Some (vs ! j) \<and> own h' (zs ! j) \<inter> dom (cells h) = {}"
      and rest: "wf_store h'" "cells h \<subseteq>\<^sub>m cells h'" "cells h (sl_array t) = None"
      by (auto simp: items_copied_def)
    have el: "slice_elems dest h' t = Some zs"
      using zs t(3,4) by (simp add: slice_elems_def var_at_def dest)
    have own_zs: "own h' x \<inter> dom (cells h) = {}" if "x \<in> set zs" for x
      using that j zs(2) by (metis in_set_conv_nth)
    have "map (val h') zs = map Some vs" using zs(2) j by (auto intro: nth_equalityI)
    then have "items_val dest val h' (Some t) = Some v"
      using el xs(3) by (simp add: items_val_def those_eq_Some_iff)
    moreover have "items_own dest own h' (Some t) \<inter> dom (cells h) = {}"
      using el rest(3) own_zs by (auto simp: items_own_def)
    ultimately show ?thesis using Some t(1) rest(1,2) by blast
  qed
qed

end

section \<open>Structs\<close>

text \<open>
  A struct whose fields are copied one after the other. \<open>get1\<close> and \<open>get2\<close> are its fields that
  are copied deeply, in this order, \<open>rest\<close> the fields that are only assigned.
\<close>

definition two_val :: "('c store \<Rightarrow> 'a \<Rightarrow> 'v option) \<Rightarrow> ('c store \<Rightarrow> 'b \<Rightarrow> 'u option) \<Rightarrow> ('s \<Rightarrow> 'a) \<Rightarrow> ('s \<Rightarrow> 'b)
    \<Rightarrow> ('s \<Rightarrow> 'r) \<Rightarrow> 'c store \<Rightarrow> 's \<Rightarrow> ('r \<times> 'v \<times> 'u) option" where
  "two_val val1 val2 get1 get2 rest h x =
     (case val1 h (get1 x) of None \<Rightarrow> None
      | Some v \<Rightarrow> (case val2 h (get2 x) of None \<Rightarrow> None | Some u \<Rightarrow> Some (rest x, v, u)))"

definition two_own :: "('c store \<Rightarrow> 'a \<Rightarrow> ref set) \<Rightarrow> ('c store \<Rightarrow> 'b \<Rightarrow> ref set) \<Rightarrow> ('s \<Rightarrow> 'a) \<Rightarrow> ('s \<Rightarrow> 'b)
    \<Rightarrow> 'c store \<Rightarrow> 's \<Rightarrow> ref set" where
  "two_own own1 own2 get1 get2 h x = own1 h (get1 x) \<union> own2 h (get2 x)"

lemma two_contents:
  fixes own1 :: "'c store \<Rightarrow> 'a \<Rightarrow> ref set" and own2 :: "'c store \<Rightarrow> 'b \<Rightarrow> ref set"
  assumes c1: "contents_ok val1 own1" and c2: "contents_ok val2 own2"
  shows "contents_ok (two_val val1 val2 get1 get2 rest) (two_own own1 own2 get1 get2)"
proof -
  have d1: "contents val1 own1" and d2: "contents val2 own2"
    using c1 c2 by (auto intro: contents.intro)
  show ?thesis
    unfolding contents_ok_def
  proof (intro conjI allI impI)
    fix h h' :: "'c store" and x
    assume "\<forall>r \<in> two_own own1 own2 get1 get2 h x. cells h' r = cells h r"
    then show "two_own own1 own2 get1 get2 h' x = two_own own1 own2 get1 get2 h x"
      and "two_val val1 val2 get1 get2 rest h' x = two_val val1 val2 get1 get2 rest h x"
      using contents.frame [OF d1, of h "get1 x" h'] contents.frame [OF d2, of h "get2 x" h']
      by (simp_all add: two_own_def two_val_def split: option.split)
  next
    fix h :: "'c store" and x v
    assume "two_val val1 val2 get1 get2 rest h x = Some v"
    then show "two_own own1 own2 get1 get2 h x \<subseteq> dom (cells h)"
      using contents.live [OF d1, of h "get1 x"] contents.live [OF d2, of h "get2 x"]
      by (auto simp: two_own_def two_val_def split: option.splits)
  qed
qed

lemma struct_copies:
  fixes own1 :: "'c store \<Rightarrow> 'a \<Rightarrow> ref set" and own2 :: "'c store \<Rightarrow> 'b \<Rightarrow> ref set"
  assumes c1: "copies_deeply copy1 val1 own1" and c2: "copies_deeply copy2 val2 own2"
    and into: "\<And>x h. into x h = bnd (copy1 (get1 x) h) (\<lambda>(a, h1).
                 bnd (copy2 (get2 x) h1) (\<lambda>(b, h2). Inr (put a b x, h2)))"
    and put: "\<And>a b x. get1 (put a b x) = a" "\<And>a b x. get2 (put a b x) = b" "\<And>a b x. rest (put a b x) = rest x"
  shows "copies_deeply into (two_val val1 val2 get1 get2 rest) (two_own own1 own2 get1 get2)"
proof -
  have d1: "deep_copy copy1 val1 own1" and d2: "deep_copy copy2 val2 own2"
    using c1 c2 by (auto intro: deep_copy.intro)
  have n1: "contents val1 own1" and n2: "contents val2 own2"
    using c1 c2 by (auto intro: contents.intro simp: copies_deeply_def)
  show ?thesis
    unfolding copies_deeply_def
  proof (intro conjI allI impI, rule two_contents)
    show "contents_ok val1 own1" and "contents_ok val2 own2" using c1 c2 by (simp_all add: copies_deeply_def)
    fix h :: "'c store" and x v
    assume h: "wf_store h \<and> two_val val1 val2 get1 get2 rest h x = Some v"
    then obtain v1 v2 where v: "val1 h (get1 x) = Some v1" "val2 h (get2 x) = Some v2" "v = (rest x, v1, v2)"
      by (auto simp: two_val_def split: option.splits)
    from h have wf: "wf_store h" by simp
    obtain a h1 where a: "copy1 (get1 x) h = Inr (a, h1)" "wf_store h1" "cells h \<subseteq>\<^sub>m cells h1"
      "val1 h1 a = Some v1" "own1 h1 a \<inter> dom (cells h) = {}"
      by (rule deep_copy.copy_run [OF d1 wf v(1)])
    have "val2 h1 (get2 x) = Some v2" by (rule contents.extend [OF n2 v(2) a(3)])
    from deep_copy.copy_run [OF d2 a(2) this] obtain b h2 where b: "copy2 (get2 x) h1 = Inr (b, h2)"
      "wf_store h2" "cells h1 \<subseteq>\<^sub>m cells h2" "val2 h2 b = Some v2" "own2 h2 b \<inter> dom (cells h1) = {}" .
    have a2: "val1 h2 a = Some v1" "own1 h2 a = own1 h1 a"
      by (rule contents.extend [OF n1 a(4) b(3)])+
    have "into x h = Inr (put a b x, h2)" using a(1) b(1) by (simp add: into)
    moreover have "cells h \<subseteq>\<^sub>m cells h2" using a(3) b(3) by (rule map_le_trans)
    moreover have "two_val val1 val2 get1 get2 rest h2 (put a b x) = Some v"
      using a2(1) b(4) v(3) by (simp add: two_val_def put)
    moreover have "two_own own1 own2 get1 get2 h2 (put a b x) \<inter> dom (cells h) = {}"
      unfolding two_own_def put a2(2) using a(5) b(5) map_le_domD [OF a(3)] by blast
    ultimately show "\<exists>y h'. into x h = Inr (y, h') \<and> wf_store h' \<and> cells h \<subseteq>\<^sub>m cells h'
        \<and> two_val val1 val2 get1 get2 rest h' y = Some v \<and> two_own own1 own2 get1 get2 h' y \<inter> dom (cells h) = {}"
      using b(2) by blast
  qed
qed

end
