(* ===== verification/ApiTypes.thy ===== *)
theory ApiTypes
  imports DeepCopy
begin

text \<open>
  The API types of the repository and their generated methods: \<open>Echo\<close> of
  \<open>apiserver/pkg/apis/echo/v1\<close> and \<open>Ptr\<close> of \<open>pkg/apis/mesh/v1\<close>, with their specs, statuses and
  lists, and the deep copies of \<open>zz_generated.deepcopy.go\<close> (those of
  \<open>generated.deepcopy.go\<close> are in theory \<open>GeneratedCopies\<close>). The metadata structs of apimachinery, \<open>ObjectMeta\<close> and
  \<open>ListMeta\<close>, are type parameters \<open>'m\<close> and \<open>'l\<close>, and their \<open>DeepCopyInto\<close> the parameters
  \<open>copy_meta\<close> and \<open>copy_list_meta\<close>.
\<close>

section \<open>The types\<close>

record TypeMeta =
  tm_Kind :: string
  tm_APIVersion :: string

record EchoSpec =
  es_Msg :: string

record EchoStatus =
  et_Msg :: string

record 'm Echo =
  e_TypeMeta :: TypeMeta
  e_ObjectMeta :: 'm
  e_Spec :: EchoSpec
  e_Status :: EchoStatus

record 'l EchoList =
  el_TypeMeta :: TypeMeta
  el_ListMeta :: 'l
  el_Items :: "slice option"

record PtrSpec =
  ps_Host :: string
  ps_IP :: string

record PtrStatus =
  pt_Host :: string
  pt_IP :: string

record 'm Ptr =
  p_TypeMeta :: TypeMeta
  p_ObjectMeta :: 'm
  p_Spec :: PtrSpec
  p_Status :: PtrStatus

record 'l PtrList =
  pl_TypeMeta :: TypeMeta
  pl_ListMeta :: 'l
  pl_Items :: "slice option"

text \<open>Zero values; \<open>m0\<close> and \<open>l0\<close> are those of the metadata.\<close>

definition zero_TypeMeta :: TypeMeta where
  "zero_TypeMeta = \<lparr>tm_Kind = [], tm_APIVersion = []\<rparr>"

definition zero_Echo :: "'m \<Rightarrow> 'm Echo" where
  "zero_Echo m0 = \<lparr>e_TypeMeta = zero_TypeMeta, e_ObjectMeta = m0, e_Spec = \<lparr>es_Msg = []\<rparr>, e_Status = \<lparr>et_Msg = []\<rparr>\<rparr>"

definition zero_EchoList :: "'l \<Rightarrow> 'l EchoList" where
  "zero_EchoList l0 = \<lparr>el_TypeMeta = zero_TypeMeta, el_ListMeta = l0, el_Items = None\<rparr>"

definition zero_Ptr :: "'m \<Rightarrow> 'm Ptr" where
  "zero_Ptr m0 = \<lparr>p_TypeMeta = zero_TypeMeta, p_ObjectMeta = m0, p_Spec = \<lparr>ps_Host = [], ps_IP = []\<rparr>,
     p_Status = \<lparr>pt_Host = [], pt_IP = []\<rparr>\<rparr>"

definition zero_PtrList :: "'l \<Rightarrow> 'l PtrList" where
  "zero_PtrList l0 = \<lparr>pl_TypeMeta = zero_TypeMeta, pl_ListMeta = l0, pl_Items = None\<rparr>"

text \<open>
  What a cell of the store can hold: a variable of one of the types, the array of a slice, or
  something that belongs to the metadata.
\<close>

datatype ('m, 'l, 'x) api_cell =
    EchoVar (the_echo: "'m Echo")
  | EchoSpecVar (the_echo_spec: EchoSpec)
  | EchoStatusVar (the_echo_status: EchoStatus)
  | EchoListVar (the_echo_list: "'l EchoList")
  | EchoArray (the_echos: "'m Echo list")
  | PtrVar (the_ptr: "'m Ptr")
  | PtrSpecVar (the_ptr_spec: PtrSpec)
  | PtrStatusVar (the_ptr_status: PtrStatus)
  | PtrListVar (the_ptr_list: "'l PtrList")
  | PtrArray (the_ptrs: "'m Ptr list")
  | MetaCell (the_meta: 'x)

definition cell_as :: "('c \<Rightarrow> bool) \<Rightarrow> ('c \<Rightarrow> 'a) \<Rightarrow> 'c \<Rightarrow> 'a option" where
  "cell_as is sel c = (if is c then Some (sel c) else None)"

section \<open>Deep copies of Echo\<close>

text \<open>
  \<open>DeepCopyInto\<close> writes all of \<open>*out\<close> and nothing else but the memory of the metadata, so it is
  a function from \<open>*in\<close> to \<open>*out\<close> that passes the store along.
\<close>

definition Echo_DeepCopyInto :: "('m, 'c) copier \<Rightarrow> ('m Echo, 'c) copier" where
  "Echo_DeepCopyInto copy_meta inp h =
     (let out = inp;
          out = out\<lparr>e_TypeMeta := e_TypeMeta inp\<rparr>
      in bnd (copy_meta (e_ObjectMeta inp) h) (\<lambda>(m, h1).
           let out = out\<lparr>e_ObjectMeta := m\<rparr>;
               out = out\<lparr>e_Spec := e_Spec inp\<rparr>;
               out = out\<lparr>e_Status := e_Status inp\<rparr>
           in Inr (out, h1)))"

definition EchoList_DeepCopyInto :: "('l, ('m, 'l, 'x) api_cell) copier \<Rightarrow> ('m, ('m, 'l, 'x) api_cell) copier
    \<Rightarrow> 'm \<Rightarrow> ('l EchoList, ('m, 'l, 'x) api_cell) copier" where
  "EchoList_DeepCopyInto copy_list_meta copy_meta m0 inp h =
     (let out = inp;
          out = out\<lparr>el_TypeMeta := el_TypeMeta inp\<rparr>
      in bnd (copy_list_meta (el_ListMeta inp) h) (\<lambda>(l, h1).
           let out = out\<lparr>el_ListMeta := l\<rparr>
           in bnd (copy_items EchoArray (cell_as is_EchoArray the_echos) (zero_Echo m0)
                     (Echo_DeepCopyInto copy_meta) (el_Items inp) h1) (\<lambda>(items, h2).
                Inr (out\<lparr>el_Items := items\<rparr>, h2))))"

definition EchoSpec_DeepCopyInto :: "(EchoSpec, 'c) copier" where
  "EchoSpec_DeepCopyInto inp h = (let out = inp in Inr (out, h))"

definition EchoStatus_DeepCopyInto :: "(EchoStatus, 'c) copier" where
  "EchoStatus_DeepCopyInto inp h = (let out = inp in Inr (out, h))"

definition Echo_DeepCopy :: "('m, ('m, 'l, 'x) api_cell) copier \<Rightarrow> 'm
    \<Rightarrow> (ref option, ('m, 'l, 'x) api_cell) copier" where
  "Echo_DeepCopy copy_meta m0 =
     DeepCopy_ptr EchoVar (cell_as is_EchoVar the_echo) (zero_Echo m0) (Echo_DeepCopyInto copy_meta)"

definition EchoList_DeepCopy :: "('l, ('m, 'l, 'x) api_cell) copier \<Rightarrow> ('m, ('m, 'l, 'x) api_cell) copier
    \<Rightarrow> 'm \<Rightarrow> 'l \<Rightarrow> (ref option, ('m, 'l, 'x) api_cell) copier" where
  "EchoList_DeepCopy copy_list_meta copy_meta m0 l0 =
     DeepCopy_ptr EchoListVar (cell_as is_EchoListVar the_echo_list) (zero_EchoList l0)
       (EchoList_DeepCopyInto copy_list_meta copy_meta m0)"

definition EchoSpec_DeepCopy :: "(ref option, ('m, 'l, 'x) api_cell) copier" where
  "EchoSpec_DeepCopy =
     DeepCopy_ptr EchoSpecVar (cell_as is_EchoSpecVar the_echo_spec) \<lparr>es_Msg = []\<rparr> EchoSpec_DeepCopyInto"

definition EchoStatus_DeepCopy :: "(ref option, ('m, 'l, 'x) api_cell) copier" where
  "EchoStatus_DeepCopy =
     DeepCopy_ptr EchoStatusVar (cell_as is_EchoStatusVar the_echo_status) \<lparr>et_Msg = []\<rparr> EchoStatus_DeepCopyInto"

text \<open>
  \<open>DeepCopyObject\<close> returns an interface, and takes care not to return one that holds a nil
  pointer: \<open>NilObject\<close> is the nil interface.
\<close>

datatype runtime_Object =
    NilObject
  | EchoObject "ref option"
  | EchoListObject "ref option"
  | PtrObject "ref option"
  | PtrListObject "ref option"

definition DeepCopyObject_by :: "(ref option, 'c) copier \<Rightarrow> (ref option \<Rightarrow> runtime_Object)
    \<Rightarrow> ref option \<Rightarrow> 'c store \<Rightarrow> (runtime_Object \<times> 'c store) exec" where
  "DeepCopyObject_by deep_copy_of box inp h =
     bnd (deep_copy_of inp h) (\<lambda>(c, h1). Inr (if c \<noteq> None then box c else NilObject, h1))"

definition Echo_DeepCopyObject where
  "Echo_DeepCopyObject copy_meta m0 = DeepCopyObject_by (Echo_DeepCopy copy_meta m0) EchoObject"

definition EchoList_DeepCopyObject where
  "EchoList_DeepCopyObject copy_list_meta copy_meta m0 l0 =
     DeepCopyObject_by (EchoList_DeepCopy copy_list_meta copy_meta m0 l0) EchoListObject"

section \<open>Deep copies of Ptr\<close>

definition Ptr_DeepCopyInto :: "('m, 'c) copier \<Rightarrow> ('m Ptr, 'c) copier" where
  "Ptr_DeepCopyInto copy_meta inp h =
     (let out = inp;
          out = out\<lparr>p_TypeMeta := p_TypeMeta inp\<rparr>
      in bnd (copy_meta (p_ObjectMeta inp) h) (\<lambda>(m, h1).
           let out = out\<lparr>p_ObjectMeta := m\<rparr>;
               out = out\<lparr>p_Spec := p_Spec inp\<rparr>;
               out = out\<lparr>p_Status := p_Status inp\<rparr>
           in Inr (out, h1)))"

definition PtrList_DeepCopyInto :: "('l, ('m, 'l, 'x) api_cell) copier \<Rightarrow> ('m, ('m, 'l, 'x) api_cell) copier
    \<Rightarrow> 'm \<Rightarrow> ('l PtrList, ('m, 'l, 'x) api_cell) copier" where
  "PtrList_DeepCopyInto copy_list_meta copy_meta m0 inp h =
     (let out = inp;
          out = out\<lparr>pl_TypeMeta := pl_TypeMeta inp\<rparr>
      in bnd (copy_list_meta (pl_ListMeta inp) h) (\<lambda>(l, h1).
           let out = out\<lparr>pl_ListMeta := l\<rparr>
           in bnd (copy_items PtrArray (cell_as is_PtrArray the_ptrs) (zero_Ptr m0)
                     (Ptr_DeepCopyInto copy_meta) (pl_Items inp) h1) (\<lambda>(items, h2).
                Inr (out\<lparr>pl_Items := items\<rparr>, h2))))"

definition PtrSpec_DeepCopyInto :: "(PtrSpec, 'c) copier" where
  "PtrSpec_DeepCopyInto inp h = (let out = inp in Inr (out, h))"

definition PtrStatus_DeepCopyInto :: "(PtrStatus, 'c) copier" where
  "PtrStatus_DeepCopyInto inp h = (let out = inp in Inr (out, h))"

definition Ptr_DeepCopy :: "('m, ('m, 'l, 'x) api_cell) copier \<Rightarrow> 'm
    \<Rightarrow> (ref option, ('m, 'l, 'x) api_cell) copier" where
  "Ptr_DeepCopy copy_meta m0 =
     DeepCopy_ptr PtrVar (cell_as is_PtrVar the_ptr) (zero_Ptr m0) (Ptr_DeepCopyInto copy_meta)"

definition PtrList_DeepCopy :: "('l, ('m, 'l, 'x) api_cell) copier \<Rightarrow> ('m, ('m, 'l, 'x) api_cell) copier
    \<Rightarrow> 'm \<Rightarrow> 'l \<Rightarrow> (ref option, ('m, 'l, 'x) api_cell) copier" where
  "PtrList_DeepCopy copy_list_meta copy_meta m0 l0 =
     DeepCopy_ptr PtrListVar (cell_as is_PtrListVar the_ptr_list) (zero_PtrList l0)
       (PtrList_DeepCopyInto copy_list_meta copy_meta m0)"

definition PtrSpec_DeepCopy :: "(ref option, ('m, 'l, 'x) api_cell) copier" where
  "PtrSpec_DeepCopy =
     DeepCopy_ptr PtrSpecVar (cell_as is_PtrSpecVar the_ptr_spec) \<lparr>ps_Host = [], ps_IP = []\<rparr> PtrSpec_DeepCopyInto"

definition PtrStatus_DeepCopy :: "(ref option, ('m, 'l, 'x) api_cell) copier" where
  "PtrStatus_DeepCopy =
     DeepCopy_ptr PtrStatusVar (cell_as is_PtrStatusVar the_ptr_status) \<lparr>pt_Host = [], pt_IP = []\<rparr> PtrStatus_DeepCopyInto"

definition Ptr_DeepCopyObject where
  "Ptr_DeepCopyObject copy_meta m0 = DeepCopyObject_by (Ptr_DeepCopy copy_meta m0) PtrObject"

definition PtrList_DeepCopyObject where
  "PtrList_DeepCopyObject copy_list_meta copy_meta m0 l0 =
     DeepCopyObject_by (PtrList_DeepCopy copy_list_meta copy_meta m0 l0) PtrListObject"

section \<open>The generated copies are deep\<close>

lemma cell_as_simps [simp]:
  "cell_as is_EchoVar the_echo (EchoVar e) = Some e"
  "cell_as is_EchoSpecVar the_echo_spec (EchoSpecVar s) = Some s"
  "cell_as is_EchoStatusVar the_echo_status (EchoStatusVar t) = Some t"
  "cell_as is_EchoListVar the_echo_list (EchoListVar el) = Some el"
  "cell_as is_EchoArray the_echos (EchoArray es) = Some es"
  "cell_as is_PtrVar the_ptr (PtrVar p) = Some p"
  "cell_as is_PtrSpecVar the_ptr_spec (PtrSpecVar ps) = Some ps"
  "cell_as is_PtrStatusVar the_ptr_status (PtrStatusVar pt) = Some pt"
  "cell_as is_PtrListVar the_ptr_list (PtrListVar pl) = Some pl"
  "cell_as is_PtrArray the_ptrs (PtrArray ptrs) = Some ptrs"
  by (simp_all add: cell_as_def)

interpretation echo_spec: deep_copy_var EchoSpec_DeepCopyInto plain_val plain_own
    EchoSpecVar "cell_as is_EchoSpecVar the_echo_spec" "\<lparr>es_Msg = []\<rparr>"
  by unfold_locales (simp_all add: copies_deeply_def EchoSpec_DeepCopyInto_def, simp add: plain_val_def plain_own_def)

interpretation echo_status: deep_copy_var EchoStatus_DeepCopyInto plain_val plain_own
    EchoStatusVar "cell_as is_EchoStatusVar the_echo_status" "\<lparr>et_Msg = []\<rparr>"
  by unfold_locales (simp_all add: copies_deeply_def EchoStatus_DeepCopyInto_def, simp add: plain_val_def plain_own_def)

interpretation ptr_spec: deep_copy_var PtrSpec_DeepCopyInto plain_val plain_own
    PtrSpecVar "cell_as is_PtrSpecVar the_ptr_spec" "\<lparr>ps_Host = [], ps_IP = []\<rparr>"
  by unfold_locales (simp_all add: copies_deeply_def PtrSpec_DeepCopyInto_def, simp add: plain_val_def plain_own_def)

interpretation ptr_status: deep_copy_var PtrStatus_DeepCopyInto plain_val plain_own
    PtrStatusVar "cell_as is_PtrStatusVar the_ptr_status" "\<lparr>pt_Host = [], pt_IP = []\<rparr>"
  by unfold_locales (simp_all add: copies_deeply_def PtrStatus_DeepCopyInto_def, simp add: plain_val_def plain_own_def)

text \<open>
  The contents of an object: its plain fields and the contents of its metadata. The contents of
  a list: its type, the contents of its metadata, and of its items, if \<open>Items\<close> is not nil.
\<close>

type_synonym 'v echo_contents = "(TypeMeta \<times> EchoSpec \<times> EchoStatus) \<times> 'v \<times> unit"
type_synonym 'v ptr_contents = "(TypeMeta \<times> PtrSpec \<times> PtrStatus) \<times> 'v \<times> unit"

definition Echo_val :: "('c store \<Rightarrow> 'm \<Rightarrow> 'v option) \<Rightarrow> 'c store \<Rightarrow> 'm Echo \<Rightarrow> 'v echo_contents option" where
  "Echo_val val_meta =
     two_val val_meta plain_val e_ObjectMeta (\<lambda>_. ()) (\<lambda>x. (e_TypeMeta x, e_Spec x, e_Status x))"

definition Echo_own :: "('c store \<Rightarrow> 'm \<Rightarrow> ref set) \<Rightarrow> 'c store \<Rightarrow> 'm Echo \<Rightarrow> ref set" where
  "Echo_own own_meta = two_own own_meta plain_own e_ObjectMeta (\<lambda>_. ())"

definition Ptr_val :: "('c store \<Rightarrow> 'm \<Rightarrow> 'v option) \<Rightarrow> 'c store \<Rightarrow> 'm Ptr \<Rightarrow> 'v ptr_contents option" where
  "Ptr_val val_meta =
     two_val val_meta plain_val p_ObjectMeta (\<lambda>_. ()) (\<lambda>x. (p_TypeMeta x, p_Spec x, p_Status x))"

definition Ptr_own :: "('c store \<Rightarrow> 'm \<Rightarrow> ref set) \<Rightarrow> 'c store \<Rightarrow> 'm Ptr \<Rightarrow> ref set" where
  "Ptr_own own_meta = two_own own_meta plain_own p_ObjectMeta (\<lambda>_. ())"

definition EchoList_val where
  "EchoList_val val_list_meta val_meta =
     two_val val_list_meta (items_val (cell_as is_EchoArray the_echos) (Echo_val val_meta))
       el_ListMeta el_Items el_TypeMeta"

definition EchoList_own where
  "EchoList_own own_list_meta own_meta =
     two_own own_list_meta (items_own (cell_as is_EchoArray the_echos) (Echo_own own_meta))
       el_ListMeta el_Items"

definition PtrList_val where
  "PtrList_val val_list_meta val_meta =
     two_val val_list_meta (items_val (cell_as is_PtrArray the_ptrs) (Ptr_val val_meta))
       pl_ListMeta pl_Items pl_TypeMeta"

definition PtrList_own where
  "PtrList_own own_list_meta own_meta =
     two_own own_list_meta (items_own (cell_as is_PtrArray the_ptrs) (Ptr_own own_meta))
       pl_ListMeta pl_Items"

lemmas contents_defs = Echo_val_def Echo_own_def Ptr_val_def Ptr_own_def EchoList_val_def
  EchoList_own_def PtrList_val_def PtrList_own_def

text \<open>Every generated copy meets the contract when those of the metadata do.\<close>

lemma Echo_copies:
  assumes "copies_deeply copy_meta val_meta own_meta"
  shows "copies_deeply (Echo_DeepCopyInto copy_meta) (Echo_val val_meta) (Echo_own own_meta)"
  unfolding contents_defs
  by (rule struct_copies [OF assms plain.contract,
        where put = "\<lambda>m _ x. x\<lparr>e_ObjectMeta := m\<rparr>"])
    (simp_all add: Echo_DeepCopyInto_def plain_copy_def Let_def)

lemma Ptr_copies:
  assumes "copies_deeply copy_meta val_meta own_meta"
  shows "copies_deeply (Ptr_DeepCopyInto copy_meta) (Ptr_val val_meta) (Ptr_own own_meta)"
  unfolding contents_defs
  by (rule struct_copies [OF assms plain.contract,
        where put = "\<lambda>m _ x. x\<lparr>p_ObjectMeta := m\<rparr>"])
    (simp_all add: Ptr_DeepCopyInto_def plain_copy_def Let_def)

lemma EchoList_copies:
  assumes "copies_deeply copy_list_meta val_list_meta own_list_meta"
    and "copies_deeply copy_meta val_meta own_meta"
  shows "copies_deeply (EchoList_DeepCopyInto copy_list_meta copy_meta m0)
    (EchoList_val val_list_meta val_meta) (EchoList_own own_list_meta own_meta)"
proof -
  have items: "copies_deeply (copy_items EchoArray (cell_as is_EchoArray the_echos) (zero_Echo m0)
        (Echo_DeepCopyInto copy_meta))
      (items_val (cell_as is_EchoArray the_echos) (Echo_val val_meta))
      (items_own (cell_as is_EchoArray the_echos) (Echo_own own_meta))"
    by (rule deep_copy.items_copies [OF deep_copy.intro [OF Echo_copies [OF assms(2)]]]) simp
  show ?thesis
    unfolding EchoList_val_def EchoList_own_def
    by (rule struct_copies [OF assms(1) items,
          where put = "\<lambda>l items x. x\<lparr>el_ListMeta := l, el_Items := items\<rparr>"])
      (simp_all add: EchoList_DeepCopyInto_def Let_def)
qed

lemma PtrList_copies:
  assumes "copies_deeply copy_list_meta val_list_meta own_list_meta"
    and "copies_deeply copy_meta val_meta own_meta"
  shows "copies_deeply (PtrList_DeepCopyInto copy_list_meta copy_meta m0)
    (PtrList_val val_list_meta val_meta) (PtrList_own own_list_meta own_meta)"
proof -
  have items: "copies_deeply (copy_items PtrArray (cell_as is_PtrArray the_ptrs) (zero_Ptr m0)
        (Ptr_DeepCopyInto copy_meta))
      (items_val (cell_as is_PtrArray the_ptrs) (Ptr_val val_meta))
      (items_own (cell_as is_PtrArray the_ptrs) (Ptr_own own_meta))"
    by (rule deep_copy.items_copies [OF deep_copy.intro [OF Ptr_copies [OF assms(2)]]]) simp
  show ?thesis
    unfolding PtrList_val_def PtrList_own_def
    by (rule struct_copies [OF assms(1) items,
          where put = "\<lambda>l items x. x\<lparr>pl_ListMeta := l, pl_Items := items\<rparr>"])
      (simp_all add: PtrList_DeepCopyInto_def Let_def)
qed

lemma pointers_copy:
  assumes "copies_deeply copy_list_meta val_list_meta own_list_meta"
    and "copies_deeply copy_meta val_meta own_meta"
  shows "copies_deeply (Echo_DeepCopy copy_meta m0)
      (ptr_val (cell_as is_EchoVar the_echo) (Echo_val val_meta))
      (ptr_own (cell_as is_EchoVar the_echo) (Echo_own own_meta))"
    and "copies_deeply (EchoList_DeepCopy copy_list_meta copy_meta m0 l0)
      (ptr_val (cell_as is_EchoListVar the_echo_list) (EchoList_val val_list_meta val_meta))
      (ptr_own (cell_as is_EchoListVar the_echo_list) (EchoList_own own_list_meta own_meta))"
    and "copies_deeply (Ptr_DeepCopy copy_meta m0)
      (ptr_val (cell_as is_PtrVar the_ptr) (Ptr_val val_meta))
      (ptr_own (cell_as is_PtrVar the_ptr) (Ptr_own own_meta))"
    and "copies_deeply (PtrList_DeepCopy copy_list_meta copy_meta m0 l0)
      (ptr_val (cell_as is_PtrListVar the_ptr_list) (PtrList_val val_list_meta val_meta))
      (ptr_own (cell_as is_PtrListVar the_ptr_list) (PtrList_own own_list_meta own_meta))"
  unfolding Echo_DeepCopy_def EchoList_DeepCopy_def Ptr_DeepCopy_def PtrList_DeepCopy_def
  by (rule deep_copy.ptr_copies [OF deep_copy.intro], rule Echo_copies EchoList_copies Ptr_copies PtrList_copies,
      (rule assms)+, simp)+

text \<open>The specs and statuses, which hold strings only.\<close>

lemma plain_pointers_copy:
  "copies_deeply EchoSpec_DeepCopy (ptr_val (cell_as is_EchoSpecVar the_echo_spec) plain_val)
     (ptr_own (cell_as is_EchoSpecVar the_echo_spec) plain_own)"
  "copies_deeply EchoStatus_DeepCopy (ptr_val (cell_as is_EchoStatusVar the_echo_status) plain_val)
     (ptr_own (cell_as is_EchoStatusVar the_echo_status) plain_own)"
  "copies_deeply PtrSpec_DeepCopy (ptr_val (cell_as is_PtrSpecVar the_ptr_spec) plain_val)
     (ptr_own (cell_as is_PtrSpecVar the_ptr_spec) plain_own)"
  "copies_deeply PtrStatus_DeepCopy (ptr_val (cell_as is_PtrStatusVar the_ptr_status) plain_val)
     (ptr_own (cell_as is_PtrStatusVar the_ptr_status) plain_own)"
  unfolding EchoSpec_DeepCopy_def EchoStatus_DeepCopy_def PtrSpec_DeepCopy_def PtrStatus_DeepCopy_def
  by (rule echo_spec.ptr.contract echo_status.ptr.contract ptr_spec.ptr.contract ptr_status.ptr.contract)+

section \<open>A concrete store for the witnesses\<close>

text \<open>
  Metadata that is a pointer to a string of labels, and list metadata without references. The
  store holds a list of \<open>Echo\<close> with one item, and a list of \<open>Ptr\<close> whose window is the second
  element of its array; the labels of both are at address 2.
\<close>

type_synonym demo_cell = "(ref option, string, string) api_cell"

definition demo_copy_meta :: "(ref option, demo_cell) copier" where
  "demo_copy_meta = DeepCopy_ptr MetaCell (cell_as is_MetaCell the_meta) [] plain_copy"

definition demo_val_meta :: "demo_cell store \<Rightarrow> ref option \<Rightarrow> string option option" where
  "demo_val_meta = ptr_val (cell_as is_MetaCell the_meta) plain_val"

definition demo_own_meta :: "demo_cell store \<Rightarrow> ref option \<Rightarrow> ref set" where
  "demo_own_meta = ptr_own (cell_as is_MetaCell the_meta) plain_own"

lemma demo_meta_copies: "copies_deeply demo_copy_meta demo_val_meta demo_own_meta"
  unfolding demo_copy_meta_def demo_val_meta_def demo_own_meta_def
  by (rule plain.ptr_copies) (simp add: cell_as_def)

definition demo_items :: "slice option" where
  "demo_items = Some \<lparr>sl_array = 1, sl_off = 0, sl_len = 1, sl_cap = 1\<rparr>"

definition demo_ptr_items :: "slice option" where
  "demo_ptr_items = Some \<lparr>sl_array = 4, sl_off = 1, sl_len = 1, sl_cap = 1\<rparr>"

definition demo_store :: "demo_cell store" where
  "demo_store = \<lparr>cells =
     [0 \<mapsto> EchoListVar ((zero_EchoList []) \<lparr>el_Items := demo_items\<rparr>),
      1 \<mapsto> EchoArray [(zero_Echo None) \<lparr>e_ObjectMeta := Some 2\<rparr>],
      2 \<mapsto> MetaCell ''labels'',
      3 \<mapsto> PtrListVar ((zero_PtrList []) \<lparr>pl_Items := demo_ptr_items\<rparr>),
      4 \<mapsto> PtrArray [zero_Ptr None, (zero_Ptr None) \<lparr>p_ObjectMeta := Some 2\<rparr>]],
     next_ref = 5\<rparr>"

section \<open>Properties\<close>

text \<open>
  C33: The generated \<open>DeepCopy\<close> of a list of \<open>Echo\<close>. If the copies of apimachinery for the two
  kinds of metadata are deep, the method never panics, keeps nil and returns a pointer to a list
  with the same contents (nil items stay nil and are told apart from empty ones), and the two
  are independent: whatever is written afterwards to the memory of the copy or to new memory,
  the original keeps its contents, and whatever is written to the memory of the original, the
  copy keeps them.
\<close>

theorem EchoList_DeepCopy_independent:
  fixes h :: "('m, 'l, 'x) api_cell store"
  assumes "copies_deeply copy_list_meta val_list_meta own_list_meta"
    and "copies_deeply copy_meta val_meta own_meta" and "wf_store h"
    and "ptr_val (cell_as is_EchoListVar the_echo_list) (EchoList_val val_list_meta val_meta) h p = Some v"
  shows "\<exists>q h'. EchoList_DeepCopy copy_list_meta copy_meta m0 l0 p h = Inr (q, h') \<and> cells h \<subseteq>\<^sub>m cells h'
    \<and> ptr_val (cell_as is_EchoListVar the_echo_list) (EchoList_val val_list_meta val_meta) h' q = Some v
    \<and> (\<forall>k. (\<forall>r \<in> dom (cells h). cells k r = cells h r)
          \<longrightarrow> ptr_val (cell_as is_EchoListVar the_echo_list) (EchoList_val val_list_meta val_meta) k p = Some v)
    \<and> (\<forall>k. (\<forall>r \<in> dom (cells h')
             - ptr_own (cell_as is_EchoListVar the_echo_list) (EchoList_own own_list_meta own_meta) h p.
               cells k r = cells h' r)
          \<longrightarrow> ptr_val (cell_as is_EchoListVar the_echo_list) (EchoList_val val_list_meta val_meta) k q = Some v)"
  by (rule deep_copy.independent [OF deep_copy.intro [OF pointers_copy(2) [OF assms(1,2)]] assms(3,4)]) blast

theorem EchoList_DeepCopy_independent_witness:
  "\<exists>q h'. EchoList_DeepCopy plain_copy demo_copy_meta None [] (Some 0) demo_store = Inr (q, h')
     \<and> ptr_val (cell_as is_EchoListVar the_echo_list) (EchoList_val plain_val demo_val_meta)
         (h'\<lparr>cells := (cells h')(2 \<mapsto> MetaCell ''changed'')\<rparr>) q
       = Some (Some (zero_TypeMeta, [], Some [((zero_TypeMeta, \<lparr>es_Msg = []\<rparr>, \<lparr>et_Msg = []\<rparr>), Some ''labels'', ())]))"
proof -
  let ?v = "Some (zero_TypeMeta, [], Some [((zero_TypeMeta, \<lparr>es_Msg = []\<rparr>, \<lparr>et_Msg = []\<rparr>), Some ''labels'', ())])"
  have wf: "wf_store demo_store" by (auto simp: wf_store_def demo_store_def)
  have v: "ptr_val (cell_as is_EchoListVar the_echo_list) (EchoList_val plain_val demo_val_meta)
      demo_store (Some 0) = Some ?v"
    by code_simp
  have own: "2 \<in> ptr_own (cell_as is_EchoListVar the_echo_list) (EchoList_own plain_own demo_own_meta)
      demo_store (Some 0)"
    by code_simp
  from EchoList_DeepCopy_independent [OF plain.contract demo_meta_copies wf v, of None "[]"]
  obtain q h' where c: "EchoList_DeepCopy plain_copy demo_copy_meta None [] (Some 0) demo_store = Inr (q, h')"
    and keep: "\<forall>k. (\<forall>r \<in> dom (cells h')
             - ptr_own (cell_as is_EchoListVar the_echo_list) (EchoList_own plain_own demo_own_meta) demo_store (Some 0).
               cells k r = cells h' r)
          \<longrightarrow> ptr_val (cell_as is_EchoListVar the_echo_list) (EchoList_val plain_val demo_val_meta) k q = Some ?v"
    by blast
  have "\<forall>r \<in> dom (cells h')
             - ptr_own (cell_as is_EchoListVar the_echo_list) (EchoList_own plain_own demo_own_meta) demo_store (Some 0).
       cells (h'\<lparr>cells := (cells h')(2 \<mapsto> MetaCell ''changed'')\<rparr>) r = cells h' r"
    using own by auto
  with keep c show ?thesis by blast
qed

text \<open>
  The generated \<open>DeepCopyObject\<close>, which the libraries call through an interface. A nil
  pointer gives the nil interface, never an interface that holds a nil pointer; a pointer to a
  list of \<open>Ptr\<close> gives an interface that holds a pointer to a new variable with the same
  contents, and no memory that was in use is written.
\<close>

lemma PtrList_DeepCopyObject_spec:
  fixes h :: "('m, 'l, 'x) api_cell store"
  assumes "copies_deeply copy_list_meta val_list_meta own_list_meta"
    and "copies_deeply copy_meta val_meta own_meta" and "wf_store h"
    and "ptr_val (cell_as is_PtrListVar the_ptr_list) (PtrList_val val_list_meta val_meta) h p = Some v"
  shows "\<exists>obj h'. PtrList_DeepCopyObject copy_list_meta copy_meta m0 l0 p h = Inr (obj, h')
    \<and> cells h \<subseteq>\<^sub>m cells h'
    \<and> (if p = None then obj = NilObject
       else \<exists>r. obj = PtrListObject (Some r) \<and> cells h r = None
          \<and> ptr_val (cell_as is_PtrListVar the_ptr_list) (PtrList_val val_list_meta val_meta) h' (Some r) = Some v)"
proof -
  let ?val = "ptr_val (cell_as is_PtrListVar the_ptr_list) (PtrList_val val_list_meta val_meta)"
  let ?own = "ptr_own (cell_as is_PtrListVar the_ptr_list) (PtrList_own own_list_meta own_meta)"
  have d: "deep_copy (PtrList_DeepCopy copy_list_meta copy_meta m0 l0) ?val ?own"
    by (rule deep_copy.intro [OF pointers_copy(4) [OF assms(1,2)]])
  obtain q h' where c: "PtrList_DeepCopy copy_list_meta copy_meta m0 l0 p h = Inr (q, h')"
    "wf_store h'" "cells h \<subseteq>\<^sub>m cells h'" "?val h' q = Some v" "?own h' q \<inter> dom (cells h) = {}"
    by (rule deep_copy.copy_run [OF d assms(3,4)])
  have nil: "?val k n = Some v \<Longrightarrow> n = None \<longleftrightarrow> v = None" for k n
    by (auto simp: ptr_val_def split: option.splits)
  have "q = None \<longleftrightarrow> p = None" using nil [OF assms(4)] nil [OF c(4)] by simp
  moreover have "cells h r = None" if "q = Some r" for r
    using c(5) that by (auto simp: ptr_own_def)
  ultimately show ?thesis
    using c by (auto simp: PtrList_DeepCopyObject_def DeepCopyObject_by_def)
qed

lemma PtrList_DeepCopyObject_spec_witness:
  "\<exists>r h'. PtrList_DeepCopyObject plain_copy demo_copy_meta None [] (Some 3) demo_store
     = Inr (PtrListObject (Some r), h') \<and> r \<notin> {0, 1, 2, 3, 4}"
proof -
  have wf: "wf_store demo_store" by (auto simp: wf_store_def demo_store_def)
  have v: "ptr_val (cell_as is_PtrListVar the_ptr_list) (PtrList_val plain_val demo_val_meta)
      demo_store (Some 3) = Some (Some (zero_TypeMeta, [],
        Some [((zero_TypeMeta, \<lparr>ps_Host = [], ps_IP = []\<rparr>, \<lparr>pt_Host = [], pt_IP = []\<rparr>), Some ''labels'', ())]))"
    by code_simp
  have live: "cells demo_store r = None \<Longrightarrow> r \<notin> {0, 1, 2, 3, 4}" for r
    by (auto simp: demo_store_def split: if_splits)
  from PtrList_DeepCopyObject_spec [OF plain.contract demo_meta_copies wf v, of None "[]"] live
  show ?thesis by fastforce
qed

end
