(* ===== verification/OpenApi.thy ===== *)
theory OpenApi
  imports ApiTypes
begin

text \<open>
  The OpenAPI definitions the sample server publishes for its types:
  \<open>apiserver/pkg/openapi/generated.openapi.go\<close>, as data, with the JSON the types are written as
  (the tags of \<open>echo_types.go\<close>) and what it means that JSON conforms to a schema. The libraries
  give a reference to a definition by the callback \<open>ref\<close>, whose results are the type \<open>'r\<close>.
\<close>

section \<open>JSON\<close>

datatype json =
    JNull
  | JStr string
  | JArr "json list"
  | JObj "(string \<times> json) list"

text \<open>
  \<open>omitempty\<close> leaves out an empty string. It has no effect on a struct, so \<open>metadata\<close> and
  \<open>status\<close> are always written. A nil slice is written as null.
\<close>

definition omitempty :: "string \<Rightarrow> string \<Rightarrow> (string \<times> json) list" where
  "omitempty k s = (if s = [] then [] else [(k, JStr s)])"

definition TypeMeta_json :: "TypeMeta \<Rightarrow> (string \<times> json) list" where
  "TypeMeta_json t = omitempty ''kind'' (tm_Kind t) @ omitempty ''apiVersion'' (tm_APIVersion t)"

definition EchoSpec_json :: "EchoSpec \<Rightarrow> json" where
  "EchoSpec_json s = JObj [(''msg'', JStr (es_Msg s))]"

definition EchoStatus_json :: "EchoStatus \<Rightarrow> json" where
  "EchoStatus_json s = JObj [(''msg'', JStr (et_Msg s))]"

definition Echo_json :: "('m \<Rightarrow> json) \<Rightarrow> 'm Echo \<Rightarrow> json" where
  "Echo_json meta_json e =
     JObj (TypeMeta_json (e_TypeMeta e)
       @ [(''metadata'', meta_json (e_ObjectMeta e)),
          (''spec'', EchoSpec_json (e_Spec e)),
          (''status'', EchoStatus_json (e_Status e))])"

definition EchoList_json :: "('l \<Rightarrow> json) \<Rightarrow> ('m \<Rightarrow> json) \<Rightarrow> TypeMeta \<Rightarrow> 'l \<Rightarrow> 'm Echo list option \<Rightarrow> json" where
  "EchoList_json list_meta_json meta_json t l items =
     JObj (TypeMeta_json t
       @ [(''metadata'', list_meta_json l),
          (''items'', (case items of None \<Rightarrow> JNull | Some es \<Rightarrow> JArr (map (Echo_json meta_json) es)))])"

section \<open>Schemas\<close>

text \<open>The fields of \<open>spec.SchemaProps\<close> the file sets; a field it does not set is empty.\<close>

datatype 'r schema = Schema
  (sc_Description: string)
  (sc_Type: "string list")
  (sc_Format: string)
  (sc_Default: "json option")
  (sc_Ref: "'r option")
  (sc_Required: "string list")
  (sc_Properties: "(string \<times> 'r schema) list")
  (sc_Items: "'r schema option")

record 'r OpenAPIDefinition =
  od_Schema :: "'r schema"
  od_Dependencies :: "string list"

definition string_schema :: "string \<Rightarrow> json option \<Rightarrow> 'r schema" where
  "string_schema desc dflt = Schema desc [''string''] [] dflt None [] [] None"

definition ref_schema :: "string \<Rightarrow> 'r \<Rightarrow> 'r schema" where
  "ref_schema desc r = Schema desc [] [] (Some (JObj [])) (Some r) [] [] None"

definition object_schema :: "string \<Rightarrow> (string \<times> 'r schema) list \<Rightarrow> string list \<Rightarrow> 'r schema" where
  "object_schema desc props req = Schema desc [''object''] [] None None req props None"

definition array_schema :: "'r schema \<Rightarrow> 'r schema" where
  "array_schema items = Schema [] [''array''] [] None None [] [] (Some items)"

section \<open>The generated definitions\<close>

definition echo_pkg :: "string \<Rightarrow> string" where
  "echo_pkg n = ''github.com/costinm/mk8s/apiserver/pkg/apis/echo/v1.'' @ n"

definition meta_pkg :: "string \<Rightarrow> string" where
  "meta_pkg n = ''k8s.io/apimachinery/pkg/apis/meta/v1.'' @ n"

definition kind_description :: string where
  "kind_description = ''Kind is a string value representing the REST resource this object represents. Servers may infer this from the endpoint the client submits requests to. Cannot be updated. In CamelCase. More info: https://git.k8s.io/community/contributors/devel/sig-architecture/api-conventions.md#types-kinds''"

definition apiVersion_description :: string where
  "apiVersion_description = ''APIVersion defines the versioned schema of this representation of an object. Servers should convert recognized schemas to the latest internal value, and may reject unrecognized values. More info: https://git.k8s.io/community/contributors/devel/sig-architecture/api-conventions.md#resources''"

definition status_description :: string where
  \<open>status_description = ''Status defines the current state of Echo.'' @ [CHR 0x0A, CHR 0x0A]
     @ ''-----kubebuilder:default={conditions: {{type: "Accepted", status: "Unknown", reason:"Pending", message:"Waiting for controller", lastTransitionTime: "1970-01-01T00:00:00Z"},''
     @ ''{type: "Programmed", status: "Unknown", reason:"Pending", message:"Waiting for controller", lastTransitionTime: "1970-01-01T00:00:00Z"}}}''\<close>

definition schema_Echo :: "(string \<Rightarrow> 'r) \<Rightarrow> 'r OpenAPIDefinition" where
  "schema_Echo ref = \<lparr>
     od_Schema = object_schema ''Echo is a test CRD''
       [(''kind'', string_schema kind_description None),
        (''apiVersion'', string_schema apiVersion_description None),
        (''metadata'', ref_schema [] (ref (meta_pkg ''ObjectMeta''))),
        (''spec'', ref_schema ''Spec defines the desired state of Echo.'' (ref (echo_pkg ''EchoSpec''))),
        (''status'', ref_schema status_description (ref (echo_pkg ''EchoStatus'')))]
       [''spec''],
     od_Dependencies = [echo_pkg ''EchoSpec'', echo_pkg ''EchoStatus'', meta_pkg ''ObjectMeta'']\<rparr>"

definition schema_EchoList :: "(string \<Rightarrow> 'r) \<Rightarrow> 'r OpenAPIDefinition" where
  "schema_EchoList ref = \<lparr>
     od_Schema = object_schema ''EchoList contains a list of Echos.''
       [(''kind'', string_schema kind_description None),
        (''apiVersion'', string_schema apiVersion_description None),
        (''metadata'', ref_schema [] (ref (meta_pkg ''ListMeta''))),
        (''items'', array_schema (ref_schema [] (ref (echo_pkg ''Echo''))))]
       [''items''],
     od_Dependencies = [echo_pkg ''Echo'', meta_pkg ''ListMeta'']\<rparr>"

definition schema_EchoSpec :: "(string \<Rightarrow> 'r) \<Rightarrow> 'r OpenAPIDefinition" where
  "schema_EchoSpec ref = \<lparr>
     od_Schema = object_schema ''EchoSpec defines the desired state of Echo.''
       [(''msg'', string_schema ''Support: Core'' (Some (JStr [])))] [''msg''],
     od_Dependencies = []\<rparr>"

definition schema_EchoStatus :: "(string \<Rightarrow> 'r) \<Rightarrow> 'r OpenAPIDefinition" where
  "schema_EchoStatus ref = \<lparr>
     od_Schema = object_schema [] [(''msg'', string_schema [] (Some (JStr [])))] [''msg''],
     od_Dependencies = []\<rparr>"

definition echo_definitions :: "(string \<Rightarrow> 'r) \<Rightarrow> string \<Rightarrow> 'r OpenAPIDefinition option" where
  "echo_definitions ref =
     [echo_pkg ''Echo'' \<mapsto> schema_Echo ref,
      echo_pkg ''EchoList'' \<mapsto> schema_EchoList ref,
      echo_pkg ''EchoSpec'' \<mapsto> schema_EchoSpec ref,
      echo_pkg ''EchoStatus'' \<mapsto> schema_EchoStatus ref]"

section \<open>What the definitions refer to\<close>

fun schema_refs :: "'r schema \<Rightarrow> 'r list" where
  "schema_refs (Schema desc ty fmt dflt r req props items) =
     (case r of None \<Rightarrow> [] | Some x \<Rightarrow> [x])
     @ concat (map (\<lambda>(k, s). schema_refs s) props)
     @ (case items of None \<Rightarrow> [] | Some s \<Rightarrow> schema_refs s)"

fun required_declared :: "'r schema \<Rightarrow> bool" where
  "required_declared (Schema desc ty fmt dflt r req props items) =
     (set req \<subseteq> fst ` set props \<and> list_all (\<lambda>(k, s). required_declared s) props
      \<and> (case items of None \<Rightarrow> True | Some s \<Rightarrow> required_declared s))"

section \<open>Conformance\<close>

text \<open>
  JSON that conforms to a schema: a reference stands for the schema it resolves to, a string and
  an array must be allowed by \<open>type\<close>, and an object must have the required properties, with
  every declared property conforming; other properties are allowed.
\<close>

inductive conforms :: "('r \<Rightarrow> 'r schema option) \<Rightarrow> 'r schema \<Rightarrow> json \<Rightarrow> bool" for resolve where
  conforms_ref: "sc_Ref s = Some r \<Longrightarrow> resolve r = Some s' \<Longrightarrow> conforms resolve s' j \<Longrightarrow> conforms resolve s j"
| conforms_string: "sc_Ref s = None \<Longrightarrow> ''string'' \<in> set (sc_Type s) \<Longrightarrow> conforms resolve s (JStr t)"
| conforms_array: "sc_Ref s = None \<Longrightarrow> ''array'' \<in> set (sc_Type s) \<Longrightarrow> sc_Items s = Some s'
    \<Longrightarrow> \<forall>j \<in> set js. conforms resolve s' j \<Longrightarrow> conforms resolve s (JArr js)"
| conforms_object: "sc_Ref s = None \<Longrightarrow> ''object'' \<in> set (sc_Type s) \<Longrightarrow> set (sc_Required s) \<subseteq> fst ` set fs
    \<Longrightarrow> \<forall>(k, j) \<in> set fs. \<forall>(k', s') \<in> set (sc_Properties s). k' = k \<longrightarrow> conforms resolve s' j
    \<Longrightarrow> conforms resolve s (JObj fs)"

inductive_cases conforms_arrayE: "conforms resolve s (JArr js)"
inductive_cases conforms_objectE: "conforms resolve s (JObj fs)"

lemma schema_simps [simp]:
  "sc_Ref (string_schema d z) = None" "sc_Type (string_schema d z) = [''string'']"
  "sc_Ref (ref_schema d r) = Some r"
  "sc_Ref (object_schema d ps req) = None" "sc_Type (object_schema d ps req) = [''object'']"
  "sc_Required (object_schema d ps req) = req" "sc_Properties (object_schema d ps req) = ps"
  "sc_Ref (array_schema s) = None" "sc_Type (array_schema s) = [''array'']" "sc_Items (array_schema s) = Some s"
  by (simp_all add: string_schema_def ref_schema_def object_schema_def array_schema_def)

lemma conforms_string_schema: "conforms resolve (string_schema d z) (JStr t)"
  by (rule conforms_string) simp_all

lemma conforms_ref_schema: "resolve r = Some s' \<Longrightarrow> conforms resolve s' j \<Longrightarrow> conforms resolve (ref_schema d r) j"
  by (rule conforms_ref) simp_all

lemma conforms_array_schema: "\<forall>j \<in> set js. conforms resolve s j \<Longrightarrow> conforms resolve (array_schema s) (JArr js)"
  by (rule conforms_array) simp_all

lemma conforms_object_schema:
  assumes "set req \<subseteq> fst ` set fs"
    and "\<And>k j s. (k, j) \<in> set fs \<Longrightarrow> (k, s) \<in> set ps \<Longrightarrow> conforms resolve s j"
  shows "conforms resolve (object_schema d ps req) (JObj fs)"
  using assms by (intro conforms_object) auto

lemma TypeMeta_json_in: "(k, j) \<in> set (TypeMeta_json t) \<Longrightarrow> (\<exists>s. j = JStr s) \<and> (k = ''kind'' \<or> k = ''apiVersion'')"
  by (auto simp: TypeMeta_json_def omitempty_def split: if_splits)

lemma EchoSpec_conforms: "conforms resolve (od_Schema (schema_EchoSpec ref)) (EchoSpec_json s)"
  by (auto simp: schema_EchoSpec_def EchoSpec_json_def intro!: conforms_object_schema conforms_string_schema)

lemma EchoStatus_conforms: "conforms resolve (od_Schema (schema_EchoStatus ref)) (EchoStatus_json s)"
  by (auto simp: schema_EchoStatus_def EchoStatus_json_def intro!: conforms_object_schema conforms_string_schema)

text \<open>
  What the libraries do with the definitions: a reference to a name resolves to the schema
  that is published under it.
\<close>

definition resolves :: "('r \<Rightarrow> 'r schema option) \<Rightarrow> (string \<Rightarrow> 'r) \<Rightarrow> (string \<Rightarrow> 'r OpenAPIDefinition option) \<Rightarrow> bool" where
  "resolves resolve ref m \<longleftrightarrow> (\<forall>n d. m n = Some d \<longrightarrow> resolve (ref n) = Some (od_Schema d))"

lemma echo_definitions_simps [simp]:
  "echo_definitions ref (echo_pkg ''Echo'') = Some (schema_Echo ref)"
  "echo_definitions ref (echo_pkg ''EchoList'') = Some (schema_EchoList ref)"
  "echo_definitions ref (echo_pkg ''EchoSpec'') = Some (schema_EchoSpec ref)"
  "echo_definitions ref (echo_pkg ''EchoStatus'') = Some (schema_EchoStatus ref)"
  "echo_definitions ref (meta_pkg n) = None"
  by (simp_all add: echo_definitions_def echo_pkg_def meta_pkg_def)

lemma echo_definitions_cases:
  assumes "echo_definitions ref n = Some d"
  obtains "n = echo_pkg ''Echo''" "d = schema_Echo ref" | "n = echo_pkg ''EchoList''" "d = schema_EchoList ref"
    | "n = echo_pkg ''EchoSpec''" "d = schema_EchoSpec ref" | "n = echo_pkg ''EchoStatus''" "d = schema_EchoStatus ref"
  using assms by (auto simp: echo_definitions_def split: if_splits)

lemma conforms_ref_schema_iff: "resolve r = Some s' \<Longrightarrow> conforms resolve (ref_schema d r) j \<longleftrightarrow> conforms resolve s' j"
  by (auto intro: conforms_ref_schema elim: conforms.cases)

lemma conforms_array_schema_iff: "conforms resolve (array_schema s) (JArr js) \<longleftrightarrow> (\<forall>j \<in> set js. conforms resolve s j)"
proof
  assume "conforms resolve (array_schema s) (JArr js)"
  then show "\<forall>j \<in> set js. conforms resolve s j" by (rule conforms_arrayE) simp_all
qed (rule conforms_array_schema)

text \<open>Nothing allows null; and an object conforms only if its declared properties do.\<close>

lemma not_conforms_null: "\<not> conforms resolve s JNull"
proof -
  have "j \<noteq> JNull" if "conforms resolve s j" for j using that by (induction rule: conforms.induct) auto
  then show ?thesis by blast
qed

lemma conforms_property:
  "conforms resolve s (JObj fs) \<Longrightarrow> sc_Ref s = None \<Longrightarrow> (k, s') \<in> set (sc_Properties s) \<Longrightarrow> (k, j) \<in> set fs
    \<Longrightarrow> conforms resolve s' j"
  by (erule conforms_objectE) auto

text \<open>An \<open>Echo\<close> conforms as far as its metadata does.\<close>

lemma Echo_conforms_iff:
  assumes "resolves resolve ref m" and "\<And>n d. echo_definitions ref n = Some d \<Longrightarrow> m n = Some d"
    and "m (meta_pkg ''ObjectMeta'') = Some md"
  shows "conforms resolve (od_Schema (schema_Echo ref)) (Echo_json meta_json e)
    \<longleftrightarrow> conforms resolve (od_Schema md) (meta_json (e_ObjectMeta e))"
proof
  have res: "resolve (ref (echo_pkg ''EchoSpec'')) = Some (od_Schema (schema_EchoSpec ref))"
    "resolve (ref (echo_pkg ''EchoStatus'')) = Some (od_Schema (schema_EchoStatus ref))"
    "resolve (ref (meta_pkg ''ObjectMeta'')) = Some (od_Schema md)"
    using assms(1-3) by (simp_all add: resolves_def)
  have iff: "conforms resolve (ref_schema d (ref (echo_pkg ''EchoSpec''))) j \<longleftrightarrow> conforms resolve (od_Schema (schema_EchoSpec ref)) j"
    "conforms resolve (ref_schema d (ref (echo_pkg ''EchoStatus''))) j \<longleftrightarrow> conforms resolve (od_Schema (schema_EchoStatus ref)) j"
    "conforms resolve (ref_schema d (ref (meta_pkg ''ObjectMeta''))) j \<longleftrightarrow> conforms resolve (od_Schema md) j" for d j
    by (rule conforms_ref_schema_iff, rule res)+
  show "conforms resolve (od_Schema (schema_Echo ref)) (Echo_json meta_json e)"
    if "conforms resolve (od_Schema md) (meta_json (e_ObjectMeta e))"
    unfolding schema_Echo_def Echo_json_def OpenAPIDefinition.simps
    by (rule conforms_object_schema)
      (auto dest!: TypeMeta_json_in intro!: conforms_string_schema simp: iff that EchoSpec_conforms EchoStatus_conforms)
  assume c: "conforms resolve (od_Schema (schema_Echo ref)) (Echo_json meta_json e)"
  have "conforms resolve (ref_schema [] (ref (meta_pkg ''ObjectMeta''))) (meta_json (e_ObjectMeta e))"
    by (rule conforms_property [OF c [unfolded Echo_json_def], of "''metadata''"]) (simp_all add: schema_Echo_def)
  then show "conforms resolve (od_Schema md) (meta_json (e_ObjectMeta e))" by (simp add: iff)
qed

lemma EchoList_conforms_iff:
  assumes "resolves resolve ref m" and "\<And>n d. echo_definitions ref n = Some d \<Longrightarrow> m n = Some d"
    and "m (meta_pkg ''ObjectMeta'') = Some md" and "m (meta_pkg ''ListMeta'') = Some ld"
  shows "conforms resolve (od_Schema (schema_EchoList ref)) (EchoList_json list_meta_json meta_json t l items)
    \<longleftrightarrow> conforms resolve (od_Schema ld) (list_meta_json l)
      \<and> (\<exists>es. items = Some es \<and> (\<forall>e \<in> set es. conforms resolve (od_Schema md) (meta_json (e_ObjectMeta e))))"
    (is "?c \<longleftrightarrow> ?l \<and> (\<exists>es. items = Some es \<and> ?es es)")
proof
  have res: "resolve (ref (echo_pkg ''Echo'')) = Some (od_Schema (schema_Echo ref))"
    "resolve (ref (meta_pkg ''ListMeta'')) = Some (od_Schema ld)"
    using assms(1,2,4) by (simp_all add: resolves_def)
  have refs: "conforms resolve (ref_schema d (ref (echo_pkg ''Echo''))) j \<longleftrightarrow> conforms resolve (od_Schema (schema_Echo ref)) j"
    "conforms resolve (ref_schema d (ref (meta_pkg ''ListMeta''))) j \<longleftrightarrow> conforms resolve (od_Schema ld) j" for d j
    by (rule conforms_ref_schema_iff, rule res)+
  note iff = refs Echo_conforms_iff [OF assms(1,2,3)]
  show ?c if "?l \<and> (\<exists>es. items = Some es \<and> ?es es)"
    using that unfolding schema_EchoList_def EchoList_json_def OpenAPIDefinition.simps
    by (intro conforms_object_schema)
      (auto dest!: TypeMeta_json_in intro!: conforms_string_schema conforms_array_schema simp: iff)
  assume c: ?c
  note declared = conforms_property [OF c [unfolded EchoList_json_def]]
  have "conforms resolve (ref_schema [] (ref (meta_pkg ''ListMeta''))) (list_meta_json l)"
    by (rule declared [of "''metadata''"]) (simp_all add: schema_EchoList_def)
  moreover have items: "conforms resolve (array_schema (ref_schema [] (ref (echo_pkg ''Echo''))))
      (case items of None \<Rightarrow> JNull | Some es \<Rightarrow> JArr (map (Echo_json meta_json) es))"
    by (rule declared [of "''items''"]) (simp_all add: schema_EchoList_def)
  moreover obtain es where es: "items = Some es" using items not_conforms_null by (cases items) auto
  moreover have "?es es"
    using items by (simp add: es conforms_array_schema_iff iff)
  ultimately show "?l \<and> (\<exists>es. items = Some es \<and> ?es es)" by (auto simp: iff)
qed

section \<open>Properties\<close>

text \<open>
  The generated definitions are closed and complete: the references in the schema of each
  are exactly its dependencies, every dependency is one of the definitions themselves or one of
  the two kinds of metadata of apimachinery, and every property a schema requires, at any depth,
  is declared there.
\<close>

lemma echo_definitions_closed:
  assumes "echo_definitions ref n = Some d"
  shows "set (schema_refs (od_Schema d)) = ref ` set (od_Dependencies d)
    \<and> (\<forall>k \<in> set (od_Dependencies d). echo_definitions ref k \<noteq> None
          \<or> k = meta_pkg ''ObjectMeta'' \<or> k = meta_pkg ''ListMeta'')
    \<and> required_declared (od_Schema d)"
  using assms
  by (cases rule: echo_definitions_cases)
    (auto simp: schema_Echo_def schema_EchoList_def schema_EchoSpec_def schema_EchoStatus_def
      object_schema_def string_schema_def ref_schema_def array_schema_def)

lemma echo_definitions_closed_witness:
  "set (schema_refs (od_Schema (schema_EchoList (\<lambda>n. n))))
     = {''github.com/costinm/mk8s/apiserver/pkg/apis/echo/v1.Echo'', ''k8s.io/apimachinery/pkg/apis/meta/v1.ListMeta''}"
proof -
  have "echo_definitions (\<lambda>n. n) (echo_pkg ''EchoList'') = Some (schema_EchoList (\<lambda>n. n))" by simp
  from echo_definitions_closed [OF this] show ?thesis
    by (simp add: schema_EchoList_def [of "\<lambda>n. n"] echo_pkg_def meta_pkg_def insert_commute)
qed

end
