(* ===== verification/EchoServer.thy ===== *)
theory EchoServer
  imports OpenApi
begin

text \<open>
  The sample API server: \<open>apiserver/pkg/server/apiserver.go\<close>. The generic API server of
  Kubernetes, the printing of its option types and its own OpenAPI definitions are
  parameters, as is the metadata (\<open>m0\<close> is the zero \<open>ObjectMeta\<close>, \<open>named n\<close> the one that has
  only the name \<open>n\<close>). The counters of a handler are \<open>int\<close>, 64 bits wide.
\<close>

section \<open>Data\<close>

record EchoHandler =
  eh_updated :: "64 word"
  eh_created :: "64 word"

definition new_EchoHandler :: EchoHandler where
  "new_EchoHandler = \<lparr>eh_updated = 0, eh_created = 0\<rparr>"

section \<open>Handlers\<close>

definition EchoHandler_New :: "'m \<Rightarrow> 'm Echo" where "EchoHandler_New m0 = zero_Echo m0"
definition EchoHandler_NamespaceScoped :: bool where "EchoHandler_NamespaceScoped = False"
definition EchoHandler_GetSingularName :: string where "EchoHandler_GetSingularName = ''echo''"
definition EchoHandler_NewList :: "'l \<Rightarrow> 'l EchoList" where "EchoHandler_NewList l0 = zero_EchoList l0"

text \<open>\<open>Create\<close> and \<open>Update\<close> take objects of any type.\<close>

definition Echo_Create :: "EchoHandler \<Rightarrow> 'obj \<Rightarrow> ('obj \<times> go_error option) \<times> EchoHandler" where
  "Echo_Create f obj = ((obj, None), f\<lparr>eh_created := eh_created f + 1\<rparr>)"

text \<open>
  \<open>Update\<close> returns an object (\<open>None\<close> is nil), whether it was created, and an error;
  \<open>updated_object\<close> is \<open>objInfo.UpdatedObject\<close>, which gives an object and an error.
\<close>

definition Echo_Update :: "'m \<Rightarrow> EchoHandler \<Rightarrow> ('m Echo \<Rightarrow> 'obj option \<times> go_error option)
    \<Rightarrow> ('obj option \<times> bool \<times> go_error option) \<times> EchoHandler" where
  "Echo_Update m0 f updated_object =
     (case updated_object (zero_Echo m0) of
        (obj, Some err) \<Rightarrow> ((obj, False, Some err), f)
      | (obj, None) \<Rightarrow> ((None, False, None), f\<lparr>eh_updated := eh_updated f + 1\<rparr>))"

text \<open>
  \<open>gv\<close> is \<open>echov1.GroupVersion.String()\<close>, \<open>opts\<close> is \<open>options.String()\<close>. The items of a list
  are a new array.
\<close>

definition Echo_Get :: "string \<Rightarrow> (string \<Rightarrow> 'm) \<Rightarrow> string \<Rightarrow> string \<Rightarrow> 'm Echo \<times> go_error option" where
  "Echo_Get gv named nm opts =
     (\<lparr>e_TypeMeta = \<lparr>tm_Kind = ''echo'', tm_APIVersion = gv\<rparr>,
        e_ObjectMeta = named nm,
        e_Spec = \<lparr>es_Msg = ''Hello '' @ nm @ '' '' @ opts\<rparr>,
        e_Status = \<lparr>et_Msg = []\<rparr>\<rparr>, None)"

definition Echo_List :: "string \<Rightarrow> (string \<Rightarrow> 'm) \<Rightarrow> 'l \<Rightarrow> string \<Rightarrow> ('m, 'l, 'x) api_cell store
    \<Rightarrow> ('l EchoList \<times> go_error option) \<times> ('m, 'l, 'x) api_cell store" where
  "Echo_List gv named l0 opts h =
     (case alloc (EchoArray
         [\<lparr>e_TypeMeta = \<lparr>tm_Kind = ''echo'', tm_APIVersion = gv\<rparr>,
           e_ObjectMeta = named ''foo'',
           e_Spec = \<lparr>es_Msg = ''Hello '' @ opts\<rparr>,
           e_Status = \<lparr>et_Msg = []\<rparr>\<rparr>]) h of
       (r, h') \<Rightarrow>
         (((zero_EchoList l0)\<lparr>el_Items := Some \<lparr>sl_array = r, sl_off = 0, sl_len = 1, sl_cap = 1\<rparr>\<rparr>, None), h'))"

section \<open>New and the OpenAPI definitions\<close>

text \<open>
  \<open>New\<close>: each resource gets a handler of its own. The generic server is made by \<open>new_generic\<close>
  and installs the storage of version v1 with \<open>install\<close>.
\<close>

definition echo_storage :: "(string, EchoHandler) gomap" where
  "echo_storage = Some [''echo'' \<mapsto> new_EchoHandler, ''echos'' \<mapsto> new_EchoHandler]"

definition EchoServer_New :: "(string \<Rightarrow> 'w \<Rightarrow> (go_error + 'srv) \<times> 'w)
    \<Rightarrow> ('srv \<Rightarrow> string \<Rightarrow> (string, EchoHandler) gomap \<Rightarrow> 'w \<Rightarrow> go_error option \<times> 'w)
    \<Rightarrow> 'w \<Rightarrow> (go_error + 'srv) \<times> 'w" where
  "EchoServer_New new_generic install w =
     (case new_generic ''echo-apiserver'' w of
        (Inl err, w1) \<Rightarrow> (Inl err, w1)
      | (Inr srv, w1) \<Rightarrow>
          (case install srv ''v1'' echo_storage w1 of
             (Some err, w2) \<Rightarrow> (Inl err, w2)
           | (None, w2) \<Rightarrow> (Inr srv, w2)))"

text \<open>The own definitions \<open>m2\<close> are copied over those of Kubernetes, in the order of a map;
  \<open>r\<close> is the callback that makes references.\<close>

definition merge_definition :: "('k \<Rightarrow> 'v option) \<Rightarrow> 'k \<Rightarrow> ('k, 'v) gomap \<Rightarrow> ('k, 'v) gomap exec" where
  "merge_definition m2 k m1 = (case m2 k of None \<Rightarrow> Inr m1 | Some v \<Rightarrow> map_put m1 k v)"

definition GetOpenAPIDefinitions :: "((string \<Rightarrow> 'r) \<Rightarrow> (string, 'r OpenAPIDefinition) gomap)
    \<Rightarrow> (string \<Rightarrow> 'r) \<Rightarrow> string list \<Rightarrow> (string, 'r OpenAPIDefinition) gomap exec" where
  "GetOpenAPIDefinitions kube_definitions r order =
     (let m1 = kube_definitions r;
          m2 = echo_definitions r
      in loopM (merge_definition m2) order m1)"

section \<open>Runs of requests\<close>

datatype ('m, 'obj) echo_request =
    CreateReq 'obj
  | UpdateReq "'m Echo \<Rightarrow> 'obj option \<times> go_error option"

fun serve :: "'m \<Rightarrow> ('m, 'obj) echo_request list \<Rightarrow> EchoHandler \<Rightarrow> EchoHandler" where
  "serve m0 [] f = f"
| "serve m0 (CreateReq obj # rs) f = serve m0 rs (snd (Echo_Create f obj))"
| "serve m0 (UpdateReq u # rs) f = serve m0 rs (snd (Echo_Update m0 f u))"

definition is_create :: "('m, 'obj) echo_request \<Rightarrow> bool" where
  "is_create r \<longleftrightarrow> (case r of CreateReq _ \<Rightarrow> True | UpdateReq _ \<Rightarrow> False)"

definition is_good_update :: "'m \<Rightarrow> ('m, 'obj) echo_request \<Rightarrow> bool" where
  "is_good_update m0 r \<longleftrightarrow> (case r of CreateReq _ \<Rightarrow> False | UpdateReq u \<Rightarrow> snd (u (zero_Echo m0)) = None)"

section \<open>Properties\<close>

lemma merge_definitions_loop:
  assumes "range_order order m2"
  shows "loopM (merge_definition m2) order (Some m1) = Inr (Some (m1 ++ m2))"
proof -
  have "\<exists>s'. loopM (merge_definition m2) order (Some m1) = Inr s' \<and> s' = Some (m1 ++ (m2 |` set order))"
  proof (rule loopM_rule [where P = "\<lambda>seen s. s = Some (m1 ++ (m2 |` set seen))"])
    fix seen x rest and t :: "('a, 'b) gomap"
    assume "order = seen @ x # rest" and t: "t = Some (m1 ++ (m2 |` set seen))"
    then have "x \<in> dom m2" using range_orderD(2) [OF assms] by auto
    then obtain v where v: "m2 x = Some v" by blast
    have "(m1 ++ (m2 |` set seen))(x \<mapsto> v) = m1 ++ (m2 |` set (seen @ [x]))"
      using v by (auto simp: fun_eq_iff map_add_def restrict_map_def split: option.split)
    with t v show "\<exists>t'. merge_definition m2 x t = Inr t' \<and> t' = Some (m1 ++ (m2 |` set (seen @ [x])))"
      by (simp add: merge_definition_def)
  qed simp
  moreover have "m2 |` set order = m2"
    using range_orderD(2) [OF assms] by (auto simp: restrict_map_def fun_eq_iff)
  ultimately show ?thesis by simp
qed

text \<open>
  C35: Whether what the server answers conforms to what it publishes. The definitions are those of
  Kubernetes with its own added and taking precedence, whatever the order in which they are
  copied. For every name and options, the JSON of the result of \<open>Get\<close> conforms to the schema
  published for \<open>Echo\<close> exactly when its metadata, of which the server sets the name alone, conforms to
  the one for \<open>ObjectMeta\<close>, so all the server writes itself is right; the result of \<open>List\<close> conforms
  exactly when the metadata of the list and of its one item do. The list of \<open>NewList\<close> never
  conforms: its items are written as null. And neither do \<open>Get\<close> and \<open>List\<close> with a library that, as
  apimachinery does, writes the creation time that the server leaves at zero as null and declares
  it as a property: no schema allows null.
\<close>

theorem server_answers_conform:
  fixes h :: "('m, 'l, 'x) api_cell store"
  assumes "kube_definitions r = Some m1" and "range_order order (echo_definitions r)"
    and "m1 (meta_pkg ''ObjectMeta'') = Some md" and "m1 (meta_pkg ''ListMeta'') = Some ld"
    and "resolves resolve r (m1 ++ echo_definitions r)"
    and "Echo_List gv named l0 opts h = ((el, err), h')"
  shows "\<exists>m se sl items items0. GetOpenAPIDefinitions kube_definitions r order = Inr (Some m)
    \<and> m = m1 ++ echo_definitions r
    \<and> m (echo_pkg ''Echo'') = Some se \<and> m (echo_pkg ''EchoList'') = Some sl
    \<and> (conforms resolve (od_Schema se) (Echo_json meta_json (fst (Echo_Get gv named nm opts)))
        \<longleftrightarrow> conforms resolve (od_Schema md) (meta_json (named nm)))
    \<and> items_val (cell_as is_EchoArray the_echos) plain_val h' (el_Items el) = Some items
    \<and> (conforms resolve (od_Schema sl)
          (EchoList_json list_meta_json meta_json (el_TypeMeta el) (el_ListMeta el) items)
        \<longleftrightarrow> conforms resolve (od_Schema ld) (list_meta_json l0) \<and> conforms resolve (od_Schema md) (meta_json (named ''foo'')))
    \<and> items_val (cell_as is_EchoArray the_echos) plain_val h' (el_Items (EchoHandler_NewList l0)) = Some items0
    \<and> \<not> conforms resolve (od_Schema sl) (EchoList_json list_meta_json meta_json
          (el_TypeMeta (EchoHandler_NewList l0)) (el_ListMeta (EchoHandler_NewList l0)) items0)
    \<and> (sc_Ref (od_Schema md) = None \<and> (''creationTimestamp'', ct) \<in> set (sc_Properties (od_Schema md))
        \<and> (\<forall>n. \<exists>fs. meta_json (named n) = JObj fs \<and> (''creationTimestamp'', JNull) \<in> set fs)
        \<longrightarrow> \<not> conforms resolve (od_Schema se) (Echo_json meta_json (fst (Echo_Get gv named nm opts)))
          \<and> \<not> conforms resolve (od_Schema sl)
              (EchoList_json list_meta_json meta_json (el_TypeMeta el) (el_ListMeta el) items))"
proof -
  let ?m = "m1 ++ echo_definitions r"
  have own: "echo_definitions r n = Some d \<Longrightarrow> ?m n = Some d" for n d by (simp add: map_add_def)
  have meta: "?m (meta_pkg ''ObjectMeta'') = Some md" "?m (meta_pkg ''ListMeta'') = Some ld"
    using assms(3,4) by (simp_all add: map_add_def)
  have echo: "conforms resolve (od_Schema (schema_Echo r)) (Echo_json meta_json (fst (Echo_Get gv named nm opts)))
      \<longleftrightarrow> conforms resolve (od_Schema md) (meta_json (named nm))"
    by (subst Echo_conforms_iff [OF assms(5) own meta(1)]) (simp_all add: Echo_Get_def)
  note list = EchoList_conforms_iff [OF assms(5) own meta, where list_meta_json = list_meta_json and meta_json = meta_json]
  obtain e where items: "items_val (cell_as is_EchoArray the_echos) plain_val h' (el_Items el) = Some (Some [e])"
    and e: "e_ObjectMeta e = named ''foo''" and l0: "el_ListMeta el = l0"
    using assms(6)
    by (auto simp: Echo_List_def alloc_def items_val_def slice_elems_def var_at_def plain_val_def zero_EchoList_def)
  have null: "\<not> conforms resolve (od_Schema md) (meta_json (named n))"
    if "sc_Ref (od_Schema md) = None \<and> (''creationTimestamp'', ct) \<in> set (sc_Properties (od_Schema md))
        \<and> (\<forall>n. \<exists>fs. meta_json (named n) = JObj fs \<and> (''creationTimestamp'', JNull) \<in> set fs)" for n
  proof -
    from that obtain fs where "meta_json (named n) = JObj fs" "(''creationTimestamp'', JNull) \<in> set fs" by blast
    with that conforms_property [of resolve "od_Schema md" fs _ ct JNull] not_conforms_null show ?thesis by metis
  qed
  have "items_val (cell_as is_EchoArray the_echos) plain_val h' (el_Items (EchoHandler_NewList l0)) = Some None"
    by (simp add: EchoHandler_NewList_def zero_EchoList_def items_val_def)
  moreover have "GetOpenAPIDefinitions kube_definitions r order = Inr (Some ?m)"
    using merge_definitions_loop [OF assms(2), of m1] assms(1) by (simp add: GetOpenAPIDefinitions_def)
  moreover have "?m (echo_pkg ''Echo'') = Some (schema_Echo r)" "?m (echo_pkg ''EchoList'') = Some (schema_EchoList r)"
    by (simp_all add: own)
  ultimately show ?thesis using items null [of nm] null [of "''foo''"]
    by (intro exI [of _ ?m] exI [of _ "schema_Echo r"] exI [of _ "schema_EchoList r"] exI [of _ "Some [e]"] exI [of _ None])
      (simp add: echo list e l0)
qed

text \<open>A library whose metadata has a name and a creation time, for the witness.\<close>

definition demo_kube_definitions :: "string \<Rightarrow> string OpenAPIDefinition option" where
  "demo_kube_definitions =
     [meta_pkg ''ObjectMeta'' \<mapsto> \<lparr>od_Schema = object_schema [] [(''name'', string_schema [] None),
         (''creationTimestamp'', string_schema [] None)] [], od_Dependencies = []\<rparr>,
      meta_pkg ''ListMeta'' \<mapsto> \<lparr>od_Schema = object_schema [] [] [], od_Dependencies = []\<rparr>]"

definition demo_resolve :: "string \<Rightarrow> string schema option" where
  "demo_resolve n = map_option od_Schema ((demo_kube_definitions ++ echo_definitions (\<lambda>n. n)) n)"

theorem server_answers_conform_witness:
  "\<exists>m se. GetOpenAPIDefinitions (\<lambda>r. Some demo_kube_definitions) (\<lambda>n. n)
        [echo_pkg ''EchoStatus'', echo_pkg ''Echo'', echo_pkg ''EchoList'', echo_pkg ''EchoSpec''] = Inr (Some m)
     \<and> m (echo_pkg ''Echo'') = Some se
     \<and> conforms demo_resolve (od_Schema se) (Echo_json (\<lambda>n. JObj [(''name'', JStr n)]) (fst (Echo_Get ''v1'' (\<lambda>n. n) ''x'' [])))
     \<and> \<not> conforms demo_resolve (od_Schema se) (Echo_json (\<lambda>n. JObj [(''name'', JStr n), (''creationTimestamp'', JNull)])
          (fst (Echo_Get ''v1'' (\<lambda>n. n) ''x'' [])))"
proof -
  let ?order = "[echo_pkg ''EchoStatus'', echo_pkg ''Echo'', echo_pkg ''EchoList'', echo_pkg ''EchoSpec'']"
  let ?md = "object_schema [] [(''name'', string_schema [] None), (''creationTimestamp'', string_schema [] None)] [] :: string schema"
  let ?om = "\<lambda>n. JObj [(''name'', JStr n)]" and ?null = "\<lambda>n. JObj [(''name'', JStr n), (''creationTimestamp'', JNull)]"
    and ?lm = "\<lambda>_ :: unit. JObj []"
  have order: "range_order ?order (echo_definitions (\<lambda>n. n))"
    by (auto simp: range_order_def echo_definitions_def echo_pkg_def)
  have meta: "demo_kube_definitions (meta_pkg ''ObjectMeta'') = Some \<lparr>od_Schema = ?md, od_Dependencies = []\<rparr>"
    "demo_kube_definitions (meta_pkg ''ListMeta'') = Some \<lparr>od_Schema = object_schema [] [] [], od_Dependencies = []\<rparr>"
    by (simp_all add: demo_kube_definitions_def meta_pkg_def)
  have res: "resolves demo_resolve (\<lambda>n. n) (demo_kube_definitions ++ echo_definitions (\<lambda>n. n))"
    by (simp add: resolves_def demo_resolve_def)
  obtain el h' where el: "Echo_List ''v1'' (\<lambda>n. n) () [] (empty_store :: (string, unit, unit) api_cell store) = ((el, None), h')"
    by (simp add: Echo_List_def alloc_def)
  note conform = server_answers_conform [where kube_definitions = "\<lambda>r. Some demo_kube_definitions" and r = "\<lambda>n. n"
      and list_meta_json = ?lm and nm = "''x''", OF refl order meta res el]
  from conform [where meta_json = ?om] obtain m se where m: "GetOpenAPIDefinitions (\<lambda>r. Some demo_kube_definitions) (\<lambda>n. n) ?order = Inr (Some m)"
    "m (echo_pkg ''Echo'') = Some se"
    "conforms demo_resolve (od_Schema se) (Echo_json ?om (fst (Echo_Get ''v1'' (\<lambda>n. n) ''x'' []))) \<longleftrightarrow> conforms demo_resolve ?md (?om ''x'')"
    by auto
  from conform [where meta_json = ?null and ct = "string_schema [] None"] m(1,2)
  have "\<not> conforms demo_resolve (od_Schema se) (Echo_json ?null (fst (Echo_Get ''v1'' (\<lambda>n. n) ''x'' [])))" by auto
  moreover have "conforms demo_resolve ?md (?om ''x'')" by (auto intro!: conforms_object_schema conforms_string_schema)
  ultimately show ?thesis using m by blast
qed

text \<open>
  The counters of a handler count the created objects and the updates whose object could
  be computed, modulo 2 to the 64, over any sequence of requests; and an update that
  succeeds answers with no object, no creation and no error.
\<close>

lemma echo_counters:
  "eh_created (serve m0 rs f) = eh_created f + of_nat (length (filter is_create rs))
   \<and> eh_updated (serve m0 rs f) = eh_updated f + of_nat (length (filter (is_good_update m0) rs))
   \<and> (snd (u (zero_Echo m0)) = None \<longrightarrow> fst (Echo_Update m0 f u) = (None, False, None))"
proof -
  have "eh_created (serve m0 rs f) = eh_created f + of_nat (length (filter is_create rs))
      \<and> eh_updated (serve m0 rs f) = eh_updated f + of_nat (length (filter (is_good_update m0) rs))"
    by (induction m0 rs f rule: serve.induct)
      (auto simp: is_create_def is_good_update_def Echo_Create_def Echo_Update_def
        split: prod.splits option.splits)
  then show ?thesis by (auto simp: Echo_Update_def split: prod.split option.split)
qed

end
