(* ===== verification/Registration.thy ===== *)
theory Registration
  imports Prelude
begin

text \<open>
  The registration of the API types with a scheme: \<open>generated.register.go\<close> of the sample's echo
  package and of the two packages under \<open>pkg/apis\<close>. The scheme, its builder and the names of
  resources are apimachinery's, and parameters; \<open>sa_kinds\<close> observes the kinds a scheme knows of a
  group version.
\<close>

section \<open>Groups and resources\<close>

type_synonym group_version = "string \<times> string"

definition echo_GroupName :: string where "echo_GroupName = ''echo.costinm.github.com''"
definition pkg_echo_GroupName :: string where "pkg_echo_GroupName = ''echo.mk8s.costinm.github.com''"
definition mesh_GroupName :: string where "mesh_GroupName = ''mesh.mk8s.costinm.github.com''"

text \<open>\<open>GroupVersion\<close>, and with the same fields in another type, \<open>SchemeGroupVersion\<close>.\<close>

definition echo_GroupVersion :: group_version where "echo_GroupVersion = (echo_GroupName, ''v1'')"
definition pkg_echo_GroupVersion :: group_version where "pkg_echo_GroupVersion = (pkg_echo_GroupName, ''v1'')"
definition mesh_GroupVersion :: group_version where "mesh_GroupVersion = (mesh_GroupName, ''v1'')"

record 'gvr resource_api =
  ra_WithResource :: "group_version \<Rightarrow> string \<Rightarrow> 'gvr"
  ra_GroupResource :: "'gvr \<Rightarrow> string \<times> string"

definition echo_Resource :: "'gvr resource_api \<Rightarrow> string \<Rightarrow> string \<times> string" where
  "echo_Resource ra r = ra_GroupResource ra (ra_WithResource ra echo_GroupVersion r)"

definition pkg_echo_Resource :: "'gvr resource_api \<Rightarrow> string \<Rightarrow> string \<times> string" where
  "pkg_echo_Resource ra r = ra_GroupResource ra (ra_WithResource ra pkg_echo_GroupVersion r)"

definition mesh_Resource :: "'gvr resource_api \<Rightarrow> string \<Rightarrow> string \<times> string" where
  "mesh_Resource ra r = ra_GroupResource ra (ra_WithResource ra mesh_GroupVersion r)"

section \<open>Registration\<close>

record 's scheme_api =
  sa_AddKnownTypes :: "group_version \<Rightarrow> string list \<Rightarrow> 's \<Rightarrow> 's exec"
  sa_AddToGroupVersion :: "group_version \<Rightarrow> 's \<Rightarrow> 's exec"
  sa_AddUnversionedTypes :: "group_version \<Rightarrow> string list \<Rightarrow> 's \<Rightarrow> 's exec"
  sa_kinds :: "'s \<Rightarrow> group_version \<Rightarrow> string set"

type_synonym 's add_func = "'s \<Rightarrow> (go_error option \<times> 's) exec"

record ('s, 'b) builder_api =
  sb_Register :: "'s add_func \<Rightarrow> 'b \<Rightarrow> 'b"
  sb_AddToScheme :: "'b \<Rightarrow> 's add_func"

text \<open>The three packages register their types with the same function, for their own group.\<close>

definition add_known_types :: "'s scheme_api \<Rightarrow> group_version \<Rightarrow> string list \<Rightarrow> 's add_func" where
  "add_known_types sa gv types scheme =
     bnd (sa_AddKnownTypes sa gv types scheme) (\<lambda>s1.
     bnd (sa_AddToGroupVersion sa gv s1) (\<lambda>s2. Inr (None, s2)))"

definition echo_addKnownTypes :: "'s scheme_api \<Rightarrow> 's add_func" where
  "echo_addKnownTypes sa = add_known_types sa echo_GroupVersion [''Echo'', ''EchoList'']"

definition pkg_echo_addKnownTypes :: "'s scheme_api \<Rightarrow> 's add_func" where
  "pkg_echo_addKnownTypes sa = add_known_types sa pkg_echo_GroupVersion [''Echo'', ''EchoList'']"

definition mesh_addKnownTypes :: "'s scheme_api \<Rightarrow> 's add_func" where
  "mesh_addKnownTypes sa = add_known_types sa mesh_GroupVersion [''Ptr'', ''PtrList'']"

text \<open>
  The \<open>init\<close> of a package adds its function to the package's builder \<open>b0\<close>. The variables
  \<open>AddToScheme\<close> and \<open>Install\<close> are the method of the builder bound to its address, so a call after
  the start of the process runs what \<open>init\<close> registered.
\<close>

definition echo_init :: "'s scheme_api \<Rightarrow> ('s, 'b) builder_api \<Rightarrow> 'b \<Rightarrow> 'b" where
  "echo_init sa sb b0 = sb_Register sb (echo_addKnownTypes sa) b0"

definition pkg_echo_init :: "'s scheme_api \<Rightarrow> ('s, 'b) builder_api \<Rightarrow> 'b \<Rightarrow> 'b" where
  "pkg_echo_init sa sb b0 = sb_Register sb (pkg_echo_addKnownTypes sa) b0"

definition mesh_init :: "'s scheme_api \<Rightarrow> ('s, 'b) builder_api \<Rightarrow> 'b \<Rightarrow> 'b" where
  "mesh_init sa sb b0 = sb_Register sb (mesh_addKnownTypes sa) b0"

definition echo_AddToScheme :: "('s, 'b) builder_api \<Rightarrow> 'b \<Rightarrow> 's add_func" where
  "echo_AddToScheme sb builder = sb_AddToScheme sb builder"

definition pkg_echo_AddToScheme :: "('s, 'b) builder_api \<Rightarrow> 'b \<Rightarrow> 's add_func" where
  "pkg_echo_AddToScheme sb builder = sb_AddToScheme sb builder"

definition mesh_AddToScheme :: "('s, 'b) builder_api \<Rightarrow> 'b \<Rightarrow> 's add_func" where
  "mesh_AddToScheme sb builder = sb_AddToScheme sb builder"

section \<open>What is registered\<close>

text \<open>
  What is documented of the scheme and its builder: a builder calls the functions that were
  registered, in order, until one fails; adding kinds to a group version does not fail for
  distinct new kinds, and nothing that adds kinds takes any away.
\<close>

definition builder_ok :: "('s, 'b) builder_api \<Rightarrow> 'b \<Rightarrow> bool" where
  "builder_ok sb b0 \<longleftrightarrow>
     (\<forall>s. sb_AddToScheme sb b0 s = Inr (None, s))
     \<and> (\<forall>f b s. sb_AddToScheme sb (sb_Register sb f b) s
          = bnd (sb_AddToScheme sb b s) (\<lambda>(err, s1). if err = None then f s1 else Inr (err, s1)))"

definition scheme_ok :: "'s scheme_api \<Rightarrow> bool" where
  "scheme_ok sa \<longleftrightarrow>
     (\<forall>gv types s. distinct types \<and> sa_kinds sa s gv \<inter> set types = {} \<longrightarrow>
        (\<exists>s'. sa_AddKnownTypes sa gv types s = Inr s' \<and> sa_kinds sa s' gv = sa_kinds sa s gv \<union> set types
            \<and> (\<forall>gv'. gv' \<noteq> gv \<longrightarrow> sa_kinds sa s' gv' = sa_kinds sa s gv')))
     \<and> (\<forall>gv s. \<exists>s'. sa_AddToGroupVersion sa gv s = Inr s' \<and> (\<forall>gv'. sa_kinds sa s gv' \<subseteq> sa_kinds sa s' gv'))
     \<and> (\<forall>gv types s. \<exists>s'. sa_AddUnversionedTypes sa gv types s = Inr s'
            \<and> (\<forall>gv'. sa_kinds sa s gv' \<subseteq> sa_kinds sa s' gv'))"

text \<open>Adding to a group version adds kinds of the library, and none to the groups of the packages but its own.\<close>

definition group_version_local :: "'s scheme_api \<Rightarrow> bool" where
  "group_version_local sa \<longleftrightarrow> (\<forall>gv s s' gv'. sa_AddToGroupVersion sa gv s = Inr s' \<longrightarrow> gv' \<noteq> gv \<longrightarrow> fst gv' \<noteq> []
     \<longrightarrow> sa_kinds sa s' gv' = sa_kinds sa s gv')"

lemma groups_differ:
  "echo_GroupVersion \<noteq> pkg_echo_GroupVersion" "echo_GroupVersion \<noteq> mesh_GroupVersion"
  "pkg_echo_GroupVersion \<noteq> mesh_GroupVersion"
  "fst echo_GroupVersion \<noteq> []" "fst pkg_echo_GroupVersion \<noteq> []" "fst mesh_GroupVersion \<noteq> []"
  by (simp_all add: echo_GroupVersion_def pkg_echo_GroupVersion_def mesh_GroupVersion_def
      echo_GroupName_def pkg_echo_GroupName_def mesh_GroupName_def)

lemma add_known_types_run:
  assumes "scheme_ok sa" and "distinct types" and "sa_kinds sa s gv \<inter> set types = {}"
  shows "\<exists>s'. add_known_types sa gv types s = Inr (None, s') \<and> set types \<subseteq> sa_kinds sa s' gv
    \<and> (group_version_local sa \<longrightarrow> (\<forall>gv'. gv' \<noteq> gv \<longrightarrow> fst gv' \<noteq> [] \<longrightarrow> sa_kinds sa s' gv' = sa_kinds sa s gv'))"
proof -
  obtain s1 where s1: "sa_AddKnownTypes sa gv types s = Inr s1" "sa_kinds sa s1 gv = sa_kinds sa s gv \<union> set types"
    "\<And>gv'. gv' \<noteq> gv \<Longrightarrow> sa_kinds sa s1 gv' = sa_kinds sa s gv'"
    using assms unfolding scheme_ok_def by meson
  obtain s2 where s2: "sa_AddToGroupVersion sa gv s1 = Inr s2" "sa_kinds sa s1 gv \<subseteq> sa_kinds sa s2 gv"
    using assms(1) [unfolded scheme_ok_def, THEN conjunct2, THEN conjunct1] by blast
  have "sa_kinds sa s2 gv' = sa_kinds sa s gv'" if "group_version_local sa" "gv' \<noteq> gv" "fst gv' \<noteq> []" for gv'
    using that s2(1) s1(3) unfolding group_version_local_def by metis
  then show ?thesis
    using s1(1,2) s2 by (intro exI [of _ s2]) (auto simp: add_known_types_def)
qed

lemma init_then_AddToScheme:
  assumes "builder_ok sb b0"
  shows "echo_AddToScheme sb (echo_init sa sb b0) = echo_addKnownTypes sa"
    and "pkg_echo_AddToScheme sb (pkg_echo_init sa sb b0) = pkg_echo_addKnownTypes sa"
    and "mesh_AddToScheme sb (mesh_init sa sb b0) = mesh_addKnownTypes sa"
  using assms by (auto simp: builder_ok_def echo_AddToScheme_def pkg_echo_AddToScheme_def mesh_AddToScheme_def
      echo_init_def pkg_echo_init_def mesh_init_def)

text \<open>
  The three packages can be added to one scheme: their groups differ, so the two packages with a
  type \<open>Echo\<close> do not get into each other's way, and each kind ends up in the group that \<open>Resource\<close>
  gives to the resources of its package.
\<close>

lemma packages_register:
  assumes "scheme_ok sa" and "group_version_local sa" and "builder_ok sb b0"
    and "\<And>gv r. ra_GroupResource ra (ra_WithResource ra gv r) = (fst gv, r)"
    and "\<And>gv. sa_kinds sa s gv = {}"
  shows "\<exists>s1 s2 s3. echo_AddToScheme sb (echo_init sa sb b0) s = Inr (None, s1)
    \<and> pkg_echo_AddToScheme sb (pkg_echo_init sa sb b0) s1 = Inr (None, s2)
    \<and> mesh_AddToScheme sb (mesh_init sa sb b0) s2 = Inr (None, s3)
    \<and> {''Echo'', ''EchoList''} \<subseteq> sa_kinds sa s3 (fst (echo_Resource ra r), ''v1'')
    \<and> {''Echo'', ''EchoList''} \<subseteq> sa_kinds sa s3 (fst (pkg_echo_Resource ra r), ''v1'')
    \<and> {''Ptr'', ''PtrList''} \<subseteq> sa_kinds sa s3 (fst (mesh_Resource ra r), ''v1'')"
proof -
  note [simp] = groups_differ groups_differ [symmetric]
  have gv: "(fst (echo_Resource ra r), ''v1'') = echo_GroupVersion" "(fst (pkg_echo_Resource ra r), ''v1'') = pkg_echo_GroupVersion"
    "(fst (mesh_Resource ra r), ''v1'') = mesh_GroupVersion"
    by (simp_all add: echo_Resource_def pkg_echo_Resource_def mesh_Resource_def assms(4)
        echo_GroupVersion_def pkg_echo_GroupVersion_def mesh_GroupVersion_def)
  obtain s1 where s1: "echo_addKnownTypes sa s = Inr (None, s1)" "{''Echo'', ''EchoList''} \<subseteq> sa_kinds sa s1 echo_GroupVersion"
    "\<And>gv'. gv' \<noteq> echo_GroupVersion \<Longrightarrow> fst gv' \<noteq> [] \<Longrightarrow> sa_kinds sa s1 gv' = {}"
    using add_known_types_run [OF assms(1), of "[''Echo'', ''EchoList'']" s echo_GroupVersion] assms(2,5)
    by (auto simp: echo_addKnownTypes_def)
  obtain s2 where s2: "pkg_echo_addKnownTypes sa s1 = Inr (None, s2)"
    "{''Echo'', ''EchoList''} \<subseteq> sa_kinds sa s2 pkg_echo_GroupVersion"
    "\<And>gv'. gv' \<noteq> pkg_echo_GroupVersion \<Longrightarrow> fst gv' \<noteq> [] \<Longrightarrow> sa_kinds sa s2 gv' = sa_kinds sa s1 gv'"
    using add_known_types_run [OF assms(1), of "[''Echo'', ''EchoList'']" s1 pkg_echo_GroupVersion] assms(2) s1(3)
    by (auto simp: pkg_echo_addKnownTypes_def)
  obtain s3 where s3: "mesh_addKnownTypes sa s2 = Inr (None, s3)"
    "{''Ptr'', ''PtrList''} \<subseteq> sa_kinds sa s3 mesh_GroupVersion"
    "\<And>gv'. gv' \<noteq> mesh_GroupVersion \<Longrightarrow> fst gv' \<noteq> [] \<Longrightarrow> sa_kinds sa s3 gv' = sa_kinds sa s2 gv'"
    using add_known_types_run [OF assms(1), of "[''Ptr'', ''PtrList'']" s2 mesh_GroupVersion] assms(2) s1(3) s2(3)
    by (auto simp: mesh_addKnownTypes_def)
  have "sa_kinds sa s3 echo_GroupVersion = sa_kinds sa s1 echo_GroupVersion"
    "sa_kinds sa s3 pkg_echo_GroupVersion = sa_kinds sa s2 pkg_echo_GroupVersion" by (simp_all add: s2(3) s3(3))
  then show ?thesis
    unfolding gv init_then_AddToScheme [OF assms(3)] using s1(1,2) s2(1,2) s3(1,2) by auto
qed

text \<open>A scheme that is the kinds of its group versions, and a builder that is its functions.\<close>

definition demo_scheme :: "(group_version \<Rightarrow> string set) scheme_api" where
  "demo_scheme = \<lparr>sa_AddKnownTypes = (\<lambda>gv types s. Inr (s(gv := s gv \<union> set types))),
     sa_AddToGroupVersion = (\<lambda>gv s. Inr (s(gv := insert ''WatchEvent'' (s gv)))),
     sa_AddUnversionedTypes = (\<lambda>gv types s. Inr (s(gv := s gv \<union> set types))), sa_kinds = (\<lambda>s. s)\<rparr>"

definition demo_builder :: "('s, 's add_func list) builder_api" where
  "demo_builder = \<lparr>sb_Register = (\<lambda>f b. b @ [f]),
     sb_AddToScheme = (\<lambda>b s. fold (\<lambda>f r. bnd r (\<lambda>(err, s1). if err = None then f s1 else Inr (err, s1))) b (Inr (None, s)))\<rparr>"

lemma demo_scheme_ok: "scheme_ok demo_scheme" and demo_scheme_local: "group_version_local demo_scheme"
  by (auto simp: scheme_ok_def group_version_local_def demo_scheme_def)

lemma demo_builder_ok: "builder_ok demo_builder []"
  by (simp add: builder_ok_def demo_builder_def)

lemma packages_register_demo:
  "\<exists>s1 s2 s3. echo_AddToScheme demo_builder (echo_init demo_scheme demo_builder []) (\<lambda>_. {}) = Inr (None, s1)
    \<and> pkg_echo_AddToScheme demo_builder (pkg_echo_init demo_scheme demo_builder []) s1 = Inr (None, s2)
    \<and> mesh_AddToScheme demo_builder (mesh_init demo_scheme demo_builder []) s2 = Inr (None, s3)
    \<and> ''Ptr'' \<in> s3 (mesh_GroupName, ''v1'')"
proof -
  let ?ra = "\<lparr>ra_WithResource = Pair, ra_GroupResource = (\<lambda>(gv, r). (fst gv, r))\<rparr>"
  from packages_register [OF demo_scheme_ok demo_scheme_local demo_builder_ok, of ?ra "\<lambda>_. {}" "[]"]
  show ?thesis by (auto simp: demo_scheme_def mesh_Resource_def mesh_GroupVersion_def)
qed

end
