(* ===== verification/ServerMain.thy ===== *)
theory ServerMain
  imports Registration EchoServer Cluster
begin

text \<open>
  The start of the sample server: the \<open>init\<close> of \<open>apiserver/pkg/server/apiserver.go\<close>, which
  registers the types of the echo package (theory \<open>Registration\<close>) with the scheme of the server, and
  \<open>apiserver/main.go\<close>. The configuration and the running of the generic server are those of the
  API server library; they are parameters.
\<close>

section \<open>The scheme of the server\<close>

text \<open>The \<open>init\<close> of the server, which drops the error of \<open>AddToScheme\<close>.\<close>

definition server_init :: "'s scheme_api \<Rightarrow> ('s, 'b) builder_api \<Rightarrow> 'b \<Rightarrow> 's \<Rightarrow> 's exec" where
  "server_init sa sb b scheme =
     bnd (echo_AddToScheme sb b scheme) (\<lambda>(_, s1).
     bnd (sa_AddToGroupVersion sa ([], ''v1'') s1) (\<lambda>s2.
     sa_AddUnversionedTypes sa ([], ''v1'')
       [''Status'', ''APIVersions'', ''APIGroupList'', ''APIGroup'', ''APIResourceList''] s2))"

section \<open>main\<close>

text \<open>
  The fields of the configuration that \<open>main\<close> sets, the others in one; a nil listener, and a nil
  pointer to the certificate (stored in an interface that is itself not nil), is \<open>None\<close>. The
  schemas are handed over as the function that makes them. The error with which \<open>Run\<close> returns
  is dropped, so \<open>me_Run\<close> has none.
\<close>

record ('l, 'cert) serving_info =
  si_Listener :: "'l option"
  si_DisableHTTP2 :: bool
  si_Cert :: "'cert option"

record ('l, 'cert, 'oc, 'd) server_config =
  sc_ExternalAddress :: string
  sc_LoopbackClientConfig :: "rest_config option"
  sc_SecureServing :: "('l, 'cert) serving_info option"
  sc_OpenAPIV3Config :: "'oc option"
  sc_others :: 'd

type_synonym 'r get_definitions = "(string \<Rightarrow> 'r) \<Rightarrow> string list \<Rightarrow> (string, 'r OpenAPIDefinition) gomap exec"

record ('l, 'cert, 'oc, 'd, 'r, 'srv, 'w) main_env =
  me_RecommendedConfig :: "('l, 'cert, 'oc, 'd) server_config"
  me_Listen :: "string \<Rightarrow> string \<Rightarrow> 'w \<Rightarrow> (go_error + 'l) \<times> 'w"
  me_ServingContent :: "string \<Rightarrow> string \<Rightarrow> string \<Rightarrow> 'w \<Rightarrow> (go_error + 'cert) \<times> 'w"
  me_kube_definitions :: "(string \<Rightarrow> 'r) \<Rightarrow> (string, 'r OpenAPIDefinition) gomap"
  me_OpenAPIV3Config :: "'r get_definitions \<Rightarrow> 'oc"
  me_new_generic :: "('l, 'cert, 'oc, 'd) server_config \<Rightarrow> string \<Rightarrow> 'w \<Rightarrow> (go_error + 'srv) \<times> 'w"
  me_install :: "'srv \<Rightarrow> string \<Rightarrow> (string, EchoHandler) gomap \<Rightarrow> 'w \<Rightarrow> go_error option \<times> 'w"
  me_Run :: "'srv \<Rightarrow> 'w \<Rightarrow> (unit \<times> 'w) exec"

definition ok_or_nil :: "go_error + 'a \<Rightarrow> 'a option" where
  "ok_or_nil r = (case r of Inl _ \<Rightarrow> None | Inr x \<Rightarrow> Some x)"

definition server_main :: "('l, 'cert, 'oc, 'd, 'r, 'srv, 'w) main_env \<Rightarrow> 'w \<Rightarrow> (unit \<times> 'w) exec" where
  "server_main env w =
     (let cfg = me_RecommendedConfig env;
          cfg = cfg\<lparr>sc_ExternalAddress := ''1.2.3.4:8081''\<rparr>;
          cfg = cfg\<lparr>sc_LoopbackClientConfig := Some zero_rest_config\<rparr>
      in case me_Listen env ''tcp'' '':9443'' w of (l, w1) \<Rightarrow>
         (let info = \<lparr>si_Listener = ok_or_nil l, si_DisableHTTP2 = True, si_Cert = None\<rparr>
          in case me_ServingContent env ''default'' ''tls.crt'' ''tls.key'' w1 of (cert, w2) \<Rightarrow>
             (let cfg = cfg\<lparr>sc_SecureServing := Some (info\<lparr>si_Cert := ok_or_nil cert\<rparr>)\<rparr>;
                  cfg = cfg\<lparr>sc_OpenAPIV3Config :=
                    Some (me_OpenAPIV3Config env (GetOpenAPIDefinitions (me_kube_definitions env)))\<rparr>
              in case EchoServer_New (me_new_generic env cfg) (me_install env) w2 of
                   (Inl err, w3) \<Rightarrow> Inl (LogFatal (error_string err))
                 | (Inr srv, w3) \<Rightarrow> me_Run env srv w3)))"

text \<open>
  \<open>Kine\<close> (\<open>kine/sqlite.go\<close>) asks the kine library for a server on a fixed file and returns what
  it returns.
\<close>

definition Kine :: "(string \<Rightarrow> 'w \<Rightarrow> ('cfg \<times> go_error option) \<times> 'w) \<Rightarrow> 'w \<Rightarrow> ('cfg \<times> go_error option) \<times> 'w" where
  "Kine endpoint_Listen w = endpoint_Listen ''sqlite://kine.db'' w"

section \<open>What a start does\<close>

lemma server_init_registers:
  assumes "scheme_ok sa" and "builder_ok sb b0" and "sa_kinds sa s (echo_GroupName, ''v1'') = {}"
  shows "\<exists>s'. server_init sa sb (echo_init sa sb b0) s = Inr s'
    \<and> {''Echo'', ''EchoList''} \<subseteq> sa_kinds sa s' (echo_GroupName, ''v1'')"
proof -
  let ?gv = "(echo_GroupName, ''v1'')" and ?ts = "[''Echo'', ''EchoList'']"
  note kinds = assms(1)[unfolded scheme_ok_def, THEN conjunct1, rule_format, of ?ts s ?gv]
    and group = assms(1)[unfolded scheme_ok_def, THEN conjunct2, THEN conjunct1, rule_format]
    and plain = assms(1)[unfolded scheme_ok_def, THEN conjunct2, THEN conjunct2, rule_format]
  have "distinct ?ts \<and> sa_kinds sa s ?gv \<inter> set ?ts = {}" by (simp add: assms(3))
  from kinds [OF this] obtain s1 where s1: "sa_AddKnownTypes sa ?gv ?ts s = Inr s1"
    "sa_kinds sa s1 ?gv = sa_kinds sa s ?gv \<union> set ?ts" by (elim exE conjE)
  have ts: "sa_kinds sa s1 ?gv = {''Echo'', ''EchoList''}" by (simp only: s1(2) assms(3) list.set Un_empty_left)
  obtain s2 where s2: "sa_AddToGroupVersion sa ?gv s1 = Inr s2" "sa_kinds sa s1 ?gv \<subseteq> sa_kinds sa s2 ?gv"
    using group by blast
  obtain s3 where s3: "sa_AddToGroupVersion sa ([], ''v1'') s2 = Inr s3" "sa_kinds sa s2 ?gv \<subseteq> sa_kinds sa s3 ?gv"
    using group by blast
  let ?un = "[''Status'', ''APIVersions'', ''APIGroupList'', ''APIGroup'', ''APIResourceList'']"
  obtain s4 where s4: "sa_AddUnversionedTypes sa ([], ''v1'') ?un s3 = Inr s4"
    "sa_kinds sa s3 ?gv \<subseteq> sa_kinds sa s4 ?gv"
    using plain by blast
  have "echo_AddToScheme sb (echo_init sa sb b0) s = Inr (None, s2)"
    using s1(1) s2(1) unfolding init_then_AddToScheme [OF assms(2)]
    by (simp add: echo_addKnownTypes_def add_known_types_def echo_GroupVersion_def)
  then have "server_init sa sb (echo_init sa sb b0) s = Inr s4"
    using s3(1) s4(1) by (simp add: server_init_def)
  moreover have "sa_kinds sa s1 ?gv \<subseteq> sa_kinds sa s4 ?gv"
    by (rule order_trans [OF s2(2) order_trans [OF s3(2) s4(2)]])
  ultimately show ?thesis by (intro exI conjI) (assumption, simp only: ts)
qed

lemma server_init_registers_demo:
  "\<exists>s. server_init demo_scheme demo_builder (echo_init demo_scheme demo_builder []) (\<lambda>_. {}) = Inr s
     \<and> {''Echo'', ''EchoList''} \<subseteq> s (echo_GroupName, ''v1'')"
  using server_init_registers [OF demo_scheme_ok demo_builder_ok, of "\<lambda>_. {}"] by (simp add: demo_scheme_def)

text \<open>
  What \<open>main\<close> does when something is not available. A port that is taken and a certificate
  that cannot be read do not stop it: both errors are dropped and the server is created with a
  nil listener or a nil certificate. Only an error of the generic server itself, when it is
  created or when the API group is installed, ends the process, and the server runs exactly
  when both succeed.
\<close>

lemma main_drops_errors:
  assumes "me_Listen env ''tcp'' '':9443'' w = (l, w1)"
    and "me_ServingContent env ''default'' ''tls.crt'' ''tls.key'' w1 = (cert, w2)"
    and "cfg = (me_RecommendedConfig env)\<lparr>sc_ExternalAddress := ''1.2.3.4:8081'',
        sc_LoopbackClientConfig := Some zero_rest_config,
        sc_SecureServing := Some \<lparr>si_Listener = ok_or_nil l, si_DisableHTTP2 = True, si_Cert = ok_or_nil cert\<rparr>,
        sc_OpenAPIV3Config := Some (me_OpenAPIV3Config env (GetOpenAPIDefinitions (me_kube_definitions env)))\<rparr>"
  shows "server_main env w =
    (case me_new_generic env cfg ''echo-apiserver'' w2 of
       (Inl err, w3) \<Rightarrow> Inl (LogFatal (error_string err))
     | (Inr srv, w3) \<Rightarrow>
         (case me_install env srv ''v1'' echo_storage w3 of
            (Some err, w4) \<Rightarrow> Inl (LogFatal (error_string err))
          | (None, w4) \<Rightarrow> me_Run env srv w4))
    \<and> (\<exists>info. sc_SecureServing cfg = Some info \<and> (si_Listener info = None \<longleftrightarrow> (\<exists>err. l = Inl err))
         \<and> (si_Cert info = None \<longleftrightarrow> (\<exists>err. cert = Inl err)))"
proof (intro conjI)
  have "server_main env w = (case EchoServer_New (me_new_generic env cfg) (me_install env) w2 of
      (Inl err, w3) \<Rightarrow> Inl (LogFatal (error_string err)) | (Inr srv, w3) \<Rightarrow> me_Run env srv w3)"
    by (simp add: server_main_def assms)
  then show "server_main env w =
    (case me_new_generic env cfg ''echo-apiserver'' w2 of
       (Inl err, w3) \<Rightarrow> Inl (LogFatal (error_string err))
     | (Inr srv, w3) \<Rightarrow>
         (case me_install env srv ''v1'' echo_storage w3 of
            (Some err, w4) \<Rightarrow> Inl (LogFatal (error_string err))
          | (None, w4) \<Rightarrow> me_Run env srv w4))"
    by (simp add: EchoServer_New_def split: sum.split prod.split option.split)
qed (simp_all add: assms(3) ok_or_nil_def split: sum.split)

text \<open>The port is taken and there is no certificate, but the server is created and runs.\<close>

definition demo_main :: "(unit, unit, unit, unit, string, unit, nat) main_env" where
  "demo_main = \<lparr>me_RecommendedConfig = \<lparr>sc_ExternalAddress = [], sc_LoopbackClientConfig = None,
       sc_SecureServing = None, sc_OpenAPIV3Config = None, sc_others = ()\<rparr>,
     me_Listen = (\<lambda>_ _ w. (Inl (ErrNew ''in use''), w)),
     me_ServingContent = (\<lambda>_ _ _ w. (Inl (ErrNew ''no such file''), w)),
     me_kube_definitions = (\<lambda>_. None), me_OpenAPIV3Config = (\<lambda>_. ()),
     me_new_generic = (\<lambda>_ _ w. (Inr (), w)), me_install = (\<lambda>_ _ _ w. (None, w)),
     me_Run = (\<lambda>_ w. Inr ((), w + 1))\<rparr>"

lemma main_drops_errors_witness:
  "server_main demo_main 0 = Inr ((), 1)"
proof -
  have "me_Listen demo_main ''tcp'' '':9443'' 0 = (Inl (ErrNew ''in use''), 0)"
    "me_ServingContent demo_main ''default'' ''tls.crt'' ''tls.key'' 0 = (Inl (ErrNew ''no such file''), 0)"
    by (simp_all add: demo_main_def)
  from main_drops_errors [OF this refl] show ?thesis by (simp add: demo_main_def)
qed

end
