(* ===== verification/Iter.thy ===== *)
theory Iter
  imports Prelude
begin

text \<open>
  Iterators and streams of the client libraries: a call \<open>Next()\<close> or \<open>Recv()\<close> that gives an
  element or an error, and the loops that read one until it gives an error.
\<close>

text \<open>What a source hands out from a state: the elements, and then the error that ends them.\<close>

inductive feed :: "('w \<Rightarrow> (go_error + 'a) \<times> 'w) \<Rightarrow> 'w \<Rightarrow> 'a list \<Rightarrow> go_error \<Rightarrow> 'w \<Rightarrow> bool" for nxt where
  feed_stop: "nxt w = (Inl err, w') \<Longrightarrow> feed nxt w [] err w'"
| feed_more: "nxt w = (Inr x, w1) \<Longrightarrow> feed nxt w1 xs err w' \<Longrightarrow> feed nxt w (x # xs) err w'"

inductive_simps feed_Nil: "feed nxt w [] err w'"
inductive_simps feed_Cons: "feed nxt w (x # xs) err w'"

text \<open>A source determines what it hands out.\<close>

lemma feed_unique:
  assumes "feed nxt w xs err w'" and "feed nxt w ys err' w''"
  shows "xs = ys \<and> err = err' \<and> w' = w''"
  using assms
proof (induction arbitrary: ys)
  case (feed_stop w err w')
  then show ?case by (cases ys) (auto simp: feed_Nil feed_Cons)
next
  case (feed_more w x w1 xs err w')
  then show ?case by (cases ys) (auto simp: feed_Nil feed_Cons)
qed

text \<open>The same without the end: a source that hands out the elements and goes on from there.\<close>

inductive reads :: "('w \<Rightarrow> (go_error + 'a) \<times> 'w) \<Rightarrow> 'w \<Rightarrow> 'a list \<Rightarrow> 'w \<Rightarrow> bool" for nxt where
  reads_none: "reads nxt w [] w"
| reads_one: "nxt w = (Inr x, w1) \<Longrightarrow> reads nxt w1 xs w' \<Longrightarrow> reads nxt w (x # xs) w'"

inductive_simps reads_Nil: "reads nxt w [] w'"
inductive_simps reads_Cons: "reads nxt w (x # xs) w'"

lemma reads_take: "reads nxt w xs w' \<Longrightarrow> \<exists>w1. reads nxt w (take n xs) w1"
proof (induction arbitrary: n rule: reads.induct)
  case (reads_one w x w1 xs w')
  show ?case
  proof (cases n)
    case (Suc m)
    with reads_one show ?thesis by (auto simp: reads_Cons)
  qed (auto simp: reads_Nil)
qed (auto intro: reads_none)

lemma feed_iff_reads: "feed nxt w xs err w' \<longleftrightarrow> (\<exists>w1. reads nxt w xs w1 \<and> nxt w1 = (Inl err, w'))"
  by (induction xs arbitrary: w) (auto simp: feed_Nil feed_Cons reads_Nil reads_Cons)

text \<open>
  The contract of a loop that drains a source: it takes one element at a time into its state,
  in the order of the source, and only the error ends it.
\<close>

locale drain_loop =
  fixes nxt :: "'w \<Rightarrow> (go_error + 'a) \<times> 'w"
    and take_in :: "'a \<Rightarrow> 's \<Rightarrow> 's"
    and finish :: "go_error \<Rightarrow> 's \<Rightarrow> 'w \<Rightarrow> 'r"
    and run :: "'s \<Rightarrow> 'w \<Rightarrow> 'r option"
  assumes run_stop: "nxt w = (Inl err, w1) \<Longrightarrow> run s w = Some (finish err s w1)"
    and run_more: "nxt w = (Inr x, w1) \<Longrightarrow> run s w = run (take_in x s) w1"
begin

lemma run_feed: "feed nxt w xs err w' \<Longrightarrow> run s w = Some (finish err (fold take_in xs s) w')"
  by (induction arbitrary: s rule: feed.induct) (simp_all add: run_stop run_more)

end

end
