(* ===== verification/Filters.thy ===== *)
theory Filters
  imports Url
begin

text \<open>
  The query filters \<open>gcp/telemetry.go\<close> builds by formatting strings, with what it uses of
  the standard library for that: \<open>%q\<close> (\<open>strconv.Quote\<close>, with the decoder of UTF-8) and
  \<open>url.PathEscape\<close>. The lemmas show which arguments can change the structure of a filter.
\<close>

section \<open>Quoting\<close>

abbreviation dquote :: char where "dquote \<equiv> CHR 0x22"
abbreviation backslash :: char where "backslash \<equiv> CHR 0x5C"

text \<open>
  \<open>utf8.DecodeRune\<close>: the first rune of a non-empty string and its width in bytes. Bytes that
  start no valid encoding (overlong, a surrogate, beyond 0x10FFFF, cut short) are
  \<open>RuneError\<close> with width 1.
\<close>

definition rune_error :: nat where "rune_error = 0xFFFD"

definition cont :: "char \<Rightarrow> bool" where "cont c \<longleftrightarrow> 0x80 \<le> code c \<and> code c \<le> 0xBF"

definition second_ok :: "nat \<Rightarrow> char \<Rightarrow> bool" where
  "second_ok b0 c \<longleftrightarrow> cont c \<and> (b0 = 0xE0 \<longrightarrow> 0xA0 \<le> code c) \<and> (b0 = 0xED \<longrightarrow> code c \<le> 0x9F)
     \<and> (b0 = 0xF0 \<longrightarrow> 0x90 \<le> code c) \<and> (b0 = 0xF4 \<longrightarrow> code c \<le> 0x8F)"

definition decode_rune :: "string \<Rightarrow> nat \<times> nat" where
  "decode_rune s =
     (let b0 = code (hd s); b = (\<lambda>i. code (s ! i) mod 64) in
      if b0 < 0x80 then (b0, 1)
      else if 0xC2 \<le> b0 \<and> b0 \<le> 0xDF \<and> 2 \<le> length s \<and> cont (s ! 1)
        then (b0 mod 32 * 64 + b 1, 2)
      else if 0xE0 \<le> b0 \<and> b0 \<le> 0xEF \<and> 3 \<le> length s \<and> second_ok b0 (s ! 1) \<and> cont (s ! 2)
        then (b0 mod 16 * 4096 + b 1 * 64 + b 2, 3)
      else if 0xF0 \<le> b0 \<and> b0 \<le> 0xF4 \<and> 4 \<le> length s \<and> second_ok b0 (s ! 1) \<and> cont (s ! 2) \<and> cont (s ! 3)
        then (b0 mod 8 * 262144 + b 1 * 4096 + b 2 * 64 + b 3, 4)
      else (rune_error, 1))"

text \<open>\<open>n\<close> hexadecimal digits of a number, in lower or upper case.\<close>

definition hex_digit :: "nat \<Rightarrow> nat \<Rightarrow> char" where
  "hex_digit alpha d = char_of (if d < 10 then 48 + d else alpha + (d - 10))"

fun hex_digits :: "nat \<Rightarrow> nat \<Rightarrow> nat \<Rightarrow> string" where
  "hex_digits alpha 0 r = []"
| "hex_digits alpha (Suc n) r = hex_digits alpha n (r div 16) @ [hex_digit alpha (r mod 16)]"

text \<open>
  One rune between double quotes. The argument \<open>printable\<close> is \<open>strconv.IsPrint\<close> beyond ASCII,
  a table of Unicode. A printable rune is written as the bytes it was read from.
\<close>

definition is_print :: "(nat \<Rightarrow> bool) \<Rightarrow> nat \<Rightarrow> bool" where
  "is_print printable r = (if r < 128 then 32 \<le> r \<and> r < 127 else printable r)"

definition escape_letter :: "nat \<Rightarrow> char option" where
  "escape_letter r = map_of [(7, CHR ''a''), (8, CHR ''b''), (12, CHR ''f''), (10, CHR ''n''),
     (13, CHR ''r''), (9, CHR ''t''), (11, CHR ''v'')] r"

definition quote_rune :: "(nat \<Rightarrow> bool) \<Rightarrow> nat \<Rightarrow> string \<Rightarrow> string" where
  "quote_rune printable r bytes =
     (if r = code dquote \<or> r = code backslash then backslash # bytes
      else if is_print printable r then bytes
      else (case escape_letter r of
        Some l \<Rightarrow> [backslash, l]
      | None \<Rightarrow>
          if r < 32 \<or> r = 127 then backslash # CHR ''x'' # hex_digits 97 2 r
          else if r < 0x10000 then backslash # CHR ''u'' # hex_digits 97 4 r
          else backslash # CHR ''U'' # hex_digits 97 8 r))"

function quote_body :: "(nat \<Rightarrow> bool) \<Rightarrow> string \<Rightarrow> string" where
  "quote_body printable [] = []"
| "quote_body printable (c # s) =
     (case decode_rune (c # s) of (r, width) \<Rightarrow>
        (if width = 1 \<and> r = rune_error then backslash # CHR ''x'' # hex_digits 97 2 (code c)
         else quote_rune printable r (take width (c # s)))
        @ quote_body printable (drop (width - 1) s))"
  by pat_completeness auto
termination
  by (relation "measure (\<lambda>(printable, s). length s)") auto

definition quote :: "(nat \<Rightarrow> bool) \<Rightarrow> string \<Rightarrow> string" where
  "quote printable s = dquote # quote_body printable s @ [dquote]"

section \<open>url.PathEscape\<close>

definition path_keep :: "char \<Rightarrow> bool" where
  "path_keep c \<longleftrightarrow> is_alnum c \<or> c \<in> set ''-_.~$&+:=@''"

fun path_escape :: "string \<Rightarrow> string" where
  "path_escape [] = []"
| "path_escape (c # s) =
     (if path_keep c then [c] else CHR ''%'' # hex_digits 65 2 (code c)) @ path_escape s"

section \<open>The filters\<close>

definition time_series_filter :: "(nat \<Rightarrow> bool) \<Rightarrow> string \<Rightarrow> string \<Rightarrow> string \<Rightarrow> string \<Rightarrow> string" where
  "time_series_filter printable namespace resourceType metricName extra =
     (let f = ''metric.type = '' @ quote printable metricName @ '' '';
          f = (if resourceType \<noteq> [] then f @ '' AND resource.type = '' @ quote printable resourceType else f);
          f = (if namespace \<noteq> [] then f @ '' AND resource.labels.namespace_name = '' @ quote printable namespace
               else f)
      in if extra \<noteq> [] then f @ extra else f)"

definition resources_filter :: "(nat \<Rightarrow> bool) \<Rightarrow> string \<Rightarrow> string \<Rightarrow> string \<Rightarrow> string" where
  "resources_filter printable namespace metricName extra =
     (let f = ''metrics.type = '' @ quote printable metricName @ '' '';
          f = (if namespace \<noteq> [] then f @ '' AND resource.labels.namespace_name = '' @ quote printable namespace
               else f)
      in if extra \<noteq> [] then f @ extra else f)"

definition logs_filter :: "string \<Rightarrow> string \<Rightarrow> string \<Rightarrow> string" where
  "logs_filter projectID logName lastHour =
     ''logName = '' @ [dquote] @ ''projects/'' @ projectID @ ''/logs/'' @ path_escape logName @ [dquote]
       @ '' AND timestamp > '' @ [dquote] @ lastHour @ [dquote]"

definition watch_filter :: "string \<Rightarrow> string \<Rightarrow> string" where
  "watch_filter projectID logName =
     ''log_name:'' @ [dquote] @ ''projects/'' @ projectID @ ''/logs/'' @ logName @ [dquote]"

section \<open>The structure of a filter\<close>

text \<open>
  What a reader of the filter sees outside its string literals: it reads a literal from a
  double quote to the next one that no backslash precedes, and drops its content.
\<close>

datatype scan_mode = Outside | Inside | Escaped

fun scan :: "scan_mode \<Rightarrow> string \<Rightarrow> string" where
  "scan m [] = []"
| "scan Outside (c # s) = c # scan (if c = dquote then Inside else Outside) s"
| "scan Inside (c # s) =
     (if c = dquote then c # scan Outside s
      else scan (if c = backslash then Escaped else Inside) s)"
| "scan Escaped (c # s) = scan Inside s"

definition skeleton :: "string \<Rightarrow> string" where
  "skeleton f = scan Outside f"

definition no_quote :: "char \<Rightarrow> bool" where
  "no_quote c \<longleftrightarrow> c \<noteq> dquote \<and> c \<noteq> backslash"

lemma scan_plain: "list_all no_quote s \<Longrightarrow> scan Inside (s @ t) = scan Inside t"
  by (induction s) (auto simp: no_quote_def)

lemma scan_plain_char: "no_quote c \<Longrightarrow> scan Inside (c # t) = scan Inside t"
  by (simp add: no_quote_def)

lemma no_quote_iff: "no_quote c \<longleftrightarrow> code c \<noteq> (34 :: nat) \<and> code c \<noteq> (92 :: nat)"
proof -
  have "code dquote = (34 :: nat)" "code backslash = (92 :: nat)" by simp_all
  then show ?thesis by (metis no_quote_def of_char_eq_iff)
qed

lemma no_quote_hex:
  assumes "d < 16" and "alpha = 65 \<or> alpha = 97"
  shows "no_quote (hex_digit alpha d)"
  using assms by (auto simp: no_quote_iff hex_digit_def)

lemma no_quote_hex_digits: "alpha = 65 \<or> alpha = 97 \<Longrightarrow> list_all no_quote (hex_digits alpha n r)"
  by (induction n arbitrary: r) (simp_all add: no_quote_hex)

text \<open>The bytes of a rune: one that stands for itself, or only bytes beyond ASCII.\<close>

lemma decode_rune_cases:
  assumes "decode_rune s = (r, width)" and "s \<noteq> []"
  obtains (ascii) "width = 1" and "r = code (hd s)"
    | (bad) "width = 1" and "r = rune_error"
    | (multi) "2 \<le> width" and "width \<le> length s" and "list_all no_quote (take width s)"
proof -
  have hi: "no_quote x" if "128 \<le> (code x :: nat)" for x using that by (simp add: no_quote_iff)
  have co: "no_quote x" if "cont x" for x using that by (intro hi) (simp add: cont_def)
  have se: "no_quote x" if "second_ok b x" for b x using that by (intro co) (simp add: second_ok_def)
  have tk: "take 2 xs = [xs ! 0, xs ! 1]" if "2 \<le> length xs" for xs :: string
    using that by (auto simp: Suc_le_length_iff numeral_2_eq_2)
  have tk3: "take 3 xs = [xs ! 0, xs ! 1, xs ! 2]" if "3 \<le> length xs" for xs :: string
    using that by (auto simp: Suc_le_length_iff eval_nat_numeral)
  have tk4: "take 4 xs = [xs ! 0, xs ! 1, xs ! 2, xs ! 3]" if "4 \<le> length xs" for xs :: string
    using that by (auto simp: Suc_le_length_iff eval_nat_numeral)
  have hd0: "hd s = s ! 0" using assms(2) by (simp add: hd_conv_nth)
  show thesis
    using assms(1) ascii bad multi
    by (auto simp: decode_rune_def Let_def tk tk3 tk4 hi co se hd0 split: if_splits)
qed

lemma scan_quote_rune:
  assumes "list_all no_quote bytes \<and> bytes \<noteq> [] \<or> bytes = [c] \<and> r = code c"
  shows "scan Inside (quote_rune printable r bytes @ t) = scan Inside t"
proof -
  have esc: "scan Inside (backslash # d # hex_digits 97 n r @ t) = scan Inside t" for d n
    using scan_plain [OF no_quote_hex_digits] by simp
  show ?thesis
  proof (cases "list_all no_quote bytes \<and> bytes \<noteq> []")
    case True
    then obtain b bs where b: "bytes = b # bs" "list_all no_quote bs" by (cases bytes) auto
    then show ?thesis
      using True scan_plain [of bytes t] scan_plain [of bs t] esc
      by (auto simp: quote_rune_def split: option.splits)
  next
    case False
    with assms have c: "bytes = [c]" "r = code c" by auto
    have "no_quote c" if "r \<noteq> code dquote" "r \<noteq> code backslash"
      using that c(2) by (simp add: no_quote_iff)
    then show ?thesis
      using c esc by (auto simp: quote_rune_def scan_plain_char split: option.splits)
  qed
qed

lemma scan_quote_body: "scan Inside (quote_body printable s @ t) = scan Inside t"
proof (induction printable s rule: quote_body.induct)
  case (2 printable c s)
  obtain r width where d: "decode_rune (c # s) = (r, width)" by (cases "decode_rune (c # s)")
  note IH = 2 [OF d [symmetric]]
  let ?rest = "quote_body printable (drop (width - 1) s) @ t"
  have hex: "scan Inside (hex_digits 97 2 n @ u) = scan Inside u" for n u
    by (rule scan_plain) (simp add: no_quote_hex_digits)
  from d list.distinct(2) show ?case
  proof (cases rule: decode_rune_cases)
    case ascii
    then show ?thesis
      using scan_quote_rune [of "[c]" c r printable ?rest] hex [of "code c" ?rest] d IH by auto
  next
    case bad
    then show ?thesis using hex [of "code c" ?rest] d IH by simp
  next
    case multi
    then have "take width (c # s) \<noteq> []" by auto
    with multi show ?thesis
      using scan_quote_rune [of "take width (c # s)" c r printable ?rest] d IH by simp
  qed
qed simp

lemma scan_quote [simp]: "scan Outside (quote printable s @ t) = [dquote, dquote] @ scan Outside t"
  by (simp add: quote_def scan_quote_body)

lemma scan_quote_end [simp]: "scan Outside (quote printable s) = [dquote, dquote]"
  using scan_quote [of printable s "[]"] by simp

lemma no_quote_path_escape: "list_all no_quote (path_escape s)"
proof (induction s)
  case (Cons c s)
  have "no_quote c" if "path_keep c"
    using that by (auto simp: path_keep_def no_quote_iff is_alnum_def is_lower_def is_upper_def is_digit_def)
  moreover have "no_quote (CHR ''%'')" by (simp add: no_quote_def)
  ultimately show ?case using Cons no_quote_hex_digits by simp
qed simp

lemma hex_val_digit: "d < 16 \<Longrightarrow> hex_val (hex_digit 65 d) = Some d"
  by (auto simp: hex_val_def hex_digit_def is_digit_def)

text \<open>\<open>url.PathUnescape\<close> gives back the string that was escaped.\<close>

lemma unescape_path_escape: "unescape EncodeOther (path_escape s) = Inr s"
proof (induction s)
  case (Cons c s)
  let ?n = "code c :: nat"
  have n: "?n < 256" using of_char_mod_256 [of c, where ?'a = nat] by (metis mod_less_divisor zero_less_numeral)
  have "c \<noteq> CHR ''%''" if "path_keep c"
    using that by (auto simp: path_keep_def is_alnum_def is_lower_def is_upper_def is_digit_def)
  moreover have "hex_digits 65 2 ?n = [hex_digit 65 (?n div 16), hex_digit 65 (?n mod 16)]"
    using n by (simp add: numeral_2_eq_2 mod_less less_mult_imp_div_less)
  moreover have "char_of (16 * (?n div 16) + ?n mod 16) = c" by (simp only: mult_div_mod_eq char_of_char)
  moreover have "hex_val (hex_digit 65 (?n div 16)) = Some (?n div 16)"
    "hex_val (hex_digit 65 (?n mod 16)) = Some (?n mod 16)"
    using n by (simp_all add: hex_val_digit less_mult_imp_div_less)
  ultimately show ?case using Cons by (simp add: Let_def)
qed simp

section \<open>What the arguments of a filter can do\<close>

text \<open>
  C37: The filters over time series quote the metric, the resource type and the namespace.
  Whatever bytes these are, also with quotes, backslashes or broken UTF-8, they stay inside
  their string literals: outside of them the filter is a fixed text that only depends on
  which arguments are empty, and only \<open>extra\<close> adds to it.
\<close>

theorem series_filters_structure:
  "skeleton (time_series_filter printable namespace resourceType metricName extra) =
     ''metric.type = '' @ [dquote, dquote] @ '' ''
     @ (if resourceType \<noteq> [] then '' AND resource.type = '' @ [dquote, dquote] else [])
     @ (if namespace \<noteq> [] then '' AND resource.labels.namespace_name = '' @ [dquote, dquote] else [])
     @ skeleton extra \<and>
   skeleton (resources_filter printable namespace metricName extra) =
     ''metrics.type = '' @ [dquote, dquote] @ '' ''
     @ (if namespace \<noteq> [] then '' AND resource.labels.namespace_name = '' @ [dquote, dquote] else [])
     @ skeleton extra"
  by (simp add: skeleton_def time_series_filter_def resources_filter_def Let_def)

text \<open>
  The filter of \<open>Logs\<close> escapes the name of the log: for every name it is two comparisons
  with one string literal each, and the name in it decodes to the one that was asked for.
  The filter of a watch does not: a name with two double quotes adds any text to the filter.
\<close>

lemma log_filters_structure:
  assumes "list_all no_quote projectID" and "list_all no_quote lastHour" and "dquote \<notin> set text"
  shows "skeleton (logs_filter projectID logName lastHour)
       = ''logName = '' @ [dquote, dquote] @ '' AND timestamp > '' @ [dquote, dquote]
    \<and> unescape EncodeOther (path_escape logName) = Inr logName
    \<and> skeleton (watch_filter projectID (dquote # text @ [dquote]))
       = ''log_name:'' @ [dquote, dquote] @ text @ [dquote, dquote]"
proof (intro conjI)
  show "skeleton (logs_filter projectID logName lastHour)
       = ''logName = '' @ [dquote, dquote] @ '' AND timestamp > '' @ [dquote, dquote]"
    using scan_plain [OF assms(1)] scan_plain [OF assms(2)] scan_plain [OF no_quote_path_escape]
    by (simp add: skeleton_def logs_filter_def)
  show "unescape EncodeOther (path_escape logName) = Inr logName" by (rule unescape_path_escape)
  have out: "scan Outside (s @ dquote # t) = s @ dquote # scan Inside t" if "dquote \<notin> set s" for s t
    using that by (induction s) auto
  show "skeleton (watch_filter projectID (dquote # text @ [dquote]))
       = ''log_name:'' @ [dquote, dquote] @ text @ [dquote, dquote]"
    using scan_plain [OF assms(1)] out [OF assms(3)] by (simp add: skeleton_def watch_filter_def)
qed

lemma log_filters_structure_witness:
  "skeleton (logs_filter ''p1'' [dquote, CHR ''/''] ''2024'') =
     ''logName = '' @ [dquote, dquote] @ '' AND timestamp > '' @ [dquote, dquote]
   \<and> skeleton (watch_filter ''p1'' (dquote # '' OR severity=ERROR OR x='' @ [dquote]))
     = ''log_name:'' @ [dquote, dquote] @ '' OR severity=ERROR OR x='' @ [dquote, dquote]"
  using log_filters_structure [of "''p1''" "''2024''" "'' OR severity=ERROR OR x=''" "[dquote, CHR ''/'']"]
  by (simp add: no_quote_def)

end
