(* ===== verification/Telemetry.thy ===== *)
theory Telemetry
  imports Filters Iter
begin

text \<open>
  \<open>gcp/telemetry.go\<close>: the client of Google Cloud logging and monitoring, and the commands
  built on it. The client libraries are the parameter \<open>tele_api\<close>, with the state \<open>'w\<close> of the
  services passed along. What a command prints is a list of \<open>out_line\<close>, the arguments of its
  calls of \<open>fmt\<close>; a loop over a map of labels, whose order is not fixed, prints one
  \<open>OutLabels\<close>.
\<close>

section \<open>Data\<close>

datatype mon_service = MonService nat
datatype metric_client = MetricClient nat
datatype log_client = LogClient nat
datatype logv2_client = LogV2Client nat
datatype log_admin = LogAdmin nat
datatype log_iter = LogIter nat
datatype tail_stream = TailStream nat
datatype log_entry = LogEntry nat

text \<open>A \<open>float64\<close>: \<open>F64 m e\<close> is \<open>m * 2 ^ e\<close>. The code compares with 0 and prints.\<close>

datatype float64 = F64 int int | F64_Inf bool | F64_NaN

fun f64_is_zero :: "float64 \<Rightarrow> bool" where
  "f64_is_zero (F64 m e) = (m = 0)"
| "f64_is_zero _ = False"

record Stackdriver =
  sd_projectID :: string
  sd_monitoringService :: mon_service
  sd_MetricClient :: metric_client
  sd_Logging :: log_client
  sd_LoggingV2 :: logv2_client
  sd_LogAdmin :: log_admin

text \<open>The fields of the answers the code reads; \<open>None\<close> is a nil pointer.\<close>

type_synonym labels = "(string \<times> string) list" \<comment> \<open>a map, listed in an order that means nothing\<close>

record ts_metric =
  tm_Type :: string
  tm_Labels :: labels

record ts_resource =
  tr_Type :: string
  tr_Labels :: labels

record typed_value =
  tv_DoubleValue :: "float64 option"

record ts_point =
  pt_Value :: "typed_value option"

record time_series =
  ts_MetricKind :: string
  ts_ValueType :: string
  ts_Metric :: "ts_metric option"
  ts_Resource :: "ts_resource option"
  ts_Points :: "ts_point list"

record metric_desc =
  md_Type :: string
  md_MetricKind :: string
  md_ValueType :: string
  md_LabelKeys :: "string list" \<comment> \<open>the keys of \<open>Labels\<close>\<close>

text \<open>The requests.\<close>

record tail_request =
  tq_ResourceNames :: "string list"
  tq_Filter :: string
  tq_BufferNanos :: int

record series_query =
  sq_Name :: string
  sq_Start :: string
  sq_End :: string
  sq_Reducer :: string
  sq_AlignmentPeriod :: string
  sq_Aligner :: string
  sq_Filter :: string

record create_request =
  cr_Name :: string
  cr_MetricType :: string
  cr_ResourceType :: string
  cr_ResourceLabels :: labels
  cr_EndSeconds :: int
  cr_StartSeconds :: int
  cr_Double :: float64

text \<open>
  The services. Times are nanoseconds since 1970; \<open>RFC3339\<close> formats one in the time zone of
  the host; \<open>IsPrint\<close> is the table of printable runes. The entries of a log are asked for with
  the options of logadmin.
\<close>

datatype entries_option = EntriesFilter string | NewestFirst

record 'w tele_api =
  Getenv :: "string \<Rightarrow> string"
  RFC3339 :: "int \<Rightarrow> string"
  IsPrint :: "nat \<Rightarrow> bool"
  clock :: "'w \<Rightarrow> int \<times> 'w"
  new_monitoring :: "'w \<Rightarrow> (go_error + mon_service) \<times> 'w"
  new_metric_client :: "'w \<Rightarrow> (go_error + metric_client) \<times> 'w"
  new_logging :: "string \<Rightarrow> 'w \<Rightarrow> (go_error + log_client) \<times> 'w"
  new_logadmin :: "string \<Rightarrow> 'w \<Rightarrow> (go_error + log_admin) \<times> 'w"
  new_loggingv2 :: "'w \<Rightarrow> (go_error + logv2_client) \<times> 'w"
  close_metric :: "metric_client \<Rightarrow> 'w \<Rightarrow> 'w"
  close_logging :: "log_client \<Rightarrow> 'w \<Rightarrow> 'w"
  admin_logs :: "log_admin \<Rightarrow> 'w \<Rightarrow> log_iter \<times> 'w"
  next_log :: "log_iter \<Rightarrow> 'w \<Rightarrow> (go_error + string) \<times> 'w"
  admin_entries :: "log_admin \<Rightarrow> entries_option list \<Rightarrow> 'w \<Rightarrow> log_iter \<times> 'w"
  next_entry :: "log_iter \<Rightarrow> 'w \<Rightarrow> (go_error + log_entry) \<times> 'w"
  tail_open :: "logv2_client \<Rightarrow> 'w \<Rightarrow> (go_error + tail_stream) \<times> 'w"
  tail_send :: "tail_stream \<Rightarrow> tail_request \<Rightarrow> 'w \<Rightarrow> go_error option \<times> 'w"
  tail_recv :: "tail_stream \<Rightarrow> 'w \<Rightarrow> (go_error + log_entry list) \<times> 'w"
  tail_close_send :: "tail_stream \<Rightarrow> 'w \<Rightarrow> 'w"
  list_descriptors :: "mon_service \<Rightarrow> string \<Rightarrow> 'w \<Rightarrow> (go_error + int \<times> metric_desc list) \<times> 'w"
  list_series :: "mon_service \<Rightarrow> series_query \<Rightarrow> 'w \<Rightarrow> (go_error + int \<times> time_series list) \<times> 'w"
  create_series :: "metric_client \<Rightarrow> create_request \<Rightarrow> 'w \<Rightarrow> go_error option \<times> 'w"

definition second :: int where "second = 1000000000"
definition hour :: int where "hour = 3600 * second"
definition queryInterval :: int where "queryInterval = - (1800 * second)"

text \<open>\<open>time.Time.Unix\<close>: whole seconds, rounded down.\<close>

definition unix_seconds :: "int \<Rightarrow> int" where
  "unix_seconds t = t div second"

section \<open>The client\<close>

definition NewStackdriver :: "'w tele_api \<Rightarrow> string \<Rightarrow> 'w \<Rightarrow> (go_error + Stackdriver) \<times> 'w" where
  "NewStackdriver api projectID w =
     (case new_monitoring api w of
        (Inl err, w1) \<Rightarrow> (Inl (ErrNew (''failed to get monitoring service: '' @ error_string err)), w1)
      | (Inr ms, w1) \<Rightarrow>
     (case new_metric_client api w1 of
        (Inl err, w2) \<Rightarrow> (Inl (ErrNew (''failed to get monitoring service: '' @ error_string err)), w2)
      | (Inr mc, w2) \<Rightarrow>
     (let projectID = (if projectID = [] then Getenv api ''PROJECT_ID'' else projectID) in
      if projectID = [] then (Inl (ErrNew ''PROJECT_ID must be set''), w2) else
     (case new_logging api projectID w2 of
        (Inl err, w3) \<Rightarrow> (Inl err, w3)
      | (Inr lc, w3) \<Rightarrow>
     (case new_logadmin api projectID w3 of
        (Inl err, w4) \<Rightarrow> (Inl err, w4)
      | (Inr la, w4) \<Rightarrow>
     (case new_loggingv2 api w4 of
        (Inl err, w5) \<Rightarrow> (Inl err, w5)
      | (Inr l2, w5) \<Rightarrow>
          (Inr \<lparr>sd_projectID = projectID, sd_monitoringService = ms, sd_MetricClient = mc,
             sd_Logging = lc, sd_LoggingV2 = l2, sd_LogAdmin = la\<rparr>, w5)))))))"

definition sd_Close :: "'w tele_api \<Rightarrow> Stackdriver \<Rightarrow> 'w \<Rightarrow> 'w" where
  "sd_Close api s w = close_logging api (sd_Logging s) (close_metric api (sd_MetricClient s) w)"

definition NewLogSink :: "Stackdriver \<Rightarrow> string \<Rightarrow> string \<Rightarrow> go_error option" where
  "NewLogSink s nm topic = None"

section \<open>Logs\<close>

text \<open>
  \<open>LogTail\<close> opens a stream and starts a goroutine that reads it: the first result is the
  stream it reads. The goroutine is \<open>tail_loop\<close>, which runs the callback \<open>cb\<close> on the state it
  changes and may never end. \<open>cb(nil)\<close> gets the empty list.
\<close>

definition LogTail :: "'w tele_api \<Rightarrow> Stackdriver \<Rightarrow> string \<Rightarrow> 'w \<Rightarrow> (go_error + tail_stream) \<times> 'w" where
  "LogTail api s f w =
     (case tail_open api (sd_LoggingV2 s) w of
        (Inl err, w1) \<Rightarrow> (Inl err, w1)
      | (Inr stream, w1) \<Rightarrow>
          (let req = \<lparr>tq_ResourceNames = [''projects/'' @ sd_projectID s], tq_Filter = f, tq_BufferNanos = 1\<rparr> in
           case tail_send api stream req w1 of
             (Some err, w2) \<Rightarrow> (Inl (ErrWrap (''stream.Send error: '' @ error_string err) err), w2)
           | (None, w2) \<Rightarrow> (Inr stream, w2)))"

partial_function (option) tail_loop :: "'w tele_api \<Rightarrow> tail_stream \<Rightarrow> (log_entry list \<Rightarrow> 's \<Rightarrow> 's)
    \<Rightarrow> 's \<Rightarrow> 'w \<Rightarrow> ('s \<times> 'w) option" where
  "tail_loop api stream cb s w =
     (case tail_recv api stream w of
        (Inl err, w1) \<Rightarrow>
          (if err = EOF then Some (s, tail_close_send api stream w1)
           else Some (cb [] s, tail_close_send api stream w1))
      | (Inr entries, w1) \<Rightarrow> tail_loop api stream cb (cb entries s) w1)"

text \<open>\<open>LogList\<close> returns what it has also beside an error.\<close>

partial_function (option) log_list_loop :: "'w tele_api \<Rightarrow> log_iter \<Rightarrow> string list \<Rightarrow> 'w
    \<Rightarrow> ((string list \<times> go_error option) \<times> 'w) option" where
  "log_list_loop api iter logs w =
     (case next_log api iter w of
        (Inl err, w1) \<Rightarrow> (if err = IteratorDone then Some ((logs, None), w1) else Some ((logs, Some err), w1))
      | (Inr log, w1) \<Rightarrow> log_list_loop api iter (logs @ [log]) w1)"

definition sd_LogList :: "'w tele_api \<Rightarrow> Stackdriver \<Rightarrow> 'w
    \<Rightarrow> ((string list \<times> go_error option) \<times> 'w) option" where
  "sd_LogList api s w =
     (case admin_logs api (sd_LogAdmin s) w of (iter, w1) \<Rightarrow> log_list_loop api iter [] w1)"

function logs_loop :: "'w tele_api \<Rightarrow> log_iter \<Rightarrow> log_entry list \<Rightarrow> 'w
    \<Rightarrow> (log_entry list \<times> go_error option) \<times> 'w" where
  "logs_loop api iter entries w =
     (if length entries < 20 then
        (case next_entry api iter w of
           (Inl err, w1) \<Rightarrow> (if err = IteratorDone then ((entries, None), w1) else (([], Some err), w1))
         | (Inr entry, w1) \<Rightarrow> logs_loop api iter (entries @ [entry]) w1)
      else ((entries, None), w))"
  by pat_completeness auto
termination
  by (relation "measure (\<lambda>(api, iter, entries, w). 20 - length entries)") auto

declare logs_loop.simps [simp del]

definition Logs :: "'w tele_api \<Rightarrow> Stackdriver \<Rightarrow> string \<Rightarrow> 'w
    \<Rightarrow> (log_entry list \<times> go_error option) \<times> 'w" where
  "Logs api s logName w =
     (case clock api w of (now, w1) \<Rightarrow>
        (let lastHour = RFC3339 api (now - hour) in
         case admin_entries api (sd_LogAdmin s)
             [EntriesFilter (logs_filter (sd_projectID s) logName lastHour), NewestFirst] w1 of
           (iter, w2) \<Rightarrow> logs_loop api iter [] w2))"

section \<open>Metrics\<close>

definition status_error :: "int \<Rightarrow> go_error" where
  "status_error status =
     ErrNew (''failed to get expected status code from monitoring service, got: '' @ itoa status)"

definition ListMetrics :: "'w tele_api \<Rightarrow> Stackdriver \<Rightarrow> 'w
    \<Rightarrow> (metric_desc list \<times> go_error option) \<times> 'w" where
  "ListMetrics api s w =
     (case new_monitoring api w of
        (Inl err, w1) \<Rightarrow> (([], Some err), w1)
      | (Inr ms, w1) \<Rightarrow>
          (case list_descriptors api ms (''projects/'' @ sd_projectID s) w1 of
             (Inl err, w2) \<Rightarrow> (([], Some err), w2)
           | (Inr (status, descs), w2) \<Rightarrow>
               (if status \<noteq> 200 then (([], Some (status_error status)), w2) else ((descs, None), w2))))"

text \<open>The request that \<open>ListTimeSeries\<close> and \<open>ListResources\<close> send for their filters.\<close>

definition query_series :: "'w tele_api \<Rightarrow> Stackdriver \<Rightarrow> string \<Rightarrow> int \<Rightarrow> int \<Rightarrow> 'w
    \<Rightarrow> (time_series list \<times> go_error option) \<times> 'w" where
  "query_series api s f startTime endTime w =
     (let q = \<lparr>sq_Name = ''projects/'' @ sd_projectID s, sq_Start = RFC3339 api startTime,
                sq_End = RFC3339 api endTime, sq_Reducer = ''REDUCE_NONE'', sq_AlignmentPeriod = ''60s'',
                sq_Aligner = ''ALIGN_RATE'', sq_Filter = f\<rparr> in
      case list_series api (sd_monitoringService s) q w of
        (Inl err, w1) \<Rightarrow> (([], Some err), w1)
      | (Inr (status, ts), w1) \<Rightarrow>
          (if status \<noteq> 200 then (([], Some (status_error status)), w1) else ((ts, None), w1)))"

definition ListTimeSeries :: "'w tele_api \<Rightarrow> Stackdriver \<Rightarrow> string \<Rightarrow> string \<Rightarrow> string \<Rightarrow> string
    \<Rightarrow> int \<Rightarrow> int \<Rightarrow> 'w \<Rightarrow> (time_series list \<times> go_error option) \<times> 'w" where
  "ListTimeSeries api s namespace resourceType metricName extra startTime endTime w =
     query_series api s (time_series_filter (IsPrint api) namespace resourceType metricName extra)
       startTime endTime w"

definition sd_ListResources :: "'w tele_api \<Rightarrow> Stackdriver \<Rightarrow> string \<Rightarrow> string \<Rightarrow> string \<Rightarrow> 'w
    \<Rightarrow> (time_series list \<times> go_error option) \<times> 'w" where
  "sd_ListResources api s namespace metricName extra w =
     (case clock api w of (endTime, w1) \<Rightarrow>
        query_series api s (resources_filter (IsPrint api) namespace metricName extra)
          (endTime + queryInterval) endTime w1)"

text \<open>The clock is read twice, for the end of the interval first.\<close>

definition CreateOrAddVal :: "'w tele_api \<Rightarrow> Stackdriver \<Rightarrow> string \<Rightarrow> string \<Rightarrow> float64 \<Rightarrow> 'w
    \<Rightarrow> go_error option \<times> 'w" where
  "CreateOrAddVal api s res metricName val w =
     (case clock api w of (t1, w1) \<Rightarrow>
     (case clock api w1 of (t2, w2) \<Rightarrow>
        create_series api (sd_MetricClient s)
          \<lparr>cr_Name = ''projects/'' @ sd_projectID s, cr_MetricType = metricName,
             cr_ResourceType = ''global'', cr_ResourceLabels = [(''project_id'', sd_projectID s)],
             cr_EndSeconds = unix_seconds t1, cr_StartSeconds = unix_seconds t2 - 10, cr_Double = val\<rparr> w2))"

section \<open>Commands\<close>

record MetricListRequest =
  mr_ProjectID :: string
  mr_Name :: string
  mr_Filter :: string
  mr_Verbose :: bool
  mr_Namespace :: string
  mr_Res :: string
  mr_Watch :: bool
  mr_Extra :: string
  mr_Active :: bool
  mr_Val :: float64
  mr_Json :: bool

datatype out_line =
    OutText string
  | OutBlank
  | OutTailEntry log_entry
  | OutEntry log_entry
  | OutDescJSON metric_desc
  | OutDesc string nat string string "string list"
  | OutSeriesJSON time_series
  | OutValueLabels float64 labels
  | OutMetricJSON ts_metric
  | OutResourceJSON ts_resource
  | OutPointJSON ts_point
  | OutLabels labels
  | OutPoint float64

text \<open>\<open>defer sd.Close()\<close> runs when the command returns.\<close>

definition MetricUpdate :: "'w tele_api \<Rightarrow> MetricListRequest \<Rightarrow> 'w \<Rightarrow> go_error option \<times> 'w" where
  "MetricUpdate api r w =
     (case NewStackdriver api (mr_ProjectID r) w of
        (Inl err, w1) \<Rightarrow> (Some err, w1)
      | (Inr sd, w1) \<Rightarrow>
          (case CreateOrAddVal api sd (mr_Res r) (mr_Name r) (mr_Val r) w1 of
             (err, w2) \<Rightarrow> (err, sd_Close api sd w2)))"

text \<open>
  \<open>LogList\<close> either returns, or blocks in \<open>select {}\<close> while its goroutine prints what
  it reads from a stream with \<open>print_tail\<close>.
\<close>

datatype log_run = Returns "go_error option" | Watches tail_stream

definition print_tail :: "log_entry list \<Rightarrow> out_line list \<Rightarrow> out_line list" where
  "print_tail le out = out @ concat (map (\<lambda>e. [OutTailEntry e, OutBlank]) le)"

definition tail_filter :: "string \<Rightarrow> MetricListRequest \<Rightarrow> MetricListRequest" where
  "tail_filter projectID r =
     (if mr_Name r \<noteq> [] then
        (let r' = (if mr_Filter r \<noteq> [] then r\<lparr>mr_Filter := mr_Filter r @ '' and ''\<rparr> else r)
         in r'\<lparr>mr_Filter := watch_filter projectID (mr_Name r')\<rparr>)
      else r)"

definition LogList :: "'w tele_api \<Rightarrow> MetricListRequest \<Rightarrow> 'w
    \<Rightarrow> (log_run \<times> MetricListRequest \<times> out_line list \<times> 'w) exec option" where
  "LogList api r w =
     (case NewStackdriver api (mr_ProjectID r) w of
        (Inl err, w1) \<Rightarrow> Some (Inr (Returns (Some err), r, [], w1))
      | (Inr sd, w1) \<Rightarrow>
          (if mr_Watch r then
             (let r1 = tail_filter (sd_projectID sd) r in
              case LogTail api sd (mr_Filter r1) w1 of
                (Inl err, w2) \<Rightarrow> Some (Inr (Returns (Some err), r1, [], sd_Close api sd w2))
              | (Inr stream, w2) \<Rightarrow> Some (Inr (Watches stream, r1, [], w2)))
           else if mr_Name r = [] then
             (case sd_LogList api sd w1 of
                None \<Rightarrow> None
              | Some ((ll, Some err), w2) \<Rightarrow> Some (Inl (LogFatal (error_string err)))
              | Some ((ll, None), w2) \<Rightarrow>
                  Some (Inr (Returns None, r, map OutText ll, sd_Close api sd w2)))
           else
             (case Logs api sd (mr_Name r) w1 of
                ((le, Some err), w2) \<Rightarrow> Some (Inl (LogPanic (error_string err)))
              | ((le, None), w2) \<Rightarrow>
                  Some (Inr (Returns None, r, concat (map (\<lambda>v. [OutEntry v, OutBlank]) le),
                    sd_Close api sd w2)))))"

text \<open>Reading through nil pointers.\<close>

definition deref :: "'a option \<Rightarrow> 'a exec" where
  "deref p = (case p of None \<Rightarrow> Inl NilDeref | Some v \<Rightarrow> Inr v)"

definition double_value :: "typed_value option \<Rightarrow> float64 exec" where
  "double_value v = bnd (deref v) (\<lambda>tv. deref (tv_DoubleValue tv))"

text \<open>One series in \<open>MetricListRequest.ListResources\<close>.\<close>

definition print_resource :: "MetricListRequest \<Rightarrow> time_series \<Rightarrow> out_line list \<Rightarrow> out_line list exec" where
  "print_resource r tsr out =
     bnd (idx (ts_Points tsr) 0) (\<lambda>p. let v = pt_Value p in
     bnd (if mr_Active r then bnd (double_value v) (\<lambda>d. Inr (f64_is_zero d)) else Inr False) (\<lambda>skip.
       if skip then Inr out
       else if mr_Json r then Inr (out @ [OutSeriesJSON tsr])
       else bnd (double_value v) (\<lambda>d.
            bnd (deref (ts_Metric tsr)) (\<lambda>m. Inr (out @ [OutValueLabels d (tm_Labels m)])))))"

definition request_ListResources :: "'w tele_api \<Rightarrow> MetricListRequest \<Rightarrow> 'w
    \<Rightarrow> (out_line list \<times> 'w) exec" where
  "request_ListResources api r w =
     (case NewStackdriver api (mr_ProjectID r) w of
        (Inl err, w1) \<Rightarrow> Inl (Panicked err)
      | (Inr sd, w1) \<Rightarrow>
     (case sd_ListResources api sd (mr_Namespace r) (mr_Name r) (mr_Extra r) w1 of (_, w2) \<Rightarrow>
     (case clock api w2 of (t1, w3) \<Rightarrow>
     (case clock api w3 of (t2, w4) \<Rightarrow>
     (case ListTimeSeries api sd (mr_Namespace r) (mr_Res r) (mr_Name r) (mr_Extra r) (t1 - hour) t2 w4 of
        ((ts, Some err), w5) \<Rightarrow> Inl (LogFatal (''Error '' @ error_string err))
      | ((ts, None), w5) \<Rightarrow>
          bnd (loopM (print_resource r) ts []) (\<lambda>out. Inr (out, w5)))))))"

definition request_Run :: "'w tele_api \<Rightarrow> MetricListRequest \<Rightarrow> 'w \<Rightarrow> (out_line list \<times> 'w) exec" where
  "request_Run api r w = request_ListResources api r w"

text \<open>One metric in the list of \<open>MetricList\<close>, and one series of a metric.\<close>

definition print_metric :: "'w tele_api \<Rightarrow> Stackdriver \<Rightarrow> MetricListRequest \<Rightarrow> metric_desc
    \<Rightarrow> out_line list \<times> 'w \<Rightarrow> (out_line list \<times> 'w) exec" where
  "print_metric api sd r v s = (case s of (out, w) \<Rightarrow>
     (if mr_Verbose r then Inr (out @ [OutDescJSON v], w)
      else
        (case clock api w of (t1, w1) \<Rightarrow>
        (case clock api w1 of (t2, w2) \<Rightarrow>
        (case ListTimeSeries api sd [] [] (md_Type v) [] (t1 - 6 * hour) t2 w2 of
           ((tsl, err), w3) \<Rightarrow>
             (if err \<noteq> None \<and> 0 < length tsl
              then Inr (out @ [OutDesc (md_Type v) (length tsl) (md_MetricKind v) (md_ValueType v)
                     (md_LabelKeys v)], w3)
              else Inr (out, w3)))))))"

definition print_point :: "ts_point \<Rightarrow> out_line list \<Rightarrow> out_line list exec" where
  "print_point p out = bnd (double_value (pt_Value p)) (\<lambda>d. Inr (out @ [OutPoint d]))"

definition print_series :: "MetricListRequest \<Rightarrow> time_series \<Rightarrow> out_line list \<Rightarrow> out_line list exec" where
  "print_series r t out =
     (let out = out @ [OutText (''  - kind: '' @ ts_MetricKind t @ '' # '' @ ts_ValueType t)] in
      bnd (deref (ts_Metric t)) (\<lambda>m. let out = out @ [OutText (''    name: '' @ tm_Type m)] in
      if mr_Verbose r then
        bnd (deref (ts_Resource t)) (\<lambda>res.
          Inr (out @ [OutResourceJSON res, OutMetricJSON m] @ map OutPointJSON (ts_Points t)
            @ [OutText ''---'', OutText ''---'']))
      else
        bnd (deref (ts_Resource t)) (\<lambda>res.
          let out = out @ [OutText (''    res: '' @ tr_Type res), OutText ''    resLabels:'',
                OutLabels (tr_Labels res),
                OutText (''    labels: #'' @ itoa (int (length (tm_Labels m)))),
                OutLabels (tm_Labels m),
                OutText (''    points: #'' @ itoa (int (length (ts_Points t))))]
          in bnd (loopM print_point (ts_Points t) out) (\<lambda>out. Inr (out @ [OutText ''---''])))))"

definition MetricList :: "'w tele_api \<Rightarrow> MetricListRequest \<Rightarrow> 'w
    \<Rightarrow> (go_error option \<times> out_line list \<times> 'w) exec" where
  "MetricList api r w =
     (case NewStackdriver api (mr_ProjectID r) w of
        (Inl err, w1) \<Rightarrow> Inr (Some err, [], w1)
      | (Inr sd, w1) \<Rightarrow>
          (if mr_Name r = [] then
             (case ListMetrics api sd w1 of
                ((ml, Some err), w2) \<Rightarrow> Inl (LogPanic (error_string err))
              | ((ml, None), w2) \<Rightarrow>
                  bnd (loopM (print_metric api sd r) ml ([], w2)) (\<lambda>(out, w3).
                    Inr (None, out, sd_Close api sd w3)))
           else
             (case clock api w1 of (t1, w2) \<Rightarrow>
             (case clock api w2 of (t2, w3) \<Rightarrow>
             (case ListTimeSeries api sd [] [] (mr_Name r) (mr_Extra r) (t1 - 6 * hour) t2 w3 of
                ((ts, Some err), w4) \<Rightarrow> Inl (LogPanic (error_string err))
              | ((ts, None), w4) \<Rightarrow>
                  bnd (loopM (print_series r) ts [OutText (''metrics: #'' @ itoa (int (length ts)))])
                    (\<lambda>out. Inr (None, out, sd_Close api sd w4)))))))"

end
