(* ===== verification/TelemetryFacts.thy ===== *)
theory TelemetryFacts
  imports Telemetry "HOL-Library.Multiset"
begin

text \<open>
  What the telemetry client and its commands do: the loops over iterators and streams, the
  requests the commands send, and what they print.
\<close>

section \<open>A small service\<close>

text \<open>
  For concrete runs: a service whose state is a counter. Its clock ticks once a second, its log
  never ends, its stream gives two batches, and it has one metric and two series.
\<close>

definition demo_series :: "float64 \<Rightarrow> time_series" where
  "demo_series d = \<lparr>ts_MetricKind = ''GAUGE'', ts_ValueType = ''DOUBLE'',
     ts_Metric = Some \<lparr>tm_Type = ''m'', tm_Labels = []\<rparr>,
     ts_Resource = Some \<lparr>tr_Type = ''global'', tr_Labels = []\<rparr>,
     ts_Points = [\<lparr>pt_Value = Some \<lparr>tv_DoubleValue = Some d\<rparr>\<rparr>]\<rparr>"

definition demo_tele :: "nat tele_api" where
  "demo_tele = \<lparr>Getenv = (\<lambda>_. ''p1''), RFC3339 = (\<lambda>_. ''t''), IsPrint = (\<lambda>_. True),
     clock = (\<lambda>w. (int w * second, w + 1)),
     new_monitoring = (\<lambda>w. (Inr (MonService 0), w)),
     new_metric_client = (\<lambda>w. (Inr (MetricClient 0), w)),
     new_logging = (\<lambda>_ w. (Inr (LogClient 0), w)),
     new_logadmin = (\<lambda>_ w. (Inr (LogAdmin 0), w)),
     new_loggingv2 = (\<lambda>w. (Inr (LogV2Client 0), w)),
     close_metric = (\<lambda>_ w. w), close_logging = (\<lambda>_ w. w),
     admin_logs = (\<lambda>_ w. (LogIter 0, w)),
     next_log = (\<lambda>_ w. if w = 0 then (Inr ''stdout'', 1) else (Inl IteratorDone, w)),
     admin_entries = (\<lambda>_ _ w. (LogIter 1, w)),
     next_entry = (\<lambda>_ w. (Inr (LogEntry w), w + 1)),
     tail_open = (\<lambda>_ w. (Inr (TailStream 0), w)),
     tail_send = (\<lambda>_ _ w. (None, w)),
     tail_recv = (\<lambda>_ w. if w < 2 then (Inr [LogEntry w], w + 1) else (Inl EOF, w)),
     tail_close_send = (\<lambda>_ w. w),
     list_descriptors = (\<lambda>_ _ w. (Inr (200, [\<lparr>md_Type = ''m'', md_MetricKind = ''GAUGE'',
         md_ValueType = ''DOUBLE'', md_LabelKeys = []\<rparr>]), w)),
     list_series = (\<lambda>_ _ w. (Inr (200, [demo_series (F64 0 0), demo_series (F64 3 0)]), w)),
     create_series = (\<lambda>_ _ w. (None, w + 1))\<rparr>"

definition demo_client :: Stackdriver where
  "demo_client = \<lparr>sd_projectID = ''p1'', sd_monitoringService = MonService 0,
     sd_MetricClient = MetricClient 0, sd_Logging = LogClient 0, sd_LoggingV2 = LogV2Client 0,
     sd_LogAdmin = LogAdmin 0\<rparr>"

definition demo_metric_request :: MetricListRequest where
  "demo_metric_request = \<lparr>mr_ProjectID = [], mr_Name = ''m'', mr_Filter = [], mr_Verbose = False,
     mr_Namespace = [], mr_Res = [], mr_Watch = True, mr_Extra = [], mr_Active = True,
     mr_Val = F64 1 0, mr_Json = False\<rparr>"

lemma demo_new: "NewStackdriver demo_tele [] w = (Inr demo_client, w)"
  by (simp add: NewStackdriver_def demo_tele_def demo_client_def)

section \<open>The loops\<close>

interpretation tl: drain_loop "tail_recv api stream" cb
  "\<lambda>err s w. (if err = EOF then s else cb [] s, tail_close_send api stream w)" "tail_loop api stream cb"
  for api stream cb
  by unfold_locales (simp_all add: tail_loop.simps)

interpretation ll: drain_loop "next_log api iter" "\<lambda>x logs. logs @ [x]"
  "\<lambda>err logs w. ((logs, if err = IteratorDone then None else Some err), w)" "log_list_loop api iter"
  for api iter
  by unfold_locales (simp_all add: log_list_loop.simps)

text \<open>A stream that never ends keeps its goroutine running.\<close>

lemma tail_loop_endless:
  assumes "\<forall>w. \<exists>entries w'. tail_recv api stream w = (Inr entries, w')"
  shows "tail_loop api stream cb s w = None"
proof -
  let ?endless = "\<lambda>api stream. \<forall>w. \<exists>entries w'. tail_recv api stream w = (Inr entries, w')"
  have "\<not> ?endless api stream" if "tail_loop api stream cb s w = Some y" for y
    using _ that
  proof (rule tail_loop.raw_induct [where P = "\<lambda>api stream cb s w y. \<not> ?endless api stream"])
    fix f :: "'a tele_api \<Rightarrow> tail_stream \<Rightarrow> (log_entry list \<Rightarrow> 'b \<Rightarrow> 'b) \<Rightarrow> 'b \<Rightarrow> 'a \<Rightarrow> ('b \<times> 'a) option"
    fix api stream cb s w y
    assume IH: "\<And>api stream cb s w y. f api stream cb s w = Some y \<Longrightarrow> \<not> ?endless api stream"
      and run: "(case tail_recv api stream w of
          (Inl err, w1) \<Rightarrow>
            if err = EOF then Some (s, tail_close_send api stream w1)
            else Some (cb [] s, tail_close_send api stream w1)
        | (Inr entries, w1) \<Rightarrow> f api stream cb (cb entries s) w1) = Some y"
    show "\<not> ?endless api stream"
    proof
      assume *: "?endless api stream"
      then obtain entries w' where "tail_recv api stream w = (Inr entries, w')" by blast
      with run have "f api stream cb (cb entries s) w' = Some y" by simp
      with IH * show False by blast
    qed
  qed
  with assms show ?thesis by (cases "tail_loop api stream cb s w") auto
qed

lemma fold_snoc: "fold (\<lambda>x l. l @ [x]) xs l = l @ xs"
  by (induction xs arbitrary: l) simp_all

lemma sd_LogList_all:
  assumes "admin_logs api (sd_LogAdmin s) w = (iter, w1)" and "feed (next_log api iter) w1 ls err w2"
  shows "sd_LogList api s w = Some ((ls, if err = IteratorDone then None else Some err), w2)"
  using assms(1) ll.run_feed [OF assms(2), of "[]"] by (simp add: sd_LogList_def fold_snoc)

lemma logs_loop_reads:
  assumes "reads (next_entry api iter) w es w'" and "length acc + length es \<le> 20"
  shows "logs_loop api iter acc w = logs_loop api iter (acc @ es) w'"
  using assms
proof (induction arbitrary: acc)
  case (reads_one w x w1 xs w')
  then have "logs_loop api iter acc w = logs_loop api iter (acc @ [x]) w1"
    by (subst logs_loop.simps) simp
  with reads_one show ?case by simp
qed simp

lemma logs_loop_feed:
  assumes "feed (next_entry api iter) w es err w'"
  shows "\<exists>w''. logs_loop api iter [] w = (if 20 \<le> length es then ((take 20 es, None), w'')
      else if err = IteratorDone then ((es, None), w') else (([], Some err), w'))
    \<and> (20 \<le> length es \<longrightarrow> reads (next_entry api iter) w (take 20 es) w'')"
proof (cases "20 \<le> length es")
  case True
  from assms obtain w1 where "reads (next_entry api iter) w es w1" by (auto simp: feed_iff_reads)
  from reads_take [OF this, of 20] obtain w2 where r: "reads (next_entry api iter) w (take 20 es) w2" by blast
  have "logs_loop api iter [] w = logs_loop api iter (take 20 es) w2"
    using logs_loop_reads [OF r, of "[]"] True by simp
  also have "\<dots> = ((take 20 es, None), w2)" using True by (simp add: logs_loop.simps [of _ _ "take 20 es"])
  finally show ?thesis using True r by auto
next
  case False
  from assms obtain w1 where r: "reads (next_entry api iter) w es w1" "next_entry api iter w1 = (Inl err, w')"
    by (auto simp: feed_iff_reads)
  have "logs_loop api iter [] w = logs_loop api iter es w1"
    using logs_loop_reads [OF r(1), of "[]"] False by simp
  with r(2) False show ?thesis by (simp add: logs_loop.simps [of _ _ es])
qed

text \<open>
  What logadmin documents of the entries of a filter: an iterator hands them out by their time, from
  the oldest to the newest, or with the option \<open>NewestFirst\<close> from the newest to the oldest, and
  ends with \<open>Done\<close> after the last, or earlier with an error. \<open>matching\<close> are the entries of the log
  that match a filter, \<open>time\<close> is the \<open>Timestamp\<close> of an entry.
\<close>

definition lists_entries :: "'w tele_api \<Rightarrow> (log_entry \<Rightarrow> int) \<Rightarrow> log_admin \<Rightarrow> (string \<Rightarrow> 'w \<Rightarrow> log_entry multiset) \<Rightarrow> bool" where
  "lists_entries api time la matching \<longleftrightarrow> (\<forall>opts f w iter w1.
     {g. EntriesFilter g \<in> set opts} = {f} \<longrightarrow> admin_entries api la opts w = (iter, w1) \<longrightarrow>
     (\<exists>es rest err w2. mset (es @ rest) = matching f w
        \<and> sorted_wrt (\<lambda>x y. if NewestFirst \<in> set opts then time y \<le> time x else time x \<le> time y) (es @ rest)
        \<and> feed (next_entry api iter) w1 es err w2 \<and> (err = IteratorDone \<longrightarrow> rest = [])))"

text \<open>
  C36: \<open>Logs\<close> returns the newest 20 of the entries of the log in the last hour, newest first, or all
  of them if they are fewer: no entry it leaves out is newer than one it returns. It does not read
  on after the twentieth, and an error before that gives the error and none of the entries
  already read.
\<close>

theorem Logs_newest:
  assumes "lists_entries api time (sd_LogAdmin s) matching" and "clock api w = (now, w1)"
    and "M = matching (logs_filter (sd_projectID s) logName (RFC3339 api (now - hour))) w1"
  shows "\<exists>es err w'. Logs api s logName w = ((es, err), w')
    \<and> (err = None \<longrightarrow> length es = min 20 (size M) \<and> mset es \<subseteq># M
        \<and> sorted_wrt (\<lambda>x y. time y \<le> time x) es
        \<and> (\<forall>x \<in># M - mset es. \<forall>y \<in> set es. time x \<le> time y))
    \<and> (err \<noteq> None \<longrightarrow> es = [])
    \<and> (length es = 20 \<longrightarrow> (\<exists>opts iter w2. admin_entries api (sd_LogAdmin s) opts w1 = (iter, w2)
        \<and> reads (next_entry api iter) w2 es w'))"
proof -
  let ?f = "logs_filter (sd_projectID s) logName (RFC3339 api (now - hour))"
  let ?opts = "[EntriesFilter ?f, NewestFirst]"
  obtain iter w2 where iter: "admin_entries api (sd_LogAdmin s) ?opts w1 = (iter, w2)" by fastforce
  have logs: "Logs api s logName w = logs_loop api iter [] w2" using assms(2) iter by (simp add: Logs_def Let_def)
  have "{g. EntriesFilter g \<in> set ?opts} = {?f}" by auto
  from assms(1) [unfolded lists_entries_def, rule_format, OF this iter] obtain es rest err w3 where
    all: "mset (es @ rest) = M" "sorted_wrt (\<lambda>x y. time y \<le> time x) (es @ rest)"
    and feed: "feed (next_entry api iter) w2 es err w3" "err = IteratorDone \<longrightarrow> rest = []"
    by (auto simp: assms(3))
  have newest: "mset xs \<subseteq># M \<and> sorted_wrt (\<lambda>x y. time y \<le> time x) xs
      \<and> (\<forall>x \<in># M - mset xs. \<forall>y \<in> set xs. time x \<le> time y)" if "es @ rest = xs @ ys" for xs ys
    using all(2) unfolding that all(1) [symmetric] by (auto simp: sorted_wrt_append)
  from logs_loop_feed [OF feed(1)] obtain w'' where run: "logs_loop api iter [] w2 = (if 20 \<le> length es then ((take 20 es, None), w'')
      else if err = IteratorDone then ((es, None), w3) else (([], Some err), w3))"
    "20 \<le> length es \<longrightarrow> reads (next_entry api iter) w2 (take 20 es) w''" by blast
  have size: "size M = length es + length rest" using all(1) by (metis size_mset length_append)
  show ?thesis
  proof (cases "20 \<le> length es")
    case True
    have "es @ rest = take 20 es @ (drop 20 es @ rest)" by simp
    from newest [OF this] True run iter size logs show ?thesis by auto
  next
    case False
    with newest [of es "[]"] feed(2) run(1) size logs show ?thesis by auto
  qed
qed

text \<open>A service with 25 entries, at the times 1 to 25, that keeps what it documents.\<close>

definition demo_log :: "nat tele_api" where
  "demo_log = demo_tele\<lparr>
     admin_entries := (\<lambda>_ opts w. if NewestFirst \<in> set opts then (LogIter 1, 25) else (LogIter 0, 0)),
     next_entry := (\<lambda>iter w. if iter = LogIter 1
        then (if w = 0 then (Inl IteratorDone, 0) else (Inr (LogEntry w), w - 1))
        else (if 25 \<le> w then (Inl IteratorDone, w) else (Inr (LogEntry (w + 1)), w + 1)))\<rparr>"

definition entry_number :: "log_entry \<Rightarrow> int" where
  "entry_number e = (case e of LogEntry n \<Rightarrow> int n)"

lemma demo_log_down: "feed (next_entry demo_log (LogIter 1)) n (map LogEntry (rev [1..<Suc n])) IteratorDone 0"
  by (induction n) (auto simp: feed_Nil feed_Cons demo_log_def)

lemma demo_log_up: "n \<le> 25 \<Longrightarrow> feed (next_entry demo_log (LogIter 0)) (25 - n) (map LogEntry [26 - n..<26]) IteratorDone 25"
proof (induction n)
  case (Suc n)
  have "next_entry demo_log (LogIter 0) (25 - Suc n) = (Inr (LogEntry (25 - n)), 25 - n)"
    using Suc.prems by (auto simp: demo_log_def)
  moreover have "[26 - Suc n..<26] = (25 - n) # [26 - n..<26]"
    using Suc.prems upt_conv_Cons [of "25 - n" 26] Suc_diff_le [of n 25] by simp
  ultimately show ?case using Suc by (simp add: feed_Cons)
qed (simp add: feed_Nil demo_log_def)

lemma demo_log_lists: "lists_entries demo_log entry_number la (\<lambda>f w. mset (map LogEntry [1..<26]))"
  unfolding lists_entries_def
proof (intro allI impI)
  fix opts f w iter w1
  assume "admin_entries demo_log la opts w = (iter, w1)"
  then have iter: "iter = (if NewestFirst \<in> set opts then LogIter 1 else LogIter 0)"
    "w1 = (if NewestFirst \<in> set opts then 25 else 0)" by (auto simp: demo_log_def split: if_splits)
  have sorted: "sorted_wrt (\<lambda>x y. entry_number x \<le> entry_number y) (map LogEntry [1..<26])"
    "sorted_wrt (\<lambda>x y. entry_number y \<le> entry_number x) (map LogEntry (rev [1..<26]))"
    by (auto simp: sorted_wrt_map entry_number_def sorted_wrt_rev intro: sorted_wrt_mono_rel [OF _ sorted_upt])
  show "\<exists>es rest err w2. mset (es @ rest) = mset (map LogEntry [1..<26])
        \<and> sorted_wrt (\<lambda>x y. if NewestFirst \<in> set opts then entry_number y \<le> entry_number x else entry_number x \<le> entry_number y) (es @ rest)
        \<and> feed (next_entry demo_log iter) w1 es err w2 \<and> (err = IteratorDone \<longrightarrow> rest = [])"
  proof (cases "NewestFirst \<in> set opts")
    case True
    with iter demo_log_down [of 25] sorted(2) show ?thesis
      by (intro exI [of _ "map LogEntry (rev [1..<26])"] exI [of _ "[]"] exI) (simp del: upt_Suc)
  next
    case False
    with iter demo_log_up [of 25] sorted(1) show ?thesis
      by (intro exI [of _ "map LogEntry [1..<26]"] exI [of _ "[]"] exI) (simp del: upt_Suc)
  qed
qed

theorem Logs_newest_witness:
  "\<exists>es err w'. Logs demo_log demo_client ''stdout'' 0 = ((es, err), w') \<and> (err = None \<longrightarrow> length es = 20)"
proof -
  have "clock demo_log 0 = (0, 1)" by (simp add: demo_log_def demo_tele_def)
  from Logs_newest [OF demo_log_lists this refl, of demo_client "''stdout''"] show ?thesis by auto
qed

section \<open>Watching a log\<close>

lemma fold_print_tail:
  "fold print_tail batches out = out @ concat (map (\<lambda>e. [OutTailEntry e, OutBlank]) (concat batches))"
  by (induction batches arbitrary: out) (simp_all add: print_tail_def)

text \<open>
  Watching a log by name. The filter that is sent names the log, and a filter the user gave
  is lost: the run is the same for every one. Once the stream is open the command never
  returns, and its goroutine prints the entries of all the batches in order, each followed by
  a blank line, until the stream ends or fails; then it closes the stream.
\<close>

lemma LogList_watch:
  assumes "NewStackdriver api (mr_ProjectID r) w = (Inr sd, w1)"
    and "mr_Watch r" and "mr_Name r \<noteq> []"
    and "tail_open api (sd_LoggingV2 sd) w1 = (Inr stream, w2)"
    and "tail_send api stream \<lparr>tq_ResourceNames = [''projects/'' @ sd_projectID sd],
           tq_Filter = watch_filter (sd_projectID sd) (mr_Name r), tq_BufferNanos = 1\<rparr> w2 = (None, w3)"
    and "feed (tail_recv api stream) w3 batches err w4"
  shows "LogList api (r\<lparr>mr_Filter := userFilter\<rparr>) w
      = Some (Inr (Watches stream, r\<lparr>mr_Filter := watch_filter (sd_projectID sd) (mr_Name r)\<rparr>, [], w3))
    \<and> tail_loop api stream print_tail [] w3
      = Some (concat (map (\<lambda>e. [OutTailEntry e, OutBlank]) (concat batches)), tail_close_send api stream w4)"
proof
  show "LogList api (r\<lparr>mr_Filter := userFilter\<rparr>) w
      = Some (Inr (Watches stream, r\<lparr>mr_Filter := watch_filter (sd_projectID sd) (mr_Name r)\<rparr>, [], w3))"
    using assms(1-5) by (simp add: LogList_def tail_filter_def LogTail_def Let_def)
  show "tail_loop api stream print_tail [] w3
      = Some (concat (map (\<lambda>e. [OutTailEntry e, OutBlank]) (concat batches)), tail_close_send api stream w4)"
    using tl.run_feed [OF assms(6), of print_tail "[]"]
    by (simp add: fold_print_tail print_tail_def)
qed

lemma LogList_watch_witness:
  "LogList demo_tele (demo_metric_request\<lparr>mr_Filter := ''severity>=ERROR''\<rparr>) 0
      = Some (Inr (Watches (TailStream 0),
          demo_metric_request\<lparr>mr_Filter := watch_filter ''p1'' ''m''\<rparr>, [], 0))
    \<and> tail_loop demo_tele (TailStream 0) print_tail [] 0
      = Some ([OutTailEntry (LogEntry 0), OutBlank, OutTailEntry (LogEntry 1), OutBlank], 2)"
proof -
  have f: "feed (tail_recv demo_tele (TailStream 0)) 0 [[LogEntry 0], [LogEntry 1]] EOF 2"
    by (simp add: feed_Cons feed_Nil demo_tele_def)
  have "mr_Watch demo_metric_request" "mr_Name demo_metric_request \<noteq> []"
    by (simp_all add: demo_metric_request_def)
  from LogList_watch [OF _ this _ _ f, where w = 0 and sd = demo_client
      and userFilter = "''severity>=ERROR''"] demo_new
  show ?thesis by (simp add: demo_metric_request_def demo_client_def demo_tele_def)
qed

section \<open>Adding a value\<close>

text \<open>
  \<open>MetricUpdate\<close> sends one request with one point for the metric and closes the client.
  The point is always on the resource \<open>global\<close> of the project: the resource the user named
  changes nothing. Its interval is ten seconds, and it is not empty as long as the two
  readings of the clock are at most nine seconds apart.
\<close>

lemma MetricUpdate_request:
  assumes "NewStackdriver api (mr_ProjectID r) w = (Inr sd, w1)"
    and "clock api w1 = (t1, w2)" and "clock api w2 = (t2, w3)"
    and "create_series api (sd_MetricClient sd) req w3 = (err, w4)"
    and "req = \<lparr>cr_Name = ''projects/'' @ sd_projectID sd, cr_MetricType = mr_Name r,
      cr_ResourceType = ''global'', cr_ResourceLabels = [(''project_id'', sd_projectID sd)],
      cr_EndSeconds = t1 div second, cr_StartSeconds = t2 div second - 10, cr_Double = mr_Val r\<rparr>"
  shows "MetricUpdate api (r\<lparr>mr_Res := res\<rparr>) w = (err, sd_Close api sd w4)
    \<and> (t2 \<le> t1 + 9 * second \<longrightarrow> cr_StartSeconds req < cr_EndSeconds req)"
proof
  show "MetricUpdate api (r\<lparr>mr_Res := res\<rparr>) w = (err, sd_Close api sd w4)"
    using assms by (simp add: MetricUpdate_def CreateOrAddVal_def unix_seconds_def)
  show "t2 \<le> t1 + 9 * second \<longrightarrow> cr_StartSeconds req < cr_EndSeconds req"
    unfolding assms(5) second_def by simp linarith
qed

lemma MetricUpdate_request_witness:
  "MetricUpdate demo_tele (demo_metric_request\<lparr>mr_Res := ''gce_instance''\<rparr>) 0 = (None, 3)"
  using MetricUpdate_request [of demo_tele demo_metric_request 0 demo_client 0 0 1 second 2 _ None 3
      "''gce_instance''"] demo_new
  by (simp add: demo_tele_def demo_client_def demo_metric_request_def sd_Close_def second_def)

section \<open>Listing metrics and resources\<close>

lemma query_series_error: "query_series api s f t0 t1 w = ((ts, Some err), w') \<Longrightarrow> ts = []"
  by (auto simp: query_series_def Let_def split: prod.splits sum.splits if_splits)

lemma print_metric_silent:
  assumes "\<not> mr_Verbose r" and "print_metric api sd r v (out, w) = Inr (out', w')"
  shows "out' = out"
  using assms
  by (auto simp: print_metric_def ListTimeSeries_def split: prod.splits if_splits dest: query_series_error)

text \<open>
  \<open>MetricList\<close> without a name and without \<open>Verbose\<close> prints nothing, whatever metrics there
  are and whatever series they have: a line is printed for the series that come with an
  error, and there are none.
\<close>

lemma MetricList_lists_nothing:
  assumes "mr_Name r = []" and "\<not> mr_Verbose r" and "MetricList api r w = Inr (err, out, w')"
  shows "out = []"
proof -
  have "out' = []" if "loopM (print_metric api sd r) ml ([], w2) = Inr (out', w3)" for sd ml w2 out' w3
    using loopM_inv [OF that, of "\<lambda>s. fst s = []"] print_metric_silent [OF assms(2)] by force
  with assms(1,3) show ?thesis
    by (auto simp: MetricList_def bnd_eq_Inr_iff split: prod.splits sum.splits option.splits)
qed

lemma MetricList_lists_nothing_witness:
  "\<exists>w'. MetricList demo_tele (demo_metric_request\<lparr>mr_Name := []\<rparr>) 0 = Inr (None, [], w')"
proof -
  let ?r = "demo_metric_request\<lparr>mr_Name := []\<rparr>"
  have "\<exists>out w'. MetricList demo_tele ?r 0 = Inr (None, out, w')"
    using demo_new by (simp add: MetricList_def ListMetrics_def print_metric_def ListTimeSeries_def
        query_series_def demo_metric_request_def demo_tele_def)
  then obtain out w' where run: "MetricList demo_tele ?r 0 = Inr (None, out, w')" by blast
  have "out = []"
    by (rule MetricList_lists_nothing [OF _ _ run]) (simp_all add: demo_metric_request_def)
  with run show ?thesis by blast
qed

text \<open>The number a series shows, and the line it is printed on.\<close>

definition series_value :: "time_series \<Rightarrow> (float64 \<times> labels) option" where
  "series_value t =
     (case ts_Points t of [] \<Rightarrow> None | p # _ \<Rightarrow>
     (case pt_Value p of None \<Rightarrow> None | Some v \<Rightarrow>
     (case tv_DoubleValue v of None \<Rightarrow> None | Some d \<Rightarrow>
     (case ts_Metric t of None \<Rightarrow> None | Some m \<Rightarrow> Some (d, tm_Labels m)))))"

definition series_line :: "MetricListRequest \<Rightarrow> time_series \<Rightarrow> out_line list" where
  "series_line r t = (case series_value t of None \<Rightarrow> [] | Some (d, ls) \<Rightarrow>
     if mr_Active r \<and> f64_is_zero d then [] else if mr_Json r then [OutSeriesJSON t] else [OutValueLabels d ls])"

lemma print_resource_value:
  "series_value t \<noteq> None \<Longrightarrow> print_resource r t out = Inr (out @ series_line r t)"
  by (auto simp: series_value_def series_line_def print_resource_def idx_def double_value_def deref_def
      split: option.splits list.splits)

lemma print_resource_panics:
  "series_value t = None \<Longrightarrow> ts_Metric t \<noteq> None \<Longrightarrow> mr_Active r \<or> \<not> mr_Json r
    \<Longrightarrow> \<exists>p. print_resource r t out = Inl p"
  by (auto simp: series_value_def print_resource_def idx_def double_value_def deref_def Let_def
      split: option.splits list.splits)

lemma print_resources:
  "\<forall>t \<in> set ts. series_value t \<noteq> None
    \<Longrightarrow> loopM (print_resource r) ts out = Inr (out @ concat (map (series_line r) ts))"
  by (induction ts arbitrary: out) (simp_all add: print_resource_value)

text \<open>
  \<open>MetricListRequest.ListResources\<close> prints one line for each series, in order, and leaves
  out the series whose latest value is zero if only active ones are asked for. It panics on
  the first series that has no point, or whose value is not a double, so also on every metric
  of integers, unless all series are printed as JSON.
\<close>

lemma ListResources_prints:
  assumes "NewStackdriver api (mr_ProjectID r) w = (Inr sd, w1)"
    and "sd_ListResources api sd (mr_Namespace r) (mr_Name r) (mr_Extra r) w1 = (ignored, w2)"
    and "clock api w2 = (t1, w3)" and "clock api w3 = (t2, w4)"
    and "ListTimeSeries api sd (mr_Namespace r) (mr_Res r) (mr_Name r) (mr_Extra r) (t1 - hour) t2 w4
      = ((shown @ rest, None), w5)"
    and "\<forall>t \<in> set shown. series_value t \<noteq> None"
  shows "(rest = [] \<longrightarrow> request_ListResources api r w = Inr (concat (map (series_line r) shown), w5))
    \<and> (rest \<noteq> [] \<and> series_value (hd rest) = None \<and> ts_Metric (hd rest) \<noteq> None \<and> (mr_Active r \<or> \<not> mr_Json r)
       \<longrightarrow> (\<exists>p. request_ListResources api r w = Inl p))"
proof -
  have run: "request_ListResources api r w
      = bnd (loopM (print_resource r) (shown @ rest) []) (\<lambda>out. Inr (out, w5))"
    using assms(1-5) by (simp add: request_ListResources_def)
  moreover have "loopM (print_resource r) (shown @ rest) []
      = loopM (print_resource r) rest (concat (map (series_line r) shown))"
    using print_resources [OF assms(6), of r "[]"] by (simp add: loopM_append)
  ultimately show ?thesis
    using print_resource_panics [of "hd rest" r "concat (map (series_line r) shown)"]
    by (cases rest) auto
qed

lemma ListResources_prints_witness:
  "request_ListResources demo_tele demo_metric_request 0 = Inr ([OutValueLabels (F64 3 0) []], 3)"
  using ListResources_prints [of demo_tele demo_metric_request 0 demo_client 0 _ 1 second 2 "2 * second" 3
      "[demo_series (F64 0 0), demo_series (F64 3 0)]" "[]" 3] demo_new
  by (simp add: demo_tele_def demo_metric_request_def sd_ListResources_def ListTimeSeries_def
      query_series_def demo_series_def series_value_def series_line_def)

text \<open>A client has a project: the one asked for, or else that of the environment.\<close>

lemma NewStackdriver_project:
  "NewStackdriver api projectID w = (Inr sd, w')
    \<Longrightarrow> sd_projectID sd = (if projectID = [] then Getenv api ''PROJECT_ID'' else projectID) \<and> sd_projectID sd \<noteq> []"
  by (auto simp: NewStackdriver_def Let_def split: sum.splits prod.splits if_splits)

end
