(* ===== verification/AuthThreads.thy ===== *)
theory AuthThreads
  imports AuthProvider
begin

text \<open>
  Requests that share one round tripper: \<open>RoundTrip\<close> of \<open>gcp/k8s_auth_provider.go\<close> takes no
  lock, and client-go calls it from many goroutines. Here each goroutine is a program counter
  into its body, and a step is one access to the shared state: the test of \<open>exp\<close>, the call of
  the token source with its results, the store of \<open>token\<close>, the store of \<open>exp\<close>, the read of
  \<open>token\<close> for the header. The steps of different goroutines and the clock interleave freely;
  memory is taken to be sequentially consistent, which is the best the code can hope for.
\<close>

section \<open>Goroutines\<close>

datatype rt_pc =
    AtCheck
  | AtFetch
  | AtToken string "go_error option"
  | AtExp
  | AtSend
  | Sent string
  | Failed go_error
  | Crashed

text \<open>
  The shared round tripper, the clock and the world, the program counter of each goroutine, and
  two histories: the tokens the source issued, and how often it failed.
\<close>

record ('s, 'w) rt_threads =
  th_rt :: "'s auth_rt"
  th_now :: int
  th_world :: 'w
  th_pc :: "nat \<Rightarrow> rt_pc"
  th_issued :: "string list"
  th_failures :: nat

definition goto :: "nat \<Rightarrow> rt_pc \<Rightarrow> ('s, 'w) rt_threads \<Rightarrow> ('s, 'w) rt_threads" where
  "goto i pc s = s\<lparr>th_pc := (th_pc s)(i := pc)\<rparr>"

definition fetch_step :: "('s, 'w) get_token \<Rightarrow> nat \<Rightarrow> ('s, 'w) rt_threads \<Rightarrow> ('s, 'w) rt_threads" where
  "fetch_step get i s =
     (case art_creds (th_rt s) of
        None \<Rightarrow> goto i Crashed s
      | Some c \<Rightarrow>
          (case get c [] (th_world s) of
             Inl p \<Rightarrow> goto i Crashed s
           | Inr ((tok, err), c', w') \<Rightarrow>
               goto i (AtToken tok err)
                 (s\<lparr>th_rt := (th_rt s)\<lparr>art_creds := Some c'\<rparr>, th_world := w',
                    th_issued := (if err = None then tok # th_issued s else th_issued s),
                    th_failures := (if err = None then th_failures s else Suc (th_failures s))\<rparr>)))"

definition thread_step :: "('s, 'w) get_token \<Rightarrow> nat \<Rightarrow> ('s, 'w) rt_threads \<Rightarrow> ('s, 'w) rt_threads" where
  "thread_step get i s =
     (case th_pc s i of
        AtCheck \<Rightarrow> goto i (if since (th_now s) (art_exp (th_rt s)) > 30 * minute then AtFetch else AtSend) s
      | AtFetch \<Rightarrow> fetch_step get i s
      | AtToken tok err \<Rightarrow>
          goto i (case err of None \<Rightarrow> AtExp | Some e \<Rightarrow> Failed e)
            (s\<lparr>th_rt := (th_rt s)\<lparr>art_token := tok\<rparr>\<rparr>)
      | AtExp \<Rightarrow> goto i AtSend (s\<lparr>th_rt := (th_rt s)\<lparr>art_exp := th_now s\<rparr>\<rparr>)
      | AtSend \<Rightarrow> goto i (Sent (art_token (th_rt s))) s
      | _ \<Rightarrow> s)"

text \<open>A schedule says whose step is next and when time passes.\<close>

datatype rt_event = Run nat | Tick nat

definition rt_event_step :: "('s, 'w) get_token \<Rightarrow> rt_event \<Rightarrow> ('s, 'w) rt_threads \<Rightarrow> ('s, 'w) rt_threads" where
  "rt_event_step get e s =
     (case e of Run i \<Rightarrow> thread_step get i s | Tick d \<Rightarrow> s\<lparr>th_now := th_now s + int d\<rparr>)"

definition run_threads :: "('s, 'w) get_token \<Rightarrow> rt_event list \<Rightarrow> ('s, 'w) rt_threads \<Rightarrow> ('s, 'w) rt_threads" where
  "run_threads get sched s = fold (rt_event_step get) sched s"

lemma run_threads_simps [simp]:
  "run_threads get [] s = s"
  "run_threads get (e # sched) s = run_threads get sched (rt_event_step get e s)"
  by (simp_all add: run_threads_def)

text \<open>The round tripper as the plugin makes it, with every goroutine at its beginning.\<close>

definition start_threads :: "'s \<Rightarrow> int \<Rightarrow> 'w \<Rightarrow> ('s, 'w) rt_threads" where
  "start_threads c now w =
     \<lparr>th_rt = \<lparr>art_token = [], art_exp = zero_time, art_creds = Some c\<rparr>, th_now = now, th_world = w,
      th_pc = (\<lambda>_. AtCheck), th_issued = [], th_failures = 0\<rparr>"

text \<open>The states the goroutines can get into.\<close>

inductive rt_reach :: "('s, 'w) get_token \<Rightarrow> ('s, 'w) rt_threads \<Rightarrow> ('s, 'w) rt_threads \<Rightarrow> bool"
  for get s0 where
  rt_reach_start: "rt_reach get s0 s0"
| rt_reach_run: "rt_reach get s0 s \<Longrightarrow> rt_reach get s0 (thread_step get i s)"
| rt_reach_tick: "rt_reach get s0 s \<Longrightarrow> rt_reach get s0 (s\<lparr>th_now := th_now s + int d\<rparr>)"

lemma rt_reach_event: "rt_reach get s0 s \<Longrightarrow> rt_reach get s0 (rt_event_step get e s)"
  by (cases e) (simp_all add: rt_event_step_def rt_reach_run rt_reach_tick)

lemma rt_reach_schedule: "rt_reach get s0 s \<Longrightarrow> rt_reach get s0 (run_threads get sched s)"
  by (induction sched arbitrary: s) (simp_all add: rt_reach_event)

section \<open>The invariant\<close>

fun pc_ok :: "string list \<Rightarrow> nat \<Rightarrow> rt_pc \<Rightarrow> bool" where
  "pc_ok issued failures (AtToken tok None) = (tok \<in> set issued)"
| "pc_ok issued failures (AtToken tok (Some e)) = (tok = [] \<and> 0 < failures)"
| "pc_ok issued failures (Sent tok) = (tok \<in> set issued \<or> tok = [] \<and> 0 < failures)"
| "pc_ok issued failures Crashed = False"
| "pc_ok issued failures pc = True"

text \<open>Whether a goroutine is past the test or the fetch, and will send what the cache holds.\<close>

fun relies_on_cache :: "rt_pc \<Rightarrow> bool" where
  "relies_on_cache AtExp = True"
| "relies_on_cache AtSend = True"
| "relies_on_cache pc = False"

definition threads_inv :: "('s \<Rightarrow> bool) \<Rightarrow> ('s, 'w) rt_threads \<Rightarrow> bool" where
  "threads_inv ready s \<longleftrightarrow>
     (\<exists>c. art_creds (th_rt s) = Some c \<and> ready c)
     \<and> (\<forall>i. pc_ok (th_issued s) (th_failures s) (th_pc s i))
     \<and> (art_token (th_rt s) \<in> set (th_issued s) \<or> art_token (th_rt s) = [])
     \<and> (art_token (th_rt s) \<in> set (th_issued s) \<or> 0 < th_failures s
        \<or> th_now s - art_exp (th_rt s) > 30 * minute \<and> (\<forall>i. \<not> relies_on_cache (th_pc s i)))"

lemma pc_ok_mono:
  "pc_ok issued failures pc \<Longrightarrow> set issued \<subseteq> set issued' \<Longrightarrow> failures \<le> failures'
    \<Longrightarrow> pc_ok issued' failures' pc"
  by (induction issued failures pc rule: pc_ok.induct) auto

lemma th_pc_goto [simp]: "th_pc (goto i pc s) j = (if j = i then pc else th_pc s j)"
  by (simp add: goto_def)

lemma goto_simps [simp]:
  "th_rt (goto i pc s) = th_rt s" "th_now (goto i pc s) = th_now s" "th_world (goto i pc s) = th_world s"
  "th_issued (goto i pc s) = th_issued s" "th_failures (goto i pc s) = th_failures s"
  by (simp_all add: goto_def)

lemma threads_inv_start: "ready c \<Longrightarrow> 0 \<le> now \<Longrightarrow> threads_inv ready (start_threads c now w)"
  by (simp add: threads_inv_def start_threads_def zero_time_def minute_def)

lemma threads_inv_tick: "threads_inv ready s \<Longrightarrow> threads_inv ready (s\<lparr>th_now := th_now s + int d\<rparr>)"
  by (auto simp: threads_inv_def)

context token_source
begin

lemma threads_inv_fetch:
  assumes "threads_inv ready s" and "th_pc s i = AtFetch"
  shows "threads_inv ready (fetch_step get i s)"
proof -
  from assms(1) obtain c where c: "art_creds (th_rt s) = Some c" "ready c"
    by (auto simp: threads_inv_def)
  have ok: "pc_ok (th_issued s) (th_failures s) (th_pc s j)" for j
    using assms(1) by (simp add: threads_inv_def)
  have mono: "pc_ok (tok # th_issued s) (th_failures s) (th_pc s j)"
    "pc_ok (th_issued s) (Suc (th_failures s)) (th_pc s j)" for tok j
    by (rule pc_ok_mono [OF ok]; auto)+
  from c(2) show ?thesis
  proof (cases rule: get_cases [of c "[]" "th_world s"])
    case (token tok c' w')
    with c assms(1) mono show ?thesis by (auto simp: fetch_step_def threads_inv_def)
  next
    case (failure err c' w')
    with c assms(1) mono show ?thesis by (auto simp: fetch_step_def threads_inv_def)
  qed
qed

lemma relies_on_cacheD:
  assumes "threads_inv ready s" and "relies_on_cache (th_pc s i)"
  shows "art_token (th_rt s) \<in> set (th_issued s) \<or> art_token (th_rt s) = [] \<and> 0 < th_failures s"
  using assms by (auto simp: threads_inv_def)

lemma threads_inv_step:
  assumes "threads_inv ready s"
  shows "threads_inv ready (thread_step get i s)"
proof -
  have pc: "pc_ok (th_issued s) (th_failures s) (th_pc s i)" using assms by (simp add: threads_inv_def)
  show ?thesis
  proof (cases "th_pc s i")
    case AtCheck
    with assms show ?thesis by (auto simp: thread_step_def threads_inv_def since_gt)
  next
    case AtFetch
    with threads_inv_fetch [OF assms] show ?thesis by (simp add: thread_step_def)
  next
    case (AtToken tok err)
    with assms pc show ?thesis by (cases err) (auto simp: thread_step_def threads_inv_def)
  next
    case AtExp
    then have "art_token (th_rt s) \<in> set (th_issued s) \<or> art_token (th_rt s) = [] \<and> 0 < th_failures s"
      by (intro relies_on_cacheD [OF assms, of i]) simp
    with assms AtExp show ?thesis by (auto simp: thread_step_def threads_inv_def)
  next
    case AtSend
    then have "art_token (th_rt s) \<in> set (th_issued s) \<or> art_token (th_rt s) = [] \<and> 0 < th_failures s"
      by (intro relies_on_cacheD [OF assms, of i]) simp
    with assms AtSend show ?thesis by (auto simp: thread_step_def threads_inv_def)
  qed (use assms in \<open>simp_all add: thread_step_def\<close>)
qed

lemma threads_inv_reach:
  assumes "rt_reach get s0 s" and "threads_inv ready s0"
  shows "threads_inv ready s"
  using assms
  by (induction rule: rt_reach.induct) (auto intro: threads_inv_step threads_inv_tick)

end

section \<open>Every goroutine finishes\<close>

fun steps_left :: "rt_pc \<Rightarrow> nat" where
  "steps_left AtCheck = 5"
| "steps_left AtFetch = 4"
| "steps_left (AtToken tok err) = 3"
| "steps_left AtExp = 2"
| "steps_left AtSend = 1"
| "steps_left pc = 0"

lemma steps_left_0 [simp]: "steps_left pc = 0 \<longleftrightarrow> (\<exists>tok. pc = Sent tok) \<or> (\<exists>e. pc = Failed e) \<or> pc = Crashed"
  by (cases pc) auto

lemma thread_step_left: "steps_left (th_pc (thread_step get i s) i) \<le> steps_left (th_pc s i) - 1"
  by (auto simp: thread_step_def fetch_step_def split: rt_pc.split option.split sum.split)

lemma thread_step_other: "j \<noteq> i \<Longrightarrow> th_pc (thread_step get i s) j = th_pc s j"
  by (auto simp: thread_step_def fetch_step_def split: rt_pc.split option.split sum.split)

lemma run_threads_left:
  "steps_left (th_pc (run_threads get sched s) i) \<le> steps_left (th_pc s i) - count_list sched (Run i)"
proof (induction sched arbitrary: s)
  case (Cons e sched)
  have "steps_left (th_pc (rt_event_step get e s) i) \<le> steps_left (th_pc s i) - (if e = Run i then 1 else 0)"
    using thread_step_left [of get i s] thread_step_other [of i _ get s]
    by (cases e) (auto simp: rt_event_step_def)
  with Cons [of "rt_event_step get e s"] show ?case by (auto split: if_splits)
qed simp

text \<open>
  A request through a shared round tripper always ends: whatever the other goroutines do and
  whatever the token source answers, a goroutine that gets five steps has forwarded its
  request, has returned the error of the source, or has panicked.
\<close>

lemma shared_requests_finish:
  assumes "5 \<le> count_list sched (Run i)"
  shows "steps_left (th_pc (run_threads get sched s) i) = 0"
proof -
  have "steps_left (th_pc s i) \<le> 5" by (cases "th_pc s i") auto
  with assms run_threads_left [of get sched s i] show ?thesis by linarith
qed

lemma shared_requests_finish_witness:
  "steps_left (th_pc (run_threads (GetToken demo_api)
     (concat (replicate 5 [Run 0, Tick 7, Run 1])) (start_threads demo_cluster 0 0)) 1) = 0"
  by (rule shared_requests_finish) (simp add: eval_nat_numeral)

section \<open>Alone\<close>

text \<open>
  The steps of a goroutine are \<open>RoundTrip\<close>: when no other goroutine runs and the clock moves on
  by \<open>d\<close> while the source answers, five steps leave the cache, the source and the world as
  \<open>refresh\<close> does, and the goroutine has sent its token, returned its error, or panicked with it.
\<close>

lemma lone_goroutine_refines:
  assumes "th_pc s i = AtCheck"
    and "s' = run_threads get [Run i, Run i, Tick d, Run i, Run i, Run i] s"
  shows "case refresh get (th_now s) (th_now s + int d) (th_rt s) (th_world s) of
      Inl p \<Rightarrow> th_pc s' i = Crashed
    | Inr (err, m, w') \<Rightarrow> th_rt s' = m \<and> th_world s' = w'
        \<and> th_pc s' i = (case err of None \<Rightarrow> Sent (art_token m) | Some e \<Rightarrow> Failed e)"
proof (cases "since (th_now s) (art_exp (th_rt s)) > 30 * minute")
  case False
  with assms show ?thesis by (simp add: refresh_def rt_event_step_def thread_step_def goto_def)
next
  case True
  show ?thesis
  proof (cases "art_creds (th_rt s)")
    case None
    with True assms show ?thesis
      by (simp add: refresh_def rt_event_step_def thread_step_def fetch_step_def goto_def)
  next
    case (Some c)
    show ?thesis
    proof (cases "get c [] (th_world s)")
      case (Inl p)
      with True Some assms show ?thesis
        by (simp add: refresh_def rt_event_step_def thread_step_def fetch_step_def goto_def)
    next
      case (Inr r)
      obtain tok err c' w' where "r = ((tok, err), c', w')" by (metis prod.exhaust)
      with True Some Inr assms show ?thesis
        by (cases err)
          (simp_all add: refresh_def rt_event_step_def thread_step_def fetch_step_def goto_def Let_def)
    qed
  qed
qed

lemma lone_goroutine_refines_witness:
  "\<exists>m w'. refresh (GetToken demo_api) 0 7 \<lparr>art_token = [], art_exp = zero_time, art_creds = Some demo_cluster\<rparr> 0
       = Inr (None, m, w')
     \<and> th_pc (run_threads (GetToken demo_api) [Run 3, Run 3, Tick 7, Run 3, Run 3, Run 3]
         (start_threads demo_cluster 0 0)) 3 = Sent (art_token m)"
proof -
  let ?m = "\<lparr>art_token = [], art_exp = zero_time, art_creds = Some demo_cluster\<rparr>"
  obtain m w' where r: "refresh (GetToken demo_api) 0 7 ?m 0 = Inr (None, m, w')"
  proof -
    obtain k' where "GetToken demo_api demo_cluster [] 0 = Inr ((''ns1/default/'', None), k', 1)"
      using GetToken_run [OF demo_cluster_client, of "[]" 0]
      by (auto simp: demo_api_def demo_cluster_def zero_cluster_def token_result_def or_default_def)
    then show thesis
      using that by (simp add: refresh_def since_def zero_time_def minute_def Let_def)
  qed
  have "th_pc (start_threads demo_cluster 0 (0 :: nat)) 3 = AtCheck" by (simp add: start_threads_def)
  from lone_goroutine_refines [OF this refl, of "GetToken demo_api" 7] r
  show ?thesis by (auto simp: start_threads_def)
qed

section \<open>Tokens\<close>

text \<open>
  Requests of a cluster that share one round tripper, under every interleaving of their
  steps: no goroutine panics, and every request that is forwarded carries a token the API
  server issued for this round tripper, or, only after the server has refused a token
  to one of them, the empty one.
\<close>

lemma shared_requests_tokens:
  assumes "client_of api k \<noteq> None" and "0 \<le> now"
    and "rt_reach (GetToken api) (start_threads k now w) s"
  shows "th_pc s i \<noteq> Crashed
    \<and> (th_pc s i = Sent tok \<longrightarrow> tok \<in> set (th_issued s) \<or> tok = [] \<and> 0 < th_failures s)"
proof -
  have "threads_inv (\<lambda>k. client_of api k \<noteq> None) s"
    by (rule kc.threads_inv_reach [OF assms(3)])
      (rule threads_inv_start [where ready = "\<lambda>k. client_of api k \<noteq> None", OF assms(1,2)])
  then have "pc_ok (th_issued s) (th_failures s) (th_pc s i)" by (simp add: threads_inv_def)
  then show ?thesis by (auto dest: sym)
qed

lemma shared_requests_tokens_witness:
  "th_pc (run_threads (GetToken demo_api) [Run 0, Run 1, Run 0, Run 1, Tick 9, Run 0] (start_threads demo_cluster 0 0)) 1
     \<noteq> Crashed"
proof -
  have "client_of demo_api demo_cluster \<noteq> None" by (simp add: demo_cluster_client)
  from shared_requests_tokens [OF this order_refl rt_reach_schedule [OF rt_reach_start]]
  show ?thesis by blast
qed

text \<open>The steps on a state that is written out, to run schedules by rewriting.\<close>

lemma run_check: "f i = AtCheck \<Longrightarrow> thread_step get i
    \<lparr>th_rt = \<lparr>art_token = t, art_exp = x, art_creds = c\<rparr>, th_now = n, th_world = w, th_pc = f, th_issued = iss, th_failures = fl\<rparr>
  = \<lparr>th_rt = \<lparr>art_token = t, art_exp = x, art_creds = c\<rparr>, th_now = n, th_world = w, th_pc = f(i := if n - x > 30 * minute then AtFetch else AtSend), th_issued = iss, th_failures = fl\<rparr>"
  by (simp add: thread_step_def goto_def since_gt)

lemma run_fetch: "f i = AtFetch \<Longrightarrow> get k [] w = Inr ((tok, err), k', w') \<Longrightarrow> thread_step get i
    \<lparr>th_rt = \<lparr>art_token = t, art_exp = x, art_creds = Some k\<rparr>, th_now = n, th_world = w, th_pc = f, th_issued = iss, th_failures = fl\<rparr>
  = \<lparr>th_rt = \<lparr>art_token = t, art_exp = x, art_creds = Some k'\<rparr>, th_now = n, th_world = w', th_pc = f(i := AtToken tok err), th_issued = if err = None then tok # iss else iss, th_failures = if err = None then fl else Suc fl\<rparr>"
  by (simp add: thread_step_def fetch_step_def goto_def)

lemma run_token: "f i = AtToken tok err \<Longrightarrow> thread_step get i
    \<lparr>th_rt = \<lparr>art_token = t, art_exp = x, art_creds = c\<rparr>, th_now = n, th_world = w, th_pc = f, th_issued = iss, th_failures = fl\<rparr>
  = \<lparr>th_rt = \<lparr>art_token = tok, art_exp = x, art_creds = c\<rparr>, th_now = n, th_world = w, th_pc = f(i := case err of None \<Rightarrow> AtExp | Some e \<Rightarrow> Failed e), th_issued = iss, th_failures = fl\<rparr>"
  by (simp add: thread_step_def goto_def)

lemma run_exp: "f i = AtExp \<Longrightarrow> thread_step get i
    \<lparr>th_rt = \<lparr>art_token = t, art_exp = x, art_creds = c\<rparr>, th_now = n, th_world = w, th_pc = f, th_issued = iss, th_failures = fl\<rparr>
  = \<lparr>th_rt = \<lparr>art_token = t, art_exp = n, art_creds = c\<rparr>, th_now = n, th_world = w, th_pc = f(i := AtSend), th_issued = iss, th_failures = fl\<rparr>"
  by (simp add: thread_step_def goto_def)

lemma run_send: "f i = AtSend \<Longrightarrow> thread_step get i
    \<lparr>th_rt = \<lparr>art_token = t, art_exp = x, art_creds = c\<rparr>, th_now = n, th_world = w, th_pc = f, th_issued = iss, th_failures = fl\<rparr>
  = \<lparr>th_rt = \<lparr>art_token = t, art_exp = x, art_creds = c\<rparr>, th_now = n, th_world = w, th_pc = f(i := Sent t), th_issued = iss, th_failures = fl\<rparr>"
  by (simp add: thread_step_def goto_def)

lemmas run_steps = run_check run_fetch run_token run_exp run_send

text \<open>
  C24: The exception happens. Two goroutines find the cache old and ask for a token; the first is
  given one and stores it. A third request finds the cache fresh. Then the server refuses the
  second goroutine, which stores its empty token over the one in the cache, and the third
  request is forwarded without a token, though a good one was there when it began.
\<close>

theorem shared_request_without_token:
  assumes "client_of api k \<noteq> None" and "0 \<le> now"
    and "GetToken api k [] w = Inr ((tok, None), k1, w1)"
    and "GetToken api k1 [] w1 = Inr ((tok2, Some e), k2, w2)"
  shows "th_pc (run_threads (GetToken api) [Run 0, Run 1, Run 0, Run 0, Run 0] (start_threads k now w)) 0 = AtSend
    \<and> th_pc (run_threads (GetToken api) [Run 0, Run 1, Run 0, Run 0, Run 0, Run 2, Run 1, Run 1, Run 2]
        (start_threads k now w)) 2 = Sent []"
proof -
  have "client_of api k1 \<noteq> None" by (rule kc.get_ready [OF assms(1,3)])
  then have "tok2 = []" by (rule kc.get_error [OF _ assms(4)])
  moreover have "30 * minute < now - zero_time" using assms(2) by (simp add: zero_time_def minute_def)
  ultimately show ?thesis
    using assms(3,4)
    by (simp add: start_threads_def rt_event_step_def run_steps minute_def)
qed

definition flaky_api :: "nat k8s_api" where
  "flaky_api = demo_api\<lparr>create_token := (\<lambda>c ns ksa auds w.
     if w = 0 then (Inr ''tok'', 1) else (Inl (StatusError 429 ''too many requests''), Suc w))\<rparr>"

theorem shared_request_without_token_witness:
  "th_pc (run_threads (GetToken flaky_api) [Run 0, Run 1, Run 0, Run 0, Run 0, Run 2, Run 1, Run 1, Run 2]
        (start_threads demo_cluster 0 0)) 2 = Sent []"
proof -
  have c: "client_of flaky_api demo_cluster = Some (Clientset 7)"
    by (simp add: flaky_api_def demo_api_def demo_cluster_def client_of_def zero_cluster_def
        zero_rest_config_def)
  obtain k1 where g1: "GetToken flaky_api demo_cluster [] 0 = Inr ((''tok'', None), k1, 1)"
    using GetToken_run [OF c, of "[]" 0] by (auto simp: flaky_api_def token_result_def)
  have "client_of flaky_api k1 \<noteq> None" using kc.get_ready [OF _ g1] c by simp
  then obtain c1 where c1: "client_of flaky_api k1 = Some c1" by blast
  obtain k2 e where g2: "GetToken flaky_api k1 [] 1 = Inr (([], Some e), k2, 2)"
    using GetToken_run [OF c1, of "[]" 1] by (auto simp: flaky_api_def token_result_def)
  from shared_request_without_token [OF _ order_refl g1 g2] c show ?thesis by simp
qed

end
