(* ===== verification/Goroutines.thy ===== *)
theory Goroutines
  imports Prelude
begin

text \<open>
  Goroutines. The body of a goroutine is a program that is cut at its accesses to shared state:
  it has returned, it has panicked, or its next step is one atomic access, after which it goes
  on with a rest that depends on what it read. \<open>alone\<close> runs it without interruption, which is
  how the operations of the components are modelled; a pool runs any number of them in any
  order. Memory is sequentially consistent.

  The locale \<open>rely_guarantee\<close> proves what holds under every interleaving from what each body
  does alone, given a relation \<open>R\<close> that every step of every goroutine keeps.
\<close>

section \<open>Programs\<close>

datatype ('s, 'r) prog =
    Return 'r
  | Panic go_panic
  | Atomic "'s \<Rightarrow> 's" "'s \<Rightarrow> ('s, 'r) prog"

primrec alone :: "('s, 'r) prog \<Rightarrow> 's \<Rightarrow> ('r \<times> 's) exec" where
  "alone (Return r) = (\<lambda>s. Inr (r, s))"
| "alone (Panic p) = (\<lambda>s. Inl p)"
| "alone (Atomic u c) = (\<lambda>s. alone (c s) (u s))"

text \<open>The statements: a read, a write, a call that does both, and sequencing.\<close>

definition rd :: "('s \<Rightarrow> 'a) \<Rightarrow> ('a \<Rightarrow> ('s, 'r) prog) \<Rightarrow> ('s, 'r) prog" where
  "rd f k = Atomic (\<lambda>s. s) (\<lambda>s. k (f s))"

definition wr :: "('s \<Rightarrow> 's) \<Rightarrow> ('s, 'r) prog \<Rightarrow> ('s, 'r) prog" where
  "wr u k = Atomic u (\<lambda>_. k)"

definition atomically :: "('s \<Rightarrow> 'a \<times> 's) \<Rightarrow> ('a \<Rightarrow> ('s, 'r) prog) \<Rightarrow> ('s, 'r) prog" where
  "atomically f k = Atomic (\<lambda>s. snd (f s)) (\<lambda>s. k (fst (f s)))"

text \<open>A computation on local values, which may panic.\<close>

definition local_exec :: "'a exec \<Rightarrow> ('a \<Rightarrow> ('s, 'r) prog) \<Rightarrow> ('s, 'r) prog" where
  "local_exec m k = (case m of Inl p \<Rightarrow> Panic p | Inr x \<Rightarrow> k x)"

primrec seq :: "('s, 'r) prog \<Rightarrow> ('r \<Rightarrow> ('s, 'q) prog) \<Rightarrow> ('s, 'q) prog" where
  "seq (Return r) f = f r"
| "seq (Panic p) f = Panic p"
| "seq (Atomic u c) f = Atomic u (\<lambda>s. seq (c s) f)"

text \<open>A program on a part of the state, which panics where the part does not exist.\<close>

primrec focus :: "('t \<Rightarrow> 's option) \<Rightarrow> ('s \<Rightarrow> 't \<Rightarrow> 't) \<Rightarrow> ('s, 'r) prog \<Rightarrow> ('t, 'r) prog" where
  "focus get put (Return r) = Return r"
| "focus get put (Panic p) = Panic p"
| "focus get put (Atomic u c) = Atomic
     (\<lambda>t. case get t of None \<Rightarrow> t | Some s \<Rightarrow> put (u s) t)
     (\<lambda>t. case get t of None \<Rightarrow> Panic NilDeref | Some s \<Rightarrow> focus get put (c s))"

text \<open>Rewriting with these runs a program alone.\<close>

named_theorems alone_simps \<open>equations that run a program alone\<close>

lemma alone_statements [alone_simps, simp]:
  "alone (rd f k) s = alone (k (f s)) s"
  "alone (wr u p) s = alone p (u s)"
  "alone (atomically g k) s = (case g s of (x, s') \<Rightarrow> alone (k x) s')"
  "alone (local_exec m k) s = bnd m (\<lambda>x. alone (k x) s)"
  by (simp_all add: rd_def wr_def atomically_def local_exec_def bnd_def split: prod.split sum.split)

lemma alone_seq [alone_simps, simp]: "alone (seq p f) s = bnd (alone p s) (\<lambda>(r, s'). alone (f r) s')"
  by (induction p arbitrary: s) simp_all

lemma alone_if [alone_simps, simp]: "alone (if b then p else q) s = (if b then alone p s else alone q s)"
  by simp

text \<open>The laws of a part of the state.\<close>

definition part_of :: "('t \<Rightarrow> 's option) \<Rightarrow> ('s \<Rightarrow> 't \<Rightarrow> 't) \<Rightarrow> bool" where
  "part_of get put \<longleftrightarrow>
     (\<forall>t s s'. get t = Some s \<longrightarrow> get (put s' t) = Some s' \<and> put s t = t \<and> (\<forall>s''. put s'' (put s' t) = put s'' t))"

lemma alone_focus:
  assumes "part_of get put" and "get t = Some s"
  shows "alone (focus get put p) t = bnd (alone p s) (\<lambda>(r, s'). Inr (r, put s' t))"
  using assms(2)
proof (induction p arbitrary: s t)
  case (Atomic u c)
  have "get (put (u s) t) = Some (u s)" using assms(1) Atomic.prems by (simp add: part_of_def)
  moreover have "put s' (put (u s) t) = put s' t" for s'
    using assms(1) Atomic.prems by (simp add: part_of_def)
  ultimately show ?case
    using Atomic.prems Atomic.IH [OF rangeI, of "put (u s) t" "u s" s] by simp
qed (use assms(1) in \<open>simp_all add: part_of_def\<close>)

section \<open>Pools\<close>

type_synonym ('i, 's, 'r) pool = "('i \<Rightarrow> ('s, 'r) prog) \<times> 's"

definition pool_step :: "'i \<Rightarrow> ('i, 's, 'r) pool \<Rightarrow> ('i, 's, 'r) pool" where
  "pool_step i ps = (case fst ps i of
       Atomic u c \<Rightarrow> ((fst ps)(i := c (snd ps)), u (snd ps))
     | _ \<Rightarrow> ps)"

definition run_pool :: "'i list \<Rightarrow> ('i, 's, 'r) pool \<Rightarrow> ('i, 's, 'r) pool" where
  "run_pool sched ps = fold pool_step sched ps"

lemma run_pool_simps [simp]:
  "run_pool [] ps = ps" "run_pool (i # sched) ps = run_pool sched (pool_step i ps)"
  "run_pool (sched @ sched') ps = run_pool sched' (run_pool sched ps)"
  by (simp_all add: run_pool_def)

text \<open>What a pool can get into when an environment \<open>E\<close> also acts on the shared state.\<close>

inductive pool_reach :: "('s \<Rightarrow> 's \<Rightarrow> bool) \<Rightarrow> ('i, 's, 'r) pool \<Rightarrow> ('i, 's, 'r) pool \<Rightarrow> bool" for E ps0 where
  reach_start: "pool_reach E ps0 ps0"
| reach_step: "pool_reach E ps0 ps \<Longrightarrow> pool_reach E ps0 (pool_step i ps)"
| reach_env: "pool_reach E ps0 (p, s) \<Longrightarrow> E s s' \<Longrightarrow> pool_reach E ps0 (p, s')"

lemma pool_reach_run: "pool_reach E ps0 ps \<Longrightarrow> pool_reach E ps0 (run_pool sched ps)"
  by (induction sched arbitrary: ps) (simp_all add: reach_step)

fun finished :: "('s, 'r) prog \<Rightarrow> bool" where
  "finished (Atomic u c) = False"
| "finished p = True"

lemma pool_step_other: "j \<noteq> i \<Longrightarrow> fst (pool_step i ps) j = fst ps j"
  by (auto simp: pool_step_def split: prog.split)

lemma pool_step_finished: "finished (fst ps j) \<Longrightarrow> fst (pool_step i ps) j = fst ps j"
  by (cases "j = i") (auto simp: pool_step_def split: prog.split)

lemma run_pool_finished: "finished (fst ps j) \<Longrightarrow> fst (run_pool sched ps) j = fst ps j"
  by (induction sched arbitrary: ps) (simp_all add: pool_step_finished)

text \<open>The goroutine \<open>i\<close> alone, from a pool: enough of its steps are \<open>alone\<close>.\<close>

lemma run_pool_alone:
  "\<exists>n. run_pool (replicate n i) (p, s) = (p(i := case alone (p i) s of Inl e \<Rightarrow> Panic e | Inr (r, s') \<Rightarrow> Return r),
       snd (run_pool (replicate n i) (p, s)))
     \<and> (\<forall>r s'. alone (p i) s = Inr (r, s') \<longrightarrow> snd (run_pool (replicate n i) (p, s)) = s')"
proof (induction "p i" arbitrary: p s)
  case (Return r)
  from Return [symmetric] show ?case by (intro exI [of _ 0]) (auto simp: fun_upd_idem_iff)
next
  case (Panic e)
  from Panic [symmetric] show ?case by (intro exI [of _ 0]) (auto simp: fun_upd_idem_iff)
next
  case (Atomic u c)
  have "pool_step i (p, s) = (p(i := c s), u s)"
    using Atomic.hyps(2) [symmetric] by (simp add: pool_step_def)
  moreover have "alone (p i) s = alone (c s) (u s)"
    using Atomic.hyps(2) [symmetric] by simp
  moreover obtain n where
    "run_pool (replicate n i) (p(i := c s), u s) = ((p(i := c s))(i := case alone (c s) (u s) of Inl e \<Rightarrow> Panic e | Inr (r, s') \<Rightarrow> Return r),
       snd (run_pool (replicate n i) (p(i := c s), u s)))"
     "\<forall>r s'. alone (c s) (u s) = Inr (r, s') \<longrightarrow> snd (run_pool (replicate n i) (p(i := c s), u s)) = s'"
    using Atomic.hyps(1) [of "p(i := c s)" "u s"] by auto
  ultimately show ?case by (intro exI [of _ "Suc n"]) simp
qed

section \<open>Every goroutine finishes\<close>

text \<open>A fair schedule runs every goroutine again and again.\<close>

definition fair :: "(nat \<Rightarrow> 'i) \<Rightarrow> bool" where
  "fair sched \<longleftrightarrow> (\<forall>i n. \<exists>m\<ge>n. sched m = i)"

definition after :: "nat \<Rightarrow> (nat \<Rightarrow> 'i) \<Rightarrow> ('i, 's, 'r) pool \<Rightarrow> ('i, 's, 'r) pool" where
  "after n sched ps = run_pool (map sched [0..<n]) ps"

lemma after_Suc: "after (Suc n) sched ps = pool_step (sched n) (after n sched ps)"
  by (simp add: after_def)

lemma after_idle:
  "n \<le> m \<Longrightarrow> (\<And>k. n \<le> k \<Longrightarrow> k < m \<Longrightarrow> sched k \<noteq> i) \<Longrightarrow> fst (after m sched ps) i = fst (after n sched ps) i"
proof (induction m rule: dec_induct)
  case (step m)
  have "i \<noteq> sched m" using step.prems [of m] step.hyps(1) by auto
  with step show ?case by (simp add: after_Suc pool_step_other less_SucI)
qed simp

lemma finishes_from:
  assumes "fair sched"
  shows "\<exists>m\<ge>n. finished (fst (after m sched ps) i)"
proof (induction "fst (after n sched ps) i" arbitrary: n)
  case (Return r)
  then show ?case by (intro exI [of _ n]) (simp flip: Return)
next
  case (Panic e)
  then show ?case by (intro exI [of _ n]) (simp flip: Panic)
next
  case (Atomic u c)
  define m where "m = (LEAST m. n \<le> m \<and> sched m = i)"
  have "\<exists>m. n \<le> m \<and> sched m = i" using assms by (auto simp: fair_def)
  then have m: "n \<le> m" "sched m = i" unfolding m_def by (metis (mono_tags, lifting) LeastI_ex)+
  have "fst (after m sched ps) i = fst (after n sched ps) i"
    using m(1) by (intro after_idle) (auto simp: m_def dest: not_less_Least)
  then have "c (snd (after m sched ps)) = fst (after (Suc m) sched ps) i"
    using m(2) Atomic.hyps(2) [symmetric] by (simp add: after_Suc pool_step_def)
  from Atomic.hyps(1) [of "Suc m", folded this] obtain m' where
    "m' \<ge> Suc m" "finished (fst (after m' sched ps) i)" by auto
  with m(1) show ?case by (intro exI [of _ m']) simp
qed

lemma fair_finishes: "fair sched \<Longrightarrow> \<exists>n. finished (fst (after n sched ps) i)"
  using finishes_from [of sched 0 ps i] by blast

section \<open>Rely and guarantee\<close>

text \<open>
  A program keeps \<open>R\<close> and reaches \<open>Q\<close>, when others may change the state along \<open>R\<close> before each
  of its steps.
\<close>

primrec guarantees :: "('s \<Rightarrow> 's \<Rightarrow> bool) \<Rightarrow> ('s, 'r) prog \<Rightarrow> 's \<Rightarrow> ('r \<Rightarrow> 's \<Rightarrow> bool) \<Rightarrow> bool" where
  "guarantees R (Return r) = (\<lambda>s Q. Q r s)"
| "guarantees R (Panic p) = (\<lambda>s Q. False)"
| "guarantees R (Atomic u c) = (\<lambda>s Q. \<forall>s1. R s s1 \<longrightarrow> R s1 (u s1) \<and> guarantees R (c s1) (u s1) Q)"

text \<open>A goroutine that was not scheduled for a while still keeps its promise.\<close>

definition promised :: "('s \<Rightarrow> 's \<Rightarrow> bool) \<Rightarrow> ('i \<Rightarrow> 'r \<Rightarrow> 's \<Rightarrow> bool) \<Rightarrow> ('i, 's, 'r) pool \<Rightarrow> bool" where
  "promised R Q ps \<longleftrightarrow> (\<forall>i. \<exists>s0. R s0 (snd ps) \<and> guarantees R (fst ps i) s0 (Q i))"

locale rely_guarantee =
  fixes R :: "'s \<Rightarrow> 's \<Rightarrow> bool"
  assumes R_refl: "R s s"
    and R_trans: "R s1 s2 \<Longrightarrow> R s2 s3 \<Longrightarrow> R s1 s3"
begin

text \<open>The rules for the statements.\<close>

lemma g_rd: "(\<And>s1. R s s1 \<Longrightarrow> guarantees R (k (f s1)) s1 Q) \<Longrightarrow> guarantees R (rd f k) s Q"
  by (simp add: rd_def R_refl)

lemma g_wr:
  "(\<And>s1. R s s1 \<Longrightarrow> R s1 (u s1) \<and> guarantees R p (u s1) Q) \<Longrightarrow> guarantees R (wr u p) s Q"
  by (simp add: wr_def)

lemma g_atomically:
  "(\<And>s1 x s2. R s s1 \<Longrightarrow> f s1 = (x, s2) \<Longrightarrow> R s1 s2 \<and> guarantees R (k x) s2 Q)
    \<Longrightarrow> guarantees R (atomically f k) s Q"
  by (simp add: atomically_def) (metis prod.collapse)

lemma g_local: "m = Inr x \<Longrightarrow> guarantees R (k x) s Q \<Longrightarrow> guarantees R (local_exec m k) s Q"
  by (simp add: local_exec_def)

lemma g_mono: "guarantees R p s Q \<Longrightarrow> (\<And>r s'. R s s' \<Longrightarrow> Q r s' \<Longrightarrow> Q' r s') \<Longrightarrow> guarantees R p s Q'"
proof (induction p arbitrary: s)
  case (Atomic u c)
  have "R s1 (u s1) \<and> guarantees R (c s1) (u s1) Q'" if "R s s1" for s1
  proof -
    from Atomic.prems(1) that have g: "R s1 (u s1)" "guarantees R (c s1) (u s1) Q" by simp_all
    have "guarantees R (c s1) (u s1) Q'"
      by (rule Atomic.IH [OF rangeI g(2)]) (use Atomic.prems(2) that g(1) R_trans in blast)
    with g(1) show ?thesis by blast
  qed
  then show ?case by simp
qed (simp_all add: R_refl)

lemma g_seq:
  "guarantees R p s Q \<Longrightarrow> (\<And>r s'. R s s' \<Longrightarrow> Q r s' \<Longrightarrow> guarantees R (f r) s' Q')
    \<Longrightarrow> guarantees R (seq p f) s Q'"
proof (induction p arbitrary: s)
  case (Atomic u c)
  have "R s1 (u s1) \<and> guarantees R (seq (c s1) f) (u s1) Q'" if "R s s1" for s1
  proof -
    from Atomic.prems(1) that have g: "R s1 (u s1)" "guarantees R (c s1) (u s1) Q" by simp_all
    have "guarantees R (seq (c s1) f) (u s1) Q'"
      by (rule Atomic.IH [OF rangeI g(2)]) (use Atomic.prems(2) that g(1) R_trans in blast)
    with g(1) show ?thesis by blast
  qed
  then show ?case by simp
qed (simp_all add: R_refl)

lemma promised_env: "promised R Q (p, s) \<Longrightarrow> R s s' \<Longrightarrow> promised R Q (p, s')"
  by (auto simp: promised_def intro: R_trans)

lemma promised_step:
  assumes "promised R Q ps"
  shows "promised R Q (pool_step i ps) \<and> R (snd ps) (snd (pool_step i ps))"
proof (cases "fst ps i")
  case (Atomic u c)
  obtain s0 where s0: "R s0 (snd ps)" "guarantees R (fst ps i) s0 (Q i)"
    using assms by (auto simp: promised_def)
  with Atomic have g: "R (snd ps) (u (snd ps))" "guarantees R (c (snd ps)) (u (snd ps)) (Q i)" by simp_all
  have "\<exists>s0. R s0 (u (snd ps)) \<and> guarantees R (((fst ps)(i := c (snd ps))) j) s0 (Q j)" for j
  proof (cases "j = i")
    case True
    with g show ?thesis by (auto intro: exI [of _ "u (snd ps)"] R_refl)
  next
    case False
    with assms g(1) show ?thesis by (auto simp: promised_def intro: R_trans)
  qed
  with Atomic g(1) show ?thesis by (simp add: pool_step_def promised_def)
qed (use assms R_refl in \<open>simp_all add: pool_step_def\<close>)

lemma reach_promised:
  assumes "pool_reach E ps0 ps" and "promised R Q ps0" and "\<And>s s'. E s s' \<Longrightarrow> R s s'"
  shows "promised R Q ps \<and> R (snd ps0) (snd ps)"
  using assms(1)
proof (induction rule: pool_reach.induct)
  case reach_start
  with assms(2) R_refl show ?case by simp
next
  case (reach_step ps i)
  with promised_step [of Q ps i] R_trans show ?case by blast
next
  case (reach_env p s s')
  with assms(3) [of s s'] promised_env [of Q p s s'] R_trans show ?case by fastforce
qed

text \<open>Under every interleaving no goroutine panics, and what one returns is as promised.\<close>

lemma promised_result:
  assumes "promised R Q ps"
  shows "fst ps i \<noteq> Panic e"
    and "fst ps i = Return r \<Longrightarrow> \<exists>s0. R s0 (snd ps) \<and> Q i r s0"
proof -
  obtain s0 where "R s0 (snd ps)" "guarantees R (fst ps i) s0 (Q i)"
    using assms by (auto simp: promised_def)
  then show "fst ps i \<noteq> Panic e" and "fst ps i = Return r \<Longrightarrow> \<exists>s0. R s0 (snd ps) \<and> Q i r s0" by auto
qed

lemma promised_start: "(\<And>i. guarantees R (p i) s (Q i)) \<Longrightarrow> promised R Q (p, s)"
  by (auto simp: promised_def intro: R_refl)

end

text \<open>
  A program on a part: when the relation on the whole gives the one on the part, and a change of
  the part along its relation is a change of the whole along the other.
\<close>

lemma guarantees_focus:
  assumes "\<And>t t'. R t t' \<Longrightarrow> ok t \<Longrightarrow> ok t'"
    and "\<And>t. ok t \<Longrightarrow> \<exists>s. get t = Some s"
    and "\<And>t t' s. R t t' \<Longrightarrow> ok t \<Longrightarrow> get t = Some s \<Longrightarrow> \<exists>s'. get t' = Some s' \<and> R' s s'"
    and "\<And>t s s'. ok t \<Longrightarrow> get t = Some s \<Longrightarrow> R' s s' \<Longrightarrow> R t (put s' t) \<and> get (put s' t) = Some s'"
    and "ok t" and "get t = Some s" and "guarantees R' p s Q"
  shows "guarantees R (focus get put p) t (\<lambda>r t'. \<exists>s'. get t' = Some s' \<and> Q r s')"
  using assms(5-7)
proof (induction p arbitrary: t s)
  case (Atomic u c)
  have "R t1 (case get t1 of None \<Rightarrow> t1 | Some s \<Rightarrow> put (u s) t1)
      \<and> guarantees R (case get t1 of None \<Rightarrow> Panic NilDeref | Some s \<Rightarrow> focus get put (c s))
          (case get t1 of None \<Rightarrow> t1 | Some s \<Rightarrow> put (u s) t1) (\<lambda>r t'. \<exists>s'. get t' = Some s' \<and> Q r s')"
    if rely: "R t t1" for t1
  proof -
    have ok: "ok t1" using assms(1) [OF rely Atomic.prems(1)] .
    obtain s1 where s1: "get t1 = Some s1" "R' s s1"
      using assms(3) [OF rely Atomic.prems(1,2)] by blast
    with Atomic.prems(3) have g: "R' s1 (u s1)" "guarantees R' (c s1) (u s1) Q" by simp_all
    have put: "R t1 (put (u s1) t1)" "get (put (u s1) t1) = Some (u s1)"
      using assms(4) [OF ok s1(1) g(1)] by simp_all
    have "guarantees R (focus get put (c s1)) (put (u s1) t1) (\<lambda>r t'. \<exists>s'. get t' = Some s' \<and> Q r s')"
      by (rule Atomic.IH [OF rangeI assms(1) [OF put(1) ok] put(2) g(2)])
    with put(1) s1(1) show ?thesis by simp
  qed
  then show ?case by simp
qed auto

end
