(* ===== verification/ClusterThreads.thy ===== *)
theory ClusterThreads
  imports ClusterTokens Goroutines
begin

text \<open>
  The methods of a cluster, called from many goroutines at once. A \<open>*K8SCluster\<close> is shared by
  all requests to it, its methods fill caches (the clientset, the service account, project,
  location and name) and take no lock. Each method of \<open>kube_cluster.go\<close> is given again, as a
  program whose steps are its reads and writes of fields and its calls of the API server; run
  without interruption it is the operation of theory \<open>Cluster\<close>. The state is the struct and
  the world behind the clientset.

  \<open>new_for_config\<close> is a function of the configuration, so two goroutines that build the
  clientset at the same time store equal handles; which of two equivalent clientsets is kept
  is not distinguished.
\<close>

section \<open>The methods, step by step\<close>

definition rd_field :: "(K8SCluster \<Rightarrow> 'a) \<Rightarrow> ('a \<Rightarrow> (K8SCluster \<times> 'w, 'r) prog) \<Rightarrow> (K8SCluster \<times> 'w, 'r) prog" where
  "rd_field f = rd (\<lambda>s. f (fst s))"

definition wr_field :: "(K8SCluster \<Rightarrow> K8SCluster) \<Rightarrow> (K8SCluster \<times> 'w, 'r) prog \<Rightarrow> (K8SCluster \<times> 'w, 'r) prog" where
  "wr_field u = wr (\<lambda>s. (u (fst s), snd s))"

definition call_server :: "('w \<Rightarrow> 'a \<times> 'w) \<Rightarrow> ('a \<Rightarrow> (K8SCluster \<times> 'w, 'r) prog) \<Rightarrow> (K8SCluster \<times> 'w, 'r) prog" where
  "call_server f = atomically (\<lambda>s. case f (snd s) of (x, w') \<Rightarrow> (x, (fst s, w')))"

lemma alone_cluster_statements [alone_simps, simp]:
  "alone (rd_field f c) s = alone (c (f (fst s))) s"
  "alone (wr_field u p) s = alone p (u (fst s), snd s)"
  "alone (call_server g c) s = (case g (snd s) of (x, w') \<Rightarrow> alone (c x) (fst s, w'))"
  by (simp_all add: rd_field_def wr_field_def call_server_def split: prod.split)

definition GcpInfo_connect_prog :: "string \<Rightarrow> (K8SCluster \<times> 'w, string \<times> string \<times> string) prog" where
  "GcpInfo_connect_prog cf =
     (if has_prefix cf ''connectgateway_'' then
        (let parts = go_split cf ''_'' in
         if length parts > 2 then
           wr_field (\<lambda>k. k\<lparr>kc_project := parts ! 1\<rparr>) (Return (parts ! 1, [], parts ! 2))
         else Return ([], [], cf))
      else Return ([], [], cf))"

definition GcpInfo_prog :: "(K8SCluster \<times> 'w, string \<times> string \<times> string) prog" where
  "GcpInfo_prog =
     rd_field kc_location (\<lambda>loc.
       if loc \<noteq> [] then
         rd_field kc_project (\<lambda>p. rd_field kc_location (\<lambda>l. rd_field kc_Name (\<lambda>n. Return (p, l, n))))
       else rd_field kc_Name (\<lambda>cf.
         if has_prefix cf ''gke_'' then
           (let parts = go_split cf ''_'' in
            local_exec (idx parts 1) (\<lambda>p. wr_field (\<lambda>k. k\<lparr>kc_project := p\<rparr>) (
            local_exec (idx parts 2) (\<lambda>l. wr_field (\<lambda>k. k\<lparr>kc_location := l\<rparr>) (
            local_exec (idx parts 3) (\<lambda>n. wr_field (\<lambda>k. k\<lparr>kc_name := n\<rparr>) (
              if length parts > 3 then Return (p, l, n) else GcpInfo_connect_prog cf)))))))
         else GcpInfo_connect_prog cf))"

definition Location_prog :: "(K8SCluster \<times> 'w, string) prog" where
  "Location_prog =
     rd_field kc_location (\<lambda>l.
       if l = [] then seq GcpInfo_prog (\<lambda>_. rd_field kc_location Return)
       else rd_field kc_location Return)"

definition Label_prog :: "string \<Rightarrow> (K8SCluster \<times> 'w, string) prog" where
  "Label_prog name =
     (if name = ''location'' then Location_prog
      else if name = ''project'' then seq GcpInfo_prog (\<lambda>_. rd_field kc_project Return)
      else if name = ''name'' then seq GcpInfo_prog (\<lambda>_. rd_field kc_name Return)
      else Return [])"

definition Client_prog :: "'w k8s_api \<Rightarrow> (K8SCluster \<times> 'w, clientset option) prog" where
  "Client_prog api =
     rd_field kc_client (\<lambda>c.
       if c = None then
         rd_field kc_RestConfig (\<lambda>config.
         local_exec (new_for_config api config) (\<lambda>res.
         wr_field (\<lambda>k. k\<lparr>kc_client := (case res of Inl err \<Rightarrow> None | Inr c \<Rightarrow> Some c)\<rparr>) (
         rd_field kc_client Return)))
       else rd_field kc_client Return)"

definition RunAs_prog :: "'w k8s_api \<Rightarrow> string \<Rightarrow> string \<Rightarrow> (K8SCluster \<times> 'w, K8SCluster) prog" where
  "RunAs_prog api ns ksa =
     rd_field kc_RestConfig (\<lambda>config. seq (Client_prog api) (\<lambda>c. rd_field kc_Name (\<lambda>name.
       Return (zero_cluster\<lparr>kc_RestConfig := config, kc_client := c, kc_Name := name,
                 kc_Namespace := ns, kc_KSA := ksa\<rparr>))))"

definition GetTokenRaw_prog :: "'w k8s_api \<Rightarrow> string \<Rightarrow> string \<Rightarrow> string
    \<Rightarrow> (K8SCluster \<times> 'w, string \<times> go_error option) prog" where
  "GetTokenRaw_prog api ns ksa aud =
     (let ns = (if ns = [] then ''default'' else ns);
          ksa = (if ksa = [] then ''default'' else ksa)
      in seq (Client_prog api) (\<lambda>c. local_exec (core_v1 c) (\<lambda>c.
           call_server (create_token api c ns ksa [aud]) (\<lambda>res.
             Return (case res of Inl err \<Rightarrow> ([], Some err) | Inr token \<Rightarrow> (token, None))))))"

definition GetToken_prog :: "'w k8s_api \<Rightarrow> string \<Rightarrow> (K8SCluster \<times> 'w, string \<times> go_error option) prog" where
  "GetToken_prog api aud =
     (let rest = rd_field kc_Namespace (\<lambda>ns. rd_field kc_KSA (\<lambda>ksa. GetTokenRaw_prog api ns ksa aud))
      in rd_field kc_KSA (\<lambda>ksa.
           if ksa = [] then wr_field (\<lambda>k. k\<lparr>kc_KSA := ''default''\<rparr>) rest else rest))"

definition GetCM_prog :: "'w k8s_api \<Rightarrow> string \<Rightarrow> string
    \<Rightarrow> (K8SCluster \<times> 'w, (string, string) gomap \<times> go_error option) prog" where
  "GetCM_prog api ns name =
     seq (Client_prog api) (\<lambda>c. local_exec (core_v1 c) (\<lambda>c.
       call_server (get_config_map api c ns name) (\<lambda>res. Return (cm_result res))))"

definition GetSecret_prog :: "'w k8s_api \<Rightarrow> string \<Rightarrow> string
    \<Rightarrow> (K8SCluster \<times> 'w, (string, string) gomap \<times> go_error option) prog" where
  "GetSecret_prog api ns name =
     seq (Client_prog api) (\<lambda>c. local_exec (core_v1 c) (\<lambda>c.
       call_server (get_secret api c ns name) (\<lambda>res. Return (cm_result res))))"

definition RestClient_prog :: "'w k8s_api \<Rightarrow> string \<Rightarrow> string \<Rightarrow> (K8SCluster \<times> 'w, go_error + rest_client) prog" where
  "RestClient_prog api grp version =
     rd_field kc_RestConfig (\<lambda>config.
       local_exec (case config of None \<Rightarrow> Inl NilDeref | Some c \<Rightarrow> Inr c) (\<lambda>c.
         (let config = c\<lparr>rc_APIPath := ''/apis''\<rparr>;
              config = (if grp = [] then config\<lparr>rc_APIPath := ''/api''\<rparr> else config);
              config = config\<lparr>rc_GroupVersion := Some (grp, version)\<rparr>;
              config = config\<lparr>rc_NegotiatedSerializer := Some ''WithoutConversion''\<rparr>
          in Return (rest_client_for api config))))"

definition cluster_String_prog :: "(K8SCluster \<times> 'w, string) prog" where
  "cluster_String_prog = rd_field kc_Name (\<lambda>name. Return (CHR 0x22 # name @ [CHR 0x22]))"

section \<open>A call, alone and in steps\<close>

datatype cluster_call =
    CallLabel string
  | CallLocation
  | CallGcpInfo
  | CallClient
  | CallRunAs string string
  | CallGetToken string
  | CallGetTokenRaw string string string
  | CallGetCM string string
  | CallGetSecret string string
  | CallRestClient string string
  | CallString

datatype cluster_answer =
    Text string
  | Info "string \<times> string \<times> string"
  | ClientIs "clientset option"
  | NewCluster K8SCluster
  | Token_answer "string \<times> go_error option"
  | Data_answer "(string, string) gomap \<times> go_error option"
  | Rest_answer "go_error + rest_client"

definition answers :: "('a \<Rightarrow> 'b) \<Rightarrow> ('a \<times> K8SCluster) exec \<Rightarrow> 'w \<Rightarrow> ('b \<times> K8SCluster \<times> 'w) exec" where
  "answers f m w = bnd m (\<lambda>(x, k). Inr (f x, k, w))"

fun call_run :: "'w k8s_api \<Rightarrow> cluster_call \<Rightarrow> K8SCluster \<times> 'w \<Rightarrow> (cluster_answer \<times> K8SCluster \<times> 'w) exec" where
  "call_run api (CallLabel name) (k, w) = answers Text (Label k name) w"
| "call_run api CallLocation (k, w) = answers Text (Location k) w"
| "call_run api CallGcpInfo (k, w) = answers Info (GcpInfo k) w"
| "call_run api CallClient (k, w) = answers ClientIs (Client api k) w"
| "call_run api (CallRunAs ns ksa) (k, w) = answers NewCluster (RunAs api k ns ksa) w"
| "call_run api (CallGetToken aud) (k, w) = bnd (GetToken api k aud w) (\<lambda>(x, s). Inr (Token_answer x, s))"
| "call_run api (CallGetTokenRaw ns ksa aud) (k, w) =
     bnd (GetTokenRaw api k ns ksa aud w) (\<lambda>(x, s). Inr (Token_answer x, s))"
| "call_run api (CallGetCM ns name) (k, w) = bnd (GetCM api k ns name w) (\<lambda>(x, s). Inr (Data_answer x, s))"
| "call_run api (CallGetSecret ns name) (k, w) = bnd (GetSecret api k ns name w) (\<lambda>(x, s). Inr (Data_answer x, s))"
| "call_run api (CallRestClient grp version) (k, w) = bnd (RestClient api k grp version) (\<lambda>x. Inr (Rest_answer x, k, w))"
| "call_run api CallString (k, w) = Inr (Text (cluster_String k), k, w)"

definition returns :: "('a \<Rightarrow> 'b) \<Rightarrow> ('s, 'a) prog \<Rightarrow> ('s, 'b) prog" where
  "returns f p = seq p (\<lambda>x. Return (f x))"

lemma alone_returns [alone_simps, simp]: "alone (returns f p) s = bnd (alone p s) (\<lambda>(x, s'). Inr (f x, s'))"
  by (simp add: returns_def)

fun call_prog :: "'w k8s_api \<Rightarrow> cluster_call \<Rightarrow> (K8SCluster \<times> 'w, cluster_answer) prog" where
  "call_prog api (CallLabel name) = returns Text (Label_prog name)"
| "call_prog api CallLocation = returns Text Location_prog"
| "call_prog api CallGcpInfo = returns Info GcpInfo_prog"
| "call_prog api CallClient = returns ClientIs (Client_prog api)"
| "call_prog api (CallRunAs ns ksa) = returns NewCluster (RunAs_prog api ns ksa)"
| "call_prog api (CallGetToken aud) = returns Token_answer (GetToken_prog api aud)"
| "call_prog api (CallGetTokenRaw ns ksa aud) = returns Token_answer (GetTokenRaw_prog api ns ksa aud)"
| "call_prog api (CallGetCM ns name) = returns Data_answer (GetCM_prog api ns name)"
| "call_prog api (CallGetSecret ns name) = returns Data_answer (GetSecret_prog api ns name)"
| "call_prog api (CallRestClient grp version) = returns Rest_answer (RestClient_prog api grp version)"
| "call_prog api CallString = returns Text cluster_String_prog"

lemma alone_GcpInfo_connect:
  "alone (GcpInfo_connect_prog (kc_Name k)) (k, w) = bnd (GcpInfo_connect k) (\<lambda>(x, k'). Inr (x, k', w))"
  by (simp add: GcpInfo_connect_prog_def GcpInfo_connect_def Let_def)

lemma alone_GcpInfo: "alone GcpInfo_prog (k, w) = bnd (GcpInfo k) (\<lambda>(x, k'). Inr (x, k', w))"
proof -
  have connect: "alone (GcpInfo_connect_prog (kc_Name k)) (k\<lparr>kc_project := p, kc_location := l, kc_name := n\<rparr>, w)
      = bnd (GcpInfo_connect (k\<lparr>kc_project := p, kc_location := l, kc_name := n\<rparr>)) (\<lambda>(x, k'). Inr (x, k', w))" for p l n
    using alone_GcpInfo_connect [of "k\<lparr>kc_project := p, kc_location := l, kc_name := n\<rparr>" w] by simp
  show ?thesis
    by (auto simp: GcpInfo_prog_def GcpInfo_def Let_def bnd_assoc alone_GcpInfo_connect connect intro!: bnd_cong)
qed

lemma alone_Client: "alone (Client_prog api) (k, w) = bnd (Client api k) (\<lambda>(x, k'). Inr (x, k', w))"
  by (auto simp: Client_prog_def Client_def bnd_assoc split: option.splits sum.splits intro!: bnd_cong)

lemma alone_Location: "alone Location_prog (k, w) = bnd (Location k) (\<lambda>(x, k'). Inr (x, k', w))"
  by (auto simp: Location_prog_def Location_def alone_GcpInfo bnd_assoc intro!: bnd_cong)

lemma alone_Label: "alone (Label_prog name) (k, w) = bnd (Label k name) (\<lambda>(x, k'). Inr (x, k', w))"
  by (auto simp: Label_prog_def Label_def alone_GcpInfo alone_Location bnd_assoc intro!: bnd_cong)

lemma alone_GetTokenRaw: "alone (GetTokenRaw_prog api ns ksa aud) (k, w) = GetTokenRaw api k ns ksa aud w"
  by (auto simp: GetTokenRaw_prog_def GetTokenRaw_def Let_def alone_Client bnd_assoc
      split: prod.splits sum.splits intro!: bnd_cong)

lemma alone_server_calls:
  "alone (GetToken_prog api aud) (k, w) = GetToken api k aud w"
  "alone (GetCM_prog api ns name) (k, w) = GetCM api k ns name w"
  "alone (GetSecret_prog api ns name) (k, w) = GetSecret api k ns name w"
  by (auto simp: GetToken_prog_def GetToken_def GetCM_prog_def GetCM_def GetSecret_prog_def GetSecret_def
      alone_GetTokenRaw alone_Client Let_def bnd_assoc split: prod.splits intro!: bnd_cong)

lemma Client_const: "Client api k = Inr (c, k') \<Longrightarrow> kc_RestConfig k' = kc_RestConfig k"
  by (auto simp: Client_def split: option.splits sum.splits elim!: bnd_InrE)

text \<open>
  The steps of a method are the method: a goroutine that is not interrupted does what the
  operation does, with the same answer, the same fields afterwards, the same effect on the
  world, and the same panic if there is one.
\<close>

lemma call_steps_equal_call:
  "alone (call_prog api c) (k, w) = call_run api c (k, w)"
proof (cases c)
  case (CallRunAs ns ksa)
  then show ?thesis
    by (auto simp: RunAs_prog_def RunAs_def answers_def alone_Client bnd_assoc Client_const intro!: bnd_cong)
qed (auto simp: answers_def RestClient_prog_def RestClient_def cluster_String_prog_def cluster_String_def alone_Label alone_Location alone_GcpInfo alone_Client alone_GetTokenRaw
    alone_server_calls Let_def bnd_assoc
    split: prod.splits option.splits intro!: bnd_cong)

text \<open>
  C20: What the calls to the API server ask for and answer, as operations and as the steps of a goroutine that
  runs alone. For a cluster that has or can build a clientset, \<open>GetTokenRaw\<close> asks it for a token of the
  given namespace and service account, each \<open>default\<close> if empty, for the one audience; \<open>GetToken\<close>
  asks for those of the cluster, and stores the defaulted account. A token comes without an error, and the
  error of the server with an empty token. \<open>GetCM\<close> and \<open>GetSecret\<close> ask for exactly the object named and
  answer its data; a status of code 404 is an empty map and no error, any other error is passed on. All keep
  the clientset and change nothing else.
\<close>

theorem server_calls_spec:
  assumes "client_of api k = Some c"
  shows "GetTokenRaw api k ns ksa aud w =
      (case create_token api c (if ns = [] then ''default'' else ns) (if ksa = [] then ''default'' else ksa) [aud] w of
         (Inl err, w') \<Rightarrow> Inr (([], Some err), k\<lparr>kc_client := Some c\<rparr>, w')
       | (Inr tok, w') \<Rightarrow> Inr ((tok, None), k\<lparr>kc_client := Some c\<rparr>, w'))
    \<and> alone (GetTokenRaw_prog api ns ksa aud) (k, w) = GetTokenRaw api k ns ksa aud w
    \<and> GetToken api k aud w =
      (case create_token api c (if kc_Namespace k = [] then ''default'' else kc_Namespace k)
          (if kc_KSA k = [] then ''default'' else kc_KSA k) [aud] w of
         (Inl err, w') \<Rightarrow> Inr (([], Some err), k\<lparr>kc_KSA := if kc_KSA k = [] then ''default'' else kc_KSA k, kc_client := Some c\<rparr>, w')
       | (Inr tok, w') \<Rightarrow> Inr ((tok, None), k\<lparr>kc_KSA := if kc_KSA k = [] then ''default'' else kc_KSA k, kc_client := Some c\<rparr>, w'))
    \<and> alone (GetToken_prog api aud) (k, w) = GetToken api k aud w
    \<and> GetCM api k ns name w = (case get_config_map api c ns name w of
         (Inl err, w') \<Rightarrow> Inr ((Some (\<lambda>_. None), if \<exists>msg. err = StatusError 404 msg then None else Some err), k\<lparr>kc_client := Some c\<rparr>, w')
       | (Inr data, w') \<Rightarrow> Inr ((data, None), k\<lparr>kc_client := Some c\<rparr>, w'))
    \<and> alone (GetCM_prog api ns name) (k, w) = GetCM api k ns name w
    \<and> GetSecret api k ns name w = (case get_secret api c ns name w of
         (Inl err, w') \<Rightarrow> Inr ((Some (\<lambda>_. None), if \<exists>msg. err = StatusError 404 msg then None else Some err), k\<lparr>kc_client := Some c\<rparr>, w')
       | (Inr data, w') \<Rightarrow> Inr ((data, None), k\<lparr>kc_client := Some c\<rparr>, w'))
    \<and> alone (GetSecret_prog api ns name) (k, w) = GetSecret api k ns name w"
proof -
  have Is404: "Is404 err \<longleftrightarrow> (\<exists>msg. err = StatusError 404 msg)" for err by (cases err) auto
  have data: "(case r of (res, w') \<Rightarrow> Inr (cm_result res, k1, w')) = (case r of
        (Inl err, w') \<Rightarrow> Inr ((Some (\<lambda>_. None), if \<exists>msg. err = StatusError 404 msg then None else Some err), k1, w')
      | (Inr data, w') \<Rightarrow> Inr ((data, None), k1, w'))"
    for r :: "(go_error + (string, string) gomap) \<times> 'a" and k1 :: K8SCluster
    by (auto simp: cm_result_def Is404 split: prod.split sum.split)
  have token: "(case r of (res, w') \<Rightarrow> Inr (token_result res, k1, w')) = (case r of
        (Inl err, w') \<Rightarrow> Inr (([], Some err), k1, w') | (Inr tok, w') \<Rightarrow> Inr ((tok, None), k1, w'))"
    for r :: "(go_error + string) \<times> 'a" and k1 :: K8SCluster
    by (auto simp: token_result_def split: prod.split sum.split)
  show ?thesis
    unfolding alone_GetTokenRaw alone_server_calls GetTokenRaw_run [OF assms] GetToken_run [OF assms] token or_default_def
    by (simp add: GetCM_def GetSecret_def Client_ready [OF assms] core_v1_def data)
qed

theorem server_calls_spec_witness:
  "fst (projr (GetTokenRaw demo_api demo_cluster ''prod'' [] ''aud'' 3)) = (''prod/default/aud'', None)
   \<and> fst (projr (GetCM demo_api demo_cluster ''ns'' ''cm'' 3)) = (Some (\<lambda>_. None), None)"
  using server_calls_spec [OF demo_cluster_client, of "''prod''" "[]" "''aud''" 3]
    server_calls_spec [OF demo_cluster_client, of "''ns''" "[]" "[]" 3 "''cm''"]
  by (simp add: demo_api_def)

section \<open>What the methods keep\<close>

text \<open>What reading a name caches: project, location and name; and what it returns.\<close>

definition name_info :: "string \<Rightarrow> string \<times> string \<times> string" where
  "name_info s = (let parts = go_split s ''_'' in
     if has_prefix s ''gke_'' then (parts ! 1, parts ! 2, parts ! 3)
     else if has_prefix s ''connectgateway_'' \<and> length parts > 2 then (parts ! 1, [], [])
     else ([], [], []))"

definition name_project :: "string \<Rightarrow> string" where "name_project s = fst (name_info s)"
definition name_location :: "string \<Rightarrow> string" where "name_location s = fst (snd (name_info s))"
definition name_name :: "string \<Rightarrow> string" where "name_name s = snd (snd (name_info s))"

definition caches_inv :: "K8SCluster \<Rightarrow> bool" where
  "caches_inv k \<longleftrightarrow>
     kc_project k \<in> {[], name_project (kc_Name k)} \<and> kc_location k \<in> {[], name_location (kc_Name k)}
     \<and> kc_name k \<in> {[], name_name (kc_Name k)}
     \<and> (kc_location k \<noteq> [] \<longrightarrow> kc_project k = name_project (kc_Name k))"

text \<open>
  The relation that every step of every method keeps: the configuration never changes, the
  service account becomes \<open>default\<close> at most, the clientset stays the one \<open>Client\<close> answers
  with, and caches are filled with what the name says and never emptied.
\<close>

definition caches_grow :: "K8SCluster \<Rightarrow> K8SCluster \<Rightarrow> bool" where
  "caches_grow k k' \<longleftrightarrow> caches_inv k'
     \<and> (kc_project k \<noteq> [] \<longrightarrow> kc_project k' \<noteq> []) \<and> (kc_location k \<noteq> [] \<longrightarrow> kc_location k' \<noteq> [])
     \<and> (kc_name k \<noteq> [] \<longrightarrow> kc_name k' \<noteq> [])"

definition cluster_rely :: "'w k8s_api \<Rightarrow> K8SCluster \<Rightarrow> K8SCluster \<Rightarrow> bool" where
  "cluster_rely api k k' \<longleftrightarrow>
     kc_RestConfig k' = kc_RestConfig k \<and> kc_Name k' = kc_Name k \<and> kc_Namespace k' = kc_Namespace k
     \<and> kc_RawConfig k' = kc_RawConfig k
     \<and> or_default (kc_KSA k') = or_default (kc_KSA k) \<and> (kc_KSA k \<noteq> [] \<longrightarrow> kc_KSA k' \<noteq> [])
     \<and> client_of api k' = client_of api k \<and> (kc_client k \<noteq> None \<longrightarrow> kc_client k' \<noteq> None)
     \<and> (caches_inv k \<longrightarrow> caches_grow k k')"

definition shared_rely :: "'w k8s_api \<Rightarrow> K8SCluster \<times> 'w \<Rightarrow> K8SCluster \<times> 'w \<Rightarrow> bool" where
  "shared_rely api s s' \<longleftrightarrow> cluster_rely api (fst s) (fst s')"

lemma cluster_rely_refl [simp]: "cluster_rely api k k"
  by (simp add: cluster_rely_def caches_grow_def)

lemma cluster_rely_trans: "cluster_rely api k1 k2 \<Longrightarrow> cluster_rely api k2 k3 \<Longrightarrow> cluster_rely api k1 k3"
  by (auto simp: cluster_rely_def caches_grow_def)

lemma cluster_relyD:
  assumes "cluster_rely api k k'"
  shows "kc_RestConfig k' = kc_RestConfig k" and "kc_Name k' = kc_Name k" and "kc_Namespace k' = kc_Namespace k"
    and "or_default (kc_KSA k') = or_default (kc_KSA k)" and "kc_KSA k \<noteq> [] \<Longrightarrow> kc_KSA k' \<noteq> []"
    and "client_of api k' = client_of api k" and "kc_client k \<noteq> None \<Longrightarrow> kc_client k' \<noteq> None"
    and "caches_inv k \<Longrightarrow> caches_inv k'"
    and "caches_inv k \<Longrightarrow> kc_location k \<noteq> [] \<Longrightarrow> kc_location k' \<noteq> []"
  using assms by (simp_all add: cluster_rely_def caches_grow_def)

interpretation ct: rely_guarantee "shared_rely api" for api
  by unfold_locales (auto simp: shared_rely_def intro: cluster_rely_trans)

text \<open>The writes.\<close>

lemma client_of_writes [simp]:
  "client_of api (k\<lparr>kc_project := x\<rparr>) = client_of api k" "client_of api (k\<lparr>kc_location := x\<rparr>) = client_of api k"
  "client_of api (k\<lparr>kc_name := x\<rparr>) = client_of api k"
  by (simp_all add: client_of_def split: option.split)

lemma write_KSA: "kc_KSA k = [] \<or> kc_KSA k = ''default'' \<Longrightarrow> cluster_rely api k (k\<lparr>kc_KSA := ''default''\<rparr>)"
  by (auto simp: cluster_rely_def caches_grow_def caches_inv_def or_default_def)

lemma write_client:
  assumes "new_for_config api (kc_RestConfig k) = Inr res"
    and "kc_client k = None \<or> (\<exists>c. res = Inr c \<and> kc_client k = Some c)"
  shows "cluster_rely api k (k\<lparr>kc_client := (case res of Inl err \<Rightarrow> None | Inr c \<Rightarrow> Some c)\<rparr>)"
  using assms by (auto simp: cluster_rely_def caches_grow_def caches_inv_def client_of_def split: sum.splits)

lemma write_caches:
  shows "x = name_project (kc_Name k) \<Longrightarrow> cluster_rely api k (k\<lparr>kc_project := x\<rparr>)"
    and "x = name_location (kc_Name k) \<Longrightarrow> kc_project k = name_project (kc_Name k) \<Longrightarrow> caches_inv k
      \<Longrightarrow> cluster_rely api k (k\<lparr>kc_location := x\<rparr>)"
    and "x = name_name (kc_Name k) \<Longrightarrow> cluster_rely api k (k\<lparr>kc_name := x\<rparr>)"
  by (auto simp: cluster_rely_def caches_grow_def caches_inv_def)

text \<open>The statements, for the cluster.\<close>

lemma g_field:
  "(\<And>s1. shared_rely api s s1 \<Longrightarrow> guarantees (shared_rely api) (c (f (fst s1))) s1 Q)
    \<Longrightarrow> guarantees (shared_rely api) (rd_field f c) s Q"
  unfolding rd_field_def by (rule ct.g_rd)

lemma g_write:
  "(\<And>s1. shared_rely api s s1 \<Longrightarrow> cluster_rely api (fst s1) (u (fst s1))
      \<and> guarantees (shared_rely api) p (u (fst s1), snd s1) Q)
    \<Longrightarrow> guarantees (shared_rely api) (wr_field u p) s Q"
  unfolding wr_field_def by (rule ct.g_wr) (simp add: shared_rely_def)

lemma g_call:
  "(\<And>s1 x w'. shared_rely api s s1 \<Longrightarrow> f (snd s1) = (x, w') \<Longrightarrow> guarantees (shared_rely api) (c x) (fst s1, w') Q)
    \<Longrightarrow> guarantees (shared_rely api) (call_server f c) s Q"
  unfolding call_server_def by (rule ct.g_atomically) (auto simp: shared_rely_def split: prod.splits)

lemma g_returns:
  "guarantees (shared_rely api) p s (\<lambda>x s'. Q (f x) s') \<Longrightarrow> guarantees (shared_rely api) (returns f p) s Q"
  unfolding returns_def by (rule ct.g_seq) simp_all

lemma shared_relyD:
  assumes "shared_rely api s s'"
  shows "kc_RestConfig (fst s') = kc_RestConfig (fst s)" and "kc_Name (fst s') = kc_Name (fst s)"
    and "kc_Namespace (fst s') = kc_Namespace (fst s)"
    and "or_default (kc_KSA (fst s')) = or_default (kc_KSA (fst s))"
    and "client_of api (fst s') = client_of api (fst s)"
  using cluster_relyD [of api "fst s" "fst s'"] assms by (simp_all add: shared_rely_def)

text \<open>A method that runs alone keeps the relation too, also on a name that is not well formed.\<close>

lemma GcpInfo_rely:
  assumes "GcpInfo k = Inr (r, k')"
  shows "cluster_rely api k k'"
proof (cases "kc_location k = []")
  case loc: True
  show ?thesis
  proof (cases "has_prefix (kc_Name k) ''gke_''")
    case True
    then have "name_project (kc_Name k) = go_split (kc_Name k) ''_'' ! 1"
      "name_location (kc_Name k) = go_split (kc_Name k) ''_'' ! 2" "name_name (kc_Name k) = go_split (kc_Name k) ''_'' ! 3"
      by (simp_all add: name_project_def name_location_def name_name_def name_info_def Let_def)
    with assms loc True show ?thesis
      by (auto simp: GcpInfo_gke Let_def cluster_rely_def caches_grow_def caches_inv_def split: if_splits)
  next
    case False
    have P: "name_project (kc_Name k) = go_split (kc_Name k) ''_'' ! 1"
      if "has_prefix (kc_Name k) ''connectgateway_''" "2 < length (go_split (kc_Name k) ''_'')"
      using False that by (simp add: name_project_def name_info_def Let_def)
    with assms loc False show ?thesis
      by (auto simp: GcpInfo_other GcpInfo_connect_def Let_def intro: write_caches(1) split: if_splits)
  qed
next
  case False
  with assms show ?thesis by (simp add: GcpInfo_cached)
qed

lemma Location_rely: "Location k = Inr (l, k') \<Longrightarrow> cluster_rely api k k'"
  by (auto simp: Location_def GcpInfo_rely split: if_splits elim!: bnd_InrE)

lemma Label_rely: "Label k q = Inr (l, k') \<Longrightarrow> cluster_rely api k k'"
  by (auto simp: Label_def GcpInfo_rely Location_rely split: if_splits elim!: bnd_InrE)

lemma Client_rely:
  assumes "Client api k = Inr (c, k')"
  shows "cluster_rely api k k'"
proof (cases "kc_client k")
  case None
  from assms None obtain res where "new_for_config api (kc_RestConfig k) = Inr res"
    "k' = k\<lparr>kc_client := (case res of Inl err \<Rightarrow> None | Inr c \<Rightarrow> Some c)\<rparr>"
    by (auto simp: Client_def split: sum.splits elim!: bnd_InrE)
  with write_client [of api k res] None show ?thesis by simp
next
  case (Some c')
  with assms show ?thesis by (simp add: Client_def)
qed

lemma GetTokenRaw_rely: "GetTokenRaw api k ns ksa aud w = Inr (r, k', w') \<Longrightarrow> cluster_rely api k k'"
  by (auto simp: GetTokenRaw_def Let_def split: prod.splits sum.splits elim!: bnd_InrE intro: Client_rely)

lemma GetToken_rely:
  assumes "GetToken api k aud w = Inr (r, k', w')"
  shows "cluster_rely api k k'"
proof (cases "kc_KSA k = []")
  case True
  with assms have "cluster_rely api (k\<lparr>kc_KSA := ''default''\<rparr>) k'"
    by (auto simp: GetToken_def Let_def intro: GetTokenRaw_rely)
  with True write_KSA cluster_rely_trans show ?thesis by blast
next
  case False
  with assms show ?thesis by (auto simp: GetToken_def Let_def intro: GetTokenRaw_rely)
qed

lemma call_run_rely:
  assumes "call_run api c (k, w) = Inr (a, k', w')"
  shows "cluster_rely api k k'"
  using assms
  by (cases c)
    (auto simp: answers_def RunAs_def GetCM_def GetSecret_def elim!: bnd_InrE split: prod.splits
      intro: GcpInfo_rely Location_rely Label_rely Client_rely GetTokenRaw_rely GetToken_rely)

section \<open>Clients and the calls of the server\<close>

lemma client_stays:
  assumes "shared_rely api s s'" and "client_of api (fst s) = Some c" and "kc_client (fst s) \<noteq> None"
  shows "kc_client (fst s') = Some c"
proof -
  have "kc_client (fst s') \<noteq> None" "client_of api (fst s') = Some c"
    using assms cluster_relyD(6,7) unfolding shared_rely_def by metis+
  then show ?thesis by auto
qed

lemma g_read_client:
  assumes "client_of api (fst s) = Some c" and "kc_client (fst s) \<noteq> None"
  shows "guarantees (shared_rely api) (rd_field kc_client Return) s (\<lambda>r _. r = Some c)"
  by (rule g_field) (simp add: client_stays [OF _ assms])

lemma g_build_client:
  assumes "client_of api (fst s) = Some c" and "kc_client (fst s) = None"
  shows "guarantees (shared_rely api)
    (rd_field kc_RestConfig (\<lambda>config. local_exec (new_for_config api config) (\<lambda>res.
       wr_field (\<lambda>k. k\<lparr>kc_client := (case res of Inl err \<Rightarrow> None | Inr c \<Rightarrow> Some c)\<rparr>) (
       rd_field kc_client Return)))) s (\<lambda>r _. r = Some c)"
proof (rule g_field)
  let ?u = "\<lambda>res k. k\<lparr>kc_client := (case (res :: go_error + clientset) of Inl err \<Rightarrow> None | Inr c \<Rightarrow> Some c)\<rparr>"
  let ?k = "\<lambda>res. wr_field (?u res) (rd_field kc_client Return)"
  fix s1
  assume s1: "shared_rely api s s1"
  have new: "new_for_config api (kc_RestConfig (fst s)) = Inr (Inr c)"
    using assms by (simp add: client_of_def split: sum.splits)
  have "guarantees (shared_rely api) (?k (Inr c)) s1 (\<lambda>r _. r = Some c)"
  proof (rule g_write, rule conjI)
    fix s2
    assume s2: "shared_rely api s1 s2"
    have c2: "kc_RestConfig (fst s2) = kc_RestConfig (fst s)" "client_of api (fst s2) = Some c"
      using shared_relyD [OF s1] shared_relyD [OF s2] assms(1) by simp_all
    have "kc_client (fst s2) = None \<or> (\<exists>c'. Inr c = (Inr c' :: go_error + clientset) \<and> kc_client (fst s2) = Some c')"
      using c2(2) by (cases "kc_client (fst s2)") auto
    then show "cluster_rely api (fst s2) (?u (Inr c) (fst s2))"
      by (intro write_client) (simp_all add: c2(1) new)
    show "guarantees (shared_rely api) (rd_field kc_client Return) (?u (Inr c) (fst s2), snd s2) (\<lambda>r _. r = Some c)"
      by (rule g_read_client) simp_all
  qed
  moreover have "new_for_config api (kc_RestConfig (fst s1)) = Inr (Inr c)"
    using shared_relyD(1) [OF s1] new by simp
  ultimately show "guarantees (shared_rely api) (local_exec (new_for_config api (kc_RestConfig (fst s1))) ?k) s1
      (\<lambda>r _. r = Some c)" by (rule ct.g_local [rotated])
qed

lemma g_Client:
  assumes "client_of api (fst s) = Some c"
  shows "guarantees (shared_rely api) (Client_prog api) s (\<lambda>r _. r = Some c)"
  unfolding Client_prog_def
proof (rule g_field)
  fix s1
  assume s1: "shared_rely api s s1"
  with assms have "client_of api (fst s1) = Some c" by (simp add: shared_relyD)
  then show "guarantees (shared_rely api) (if kc_client (fst s1) = None then
         rd_field kc_RestConfig (\<lambda>config.
         local_exec (new_for_config api config) (\<lambda>res.
         wr_field (\<lambda>k. k\<lparr>kc_client := (case res of Inl err \<Rightarrow> None | Inr c \<Rightarrow> Some c)\<rparr>) (
         rd_field kc_client Return)))
       else rd_field kc_client Return) s1 (\<lambda>r _. r = Some c)"
    by (simp add: g_read_client g_build_client)
qed

text \<open>A method that asks the server something through the clientset.\<close>

lemma g_through_client:
  assumes "client_of api (fst s) = Some c"
  shows "guarantees (shared_rely api)
    (seq (Client_prog api) (\<lambda>c. local_exec (core_v1 c) (\<lambda>c. call_server (f c) (\<lambda>res. Return (h res))))) s
    (\<lambda>r _. \<exists>w res w'. f c w = (res, w') \<and> r = h res)"
  by (rule ct.g_seq [OF g_Client [OF assms]], rule ct.g_local [of _ c], simp add: core_v1_def, rule g_call, auto)

definition token_asked :: "'w k8s_api \<Rightarrow> clientset \<Rightarrow> string \<Rightarrow> string \<Rightarrow> string \<Rightarrow> string \<times> go_error option \<Rightarrow> bool" where
  "token_asked api c ns ksa aud r \<longleftrightarrow>
     (\<exists>w res w'. create_token api c (or_default ns) (or_default ksa) [aud] w = (res, w') \<and> r = token_result res)"

lemma g_GetTokenRaw:
  assumes "client_of api (fst s) = Some c"
  shows "guarantees (shared_rely api) (GetTokenRaw_prog api ns ksa aud) s (\<lambda>r _. token_asked api c ns ksa aud r)"
proof -
  have "GetTokenRaw_prog api ns ksa aud = seq (Client_prog api) (\<lambda>c. local_exec (core_v1 c) (\<lambda>c.
      call_server (create_token api c (or_default ns) (or_default ksa) [aud]) (\<lambda>res. Return (token_result res))))"
    by (simp add: GetTokenRaw_prog_def or_default_def token_result_def)
  then show ?thesis
    using g_through_client [OF assms, of "\<lambda>c. create_token api c (or_default ns) (or_default ksa) [aud]" token_result]
    by (simp add: token_asked_def)
qed

lemma g_GetToken:
  assumes "client_of api (fst s) = Some c"
  shows "guarantees (shared_rely api) (GetToken_prog api aud) s
    (\<lambda>r _. token_asked api c (kc_Namespace (fst s)) (or_default (kc_KSA (fst s))) aud r)"
proof -
  let ?Q = "\<lambda>r (_ :: K8SCluster \<times> 'a). token_asked api c (kc_Namespace (fst s)) (or_default (kc_KSA (fst s))) aud r"
  let ?rest = "rd_field kc_Namespace (\<lambda>ns. rd_field kc_KSA (\<lambda>ksa. GetTokenRaw_prog api ns ksa aud))"
  have rest: "guarantees (shared_rely api) ?rest s1 ?Q" if "shared_rely api s s1" for s1
  proof (intro g_field)
    fix s2 s3
    assume s2: "shared_rely api s1 s2" and s3: "shared_rely api s2 s3"
    note d = shared_relyD [OF that] shared_relyD [OF s2] shared_relyD [OF s3]
    have "client_of api (fst s3) = Some c" using assms d by simp
    from g_GetTokenRaw [OF this, of "kc_Namespace (fst s2)" "kc_KSA (fst s3)" aud]
    show "guarantees (shared_rely api) (GetTokenRaw_prog api (kc_Namespace (fst s2)) (kc_KSA (fst s3)) aud) s3 ?Q"
      by (rule ct.g_mono) (use d in \<open>simp add: token_asked_def or_default_def split: if_splits\<close>)
  qed
  show ?thesis
    unfolding GetToken_prog_def Let_def
  proof (rule g_field)
    fix s1
    assume s1: "shared_rely api s s1"
    show "guarantees (shared_rely api)
        (if kc_KSA (fst s1) = [] then wr_field (\<lambda>k. k\<lparr>kc_KSA := ''default''\<rparr>) ?rest else ?rest) s1 ?Q"
    proof (cases "kc_KSA (fst s1) = []")
      case True
      have "guarantees (shared_rely api) (wr_field (\<lambda>k. k\<lparr>kc_KSA := ''default''\<rparr>) ?rest) s1 ?Q"
      proof (intro g_write conjI)
        fix s2
        assume s2: "shared_rely api s1 s2"
        have "kc_KSA (fst s2) = [] \<or> kc_KSA (fst s2) = ''default''"
          using shared_relyD(4) [OF s2] True by (auto simp: or_default_def split: if_splits)
        then show w: "cluster_rely api (fst s2) ((fst s2)\<lparr>kc_KSA := ''default''\<rparr>)" by (rule write_KSA)
        show "guarantees (shared_rely api) ?rest ((fst s2)\<lparr>kc_KSA := ''default''\<rparr>, snd s2) ?Q"
          by (rule rest, rule ct.R_trans [OF s1], rule ct.R_trans [OF s2]) (simp add: shared_rely_def w)
      qed
      with True show ?thesis by simp
    qed (simp add: rest [OF s1])
  qed
qed

section \<open>Project, location and name\<close>

lemma filled:
  assumes "shared_rely api s s'" and "caches_inv (fst s)" and "kc_Name (fst s) = n"
  shows "kc_project (fst s) = name_project n \<Longrightarrow> kc_project (fst s') = name_project n"
    and "kc_location (fst s) = name_location n \<Longrightarrow> kc_location (fst s') = name_location n"
    and "kc_location (fst s) \<noteq> [] \<Longrightarrow> kc_location (fst s') = name_location n \<and> kc_project (fst s') = name_project n
        \<and> kc_location (fst s') \<noteq> []"
    and "kc_name (fst s) = name_name n \<Longrightarrow> kc_name (fst s') = name_name n"
    and "caches_inv (fst s')" and "kc_Name (fst s') = n"
proof -
  have g: "caches_inv (fst s')" "kc_Name (fst s') = n" "kc_project (fst s) \<noteq> [] \<longrightarrow> kc_project (fst s') \<noteq> []"
    "kc_location (fst s) \<noteq> [] \<longrightarrow> kc_location (fst s') \<noteq> []" "kc_name (fst s) \<noteq> [] \<longrightarrow> kc_name (fst s') \<noteq> []"
    using assms by (simp_all add: shared_rely_def cluster_rely_def caches_grow_def)
  note i' = g(1) [unfolded caches_inv_def g(2)]
  show "kc_project (fst s) = name_project n \<Longrightarrow> kc_project (fst s') = name_project n" using g(3) i' by auto
  show "kc_location (fst s) = name_location n \<Longrightarrow> kc_location (fst s') = name_location n" using g(4) i' by auto
  show "kc_location (fst s) \<noteq> [] \<Longrightarrow> kc_location (fst s') = name_location n \<and> kc_project (fst s') = name_project n
        \<and> kc_location (fst s') \<noteq> []" using g(4) i' by auto
  show "kc_name (fst s) = name_name n \<Longrightarrow> kc_name (fst s') = name_name n" using g(5) i' by auto
  show "caches_inv (fst s')" "kc_Name (fst s') = n" using g(1,2) .
qed

definition read_name :: "string \<Rightarrow> string \<times> string \<times> string" where
  "read_name s = (let parts = go_split s ''_'' in
     if has_prefix s ''gke_'' then (parts ! 1, parts ! 2, parts ! 3)
     else if has_prefix s ''connectgateway_'' \<and> length parts > 2 then (parts ! 1, [], parts ! 2)
     else ([], [], s))"

text \<open>What \<open>GcpInfo\<close> may return, and what is cached when it does.\<close>

definition info_result :: "string \<Rightarrow> string \<times> string \<times> string \<Rightarrow> K8SCluster \<times> 'w \<Rightarrow> bool" where
  "info_result n r s \<longleftrightarrow>
     (r = read_name n \<or> name_location n \<noteq> [] \<and> r = (name_project n, name_location n, n))
     \<and> caches_inv (fst s) \<and> kc_Name (fst s) = n
     \<and> kc_project (fst s) = name_project n \<and> kc_location (fst s) = name_location n"

lemma g_GcpInfo_cached:
  assumes "caches_inv (fst s)" and "kc_Name (fst s) = n" and "kc_location (fst s) \<noteq> []"
  shows "guarantees (shared_rely api)
    (rd_field kc_project (\<lambda>p. rd_field kc_location (\<lambda>l. rd_field kc_Name (\<lambda>n. Return (p, l, n))))) s (\<lambda>r s. info_result n r s \<and> r = (name_project n, name_location n, n))"
proof (intro g_field)
  fix s1 s2 s3
  assume s: "shared_rely api s s1" "shared_rely api s1 s2" "shared_rely api s2 s3"
  note f1 = filled [OF s(1) assms(1,2)]
  note f2 = filled [OF s(2) f1(5,6)]
  note f3 = filled [OF s(3) f2(5,6)]
  show "guarantees (shared_rely api)
      (Return (kc_project (fst s1), kc_location (fst s2), kc_Name (fst s3))) s3 (\<lambda>r s. info_result n r s \<and> r = (name_project n, name_location n, n))"
    using f1(3) [OF assms(3)] f2(3) f3(3,5,6) by (auto simp: info_result_def)
qed

lemma g_GcpInfo_connect:
  assumes "caches_inv (fst s)" and "kc_Name (fst s) = n" and "\<not> has_prefix n ''gke_''"
  shows "guarantees (shared_rely api) (GcpInfo_connect_prog n) s (info_result n)"
proof (cases "has_prefix n ''connectgateway_'' \<and> length (go_split n ''_'') > 2")
  case True
  have "guarantees (shared_rely api) (wr_field (\<lambda>k. k\<lparr>kc_project := go_split n ''_'' ! 1\<rparr>)
      (Return (go_split n ''_'' ! 1, [], go_split n ''_'' ! 2))) s (info_result n)"
  proof (intro g_write conjI)
    fix s1
    assume s1: "shared_rely api s s1"
    note f = filled [OF s1 assms(1,2)]
    have P: "go_split n ''_'' ! 1 = name_project n" "name_location n = []"
      using True assms(3) by (simp_all add: name_project_def name_location_def name_info_def)
    then show "cluster_rely api (fst s1) ((fst s1)\<lparr>kc_project := go_split n ''_'' ! 1\<rparr>)"
      using f(5,6) by (intro write_caches) simp_all
    show "guarantees (shared_rely api) (Return (go_split n ''_'' ! 1, [], go_split n ''_'' ! 2))
        ((fst s1)\<lparr>kc_project := go_split n ''_'' ! 1\<rparr>, snd s1) (info_result n)"
      using P f(5,6) True assms(3) by (auto simp: info_result_def read_name_def Let_def caches_inv_def)
  qed
  with True show ?thesis by (simp add: GcpInfo_connect_prog_def Let_def)
next
  case False
  then have "name_project n = []" "name_location n = []" "read_name n = ([], [], n)"
    using assms(3) by (auto simp: name_project_def name_location_def name_info_def read_name_def Let_def)
  with False assms show ?thesis
    by (auto simp: GcpInfo_connect_prog_def Let_def info_result_def caches_inv_def)
qed

lemma g_GcpInfo_gke:
  fixes api :: "'w k8s_api"
  assumes "caches_inv (fst s)" and "kc_Name (fst s) = n" and "has_prefix n ''gke_''"
    and "go_split n ''_'' = parts" and "3 < length parts"
  shows "guarantees (shared_rely api)
     (wr_field (\<lambda>k. k\<lparr>kc_project := parts ! 1\<rparr>) (wr_field (\<lambda>k. k\<lparr>kc_location := parts ! 2\<rparr>)
        (wr_field (\<lambda>k. k\<lparr>kc_name := parts ! 3\<rparr>) (Return (parts ! 1, parts ! 2, parts ! 3))))) s (info_result n)"
proof -
  have n: "parts ! 1 = name_project n" "parts ! 2 = name_location n" "parts ! 3 = name_name n"
    "read_name n = (parts ! 1, parts ! 2, parts ! 3)"
    using assms(3,4) by (simp_all add: name_project_def name_location_def name_name_def name_info_def read_name_def Let_def)
  show ?thesis
  proof (rule g_write, rule conjI)
    fix s1 :: "K8SCluster \<times> 'w"
    let ?s1 = "((fst s1)\<lparr>kc_project := parts ! 1\<rparr>, snd s1)"
    assume "shared_rely api s s1"
    note f1 = filled [OF this assms(1,2)]
    show w1: "cluster_rely api (fst s1) ((fst s1)\<lparr>kc_project := parts ! 1\<rparr>)"
      using f1(5,6) n by (simp add: write_caches)
    have i1: "caches_inv (fst ?s1)" "kc_Name (fst ?s1) = n"
      using cluster_relyD(8) [OF w1 f1(5)] f1(6) by simp_all
    show "guarantees (shared_rely api) (wr_field (\<lambda>k. k\<lparr>kc_location := parts ! 2\<rparr>)
        (wr_field (\<lambda>k. k\<lparr>kc_name := parts ! 3\<rparr>) (Return (parts ! 1, parts ! 2, parts ! 3)))) ?s1 (info_result n)"
    proof (rule g_write, rule conjI)
      fix s2 :: "K8SCluster \<times> 'w"
      let ?s2 = "((fst s2)\<lparr>kc_location := parts ! 2\<rparr>, snd s2)"
      assume "shared_rely api ?s1 s2"
      note f2 = filled [OF this i1]
      show w2: "cluster_rely api (fst s2) ((fst s2)\<lparr>kc_location := parts ! 2\<rparr>)"
        using f2(1,5,6) n by (simp add: write_caches)
      have i2: "caches_inv (fst ?s2)" "kc_Name (fst ?s2) = n"
        using cluster_relyD(8) [OF w2 f2(5)] f2(6) by simp_all
      show "guarantees (shared_rely api) (wr_field (\<lambda>k. k\<lparr>kc_name := parts ! 3\<rparr>)
          (Return (parts ! 1, parts ! 2, parts ! 3))) ?s2 (info_result n)"
      proof (rule g_write, rule conjI)
        fix s3 :: "K8SCluster \<times> 'w"
        assume "shared_rely api ?s2 s3"
        note f3 = filled [OF this i2]
        show w3: "cluster_rely api (fst s3) ((fst s3)\<lparr>kc_name := parts ! 3\<rparr>)"
          using f3(5,6) n by (simp add: write_caches)
        show "guarantees (shared_rely api) (Return (parts ! 1, parts ! 2, parts ! 3))
            ((fst s3)\<lparr>kc_name := parts ! 3\<rparr>, snd s3) (info_result n)"
          using cluster_relyD(8) [OF w3 f3(5)] f3(6) n f3(1,2) f2(1) by (simp add: info_result_def)
      qed
    qed
  qed
qed

lemma g_GcpInfo:
  assumes "caches_inv (fst s)" and "kc_Name (fst s) = n" and "name_ok n"
  shows "guarantees (shared_rely api) GcpInfo_prog s (info_result n)"
  unfolding GcpInfo_prog_def
proof (rule g_field)
  fix s1
  assume s1: "shared_rely api s s1"
  note f1 = filled [OF s1 assms(1,2)]
  let ?parts = "go_split n ''_''"
  let ?body = "\<lambda>cf. if has_prefix cf ''gke_'' then
      (let parts = go_split cf ''_'' in
            local_exec (idx parts 1) (\<lambda>p. wr_field (\<lambda>k. k\<lparr>kc_project := p\<rparr>) (
            local_exec (idx parts 2) (\<lambda>l. wr_field (\<lambda>k. k\<lparr>kc_location := l\<rparr>) (
            local_exec (idx parts 3) (\<lambda>n. wr_field (\<lambda>k. k\<lparr>kc_name := n\<rparr>) (
              if length parts > 3 then Return (p, l, n) else GcpInfo_connect_prog cf)))))))
      else GcpInfo_connect_prog cf"
  have body: "guarantees (shared_rely api) (?body n) s2 (info_result n)" if s2: "shared_rely api s1 s2" for s2
  proof (cases "has_prefix n ''gke_''")
    case True
    with assms(3) have len: "3 < length ?parts" by (simp add: name_ok_def length_go_split_char)
    then have eq: "?body n = wr_field (\<lambda>k. k\<lparr>kc_project := ?parts ! 1\<rparr>) (wr_field (\<lambda>k. k\<lparr>kc_location := ?parts ! 2\<rparr>)
        (wr_field (\<lambda>k. k\<lparr>kc_name := ?parts ! 3\<rparr>) (Return (?parts ! 1, ?parts ! 2, ?parts ! 3))))"
      using True by (simp add: Let_def idx_ok local_exec_def)
    show ?thesis unfolding eq by (rule g_GcpInfo_gke [OF filled(5,6) [OF s2 f1(5,6)] True refl len])
  next
    case False
    with g_GcpInfo_connect [OF filled(5,6) [OF s2 f1(5,6)] False] show ?thesis by simp
  qed
  show "guarantees (shared_rely api) (if kc_location (fst s1) \<noteq> [] then
         rd_field kc_project (\<lambda>p. rd_field kc_location (\<lambda>l. rd_field kc_Name (\<lambda>n. Return (p, l, n))))
       else rd_field kc_Name ?body) s1 (info_result n)"
  proof (cases "kc_location (fst s1) \<noteq> []")
    case True
    with ct.g_mono [OF g_GcpInfo_cached [OF f1(5,6) True], where Q' = "info_result n"] show ?thesis by simp
  next
    case False
    have "guarantees (shared_rely api) (rd_field kc_Name ?body) s1 (info_result n)"
    proof (rule g_field)
      fix s2
      assume s2: "shared_rely api s1 s2"
      show "guarantees (shared_rely api) (?body (kc_Name (fst s2))) s2 (info_result n)"
        unfolding filled(6) [OF s2 f1(5,6)] by (rule body [OF s2])
    qed
    with False show ?thesis by simp
  qed
qed

lemma g_GcpInfo_filled:
  assumes "caches_inv (fst s)" and "kc_Name (fst s) = n" and "kc_location (fst s) \<noteq> []"
  shows "guarantees (shared_rely api) GcpInfo_prog s (\<lambda>r _. r = (name_project n, name_location n, n))"
  unfolding GcpInfo_prog_def
proof (rule g_field)
  fix s1
  assume "shared_rely api s s1"
  note f1 = filled [OF this assms(1,2)]
  have loc: "kc_location (fst s1) \<noteq> []" using f1(3) [OF assms(3)] by auto
  with ct.g_mono [OF g_GcpInfo_cached [OF f1(5,6) loc], where Q' = "\<lambda>r _. r = (name_project n, name_location n, n)"]
  show "guarantees (shared_rely api) (if kc_location (fst s1) \<noteq> [] then
         rd_field kc_project (\<lambda>p. rd_field kc_location (\<lambda>l. rd_field kc_Name (\<lambda>n. Return (p, l, n))))
       else rd_field kc_Name (\<lambda>cf.
         if has_prefix cf ''gke_'' then
           (let parts = go_split cf ''_'' in
            local_exec (idx parts 1) (\<lambda>p. wr_field (\<lambda>k. k\<lparr>kc_project := p\<rparr>) (
            local_exec (idx parts 2) (\<lambda>l. wr_field (\<lambda>k. k\<lparr>kc_location := l\<rparr>) (
            local_exec (idx parts 3) (\<lambda>n. wr_field (\<lambda>k. k\<lparr>kc_name := n\<rparr>) (
              if length parts > 3 then Return (p, l, n) else GcpInfo_connect_prog cf)))))))
         else GcpInfo_connect_prog cf)) s1 (\<lambda>r _. r = (name_project n, name_location n, n))"
    by simp
qed

text \<open>A field that is read after \<open>GcpInfo\<close>.\<close>

lemma g_after_GcpInfo:
  assumes "caches_inv (fst s)" and "kc_Name (fst s) = n" and "name_ok n"
    and "\<And>r s1 s2. info_result n r s1 \<Longrightarrow> shared_rely api s1 s2 \<Longrightarrow> Q (f (fst s2)) s2"
  shows "guarantees (shared_rely api) (seq GcpInfo_prog (\<lambda>_. rd_field f Return)) s Q"
  by (rule ct.g_seq [OF g_GcpInfo [OF assms(1-3)]], rule g_field) (simp add: assms(4))

lemma info_resultD:
  assumes "info_result n r s1" and "shared_rely api s1 s2"
  shows "kc_project (fst s2) = name_project n" and "kc_location (fst s2) = name_location n"
    and "kc_name (fst s2) \<in> {[], name_name n}"
  using filled [OF assms(2), of n] assms(1) by (auto simp: info_result_def caches_inv_def)

lemma g_Location:
  assumes "caches_inv (fst s)" and "kc_Name (fst s) = n" and "name_ok n"
  shows "guarantees (shared_rely api) Location_prog s (\<lambda>r _. r = name_location n)"
  unfolding Location_prog_def
proof (rule g_field)
  fix s1
  assume s1: "shared_rely api s s1"
  note f1 = filled [OF s1 assms(1,2)]
  have "guarantees (shared_rely api) (rd_field kc_location Return) s1 (\<lambda>r _. r = name_location n)"
    if "kc_location (fst s1) \<noteq> []"
    by (rule g_field) (use filled(3) [OF _ f1(5,6) that] in simp)
  moreover have "guarantees (shared_rely api) (seq GcpInfo_prog (\<lambda>_. rd_field kc_location Return)) s1
      (\<lambda>r _. r = name_location n)"
    by (rule g_after_GcpInfo [OF f1(5,6) assms(3)]) (rule info_resultD(2))
  ultimately show "guarantees (shared_rely api) (if kc_location (fst s1) = [] then
      seq GcpInfo_prog (\<lambda>_. rd_field kc_location Return) else rd_field kc_location Return) s1
      (\<lambda>r _. r = name_location n)" by simp
qed

definition label_value :: "string \<Rightarrow> string \<Rightarrow> string" where
  "label_value n q = (if q = ''location'' then name_location n else if q = ''project'' then name_project n
     else if q = ''name'' then name_name n else [])"

lemma g_Label:
  assumes "caches_inv (fst s)" and "kc_Name (fst s) = n" and "name_ok n"
  shows "guarantees (shared_rely api) (Label_prog q) s (\<lambda>r _. r = label_value n q \<or> q = ''name'' \<and> r = [])"
proof -
  have "guarantees (shared_rely api) (seq GcpInfo_prog (\<lambda>_. rd_field kc_project Return)) s (\<lambda>r _. r = name_project n)"
    by (rule g_after_GcpInfo [OF assms]) (rule info_resultD(1))
  moreover have "guarantees (shared_rely api) (seq GcpInfo_prog (\<lambda>_. rd_field kc_name Return)) s
      (\<lambda>r _. r = name_name n \<or> r = [])"
    by (rule g_after_GcpInfo [OF assms]) (use info_resultD(3) in blast)
  ultimately show ?thesis
    using g_Location [OF assms, of api] by (auto simp: Label_prog_def label_value_def)
qed

section \<open>Properties\<close>

text \<open>
  What a call may answer: what it answers alone, on the cluster as it was at first and some
  state of the world; except for the two that read a half-filled cache.
\<close>

definition answer_ok :: "'w k8s_api \<Rightarrow> K8SCluster \<Rightarrow> cluster_call \<Rightarrow> cluster_answer \<Rightarrow> bool" where
  "answer_ok api k c a \<longleftrightarrow>
     (\<exists>w s'. call_run api c (k, w) = Inr (a, s'))
     \<or> c = CallLabel ''name'' \<and> a = Text []
     \<or> c = CallGcpInfo \<and> a = Info (name_project (kc_Name k), name_location (kc_Name k), kc_Name k)"

text \<open>
  A cluster that can be used: a readable name, a configuration and a clientset, and caches from the name, with all of
  them filled once the location is.
\<close>

definition usable :: "'w k8s_api \<Rightarrow> K8SCluster \<Rightarrow> bool" where
  "usable api k \<longleftrightarrow> name_ok (kc_Name k) \<and> caches_inv k
     \<and> (kc_location k \<noteq> [] \<longrightarrow> kc_name k = name_name (kc_Name k))
     \<and> client_of api k \<noteq> None \<and> kc_RestConfig k \<noteq> None"

lemma GcpInfo_uncached:
  assumes "name_ok (kc_Name k)" and "caches_inv k"
  shows "\<exists>k'. GcpInfo k = Inr (if kc_location k = [] then read_name (kc_Name k)
      else (name_project (kc_Name k), name_location (kc_Name k), kc_Name k), k')
    \<and> kc_project k' = name_project (kc_Name k) \<and> kc_location k' = name_location (kc_Name k)
    \<and> kc_name k' = (if kc_location k = [] \<and> has_prefix (kc_Name k) ''gke_'' then name_name (kc_Name k) else kc_name k)"
proof (cases "kc_location k = []")
  case loc: True
  show ?thesis
  proof (cases "has_prefix (kc_Name k) ''gke_''")
    case True
    with assms(1) have "\<not> length (go_split (kc_Name k) ''_'') < 4" by (simp add: name_ok_def length_go_split_char)
    with loc True show ?thesis
      by (simp add: GcpInfo_gke Let_def read_name_def name_project_def name_location_def name_name_def name_info_def)
  next
    case False
    with assms(2) loc show ?thesis
      by (auto simp: GcpInfo_other GcpInfo_connect_def read_name_def name_project_def name_location_def name_info_def
          Let_def caches_inv_def)
  qed
next
  case False
  with assms(2) show ?thesis by (auto simp: GcpInfo_cached caches_inv_def)
qed

lemma Label_alone:
  assumes "usable api k"
  shows "\<exists>k'. Label k q = Inr (label_value (kc_Name k) q, k')"
proof -
  from assms have n: "name_ok (kc_Name k)" "caches_inv k" by (simp_all add: usable_def)
  have settled: "kc_location k \<noteq> [] \<Longrightarrow> kc_location k = name_location (kc_Name k) \<and> kc_name k = name_name (kc_Name k)"
    using assms by (auto simp: usable_def caches_inv_def)
  have other: "\<not> has_prefix (kc_Name k) ''gke_'' \<Longrightarrow> kc_name k = name_name (kc_Name k)"
    using n(2) by (auto simp: caches_inv_def name_name_def name_info_def Let_def)
  from GcpInfo_uncached [OF n] obtain r k' where g: "GcpInfo k = Inr (r, k')"
    "kc_project k' = name_project (kc_Name k)" "kc_location k' = name_location (kc_Name k)"
    "kc_name k' = (if kc_location k = [] \<and> has_prefix (kc_Name k) ''gke_'' then name_name (kc_Name k) else kc_name k)"
    by blast
  from g(4) settled other have "kc_name k' = name_name (kc_Name k)" by (auto split: if_splits)
  with g(1-3) settled show ?thesis by (simp add: Label_def Location_def label_value_def)
qed

lemma token_answers:
  assumes "client_of api k = Some c"
  shows "token_asked api c (kc_Namespace k) (or_default (kc_KSA k)) aud r \<Longrightarrow> answer_ok api k (CallGetToken aud) (Token_answer r)"
    and "token_asked api c ns ksa aud r \<Longrightarrow> answer_ok api k (CallGetTokenRaw ns ksa aud) (Token_answer r)"
proof -
  have idem: "or_default (or_default x) = or_default x" for x by (simp add: or_default_def)
  show "answer_ok api k (CallGetToken aud) (Token_answer r)"
    if asked: "token_asked api c (kc_Namespace k) (or_default (kc_KSA k)) aud r"
  proof -
    from asked obtain w res w' where "create_token api c (or_default (kc_Namespace k)) (or_default (kc_KSA k)) [aud] w = (res, w')"
      "r = token_result res" by (auto simp: token_asked_def idem)
    then have "\<exists>s'. GetToken api k aud w = Inr (r, s')" by (simp add: GetToken_run [OF assms])
    then show ?thesis by (auto simp: answer_ok_def intro!: exI [of _ w])
  qed
  show "answer_ok api k (CallGetTokenRaw ns ksa aud) (Token_answer r)" if asked: "token_asked api c ns ksa aud r"
  proof -
    from asked obtain w res w' where "create_token api c (or_default ns) (or_default ksa) [aud] w = (res, w')"
      "r = token_result res" by (auto simp: token_asked_def)
    then have "\<exists>s'. GetTokenRaw api k ns ksa aud w = Inr (r, s')" by (simp add: GetTokenRaw_run [OF assms])
    then show ?thesis by (auto simp: answer_ok_def intro!: exI [of _ w])
  qed
qed

lemma data_answers:
  assumes "client_of api k = Some c"
  shows "get_config_map api c ns name w = (res, w') \<Longrightarrow> answer_ok api k (CallGetCM ns name) (Data_answer (cm_result res))"
    and "get_secret api c ns name w = (res, w') \<Longrightarrow> answer_ok api k (CallGetSecret ns name) (Data_answer (cm_result res))"
  by (auto simp: answer_ok_def GetCM_def GetSecret_def Client_ready [OF assms] core_v1_def intro!: exI [of _ w])

lemma g_RunAs:
  assumes "client_of api (fst s) = Some c"
  shows "guarantees (shared_rely api) (RunAs_prog api ns ksa) s (\<lambda>r _. r =
    zero_cluster\<lparr>kc_RestConfig := kc_RestConfig (fst s), kc_client := Some c, kc_Name := kc_Name (fst s),
      kc_Namespace := ns, kc_KSA := ksa\<rparr>)"
  unfolding RunAs_prog_def
proof (rule g_field)
  fix s1
  assume s1: "shared_rely api s s1"
  with assms have "client_of api (fst s1) = Some c" by (simp add: shared_relyD)
  then show "guarantees (shared_rely api) (seq (Client_prog api) (\<lambda>c. rd_field kc_Name (\<lambda>name.
       Return (zero_cluster\<lparr>kc_RestConfig := kc_RestConfig (fst s1), kc_client := c, kc_Name := name,
                 kc_Namespace := ns, kc_KSA := ksa\<rparr>)))) s1 (\<lambda>r _. r =
    zero_cluster\<lparr>kc_RestConfig := kc_RestConfig (fst s), kc_client := Some c, kc_Name := kc_Name (fst s),
      kc_Namespace := ns, kc_KSA := ksa\<rparr>)"
    by (rule ct.g_seq [OF g_Client]; intro g_field) (use s1 in \<open>simp add: shared_relyD\<close>)
qed

lemma g_call_prog:
  assumes "usable api k"
  shows "guarantees (shared_rely api) (call_prog api c) (k, w) (\<lambda>a _. answer_ok api k c a)"
proof -
  from assms have n: "caches_inv (fst (k, w))" "kc_Name (fst (k, w)) = kc_Name k" "name_ok (kc_Name k)"
    by (simp_all add: usable_def)
  from assms obtain cs where cs: "client_of api k = Some cs" by (auto simp: usable_def)
  then have cs': "client_of api (fst (k, w)) = Some cs" by simp
  note Client = Client_ready [OF cs]
  have weaken: "guarantees (shared_rely api) (returns f p) (k, w) (\<lambda>a _. answer_ok api k c' a)"
    if "guarantees (shared_rely api) p (k, w) Q" "\<And>r s. Q r s \<Longrightarrow> answer_ok api k c' (f r)" for f p Q c'
    by (rule g_returns, rule ct.g_mono [OF that(1)]) (rule that(2))
  note alone = answer_ok_def answers_def
  show ?thesis
  proof (cases c)
    case (CallLabel q)
    with Label_alone [OF assms, of q] show ?thesis
      by (simp only: call_prog.simps, intro weaken [OF g_Label [OF n]]) (auto simp: alone)
  next
    case CallLocation
    with Label_alone [OF assms, of "''location''"] show ?thesis
      by (simp only: call_prog.simps, intro weaken [OF g_Location [OF n]]) (auto simp: alone label_value_def Label_def)
  next
    case CallGcpInfo
    show ?thesis
    proof (cases "kc_location k = []")
      case True
      with GcpInfo_uncached [OF n(3)] n(1) CallGcpInfo show ?thesis
        by (simp only: call_prog.simps, intro weaken [OF g_GcpInfo [OF n]]) (auto simp: alone info_result_def)
    next
      case False
      with CallGcpInfo show ?thesis
        by (simp only: call_prog.simps, intro weaken [OF g_GcpInfo_filled [OF n(1,2)]]) (auto simp: alone)
    qed
  next
    case CallClient
    with Client show ?thesis
      by (simp only: call_prog.simps, intro weaken [OF g_Client [OF cs']]) (simp add: alone)
  next
    case (CallRunAs ns ksa)
    with Client show ?thesis
      by (simp only: call_prog.simps, intro weaken [OF g_RunAs [OF cs']]) (simp add: alone RunAs_def)
  next
    case (CallGetToken aud)
    show ?thesis
      unfolding CallGetToken call_prog.simps
      by (rule weaken [OF g_GetToken [OF cs']]) (simp add: token_answers(1) [OF cs])
  next
    case (CallGetTokenRaw ns ksa aud)
    show ?thesis
      unfolding CallGetTokenRaw call_prog.simps
      by (rule weaken [OF g_GetTokenRaw [OF cs']]) (simp add: token_answers(2) [OF cs])
  next
    case (CallGetCM ns name)
    show ?thesis
      unfolding CallGetCM call_prog.simps GetCM_prog_def
      by (rule weaken [OF g_through_client [OF cs']]) (auto intro: data_answers(1) [OF cs])
  next
    case (CallGetSecret ns name)
    show ?thesis
      unfolding CallGetSecret call_prog.simps GetSecret_prog_def
      by (rule weaken [OF g_through_client [OF cs']]) (auto intro: data_answers(2) [OF cs])
  next
    case (CallRestClient grp version)
    from assms obtain config where config: "kc_RestConfig k = Some config" by (auto simp: usable_def)
    show ?thesis
      unfolding CallRestClient call_prog.simps
    proof (rule weaken)
      show "guarantees (shared_rely api) (RestClient_prog api grp version) (k, w)
          (\<lambda>r _. RestClient api k grp version = Inr r)"
        unfolding RestClient_prog_def
        by (rule g_field, rule ct.g_local) (use config in \<open>auto simp: shared_relyD RestClient_def Let_def\<close>)
    qed (simp add: alone)
  next
    case CallString
    show ?thesis
      unfolding CallString call_prog.simps
    proof (rule weaken)
      show "guarantees (shared_rely api) cluster_String_prog (k, w) (\<lambda>r _. r = cluster_String k)"
        unfolding cluster_String_prog_def by (rule g_field) (simp add: shared_relyD cluster_String_def)
    qed (simp add: alone)
  qed
qed

text \<open>
  C8: A cluster shared by any number of goroutines, each inside some method, with the steps
  of the methods interleaved in any way while the servers change as they like. No goroutine
  panics, and every method that has returned has returned what it returns when it runs alone
  on the cluster as it was at first, for some state of the servers. The exceptions are a
  \<open>Label\<close> of \<open>name\<close>, which may be empty, and \<open>GcpInfo\<close>, which may give the mangled name.
\<close>

theorem shared_cluster_answers:
  assumes "usable api k"
    and "pool_reach (\<lambda>s s'. fst s' = fst s) (\<lambda>i. call_prog api (calls i), (k, w)) (p, s)"
  shows "p i \<noteq> Panic e \<and> (p i = Return a \<longrightarrow> answer_ok api k (calls i) a) \<and> cluster_rely api k (fst s)"
proof -
  have "promised (shared_rely api) (\<lambda>i a _. answer_ok api k (calls i) a) (\<lambda>i. call_prog api (calls i), (k, w))"
    by (rule ct.promised_start) (rule g_call_prog [OF assms(1)])
  from ct.reach_promised [OF assms(2) this] show ?thesis
    using ct.promised_result [of api "\<lambda>i a _. answer_ok api k (calls i) a" "(p, s)"]
    by (fastforce simp: shared_rely_def)
qed

text \<open>Two goroutines ask a GKE cluster for its name, a third for a token.\<close>

definition demo_gke_cluster :: K8SCluster where
  "demo_gke_cluster = demo_cluster\<lparr>kc_Name := ''gke_p_us_n''\<rparr>"

lemma demo_gke_usable: "usable demo_api demo_gke_cluster"
proof -
  have "client_of demo_api demo_gke_cluster = Some (Clientset 7)"
    using demo_cluster_client by (simp add: client_of_def demo_gke_cluster_def demo_cluster_def zero_cluster_def)
  moreover have "kc_Name demo_gke_cluster = ''gke_p_us_n''" "kc_location demo_gke_cluster = []"
    "kc_project demo_gke_cluster = []" "kc_name demo_gke_cluster = []" "kc_RestConfig demo_gke_cluster \<noteq> None"
    by (simp_all add: demo_gke_cluster_def demo_cluster_def zero_cluster_def)
  ultimately show ?thesis by (simp add: usable_def name_ok_def caches_inv_def)
qed

definition demo_calls :: "nat \<Rightarrow> cluster_call" where
  "demo_calls i = (if i = 2 then CallGetToken ''aud'' else CallLabel ''name'')"

theorem shared_cluster_answers_witness:
  "fst (run_pool [0, 1, 2, 0, 2, 0, 1, 2, 0, 1, 0, 1, 2, 0]
     (\<lambda>i. call_prog demo_api (demo_calls i), (demo_gke_cluster, 0))) 1 \<noteq> Panic NilDeref"
proof -
  let ?ps = "run_pool [0, 1, 2, 0, 2, 0, 1, 2, 0, 1, 0, 1, 2, 0 :: nat]
     (\<lambda>i. call_prog demo_api (demo_calls i), (demo_gke_cluster, 0))"
  have "pool_reach (\<lambda>s s'. fst s' = fst s) (\<lambda>i. call_prog demo_api (demo_calls i), (demo_gke_cluster, 0)) ?ps"
    by (rule pool_reach_run, rule reach_start)
  with shared_cluster_answers [OF demo_gke_usable, of demo_calls 0 "fst ?ps" "snd ?ps" 1 NilDeref] show ?thesis
    by simp
qed

text \<open>
  C22: Every call of a method on a shared cluster returns: under a schedule that runs every
  goroutine again and again, each of them comes to its end, with an answer as above.
\<close>

theorem shared_cluster_calls_return:
  assumes "usable api k" and "fair sched"
  shows "\<exists>n a. fst (after n sched (\<lambda>i. call_prog api (calls i), (k, w))) i = Return a
    \<and> answer_ok api k (calls i) a"
proof -
  let ?ps = "(\<lambda>i. call_prog api (calls i), (k, w))"
  obtain n where n: "finished (fst (after n sched ?ps) i)" using fair_finishes [OF assms(2)] by blast
  have "promised (shared_rely api) (\<lambda>i a _. answer_ok api k (calls i) a) ?ps"
    by (rule ct.promised_start) (rule g_call_prog [OF assms(1)])
  moreover have "pool_reach (\<lambda>_ _. False) ?ps (after n sched ?ps)"
    unfolding after_def by (rule pool_reach_run, rule reach_start)
  ultimately have "promised (shared_rely api) (\<lambda>i a _. answer_ok api k (calls i) a) (after n sched ?ps)"
    using ct.reach_promised by blast
  from ct.promised_result [OF this, of i] n show ?thesis
    by (cases "fst (after n sched ?ps) i") auto
qed

theorem shared_cluster_calls_return_witness:
  "\<exists>n a. fst (after n even (\<lambda>i. call_prog demo_api (if i then CallLabel ''project'' else CallClient),
     (demo_gke_cluster, 0))) True = Return a"
proof -
  have "fair (even :: nat \<Rightarrow> bool)"
    unfolding fair_def
  proof (intro allI)
    fix i and n :: nat
    show "\<exists>m\<ge>n. even m = i"
      by (cases "even n = i") (auto intro: exI [of _ n] exI [of _ "Suc n"])
  qed
  from shared_cluster_calls_return [OF demo_gke_usable this,
      of "\<lambda>i. if i then CallLabel ''project'' else CallClient" 0 True]
  show ?thesis by blast
qed

text \<open>
  C23: The window in \<open>GcpInfo\<close>: it stores the location before the name, and takes a location that
  is there for a sign that all is there. A goroutine that asks for the label \<open>name\<close> between
  the two stores is told that the cluster has no name, though each of the two goroutines alone
  would have been given it.
\<close>

theorem label_name_race:
  assumes "CHR ''_'' \<notin> set P" and "CHR ''_'' \<notin> set L" and "CHR ''_'' \<notin> set N" and "L \<noteq> []"
    and "k = NewK8SCluster ns (gke_name P L N)"
  shows "fst (run_pool [0, 0, 0, 0, 1, 1, 1, 1, 1] (\<lambda>i :: nat. call_prog api (CallLabel ''name''), (k, w))) 1
      = Return (Text [])
    \<and> (\<exists>k'. call_run api (CallLabel ''name'') (k, w) = Inr (Text N, k', w))"
proof
  have k: "kc_Name k = gke_name P L N" "kc_location k = []" "kc_name k = []" "kc_project k = []"
    using assms(5) by (simp_all add: NewK8SCluster_def zero_cluster_def)
  show "fst (run_pool [0, 0, 0, 0, 1, 1, 1, 1, 1] (\<lambda>i :: nat. call_prog api (CallLabel ''name''), (k, w))) 1
      = Return (Text [])"
    using assms(4)
    by (simp add: pool_step_def returns_def Label_prog_def GcpInfo_prog_def rd_field_def rd_def wr_field_def wr_def
        local_exec_def parts_of_gke_name [OF assms(1-3)] k Let_def)
  have "Label k ''name'' = Inr (N, k\<lparr>kc_project := P, kc_location := L, kc_name := N\<rparr>)"
    using k by (simp add: Label_def GcpInfo_gke parts_of_gke_name [OF assms(1-3)] Let_def)
  then show "\<exists>k'. call_run api (CallLabel ''name'') (k, w) = Inr (Text N, k', w)"
    by (simp add: answers_def)
qed

theorem label_name_race_witness:
  "fst (run_pool [0, 0, 0, 0, 1, 1, 1, 1, 1] (\<lambda>i :: nat. call_prog demo_api (CallLabel ''name''),
     (NewK8SCluster [] ''gke_p_us_n'', 0))) 1 = Return (Text [])"
  using label_name_race [of "''p''" "''us''" "''n''" "NewK8SCluster [] ''gke_p_us_n''" "[]" demo_api 0]
  by (simp add: gke_name_def)

end
