(* ===== verification/RequestThreads.thy ===== *)
theory RequestThreads
  imports AuthProvider ClusterThreads
begin

text \<open>
  Requests of many goroutines through one round tripper, down to the single access: the steps of
  \<open>RoundTrip\<close> (\<open>gcp/k8s_auth_provider.go\<close>) interleave with each other, with the steps of the
  token source inside other requests, with the clock, and with whatever else changes the
  source. (In theory \<open>AuthThreads\<close> a call of the source is one step.) The locale
  \<open>shared_source\<close> states what a source must do step by step, and proves once what is sent.
\<close>

section \<open>RoundTrip, step by step\<close>

text \<open>
  The round tripper with the state \<open>'t\<close> of its source, the clock, and a count of the failed
  fetches whose empty token was stored, which only the statements of theorems read.
\<close>

record 't shared_rt =
  sr_token :: string
  sr_exp :: int
  sr_now :: int
  sr_failures :: nat
  sr_source :: 't

text \<open>
  A request ends with the error of the source or is forwarded with a token. The header belongs to
  the request of the goroutine alone.
\<close>

definition RoundTrip_prog :: "('t, string \<times> go_error option) prog \<Rightarrow> ('t shared_rt, go_error + string) prog" where
  "RoundTrip_prog src =
     (let send = rd sr_token (\<lambda>tok. Return (Inr tok))
      in rd (\<lambda>s. since (sr_now s) (sr_exp s) > 30 * minute) (\<lambda>old.
         if old then
           seq (focus (\<lambda>s. Some (sr_source s)) (\<lambda>t s. s\<lparr>sr_source := t\<rparr>) src) (\<lambda>(tok, err).
             wr (\<lambda>s. s\<lparr>sr_token := tok,
                    sr_failures := (if err = None then sr_failures s else Suc (sr_failures s))\<rparr>)
               (case err of Some e \<Rightarrow> Return (Inl e) | None \<Rightarrow> wr (\<lambda>s. s\<lparr>sr_exp := sr_now s\<rparr>) send))
         else send))"

text \<open>Run without interruption, this is the refresh of the cache and the token of the request.\<close>

lemma source_part: "part_of (\<lambda>s. Some (sr_source s)) (\<lambda>t s. s\<lparr>sr_source := t\<rparr>)"
  by (simp add: part_of_def)

lemma alone_RoundTrip:
  assumes "\<And>c w. alone src (c, w) = get c [] w"
  shows "bnd (alone (RoundTrip_prog src) \<lparr>sr_token = tok, sr_exp = x, sr_now = now, sr_failures = n, sr_source = (c, w)\<rparr>)
      (\<lambda>(r, s). Inr (r, sr_token s, sr_exp s, sr_source s))
    = bnd (refresh get now now \<lparr>art_token = tok, art_exp = x, art_creds = Some c\<rparr> w) (\<lambda>(err, m, w').
        Inr (case err of Some e \<Rightarrow> Inl e | None \<Rightarrow> Inr (art_token m), art_token m, art_exp m,
             (case art_creds m of Some c' \<Rightarrow> (c', w') | None \<Rightarrow> (c, w'))))"
proof -
  let ?s = "\<lparr>sr_token = tok, sr_exp = x, sr_now = now, sr_failures = n, sr_source = (c, w)\<rparr>"
  have src: "alone (focus (\<lambda>s. Some (sr_source s)) (\<lambda>t s. s\<lparr>sr_source := t\<rparr>) src) ?s
      = bnd (get c [] w) (\<lambda>(r, t). Inr (r, ?s\<lparr>sr_source := t\<rparr>))"
    using alone_focus [OF source_part, of ?s "(c, w)" src] by (simp add: assms)
  show ?thesis
    by (cases "get c [] w")
      (auto simp: RoundTrip_prog_def refresh_def Let_def src split: option.split prod.split)
qed

section \<open>What the goroutines keep\<close>

text \<open>What may be sent: an issued token, or the empty one once a fetch has failed.\<close>

definition sendable :: "(string \<Rightarrow> bool) \<Rightarrow> 't shared_rt \<Rightarrow> bool" where
  "sendable issued s \<longleftrightarrow> issued (sr_token s) \<or> sr_token s = [] \<and> 0 < sr_failures s"

definition rt_ok :: "(string \<Rightarrow> bool) \<Rightarrow> 't shared_rt \<Rightarrow> bool" where
  "rt_ok issued s \<longleftrightarrow> 0 \<le> sr_now s \<and> (sendable issued s \<or> sr_exp s = zero_time)"

definition rt_rely :: "('t \<Rightarrow> 't \<Rightarrow> bool) \<Rightarrow> (string \<Rightarrow> bool) \<Rightarrow> 't shared_rt \<Rightarrow> 't shared_rt \<Rightarrow> bool" where
  "rt_rely R issued s s' \<longleftrightarrow> R (sr_source s) (sr_source s') \<and> sr_failures s \<le> sr_failures s'
     \<and> (rt_ok issued s \<longrightarrow> rt_ok issued s' \<and> (sendable issued s \<longrightarrow> sendable issued s'))"

text \<open>What else happens: time passes, and the source changes along a relation of its own.\<close>

definition rt_env :: "('t \<Rightarrow> 't \<Rightarrow> bool) \<Rightarrow> 't shared_rt \<Rightarrow> 't shared_rt \<Rightarrow> bool" where
  "rt_env E s s' \<longleftrightarrow> (\<exists>d. s' = s\<lparr>sr_now := sr_now s + int d\<rparr>)
     \<or> (\<exists>t. E (sr_source s) t \<and> s' = s\<lparr>sr_source := t\<rparr>)"

definition new_rt :: "int \<Rightarrow> 't \<Rightarrow> 't shared_rt" where
  "new_rt now t = \<lparr>sr_token = [], sr_exp = zero_time, sr_now = now, sr_failures = 0, sr_source = t\<rparr>"

text \<open>
  The contract of a source: while it is ready and others change it along \<open>R\<close>, its steps keep \<open>R\<close>,
  do not panic, and end with a token that was issued, or with an error and no token.
\<close>

locale shared_source = rely_guarantee R for R :: "'t \<Rightarrow> 't \<Rightarrow> bool" +
  fixes src :: "('t, string \<times> go_error option) prog"
    and ready :: "'t \<Rightarrow> bool"
    and issued :: "string \<Rightarrow> bool"
  assumes ready_stable: "ready t \<Longrightarrow> R t t' \<Longrightarrow> ready t'"
    and src_keeps: "ready t \<Longrightarrow> guarantees R src t (\<lambda>(tok, err) _. if err = None then issued tok else tok = [])"

sublocale shared_source \<subseteq> rt: rely_guarantee "rt_rely R issued"
  by unfold_locales (auto simp: rt_rely_def R_refl intro: R_trans)

context shared_source
begin

lemma rt_relyD:
  assumes "rt_rely R issued s s'"
  shows "ready (sr_source s) \<Longrightarrow> ready (sr_source s')" and "rt_ok issued s \<Longrightarrow> rt_ok issued s'"
    and "rt_ok issued s \<Longrightarrow> sendable issued s \<Longrightarrow> sendable issued s'"
  using assms ready_stable by (auto simp: rt_rely_def)

lemma g_send:
  assumes "rt_ok issued s" and "sendable issued s"
  shows "guarantees (rt_rely R issued) (rd sr_token (\<lambda>tok. Return (Inr tok))) s
    (\<lambda>r s'. \<forall>tok. r = Inr tok \<longrightarrow> issued tok \<or> tok = [] \<and> 0 < sr_failures s')"
proof (rule rt.g_rd)
  fix s1 :: "'t shared_rt"
  assume "rt_rely R issued s s1"
  then have "sendable issued s1" using assms rt_relyD(3) by blast
  then show "guarantees (rt_rely R issued) (Return (Inr (sr_token s1))) s1
      (\<lambda>r s'. \<forall>tok. r = Inr tok \<longrightarrow> issued tok \<or> tok = [] \<and> 0 < sr_failures s')"
    by (simp add: sendable_def)
qed

lemma g_source:
  assumes "ready (sr_source s)"
  shows "guarantees (rt_rely R issued) (focus (\<lambda>s. Some (sr_source s)) (\<lambda>t s. s\<lparr>sr_source := t\<rparr>) src) s
    (\<lambda>(tok, err) _. if err = None then issued tok else tok = [])"
  by (rule rt.g_mono, rule guarantees_focus [where ok = "\<lambda>_. True" and R' = R and s = "sr_source s"
        and Q = "\<lambda>(tok, err) _. if err = None then issued tok else tok = []"])
    (use src_keeps [OF assms] in \<open>auto simp: rt_rely_def rt_ok_def sendable_def\<close>)

lemma g_store:
  assumes "rt_ok issued s" and "if err = None then issued tok else tok = []"
  shows "guarantees (rt_rely R issued)
    (wr (\<lambda>s. s\<lparr>sr_token := tok, sr_failures := (if err = None then sr_failures s else Suc (sr_failures s))\<rparr>)
       (case err of Some e \<Rightarrow> Return (Inl e)
        | None \<Rightarrow> wr (\<lambda>s. s\<lparr>sr_exp := sr_now s\<rparr>) (rd sr_token (\<lambda>tok. Return (Inr tok))))) s
    (\<lambda>r s'. \<forall>tok. r = Inr tok \<longrightarrow> issued tok \<or> tok = [] \<and> 0 < sr_failures s')"
proof (rule rt.g_wr, rule conjI)
  fix s1 :: "'t shared_rt"
  let ?s = "s1\<lparr>sr_token := tok, sr_failures := (if err = None then sr_failures s1 else Suc (sr_failures s1))\<rparr>"
  assume "rt_rely R issued s s1"
  then have ok: "rt_ok issued s1" using assms(1) rt_relyD(2) by blast
  have s: "rt_ok issued ?s" "sendable issued ?s"
    using ok assms(2) by (auto simp: rt_ok_def sendable_def split: if_splits)
  then show "rt_rely R issued s1 ?s" by (simp add: rt_rely_def R_refl)
  have "guarantees (rt_rely R issued) (wr (\<lambda>s. s\<lparr>sr_exp := sr_now s\<rparr>) (rd sr_token (\<lambda>tok. Return (Inr tok)))) ?s
    (\<lambda>r s'. \<forall>tok. r = Inr tok \<longrightarrow> issued tok \<or> tok = [] \<and> 0 < sr_failures s')"
  proof (rule rt.g_wr, rule conjI)
    fix s2 :: "'t shared_rt"
    assume "rt_rely R issued ?s s2"
    then have "rt_ok issued s2" "sendable issued s2" using s rt_relyD(2,3) by blast+
    then have s2: "rt_ok issued (s2\<lparr>sr_exp := sr_now s2\<rparr>)" "sendable issued (s2\<lparr>sr_exp := sr_now s2\<rparr>)"
      by (simp_all add: rt_ok_def sendable_def)
    then show "rt_rely R issued s2 (s2\<lparr>sr_exp := sr_now s2\<rparr>)" by (simp add: rt_rely_def R_refl)
    show "guarantees (rt_rely R issued) (rd sr_token (\<lambda>tok. Return (Inr tok))) (s2\<lparr>sr_exp := sr_now s2\<rparr>)
      (\<lambda>r s'. \<forall>tok. r = Inr tok \<longrightarrow> issued tok \<or> tok = [] \<and> 0 < sr_failures s')"
      by (rule g_send [OF s2])
  qed
  then show "guarantees (rt_rely R issued) (case err of Some e \<Rightarrow> Return (Inl e)
        | None \<Rightarrow> wr (\<lambda>s. s\<lparr>sr_exp := sr_now s\<rparr>) (rd sr_token (\<lambda>tok. Return (Inr tok)))) ?s
    (\<lambda>r s'. \<forall>tok. r = Inr tok \<longrightarrow> issued tok \<or> tok = [] \<and> 0 < sr_failures s')"
    by (cases err) simp_all
qed

lemma g_RoundTrip:
  assumes "ready (sr_source s)" and "rt_ok issued s"
  shows "guarantees (rt_rely R issued) (RoundTrip_prog src) s
    (\<lambda>r s'. \<forall>tok. r = Inr tok \<longrightarrow> issued tok \<or> tok = [] \<and> 0 < sr_failures s')"
  unfolding RoundTrip_prog_def Let_def
proof (rule rt.g_rd)
  let ?Q = "\<lambda>r s'. \<forall>tok. r = Inr tok \<longrightarrow> issued tok \<or> tok = [] \<and> 0 < sr_failures s'"
  fix s1 :: "'t shared_rt"
  assume s1: "rt_rely R issued s s1"
  have ok: "ready (sr_source s1)" "rt_ok issued s1" using assms s1 rt_relyD(1,2) by blast+
  show "guarantees (rt_rely R issued) (if since (sr_now s1) (sr_exp s1) > 30 * minute then
           seq (focus (\<lambda>s. Some (sr_source s)) (\<lambda>t s. s\<lparr>sr_source := t\<rparr>) src) (\<lambda>(tok, err).
             wr (\<lambda>s. s\<lparr>sr_token := tok,
                    sr_failures := (if err = None then sr_failures s else Suc (sr_failures s))\<rparr>)
               (case err of Some e \<Rightarrow> Return (Inl e)
                | None \<Rightarrow> wr (\<lambda>s. s\<lparr>sr_exp := sr_now s\<rparr>) (rd sr_token (\<lambda>tok. Return (Inr tok)))))
         else rd sr_token (\<lambda>tok. Return (Inr tok))) s1 ?Q"
  proof (cases "since (sr_now s1) (sr_exp s1) > 30 * minute")
    case True
    have "guarantees (rt_rely R issued)
          (seq (focus (\<lambda>s. Some (sr_source s)) (\<lambda>t s. s\<lparr>sr_source := t\<rparr>) src) (\<lambda>(tok, err).
             wr (\<lambda>s. s\<lparr>sr_token := tok,
                    sr_failures := (if err = None then sr_failures s else Suc (sr_failures s))\<rparr>)
               (case err of Some e \<Rightarrow> Return (Inl e)
                | None \<Rightarrow> wr (\<lambda>s. s\<lparr>sr_exp := sr_now s\<rparr>) (rd sr_token (\<lambda>tok. Return (Inr tok)))))) s1 ?Q"
      by (rule rt.g_seq [OF g_source [OF ok(1)]]) (auto intro!: g_store rt_relyD(2) [OF _ ok(2)])
    with True show ?thesis by simp
  next
    case False
    then have "sr_now s1 - sr_exp s1 \<le> 30 * minute" by (simp add: since_gt)
    then have "sr_exp s1 \<noteq> zero_time"
      using ok(2) by (auto simp: rt_ok_def zero_time_def minute_def)
    with ok(2) have "sendable issued s1" by (simp add: rt_ok_def)
    with False g_send [OF ok(2)] show ?thesis by simp
  qed
qed

lemma requests_sent:
  assumes "ready t" and "0 \<le> now" and "\<And>u u'. E u u' \<Longrightarrow> R u u'"
    and "pool_reach (rt_env E) (\<lambda>i. RoundTrip_prog src, new_rt now t) (p, s)"
  shows "p i \<noteq> Panic e \<and> (p i = Return (Inr tok) \<longrightarrow> issued tok \<or> tok = [] \<and> 0 < sr_failures s)
    \<and> ready (sr_source s)"
proof -
  let ?Q = "\<lambda>i r s'. \<forall>tok. r = Inr tok \<longrightarrow> issued tok \<or> tok = [] \<and> 0 < sr_failures s'"
  have start: "promised (rt_rely R issued) ?Q (\<lambda>i. RoundTrip_prog src, new_rt now t)"
    by (rule rt.promised_start, rule g_RoundTrip) (use assms(1,2) in \<open>simp_all add: new_rt_def rt_ok_def\<close>)
  have env: "rt_rely R issued u u'" if "rt_env E u u'" for u u'
    using that assms(3) by (auto simp: rt_env_def rt_rely_def rt_ok_def sendable_def R_refl)
  have r: "promised (rt_rely R issued) ?Q (p, s)" "rt_rely R issued (new_rt now t) s"
    using rt.reach_promised [OF assms(4) start env] by simp_all
  have "ready (sr_source s)" using rt_relyD(1) [OF r(2)] assms(1) by (simp add: new_rt_def)
  moreover have "issued tok \<or> tok = [] \<and> 0 < sr_failures s" if sent: "p i = Return (Inr tok)"
  proof -
    obtain s0 where "rt_rely R issued s0 s" "issued tok \<or> tok = [] \<and> 0 < sr_failures s0"
      using rt.promised_result(2) [OF r(1), of i "Inr tok"] sent by auto
    then show ?thesis by (auto simp: rt_rely_def)
  qed
  ultimately show ?thesis using rt.promised_result(1) [OF r(1)] by auto
qed

end

section \<open>A cluster as the source\<close>

text \<open>The state of a cluster whose token requests go to the clientset \<open>c\<close> for one account.\<close>

definition cluster_serves :: "'w k8s_api \<Rightarrow> clientset \<Rightarrow> string \<Rightarrow> string \<Rightarrow> K8SCluster \<Rightarrow> bool" where
  "cluster_serves api c ns ksa k \<longleftrightarrow>
     client_of api k = Some c \<and> kc_Namespace k = ns \<and> or_default (kc_KSA k) = or_default ksa"

lemma cluster_serves_stable: "cluster_serves api c ns ksa k \<Longrightarrow> cluster_rely api k k' \<Longrightarrow> cluster_serves api c ns ksa k'"
  by (auto simp: cluster_serves_def cluster_rely_def)

lemma or_default_idem [simp]: "or_default (or_default x) = or_default x"
  by (simp add: or_default_def)

lemma token_asked_cases:
  assumes "token_asked api c ns ksa aud (tok, err)"
  shows "if err = None then token_asked api c ns ksa aud (tok, None) else tok = []"
proof (cases err)
  case (Some e)
  with assms obtain res where "(tok, Some e) = token_result res" by (auto simp: token_asked_def)
  with Some show ?thesis by (cases res) (simp_all add: token_result_def)
qed (use assms in simp)

lemma token_asked_post:
  "token_asked api c ns ksa aud r
    \<Longrightarrow> case r of (tok, err) \<Rightarrow> if err = None then token_asked api c ns ksa aud (tok, None) else tok = []"
  by (cases r) (simp only: prod.case, rule token_asked_cases)

lemma token_asked_default:
  "or_default ksa = or_default ksa' \<Longrightarrow> token_asked api c ns ksa aud r \<Longrightarrow> token_asked api c ns ksa' aud r"
  by (simp add: token_asked_def)

interpretation cs: shared_source "shared_rely api" "GetToken_prog api []"
    "\<lambda>s. cluster_serves api c ns ksa (fst s)" "\<lambda>tok. token_asked api c ns ksa [] (tok, None)" for api :: "'w k8s_api" and c ns ksa
proof
  fix t t' :: "K8SCluster \<times> 'w"
  assume "cluster_serves api c ns ksa (fst t)" and "shared_rely api t t'"
  then show "cluster_serves api c ns ksa (fst t')" by (auto simp: shared_rely_def intro: cluster_serves_stable)
next
  fix t :: "K8SCluster \<times> 'w"
  assume t: "cluster_serves api c ns ksa (fst t)"
  then have "client_of api (fst t) = Some c" by (simp add: cluster_serves_def)
  from g_GetToken [OF this] show "guarantees (shared_rely api) (GetToken_prog api []) t
      (\<lambda>(tok, err) _. if err = None then token_asked api c ns ksa [] (tok, None) else tok = [])"
  proof (rule ct.g_mono)
    fix r and s' :: "K8SCluster \<times> 'w"
    assume "token_asked api c (kc_Namespace (fst t)) (or_default (kc_KSA (fst t))) [] r"
    then have "token_asked api c ns ksa [] r"
      using t token_asked_default [of "or_default (kc_KSA (fst t))" ksa] by (simp add: cluster_serves_def)
    from token_asked_post [OF this]
    show "(case r of (tok, err) \<Rightarrow> \<lambda>_. if err = None then token_asked api c ns ksa [] (tok, None) else tok = []) s'"
      by (simp only: split_def)
  qed
qed

end
