(* ===== verification/Lifecycle.thy ===== *)
theory Lifecycle
  imports GkeModule ClusterThreads
begin

text \<open>
  The life of a set of clusters: after \<open>New\<close>, the program may load a kubeconfig, load the
  clusters of GKE and of the hub, look one up, choose a default, and call the methods of any
  cluster, in every order and whatever the services answer. The order \<open>grows\<close> states what
  each of these operations keeps; the invariant of all reachable states follows from it.
\<close>

section \<open>What operations keep\<close>

text \<open>
  Stores: no cell is freed, and every cluster changes only along a relation \<open>C\<close>. There are two
  such relations: everything, for the setup inside \<open>New\<close>, and \<open>cluster_rely\<close>, what the methods
  of a cluster keep.
\<close>

type_synonym cluster_rel = "K8SCluster \<Rightarrow> K8SCluster \<Rightarrow> bool"

definition h_grows :: "cluster_rel \<Rightarrow> clusters \<Rightarrow> clusters \<Rightarrow> bool" where
  "h_grows C h h' \<longleftrightarrow> (\<forall>r. cells h r \<noteq> None \<longrightarrow> cells h' r \<noteq> None) \<and> (wf_store h \<longrightarrow> wf_store h'
     \<and> (\<forall>r k. cells h r = Some k \<longrightarrow> (\<exists>k'. cells h' r = Some k' \<and> C k k')))"

text \<open>Sets: pointers stay live, names stay, the default stays once there is one.\<close>

definition grows :: "cluster_rel \<Rightarrow> set_state \<Rightarrow> set_state \<Rightarrow> bool" where
  "grows C st st' \<longleftrightarrow> (set_ok st \<longrightarrow> set_ok st') \<and> h_grows C (snd st) (snd st')
     \<and> (\<forall>k. map_get (k8_ByName (fst st)) k \<noteq> None \<longrightarrow> map_get (k8_ByName (fst st')) k \<noteq> None)
     \<and> (k8_Default (fst st) \<noteq> None \<longrightarrow> k8_Default (fst st') = k8_Default (fst st))
     \<and> settings (fst st') = settings (fst st)"

text \<open>What a search leaves, and that it only finds registered clusters.\<close>

definition found :: "cluster_rel \<Rightarrow> K8S \<Rightarrow> clusters \<Rightarrow> ref option \<times> clusters \<Rightarrow> bool" where
  "found C kr h res \<longleftrightarrow> h_grows C h (snd res)
     \<and> (\<forall>r. fst res = Some r \<longrightarrow> (\<exists>k. map_get (k8_ByName kr) k = Some r))"

text \<open>What is asked of the relation: the reading of the location must keep it.\<close>

locale cluster_order =
  fixes C :: "K8SCluster \<Rightarrow> K8SCluster \<Rightarrow> bool"
  assumes C_refl: "C k k"
    and C_trans: "C k1 k2 \<Longrightarrow> C k2 k3 \<Longrightarrow> C k1 k3"
    and C_Location: "Location k = Inr (l, k') \<Longrightarrow> C k k'"
begin

lemma h_grows_refl [simp, intro]: "h_grows C h h"
  by (simp add: h_grows_def C_refl)

lemma h_grows_trans [trans]: "h_grows C h1 h2 \<Longrightarrow> h_grows C h2 h3 \<Longrightarrow> h_grows C h1 h3"
  by (simp add: h_grows_def) (meson C_trans)

lemma grows_refl [simp, intro]: "grows C st st"
  by (simp add: grows_def)

lemma grows_trans [trans]: "grows C s1 s2 \<Longrightarrow> grows C s2 s3 \<Longrightarrow> grows C s1 s3"
  using h_grows_trans [of "snd s1" "snd s2" "snd s3"] by (simp add: grows_def)

lemma growsD:
  assumes "grows C st st'"
  shows "set_ok st \<Longrightarrow> set_ok st'"
    and "k8_Default (fst st) = Some r \<Longrightarrow> k8_Default (fst st') = Some r"
    and "set_ok st \<Longrightarrow> set_view st k \<noteq> None \<Longrightarrow> set_view st' k \<noteq> None"
  using assms by (auto simp: grows_def set_view_None_iff)

lemma grows_cell:
  assumes "grows C st st'" and "set_ok st" and "cells (snd st) r = Some c"
  shows "\<exists>c'. cells (snd st') r = Some c' \<and> C c c'"
  using assms by (simp add: grows_def h_grows_def set_ok_def)

lemma grows_heap:
  assumes "h_grows C h h'"
  shows "grows C (kr, h) (kr, h')"
  using assms by (auto simp: grows_def h_grows_def set_ok_def)

lemma via_grows:
  assumes "via f p h = Inr (b, h')" and "\<And>k x k'. f k = Inr (x, k') \<Longrightarrow> C k k'"
  shows "h_grows C h h'"
  using assms by (elim viaE) (auto simp: h_grows_def wf_store_def C_refl)

lemma alloc_grows:
  assumes "alloc c h = (r, h')"
  shows "h_grows C h h'" and "cells h' r \<noteq> None"
  using assms by (auto simp: alloc_def h_grows_def wf_store_def less_Suc_eq C_refl split: if_splits)

text \<open>A new cluster that is registered under a name, and may become the default.\<close>

lemma grows_register:
  assumes "alloc c h = (r, h')" and "map_put (k8_ByName kr) k r = Inr m"
  shows "grows C (kr, h) (kr\<lparr>k8_ByName := m\<rparr>, h')"
    and "k8_Default kr = None \<Longrightarrow> grows C (kr, h) (kr\<lparr>k8_ByName := m, k8_Default := Some r\<rparr>, h')"
  using alloc_grows [OF assms(1)] assms(2)
  by (auto simp: grows_def h_grows_def set_ok_def settings_def map_put_eq_Inr_iff split: if_splits)

section \<open>The loaders\<close>

lemma load_context_grows: "load_context env cfg k st = Inr st' \<Longrightarrow> grows C st st'"
  by (cases st)
    (auto simp: load_context_def Let_def intro: grows_register
      split: option.splits sum.splits prod.splits if_splits elim!: bnd_InrE)

lemma loopM_grows:
  assumes "loopM f xs st = Inr st'" and "\<And>x t t'. f x t = Inr t' \<Longrightarrow> grows C t t'"
  shows "grows C st st'"
  by (rule loopM_inv [OF assms(1), where P = "grows C st"]) (auto intro: grows_trans assms(2))

lemma LoadKubeConfig_grows: "LoadKubeConfig env order f st = Inr (err, st') \<Longrightarrow> grows C st st'"
  by (auto simp: LoadKubeConfig_def Let_def intro: loopM_grows load_context_grows
      split: option.splits sum.splits elim!: bnd_InrE)

lemma loadInCluster_grows: "loadInCluster env st = Inr (err, st') \<Longrightarrow> grows C st st'"
  by (cases st)
    (auto simp: loadInCluster_def Let_def intro: grows_register
      split: option.splits sum.splits prod.splits if_splits elim!: bnd_InrE)

lemma load_gke_cluster_grows: "load_gke_cluster g p c (l, st) = Inr (l', st') \<Longrightarrow> grows C st st'"
  by (cases st)
    (auto simp: load_gke_cluster_def Let_def elim: grows_register(1) intro!: grows_heap elim!: alloc_grows(1)
      split: prod.splits if_splits elim!: bnd_InrE)

lemma LoadGKEClusters_grows:
  assumes "LoadGKEClusters api p loc (g, st) w = Inr (res, (g', st'), w')"
  shows "grows C st st'"
proof -
  have "grows C st t" if "loopM (load_gke_cluster g project) cs ([], st) = Inr (l, t)" for project cs l t
  proof -
    have "grows C st (snd (l, t))"
    proof (rule loopM_inv [OF that, where P = "\<lambda>s. grows C st (snd s)"])
      fix c s s'
      assume "grows C st (snd s)" and "load_gke_cluster g project c s = Inr s'"
      then show "grows C st (snd s')"
        by (cases s; cases s') (auto dest!: load_gke_cluster_grows intro: grows_trans)
    qed simp
    then show ?thesis by simp
  qed
  with assms show ?thesis
    by (auto simp: LoadGKEClusters_def Let_def split: prod.splits sum.splits elim!: bnd_InrE)
qed

lemma hub_member_grows: "hub_member api x (g, st) w = Inr (r, (g', st'), w') \<Longrightarrow> grows C st st'"
  by (cases st)
    (auto simp: hub_member_def Let_def intro: grows_register split: prod.splits elim!: bnd_InrE)

lemma hub_loop_grows:
  assumes "hub_loop api mr l st w = Some (Inr (res, st', w'))"
  shows "grows C (snd st) (snd st')"
proof -
  have "\<forall>res st' w'. y = Inr (res, st', w') \<longrightarrow> grows C (snd st) (snd st')"
    if "hub_loop api mr l st w = Some y" for y
  proof (rule hub_loop.raw_induct [OF _ that, where
        P = "\<lambda>api mr l st w y. \<forall>res st' w'. y = Inr (res, st', w') \<longrightarrow> grows C (snd st) (snd st')"])
    fix f api mr l st w y
    assume "\<And>api mr l st w y. f api mr l st w = Some y \<Longrightarrow>
        \<forall>res st' w'. y = Inr (res, st', w') \<longrightarrow> grows C (snd st) (snd st')"
      and "(case next_membership api mr w of
          (Inl err, w1) \<Rightarrow>
            if err = IteratorDone then Some (Inr (Inr l, st, w1)) else Some (Inr (Inl err, st, w1))
        | (Inr nxt, w1) \<Rightarrow>
            (case hub_member api nxt st w1 of
               Inl p \<Rightarrow> Some (Inl p)
             | Inr res \<Rightarrow> (case res of (r, st', w2) \<Rightarrow> f api mr (l @ [r]) st' w2))) = Some y"
    then show "\<forall>res st' w'. y = Inr (res, st', w') \<longrightarrow> grows C (snd st) (snd st')"
      by (cases st) (fastforce split: prod.splits sum.splits if_splits dest!: hub_member_grows
          intro: grows_trans)
  qed
  with assms show ?thesis by blast
qed

lemma LoadHubClusters_grows:
  "LoadHubClusters api p st w = Some (Inr (res, st', w')) \<Longrightarrow> grows C (snd st) (snd st')"
  by (auto simp: LoadHubClusters_def Let_def split: prod.splits sum.splits dest: hub_loop_grows)

lemma GKECluster_grows:
  "GKECluster api p (g, st) w = Inr (res, (g', st'), w') \<Longrightarrow> grows C st st'"
  by (cases st)
    (auto simp: GKECluster_def Let_def split: prod.splits sum.splits elim!: bnd_InrE
      intro!: grows_heap elim!: alloc_grows(1))

section \<open>Looking up and choosing\<close>

lemma searchM_inv:
  assumes "searchM t xs s = Inr (hit, s')" and "P s"
    and "\<And>x s b s'. P s \<Longrightarrow> t x s = Inr (b, s') \<Longrightarrow> P s'"
  shows "P s'"
  using assms
  by (induction t xs s rule: searchM.induct) (auto elim!: bnd_InrE split: if_splits)

lemma in_region_grows: "in_region reg r h = Inr (b, h') \<Longrightarrow> h_grows C h h'"
  by (auto simp: in_region_def split: if_splits elim!: bnd_InrE intro: via_grows C_Location)

lemma has_name_same: "has_name n r h = Inr (b, h') \<Longrightarrow> h' = h"
  by (auto simp: has_name_def elim!: bnd_InrE)

lemma in_region_has_name_grows: "in_region_has_name reg n r h = Inr (b, h') \<Longrightarrow> h_grows C h h'"
  by (auto simp: in_region_has_name_def split: if_splits elim!: bnd_InrE
      dest!: in_region_grows has_name_same)

lemma range_find_found:
  assumes "range_find kr order t h = Inr res"
    and "\<And>r h b h'. t r h = Inr (b, h') \<Longrightarrow> h_grows C h h'"
  shows "found C kr h res"
proof -
  from assms(1) obtain hit h' where r: "searchM (range_test kr t) order h = Inr (hit, h')"
    "res = (case hit of None \<Rightarrow> None | Some k \<Rightarrow> map_get (k8_ByName kr) k, h')"
    by (auto simp: range_find_def elim!: bnd_InrE)
  have "h_grows C h h'"
  proof (rule searchM_inv [OF r(1), where P = "h_grows C h"])
    fix x s b s'
    assume "h_grows C h s" and "range_test kr t x s = Inr (b, s')"
    then show "h_grows C h s'"
      by (auto simp: range_test_def split: option.splits intro: h_grows_trans assms(2))
  qed simp
  with r(2) show ?thesis by (auto simp: found_def split: option.splits)
qed

lemma found_then: "found C kr h (cl, h1) \<Longrightarrow> found C kr h1 res \<Longrightarrow> found C kr h res"
  by (auto simp: found_def intro: h_grows_trans)

lemma FindCluster_found: "FindCluster order kr reg n h = Inr res \<Longrightarrow> found C kr h res"
proof -
  assume run: "FindCluster order kr reg n h = Inr res"
  have none: "found C kr h (None, h)" for h by (simp add: found_def)
  have hn: "has_name n r h = Inr (b, h') \<Longrightarrow> h_grows C h h'" for r h b h' by (auto dest: has_name_same)
  have r0: "range_find kr (order i) (in_region_has_name reg n) h = Inr x \<Longrightarrow> found C kr h x" for i h x
    by (rule range_find_found) (auto dest: in_region_has_name_grows)
  have r1: "range_find kr (order i) (has_name n) h = Inr x \<Longrightarrow> found C kr h x" for i h x
    by (rule range_find_found) (auto dest: hn)
  have r2: "range_find kr (order i) (in_region reg) h = Inr x \<Longrightarrow> found C kr h x" for i h x
    by (rule range_find_found) (auto dest: in_region_grows)
  have r3: "range_find kr (order i) (\<lambda>r h. Inr (True, h)) h = Inr x \<Longrightarrow> found C kr h x" for i h x
    by (rule range_find_found) auto
  from run obtain cl2 h2 cl3 h3 where p: 
    "(if n \<noteq> [] then
        bnd (range_find kr (order 0) (in_region_has_name reg n) h) (\<lambda>(cl, h1).
          if cl = None then range_find kr (order 1) (has_name n) h1 else Inr (cl, h1))
      else Inr (None, h)) = Inr (cl2, h2)"
    "(if cl2 = None then range_find kr (order 2) (in_region reg) h2 else Inr (cl2, h2)) = Inr (cl3, h3)"
    "(if cl3 = None then range_find kr (order 3) (\<lambda>r h. Inr (True, h)) h3 else Inr (cl3, h3)) = Inr res"
    by (auto simp: FindCluster_def bnd_eq_Inr_iff)
  have "found C kr h (cl2, h2)"
    using p(1) none by (auto split: if_splits elim!: bnd_InrE dest!: r0 r1 intro: found_then)
  moreover have "found C kr h (cl3, h3)"
    using p(2) calculation by (auto split: if_splits dest!: r2 intro: found_then)
  ultimately show ?thesis
    using p(3) by (auto split: if_splits dest!: r3 intro: found_then)
qed

lemma autodetect_default_grows:
  assumes "autodetect_default api order n (g, st) w = Inr (err, (g', st'), w')"
  shows "grows C st st'"
proof -
  obtain kr h where st: "st = (kr, h)" by (cases st)
  show ?thesis
  proof (cases "k8_Default kr")
    case None
    with assms st obtain reg cl h' where f: "FindCluster (order (kr, h)) kr reg n h = Inr (cl, h')"
      "st' = (kr\<lparr>k8_Default := cl\<rparr>, h')"
      by (auto simp: autodetect_default_def split: prod.splits elim!: bnd_InrE)
    from FindCluster_found [OF f(1)] have "found C kr h (cl, h')" .
    then show ?thesis
      using None st f(2) by (auto simp: found_def grows_def h_grows_def set_ok_def settings_def)
  next
    case (Some r)
    with assms st show ?thesis by (auto simp: autodetect_default_def)
  qed
qed

lemma autodetect_grows:
  assumes "autodetect api order n (g, st) w = Some (Inr (err, (g', st'), w'))"
  shows "grows C st st'"
proof (cases "LoadGKEClusters api [] [] (g, st) w")
  case (Inl p)
  with assms show ?thesis by (simp add: autodetect_def)
next
  case (Inr x)
  obtain res g1 st1 w1 where x: "x = (res, (g1, st1), w1)" by (metis prod.exhaust)
  have 1: "grows C st st1" using LoadGKEClusters_grows [of api "[]" "[]" g st w] Inr x by simp
  show ?thesis
  proof (cases res)
    case (Inl e)
    with assms Inr x 1 show ?thesis by (simp add: autodetect_def)
  next
    case (Inr l)
    with assms \<open>LoadGKEClusters api [] [] (g, st) w = Inr x\<close> x
    obtain res2 g2 st2 w2 where hub: "LoadHubClusters api [] (g1, st1) w1 = Some (Inr (res2, (g2, st2), w2))"
      and last: "(case res2 of Inl e \<Rightarrow> Some (Inr (Some e, (g2, st2), w2))
        | Inr _ \<Rightarrow> Some (autodetect_default api order n (g2, st2) w2)) = Some (Inr (err, (g', st'), w'))"
      by (auto simp: autodetect_def split: option.splits sum.splits prod.splits)
    have "grows C st1 st2" using LoadHubClusters_grows [OF hub] by simp
    moreover have "grows C st2 st'"
      using last by (auto split: sum.splits dest: autodetect_default_grows)
    ultimately show ?thesis using 1 grows_trans by blast
  qed
qed

lemma FindCluster_grows: "FindCluster order kr reg n h = Inr (cl, h') \<Longrightarrow> grows C (kr, h) (kr, h')"
  using FindCluster_found [of order kr reg n h] by (auto simp: found_def intro: grows_heap)

end

section \<open>The two relations\<close>

interpretation anyc: cluster_order "\<lambda>_ _. True"
  by unfold_locales simp_all

interpretation clc: cluster_order "cluster_rely api" for api
  by unfold_locales (auto intro: cluster_rely_trans Location_rely)

lemma init_body_grows: "init_body env order st = Inr (err, st') \<Longrightarrow> grows (\<lambda>_ _. True) st st'"
  by (auto simp: init_body_def split: if_splits option.splits elim!: bnd_InrE
      dest!: anyc.LoadKubeConfig_grows anyc.loadInCluster_grows intro: anyc.grows_trans)

lemma init_deferred_grows: "init_deferred st = Inr st' \<Longrightarrow> grows (\<lambda>_ _. True) st st'"
  by (cases st)
    (auto simp: init_deferred_def split: option.splits elim!: bnd_InrE intro: anyc.grows_heap anyc.via_grows)

lemma K8S_init_grows: "K8S_init env order st = Inr (err, st') \<Longrightarrow> grows (\<lambda>_ _. True) st st'"
  by (auto simp: K8S_init_def elim!: bnd_InrE dest!: init_body_grows init_deferred_grows
      intro: anyc.grows_trans)

lemma K8S_New_set_ok: "K8S_New env order h = Inr (err, log, st) \<Longrightarrow> wf_store h \<Longrightarrow> set_ok st"
  by (auto simp: K8S_New_def Let_def elim!: bnd_InrE
      dest!: K8S_init_grows dest: anyc.growsD(1) [OF _ set_ok_empty])

section \<open>Every sequence of operations\<close>

text \<open>
  One operation of the program on its set of clusters, with any arguments and any answers of
  the services, that returns. A method of a cluster is a function on the struct that runs
  through a pointer; what it returns is not part of the state.
\<close>

definition cluster_method :: "'w k8s_api \<Rightarrow> cluster_call \<Rightarrow> 'w \<Rightarrow> K8SCluster \<Rightarrow> ((cluster_answer \<times> 'w) \<times> K8SCluster) exec" where
  "cluster_method kapi c w k = bnd (call_run kapi c (k, w)) (\<lambda>(a, k', w'). Inr ((a, w'), k'))"

lemma method_rely: "cluster_method kapi c w k = Inr (x, k') \<Longrightarrow> cluster_rely kapi k k'"
  by (auto simp: cluster_method_def elim!: bnd_InrE intro: call_run_rely)

inductive set_step :: "host_env \<Rightarrow> 'w k8s_api \<Rightarrow> 'w gcp_api \<Rightarrow> gke_state \<times> 'w \<Rightarrow> gke_state \<times> 'w \<Rightarrow> bool"
  for env kapi api where
  step_kubeconfig: "LoadKubeConfig env order f st = Inr (err, st')
    \<Longrightarrow> set_step env kapi api ((g, st), w) ((g, st'), w)"
| step_gke: "LoadGKEClusters api p loc (g, st) w = Inr (res, (g', st'), w')
    \<Longrightarrow> set_step env kapi api ((g, st), w) ((g', st'), w')"
| step_hub: "LoadHubClusters api p (g, st) w = Some (Inr (res, (g', st'), w'))
    \<Longrightarrow> set_step env kapi api ((g, st), w) ((g', st'), w')"
| step_one: "GKECluster api p (g, st) w = Inr (res, (g', st'), w')
    \<Longrightarrow> set_step env kapi api ((g, st), w) ((g', st'), w')"
| step_autodetect: "autodetect api orders n (g, st) w = Some (Inr (err, (g', st'), w'))
    \<Longrightarrow> set_step env kapi api ((g, st), w) ((g', st'), w')"
| step_find: "FindCluster order kr reg n h = Inr (cl, h')
    \<Longrightarrow> set_step env kapi api ((g, kr, h), w) ((g, kr, h'), w)"
| step_token: "K8S_GetToken kapi st aud w = Inr (res, st', w')
    \<Longrightarrow> set_step env kapi api ((g, st), w) ((g, st'), w')"
| step_method: "via (cluster_method kapi c w) p h = Inr ((a, w'), h')
    \<Longrightarrow> set_step env kapi api ((g, kr, h), w) ((g, kr, h'), w')"

lemma K8S_GetToken_grows: "K8S_GetToken kapi st aud w = Inr (res, st', w') \<Longrightarrow> grows (cluster_rely kapi) st st'"
  by (cases st)
    (auto simp: K8S_GetToken_def split: option.splits elim!: bnd_InrE
      intro!: clc.grows_heap elim!: clc.via_grows GetTokenRaw_rely)

lemma set_step_grows:
  "set_step env kapi api s s' \<Longrightarrow> grows (cluster_rely kapi) (snd (fst s)) (snd (fst s'))"
  by (induction rule: set_step.induct)
    (auto dest: clc.LoadKubeConfig_grows clc.LoadGKEClusters_grows clc.LoadHubClusters_grows clc.GKECluster_grows
      clc.autodetect_grows clc.FindCluster_grows K8S_GetToken_grows
      intro: clc.grows_heap clc.via_grows method_rely)

lemma set_steps_grow:
  "(set_step env kapi api)\<^sup>*\<^sup>* s s' \<Longrightarrow> grows (cluster_rely kapi) (snd (fst s)) (snd (fst s'))"
  by (induction rule: rtranclp_induct) (auto dest: set_step_grows intro: clc.grows_trans)

text \<open>
  C9: From the moment \<open>New\<close> returns, also with an error, and through any sequence of operations
  that return, whatever the services answer: no pointer of the set dangles and its map can be
  written; a name that is registered stays registered; and once there is a default it never
  changes, so nothing that is loaded later can redirect the process to another cluster; and a
  cluster that is there keeps its configuration, name, namespace and clientset.
\<close>

theorem set_stays_well_formed:
  assumes "K8S_New env order h = Inr (err, log, st0)" and "wf_store h"
    and "(set_step env kapi api)\<^sup>*\<^sup>* ((g, st0), w) ((g', st), w')"
  shows "set_ok st \<and> (set_view st0 k \<noteq> None \<longrightarrow> set_view st k \<noteq> None)
    \<and> (k8_Default (fst st0) = Some r \<longrightarrow> k8_Default (fst st) = Some r)
    \<and> (cells (snd st0) r = Some c \<longrightarrow> (\<exists>c'. cells (snd st) r = Some c' \<and> cluster_rely kapi c c'))"
proof -
  have "set_ok st0" using K8S_New_set_ok assms(1,2) .
  moreover have "grows (cluster_rely kapi) st0 st" using set_steps_grow [OF assms(3)] by simp
  ultimately show ?thesis by (simp add: clc.growsD clc.grows_cell)
qed

theorem set_stays_well_formed_witness:
  "\<exists>err log st0 st. K8S_New demo_env [''b'', ''a''] empty_store = Inr (err, log, st0)
    \<and> LoadGKEClusters demo_gcp [] [] (demo_gke, st0) 0 = Inr st \<and> set_ok (snd (fst (snd st)))"
proof -
  obtain err log st0 where new: "K8S_New demo_env [''b'', ''a''] empty_store = Inr (err, log, st0)"
    using K8S_New_run [OF demo_env_ok wf_store_empty] by blast
  have "set_ok st0" using K8S_New_set_ok [OF new wf_store_empty] .
  from LoadGKEClusters_run [OF _ _ refl this, of demo_gcp demo_gke "[]" 0 "GKEClient 0" 0 "[]"]
  obtain l ks' where gke: "LoadGKEClusters demo_gcp [] [] (demo_gke, st0) 0 = Inr (Inr l, (demo_gke, ks'), 1)"
    by (auto simp: demo_gcp_def demo_pb_def ProjectId_def)
  have "(set_step demo_env demo_api demo_gcp)\<^sup>*\<^sup>* ((demo_gke, st0), 0) ((demo_gke, ks'), 1)"
    by (rule r_into_rtranclp) (rule step_gke [OF gke])
  from set_stays_well_formed [OF new wf_store_empty this] new gke show ?thesis
    by (cases ks') auto
qed

end
