(* ===== verification/SetThreads.thy ===== *)
theory SetThreads
  imports RequestThreads Lifecycle
begin

text \<open>
  Requests that authenticate through a whole set of clusters, from many goroutines, while other
  goroutines load kubeconfigs and clusters into the set, choose a default, and call methods
  of any cluster. \<open>K8S_GetToken\<close> of \<open>kube.go\<close> is given step by step over the pointers of the set;
  the operations around it are the relation \<open>set_step\<close> of theory \<open>Lifecycle\<close>, one step each.
\<close>

section \<open>GetToken of the set, step by step\<close>

type_synonym 'w set_world = "gke_state \<times> 'w"

text \<open>The cluster behind a pointer, with the world.\<close>

definition at_cluster :: "ref \<Rightarrow> 'w set_world \<Rightarrow> (K8SCluster \<times> 'w) option" where
  "at_cluster r s = (case s of ((g, kr, h), w) \<Rightarrow> map_option (\<lambda>k. (k, w)) (cells h r))"

definition put_cluster :: "ref \<Rightarrow> K8SCluster \<times> 'w \<Rightarrow> 'w set_world \<Rightarrow> 'w set_world" where
  "put_cluster r x s = (case s of ((g, kr, h), w) \<Rightarrow> ((g, kr, h\<lparr>cells := (cells h)(r \<mapsto> fst x)\<rparr>), snd x))"

lemma store_same: "cells h r = Some k \<Longrightarrow> h\<lparr>cells := (cells h)(r \<mapsto> k)\<rparr> = h"
  by (cases h) (simp add: fun_upd_idem)

lemma cluster_part: "part_of (at_cluster r) (put_cluster r)"
  by (auto simp: part_of_def at_cluster_def put_cluster_def store_same split: prod.splits)

text \<open>\<open>kr.Default\<close> is read for the test, and once for each of its three uses.\<close>

definition rd_Default :: "(ref option \<Rightarrow> ('w set_world, 'r) prog) \<Rightarrow> ('w set_world, 'r) prog" where
  "rd_Default = rd (\<lambda>s. case s of ((g, kr, h), w) \<Rightarrow> k8_Default kr)"

definition through :: "ref option \<Rightarrow> (K8SCluster \<times> 'w, 'r) prog \<Rightarrow> ('w set_world, 'r) prog" where
  "through p prog = (case p of None \<Rightarrow> Panic NilDeref | Some r \<Rightarrow> focus (at_cluster r) (put_cluster r) prog)"

definition K8S_GetToken_prog :: "'w k8s_api \<Rightarrow> string \<Rightarrow> ('w set_world, string \<times> go_error option) prog" where
  "K8S_GetToken_prog api aud =
     rd_Default (\<lambda>d.
       if d = None then Return ([], Some (ErrNew ''No default cluster''))
       else rd_Default (\<lambda>d0.
         rd_Default (\<lambda>d1. seq (through d1 (rd_field kc_Namespace Return)) (\<lambda>ns.
         rd_Default (\<lambda>d2. seq (through d2 (rd_field kc_KSA Return)) (\<lambda>ksa.
           through d0 (GetTokenRaw_prog api ns ksa aud)))))))"

lemma alone_rd_Default [simp]: "alone (rd_Default c) ((g, kr, h), w) = alone (c (k8_Default kr)) ((g, kr, h), w)"
  by (simp add: rd_Default_def)

lemma alone_through:
  assumes "cells h r = Some k"
  shows "alone (through (Some r) p) ((g, kr, h), w)
    = bnd (alone p (k, w)) (\<lambda>(x, k', w'). Inr (x, (g, kr, h\<lparr>cells := (cells h)(r \<mapsto> k')\<rparr>), w'))"
proof -
  have "at_cluster r ((g, kr, h), w) = Some (k, w)" using assms by (simp add: at_cluster_def)
  from alone_focus [OF cluster_part this] show ?thesis
    by (simp add: through_def put_cluster_def split_def)
qed

lemma alone_K8S_GetToken:
  assumes "\<And>r. k8_Default kr = Some r \<Longrightarrow> cells h r \<noteq> None"
  shows "alone (K8S_GetToken_prog api aud) ((g, kr, h), w)
    = bnd (K8S_GetToken api (kr, h) aud w) (\<lambda>(x, (kr', h'), w'). Inr (x, (g, kr', h'), w'))"
proof (cases "k8_Default kr")
  case None
  then show ?thesis by (simp add: K8S_GetToken_prog_def K8S_GetToken_def)
next
  case (Some r)
  with assms obtain k where k: "cells h r = Some k" by blast
  have "alone (K8S_GetToken_prog api aud) ((g, kr, h), w)
      = bnd (GetTokenRaw api k (kc_Namespace k) (kc_KSA k) aud w)
          (\<lambda>(x, k', w'). Inr (x, (g, kr, h\<lparr>cells := (cells h)(r \<mapsto> k')\<rparr>), w'))"
    by (simp add: K8S_GetToken_prog_def Some alone_through [OF k] store_same [OF k] alone_GetTokenRaw)
  also have "\<dots> = bnd (K8S_GetToken api (kr, h) aud w) (\<lambda>(x, (kr', h'), w'). Inr (x, (g, kr', h'), w'))"
    by (cases "GetTokenRaw api k (kc_Namespace k) (kc_KSA k) aud w")
      (auto simp: K8S_GetToken_def Some via_def k save_def load_def split: prod.splits)
  finally show ?thesis .
qed

section \<open>What the goroutines keep\<close>

definition set_rely :: "'w k8s_api \<Rightarrow> 'w set_world \<Rightarrow> 'w set_world \<Rightarrow> bool" where
  "set_rely api s s' \<longleftrightarrow> grows (cluster_rely api) (snd (fst s)) (snd (fst s'))"

interpretation sr: rely_guarantee "set_rely api" for api
  by unfold_locales (auto simp: set_rely_def intro: clc.grows_trans)

text \<open>The default is there and asks the clientset \<open>c\<close> for tokens of one account.\<close>

definition default_serves :: "'w k8s_api \<Rightarrow> clientset \<Rightarrow> string \<Rightarrow> string \<Rightarrow> ref \<Rightarrow> 'w set_world \<Rightarrow> bool" where
  "default_serves api c ns ksa r s \<longleftrightarrow> set_ok (snd (fst s)) \<and> k8_Default (fst (snd (fst s))) = Some r
     \<and> (\<exists>k. cells (snd (snd (fst s))) r = Some k \<and> cluster_serves api c ns ksa k)"

lemma default_serves_stable:
  assumes "default_serves api c ns ksa r s" and "set_rely api s s'"
  shows "default_serves api c ns ksa r s'"
proof -
  from assms obtain k where k: "set_ok (snd (fst s))" "k8_Default (fst (snd (fst s))) = Some r"
    "cells (snd (snd (fst s))) r = Some k" "cluster_serves api c ns ksa k"
    by (auto simp: default_serves_def)
  from assms(2) have g: "grows (cluster_rely api) (snd (fst s)) (snd (fst s'))" by (simp add: set_rely_def)
  with clc.grows_cell [OF g k(1,3)] clc.growsD [OF g] k show ?thesis
    by (auto simp: default_serves_def intro: cluster_serves_stable)
qed

text \<open>A method of the default.\<close>

lemma g_through:
  assumes "default_serves api c ns ksa r s"
    and "\<And>k w. cluster_serves api c ns ksa k \<Longrightarrow> guarantees (shared_rely api) p (k, w) (\<lambda>x _. Q x)"
  shows "guarantees (set_rely api) (through (Some r) p) s (\<lambda>x _. Q x)"
proof -
  let ?ok = "default_serves api c ns ksa r"
  obtain k where k: "at_cluster r s = Some (k, snd s)" "cluster_serves api c ns ksa k"
    using assms(1) by (cases s) (auto simp: default_serves_def at_cluster_def)
  have "guarantees (set_rely api) (focus (at_cluster r) (put_cluster r) p) s
      (\<lambda>x t'. \<exists>s'. at_cluster r t' = Some s' \<and> Q x)"
  proof (rule guarantees_focus [where ok = ?ok and R' = "shared_rely api"])
    show "guarantees (shared_rely api) p (k, snd s) (\<lambda>x _. Q x)" by (rule assms(2) [OF k(2)])
    show "?ok s" "at_cluster r s = Some (k, snd s)" using assms(1) k(1) .
    show "?ok t'" if "set_rely api t t'" "?ok t" for t t'
      using default_serves_stable [OF that(2,1)] .
    show "\<exists>x. at_cluster r t = Some x" if "?ok t" for t
      using that by (cases t) (auto simp: default_serves_def at_cluster_def)
    show "\<exists>x'. at_cluster r t' = Some x' \<and> shared_rely api x x'"
      if "set_rely api t t'" "?ok t" "at_cluster r t = Some x" for t t' x
    proof -
      from that(1) have g: "grows (cluster_rely api) (snd (fst t)) (snd (fst t'))" by (simp add: set_rely_def)
      from that(2,3) have "set_ok (snd (fst t))" "cells (snd (snd (fst t))) r = Some (fst x)"
        by (cases t; auto simp: default_serves_def at_cluster_def)+
      from clc.grows_cell [OF g this] show ?thesis
        by (cases t') (auto simp: at_cluster_def shared_rely_def)
    qed
    show "set_rely api t (put_cluster r x' t) \<and> at_cluster r (put_cluster r x' t) = Some x'"
      if "?ok t" "at_cluster r t = Some x" "shared_rely api x x'" for t x x'
    proof -
      obtain g kr h w where t: "t = ((g, kr, h), w)" by (metis prod.exhaust)
      with that have c: "cells h r = Some (fst x)" "cluster_rely api (fst x) (fst x')"
        by (auto simp: at_cluster_def shared_rely_def)
      have "h_grows (cluster_rely api) h (h\<lparr>cells := (cells h)(r \<mapsto> fst x')\<rparr>)"
        using c by (auto simp: h_grows_def wf_store_def)
      then show ?thesis
        using clc.grows_heap [of api h "h\<lparr>cells := (cells h)(r \<mapsto> fst x')\<rparr>" kr]
        by (simp add: t set_rely_def put_cluster_def at_cluster_def)
    qed
  qed
  then show ?thesis unfolding through_def option.case by (rule sr.g_mono) blast
qed

lemma g_rd_Default:
  assumes "default_serves api c ns ksa r s"
    and "\<And>s1. default_serves api c ns ksa r s1 \<Longrightarrow> set_rely api s s1 \<Longrightarrow> guarantees (set_rely api) (f (Some r)) s1 Q"
  shows "guarantees (set_rely api) (rd_Default f) s Q"
  unfolding rd_Default_def
proof (rule sr.g_rd)
  fix s1
  assume s1: "set_rely api s s1"
  have d: "default_serves api c ns ksa r s1" using default_serves_stable [OF assms(1) s1] .
  then have "(case s1 of ((g, kr, h), w) \<Rightarrow> k8_Default kr) = Some r"
    by (cases s1) (auto simp: default_serves_def)
  with assms(2) [OF d s1] show "guarantees (set_rely api) (f (case s1 of ((g, kr, h), w) \<Rightarrow> k8_Default kr)) s1 Q"
    by simp
qed

lemma g_K8S_GetToken:
  assumes "default_serves api c ns ksa r s"
  shows "guarantees (set_rely api) (K8S_GetToken_prog api aud) s (\<lambda>x _. token_asked api c ns ksa aud x)"
proof -
  let ?R = "set_rely api"
  have call: "guarantees ?R (through (Some r) (GetTokenRaw_prog api ns ksa' aud)) s4
      (\<lambda>x _. token_asked api c ns ksa aud x)"
    if "default_serves api c ns ksa r s4" "or_default ksa' = or_default ksa" for s4 ksa'
  proof (rule g_through [OF that(1)])
    fix k :: K8SCluster and w :: 'a
    assume "cluster_serves api c ns ksa k"
    then have "client_of api (fst (k, w)) = Some c" by (simp add: cluster_serves_def)
    from g_GetTokenRaw [OF this] show "guarantees (shared_rely api) (GetTokenRaw_prog api ns ksa' aud) (k, w)
        (\<lambda>x _. token_asked api c ns ksa aud x)"
      by (rule ct.g_mono) (rule token_asked_default [OF that(2)])
  qed
  have field: "guarantees ?R (through (Some r) (rd_field f Return)) s3 (\<lambda>x _. P x)"
    if "default_serves api c ns ksa r s3" "\<And>k. cluster_serves api c ns ksa k \<Longrightarrow> P (f k)" for s3 f P
    by (rule g_through [OF that(1)], rule g_field) (auto simp: shared_rely_def intro: that(2) cluster_serves_stable)
  note stable = default_serves_stable
  show ?thesis
    unfolding K8S_GetToken_prog_def
  proof (rule g_rd_Default [OF assms])
    fix s1
    assume s1: "default_serves api c ns ksa r s1"
    have "guarantees ?R (rd_Default (\<lambda>d0.
         rd_Default (\<lambda>d1. seq (through d1 (rd_field kc_Namespace Return)) (\<lambda>ns.
         rd_Default (\<lambda>d2. seq (through d2 (rd_field kc_KSA Return)) (\<lambda>ksa.
           through d0 (GetTokenRaw_prog api ns ksa aud))))))) s1 (\<lambda>x _. token_asked api c ns ksa aud x)"
    proof (rule g_rd_Default [OF s1], rule g_rd_Default, assumption, rule sr.g_seq)
      fix s3
      assume "default_serves api c ns ksa r s3"
      then show "guarantees ?R (through (Some r) (rd_field kc_Namespace Return)) s3 (\<lambda>x _. x = ns)"
        by (rule field) (simp add: cluster_serves_def)
    next
      fix s3 s4 x
      assume s3: "default_serves api c ns ksa r s3" and s4: "set_rely api s3 s4" and x: "x = ns"
      have d4: "default_serves api c ns ksa r s4" using stable [OF s3 s4] .
      have "guarantees ?R (rd_Default (\<lambda>d2. seq (through d2 (rd_field kc_KSA Return)) (\<lambda>ksa.
           through (Some r) (GetTokenRaw_prog api ns ksa aud)))) s4 (\<lambda>x _. token_asked api c ns ksa aud x)"
      proof (rule g_rd_Default [OF d4], rule sr.g_seq)
        fix s5
        assume "default_serves api c ns ksa r s5"
        then show "guarantees ?R (through (Some r) (rd_field kc_KSA Return)) s5 (\<lambda>x _. or_default x = or_default ksa)"
          by (rule field) (simp add: cluster_serves_def)
      next
        fix s5 s6 y
        assume s5: "default_serves api c ns ksa r s5" and s6: "set_rely api s5 s6" and y: "or_default y = or_default ksa"
        show "guarantees ?R (through (Some r) (GetTokenRaw_prog api ns y aud)) s6
            (\<lambda>x _. token_asked api c ns ksa aud x)" by (rule call [OF stable [OF s5 s6] y])
      qed
      then show "guarantees ?R (rd_Default (\<lambda>d2. seq (through d2 (rd_field kc_KSA Return)) (\<lambda>ksa.
           through (Some r) (GetTokenRaw_prog api x ksa aud)))) s4 (\<lambda>x _. token_asked api c ns ksa aud x)"
        by (simp only: x)
    qed
    then show "guarantees ?R (if Some r = None then Return ([], Some (ErrNew ''No default cluster''))
       else rd_Default (\<lambda>d0.
         rd_Default (\<lambda>d1. seq (through d1 (rd_field kc_Namespace Return)) (\<lambda>ns.
         rd_Default (\<lambda>d2. seq (through d2 (rd_field kc_KSA Return)) (\<lambda>ksa.
           through d0 (GetTokenRaw_prog api ns ksa aud))))))) s1 (\<lambda>x _. token_asked api c ns ksa aud x)"
      by (simp only: option.distinct if_False)
  qed
qed

interpretation ss: shared_source "set_rely api" "K8S_GetToken_prog api []" "default_serves api c ns ksa r"
    "\<lambda>tok. token_asked api c ns ksa [] (tok, None)" for api :: "'w k8s_api" and c ns ksa r
proof
  fix t t' :: "'w set_world"
  assume "default_serves api c ns ksa r t" and "set_rely api t t'"
  then show "default_serves api c ns ksa r t'" by (rule default_serves_stable)
next
  fix t :: "'w set_world"
  assume "default_serves api c ns ksa r t"
  from g_K8S_GetToken [OF this] show "guarantees (set_rely api) (K8S_GetToken_prog api []) t
      (\<lambda>(tok, err) _. if err = None then token_asked api c ns ksa [] (tok, None) else tok = [])"
  proof (rule sr.g_mono)
    fix x and s' :: "'w set_world"
    assume "token_asked api c ns ksa [] x"
    from token_asked_post [OF this]
    show "(case x of (tok, err) \<Rightarrow> \<lambda>_. if err = None then token_asked api c ns ksa [] (tok, None) else tok = []) s'"
      by (simp only: split_def)
  qed
qed

section \<open>Requests while the set is loaded\<close>

text \<open>
  C5: Any number of goroutines send requests through one round tripper that authenticates with the
  default cluster of a set, while others load kubeconfigs, the clusters of GKE and of the hub
  into the set, look for a default, and call methods of any cluster, and time passes; the steps of
  the requests interleave with each other and with these operations in any way. No request
  panics; every token that is sent was issued by the API server of the cluster that was the
  default at first, for its namespace and service account, or is empty, and that only after
  the server refused a token to one of the requests; and the set stays well formed with the
  same default.
\<close>

theorem set_requests_while_loading:
  assumes "default_serves kapi c ns ksa r t" and "0 \<le> now"
    and "pool_reach (rt_env (set_step env kapi api))
      (\<lambda>i. RoundTrip_prog (K8S_GetToken_prog kapi []), new_rt now t) (p, s)"
  shows "p i \<noteq> Panic e
    \<and> (p i = Return (Inr tok) \<longrightarrow> token_asked kapi c ns ksa [] (tok, None) \<or> tok = [] \<and> 0 < sr_failures s)
    \<and> default_serves kapi c ns ksa r (sr_source s)"
proof (rule ss.requests_sent [OF assms(1,2) _ assms(3)])
  fix u u'
  assume "set_step env kapi api u u'"
  then show "set_rely kapi u u'" unfolding set_rely_def by (rule set_step_grows)
qed

text \<open>A request that fetches a token is overtaken by the loading of the GKE clusters.\<close>

definition demo_world :: "nat set_world" where
  "demo_world = ((demo_gke, zero_K8S\<lparr>k8_ByName := Some (\<lambda>_. None), k8_Default := Some 0\<rparr>,
     \<lparr>cells = [0 \<mapsto> demo_cluster], next_ref = 1\<rparr>), 0)"

lemma demo_world_serves: "default_serves demo_api (Clientset 7) ''ns1'' [] 0 demo_world"
proof -
  have "kc_Namespace demo_cluster = ''ns1''" "kc_KSA demo_cluster = []"
    by (simp_all add: demo_cluster_def zero_cluster_def)
  then show ?thesis
    by (simp add: default_serves_def demo_world_def set_ok_def wf_store_def cluster_serves_def demo_cluster_client zero_K8S_def)
qed

theorem set_requests_while_loading_witness:
  "\<exists>s l t. LoadGKEClusters demo_gcp [] [] (fst demo_world) 0 = Inr (l, t)
    \<and> pool_reach (rt_env (set_step demo_env demo_api demo_gcp))
      (\<lambda>i :: nat. RoundTrip_prog (K8S_GetToken_prog demo_api []), new_rt 0 demo_world)
      (fst (run_pool [0, 0] (\<lambda>i. RoundTrip_prog (K8S_GetToken_prog demo_api []), new_rt 0 demo_world)), s)
    \<and> sr_source s = t \<and> default_serves demo_api (Clientset 7) ''ns1'' [] 0 (sr_source s)"
proof -
  let ?p = "\<lambda>i :: nat. RoundTrip_prog (K8S_GetToken_prog demo_api [])"
  let ?ps = "run_pool [0, 0] (?p, new_rt 0 demo_world)"
  have "set_ok (snd (fst demo_world))" using demo_world_serves by (simp add: default_serves_def)
  from LoadGKEClusters_run [OF _ _ refl this, of demo_gcp demo_gke "[]" 0 "GKEClient 0" 0 "[]"]
  obtain l ks where gke: "LoadGKEClusters demo_gcp [] [] (demo_gke, snd (fst demo_world)) 0 = Inr (Inr l, (demo_gke, ks), 1)"
    by (auto simp: demo_gcp_def demo_pb_def ProjectId_def)
  have src: "sr_source (snd ?ps) = ((demo_gke, snd (fst demo_world)), 0)"
    by (simp add: pool_step_def RoundTrip_prog_def K8S_GetToken_prog_def rd_def rd_Default_def Let_def new_rt_def demo_world_def)
  let ?s = "(snd ?ps)\<lparr>sr_source := ((demo_gke, ks), 1)\<rparr>"
  have "set_step demo_env demo_api demo_gcp (sr_source (snd ?ps)) ((demo_gke, ks), 1)"
    unfolding src by (rule step_gke [OF gke])
  then have env: "rt_env (set_step demo_env demo_api demo_gcp) (snd ?ps) ?s" unfolding rt_env_def by blast
  have "pool_reach (rt_env (set_step demo_env demo_api demo_gcp)) (?p, new_rt 0 demo_world) (fst ?ps, snd ?ps)"
    using pool_reach_run [OF reach_start, where sched = "[0, 0]"] by simp
  then have reach: "pool_reach (rt_env (set_step demo_env demo_api demo_gcp)) (?p, new_rt 0 demo_world) (fst ?ps, ?s)"
    by (rule reach_env) (rule env)
  with set_requests_while_loading [OF demo_world_serves order_refl reach] gke show ?thesis
    by (intro exI conjI, unfold demo_world_def fst_conv) (auto simp: demo_world_def)
qed

end
