(* ===== verification/IpThreads.thy ===== *)
theory IpThreads
  imports IpData
begin

text \<open>
  The handlers of \<open>pkg/ip/ipdata.go\<close> run in one goroutine per informer, and readers look up
  addresses at any time; there is no lock. What makes this work is that every access is one
  operation of a \<open>sync.Map\<close> or of an atomic counter. Here a handler is the list of these
  operations, the goroutines are interleaved in every way, and a reader may come between any
  two of them.
\<close>

section \<open>Atomic operations\<close>

datatype data_op =
    StorePodInfo string pod
  | AddPods "32 word"
  | StoreIP string pod
  | DropIP string
  | AddSlices "32 word"
  | AddSliceIPs "32 word"

fun op_step :: "data_op \<Rightarrow> K8SData \<Rightarrow> K8SData" where
  "op_step (StorePodInfo key v) k = k\<lparr>kd_PodInfo := (kd_PodInfo k)(key \<mapsto> v)\<rparr>"
| "op_step (AddPods d) k = k\<lparr>kd_Pods := kd_Pods k + d\<rparr>"
| "op_step (StoreIP ip v) k = k\<lparr>kd_IPToSrc := (kd_IPToSrc k)(ip \<mapsto> v)\<rparr>"
| "op_step (DropIP ip) k = k\<lparr>kd_IPToSrc := (kd_IPToSrc k)(ip := None)\<rparr>"
| "op_step (AddSlices d) k = k\<lparr>kd_Slices := kd_Slices k + d\<rparr>"
| "op_step (AddSliceIPs d) k = k\<lparr>kd_SliceIPs := kd_SliceIPs k + d\<rparr>"

definition run_ops :: "data_op list \<Rightarrow> K8SData \<Rightarrow> K8SData" where
  "run_ops ops k = fold op_step ops k"

lemma run_ops_simps [simp]:
  "run_ops [] k = k" "run_ops (op # ops) k = run_ops ops (op_step op k)"
  "run_ops (ops @ ops') k = run_ops ops' (run_ops ops k)"
  by (simp_all add: run_ops_def)

text \<open>The operations of each handler, in the order of its code.\<close>

definition add_ops :: "kube_object \<Rightarrow> data_op list" where
  "add_ops obj =
     (case obj of
        SliceObj v \<Rightarrow> [AddSlices 1, AddSliceIPs (of_nat (length (es_Endpoints v)))]
      | PodObj v \<Rightarrow> [StorePodInfo (pod_key v) v, AddPods 1] @ (if pod_IP v \<noteq> [] then [StoreIP (pod_IP v) v] else [])
      | _ \<Rightarrow> [])"

definition update_ops :: "kube_object \<Rightarrow> data_op list" where
  "update_ops new = (case new of PodObj v \<Rightarrow> [StoreIP (pod_IP v) v] | _ \<Rightarrow> [])"

definition delete_ops :: "kube_object \<Rightarrow> data_op list" where
  "delete_ops obj =
     (case obj of PodObj v \<Rightarrow> [AddPods (- 1)] @ (if pod_IP v \<noteq> [] then [DropIP (pod_IP v)] else []) | _ \<Rightarrow> [])"

fun event_ops :: "informer_event \<Rightarrow> data_op list" where
  "event_ops (Added obj initial) = add_ops obj"
| "event_ops (Updated old new) = update_ops new"
| "event_ops (Deleted obj) = delete_ops obj"

definition events_ops :: "informer_event list \<Rightarrow> data_op list" where
  "events_ops es = concat (map event_ops es)"

lemma events_ops_simps [simp]: "events_ops [] = []" "events_ops (e # es) = event_ops e @ events_ops es"
  by (simp_all add: events_ops_def)

text \<open>A handler that runs alone is the operation it was modelled as.\<close>

lemma event_ops_handle: "handle e k = Inr k' \<Longrightarrow> run_ops (event_ops e) k = k'"
  by (cases e)
    (auto simp: add_ops_def update_ops_def delete_ops_def Data_OnAdd_def Data_OnUpdate_def Data_OnDelete_def Let_def
      split: kube_object.splits if_splits)

lemma events_ops_handle: "loopM handle es k = Inr k' \<Longrightarrow> run_ops (events_ops es) k = k'"
  by (induction es arbitrary: k) (auto simp: event_ops_handle)

section \<open>The two parts of the data\<close>

text \<open>The pod informer touches the maps and the counter of pods, the others the rest.\<close>

fun pod_op :: "data_op \<Rightarrow> bool" where
  "pod_op (AddSlices d) = False"
| "pod_op (AddSliceIPs d) = False"
| "pod_op op = True"

fun pod_event :: "informer_event \<Rightarrow> bool" where
  "pod_event (Added (PodObj v) initial) = True"
| "pod_event (Updated old (PodObj v)) = True"
| "pod_event (Deleted (PodObj v)) = True"
| "pod_event e = False"

lemma event_ops_pod: "op \<in> set (event_ops e) \<Longrightarrow> pod_op op = pod_event e"
  by (cases e rule: pod_event.cases)
    (auto simp: add_ops_def update_ops_def delete_ops_def split: kube_object.splits if_splits)

lemma events_ops_filter:
  "list_all pod_event es \<Longrightarrow> filter pod_op (events_ops es) = events_ops es"
  "list_all pod_event es \<Longrightarrow> filter (\<lambda>op. \<not> pod_op op) (events_ops es) = []"
  "list_all (\<lambda>e. \<not> pod_event e) es \<Longrightarrow> filter pod_op (events_ops es) = []"
  "list_all (\<lambda>e. \<not> pod_event e) es \<Longrightarrow> filter (\<lambda>op. \<not> pod_op op) (events_ops es) = events_ops es"
  by (induction es) (auto simp: filter_id_conv filter_empty_conv event_ops_pod)

definition pod_part :: "K8SData \<Rightarrow> (string \<Rightarrow> pod option) \<times> (string \<Rightarrow> pod option) \<times> 32 word" where
  "pod_part k = (kd_IPToSrc k, kd_PodInfo k, kd_Pods k)"

definition slice_part :: "K8SData \<Rightarrow> 32 word \<times> 32 word" where
  "slice_part k = (kd_Slices k, kd_SliceIPs k)"

lemma op_step_parts:
  "pod_op op \<Longrightarrow> slice_part (op_step op k) = slice_part k"
  "\<not> pod_op op \<Longrightarrow> pod_part (op_step op k) = pod_part k"
  "pod_op op \<Longrightarrow> pod_part k = pod_part k' \<Longrightarrow> pod_part (op_step op k) = pod_part (op_step op k')"
  "\<not> pod_op op \<Longrightarrow> slice_part k = slice_part k' \<Longrightarrow> slice_part (op_step op k) = slice_part (op_step op k')"
  by (cases op; simp add: pod_part_def slice_part_def)+

lemma run_ops_pod_part: "pod_part k = pod_part k' \<Longrightarrow> pod_part (run_ops ops k) = pod_part (run_ops (filter pod_op ops) k')"
proof (induction ops arbitrary: k k')
  case (Cons op ops)
  then show ?case
    using Cons.IH [of "op_step op k" "op_step op k'"] Cons.IH [of "op_step op k" k'] op_step_parts(2) [of op k] op_step_parts(3) [of op k k']
    by (cases "pod_op op") simp_all
qed simp

lemma run_ops_slice_part:
  "slice_part k = slice_part k' \<Longrightarrow> slice_part (run_ops ops k) = slice_part (run_ops (filter (\<lambda>op. \<not> pod_op op) ops) k')"
proof (induction ops arbitrary: k k')
  case (Cons op ops)
  then show ?case
    using Cons.IH [of "op_step op k" "op_step op k'"] Cons.IH [of "op_step op k" k'] op_step_parts(1) [of op k] op_step_parts(4) [of op k k']
    by (cases "pod_op op") simp_all
qed simp

lemma run_ops_synced [simp]: "kd_synced (run_ops ops k) = kd_synced k"
proof (induction ops arbitrary: k)
  case (Cons op ops)
  have "kd_synced (op_step op k) = kd_synced k" by (cases op) simp_all
  with Cons show ?case by simp
qed simp

lemma data_eqI:
  "pod_part k = pod_part k' \<Longrightarrow> slice_part k = slice_part k' \<Longrightarrow> kd_synced k = kd_synced k' \<Longrightarrow> k = (k' :: K8SData)"
  by (simp add: pod_part_def slice_part_def)

section \<open>Interleavings\<close>

lemma shuffle_filters:
  assumes "ops \<in> shuffles (events_ops es) (events_ops fs)"
    and "list_all pod_event es" and "list_all (\<lambda>e. \<not> pod_event e) fs"
  shows "filter pod_op ops = events_ops es" and "filter (\<lambda>op. \<not> pod_op op) ops = events_ops fs"
proof -
  have f: "filter P ops \<in> shuffles (filter P (events_ops es)) (filter P (events_ops fs))" for P
    using assms(1) filter_shuffles [of P "events_ops es" "events_ops fs"] by blast
  show "filter pod_op ops = events_ops es" "filter (\<lambda>op. \<not> pod_op op) ops = events_ops fs"
    using f [of pod_op] f [of "\<lambda>op. \<not> pod_op op"] events_ops_filter(1,2) [OF assms(2)] events_ops_filter(3,4) [OF assms(3)]
    by simp_all
qed

lemma shuffle_serialises:
  assumes "ops \<in> shuffles (events_ops es) (events_ops fs)"
    and "list_all pod_event es" and "list_all (\<lambda>e. \<not> pod_event e) fs"
  shows "run_ops ops k = run_ops (events_ops fs) (run_ops (events_ops es) k)"
proof (rule data_eqI)
  note f = shuffle_filters [OF assms] and e = events_ops_filter(1,2) [OF assms(2)]
    and g = events_ops_filter(3,4) [OF assms(3)]
  show "pod_part (run_ops ops k) = pod_part (run_ops (events_ops fs) (run_ops (events_ops es) k))"
    using run_ops_pod_part [OF refl, of ops k] run_ops_pod_part [OF refl, of "events_ops fs" "run_ops (events_ops es) k"]
      f(1) g(1) by simp
  show "slice_part (run_ops ops k) = slice_part (run_ops (events_ops fs) (run_ops (events_ops es) k))"
    using run_ops_slice_part [OF refl, of ops k] run_ops_slice_part [of "run_ops (events_ops es) k" k "events_ops fs"]
      run_ops_slice_part [OF refl, of "events_ops es" k] f(2) e(2) g(2) by simp
qed simp

text \<open>A handler changes the address map in one operation, so halfway it is as before or after.\<close>

lemma event_prefix_ip:
  "kd_IPToSrc (run_ops (take i (event_ops e)) k) = kd_IPToSrc k
   \<or> kd_IPToSrc (run_ops (take i (event_ops e)) k) = kd_IPToSrc (run_ops (event_ops e) k)"
  by (cases e)
    (auto simp: add_ops_def update_ops_def delete_ops_def take_Cons split: kube_object.splits nat.splits)

lemma events_prefix_ip:
  "\<exists>m \<le> length es. kd_IPToSrc (run_ops (take i (events_ops es)) k) = kd_IPToSrc (run_ops (events_ops (take m es)) k)"
proof (induction es arbitrary: i k)
  case Nil
  then show ?case by simp
next
  case (Cons e es)
  show ?case
  proof (cases "i \<le> length (event_ops e)")
    case True
    with event_prefix_ip [of i e k] show ?thesis
      by (auto intro: exI [of _ 0] exI [of _ 1])
  next
    case False
    let ?k = "run_ops (event_ops e) k"
    obtain m where "m \<le> length es" "kd_IPToSrc (run_ops (take (i - length (event_ops e)) (events_ops es)) ?k)
        = kd_IPToSrc (run_ops (events_ops (take m es)) ?k)"
      using Cons.IH by blast
    with False show ?thesis by (intro exI [of _ "Suc m"]) simp
  qed
qed

lemma observe_all_take: "observe_all es S = Some S' \<Longrightarrow> \<exists>Sm. observe_all (take m es) S = Some Sm"
  by (induction es arbitrary: S m) (auto simp: take_Cons split: option.splits nat.splits)

lemma ips_ok_all_take: "ips_ok_all es S \<Longrightarrow> ips_ok_all (take m es) S"
  by (induction es arbitrary: S m) (auto simp: take_Cons split: option.splits nat.splits)

lemma other_events_run: "list_all (\<lambda>e. \<not> pod_event e) fs \<Longrightarrow> \<exists>k'. loopM handle fs k = Inr k'"
proof (induction fs arbitrary: k)
  case (Cons e fs)
  have "\<exists>k1. handle e k = Inr k1"
    using Cons.prems by (cases e rule: pod_event.cases) (simp_all add: Data_OnUpdate_def)
  with Cons show ?case by auto
qed simp

section \<open>Properties\<close>

text \<open>
  C27: Informers that run in parallel, and readers, without a lock. Take the operations of the
  handlers of the pod informer and of the other informers in any interleaving, with addresses
  that the network assigns as it should. A reader of the address map, at any point between two
  operations, finds exactly the addresses of the cluster as it was after some number of the
  pod events; and when all handlers are done, the data is what the handlers leave when they run
  one after the other.
\<close>

theorem readers_see_a_past_cluster:
  assumes "ops \<in> shuffles (events_ops es) (events_ops fs)"
    and "list_all pod_event es" and "list_all (\<lambda>e. \<not> pod_event e) fs"
    and "observe_all es S = Some S'" and "pods_ok S" and "ips_ok_all es S" and "ips_match k S"
  shows "(\<forall>n. \<exists>m Sm. m \<le> length es \<and> observe_all (take m es) S = Some Sm \<and> ips_match (run_ops (take n ops) k) Sm)
    \<and> loopM handle (es @ fs) k = Inr (run_ops ops k)"
proof (intro conjI allI)
  fix n
  have "filter pod_op (take n ops) @ filter pod_op (drop n ops) = events_ops es"
    using shuffle_filters(1) [OF assms(1-3)] by (metis append_take_drop_id filter_append)
  then obtain i where i: "filter pod_op (take n ops) = take i (events_ops es)"
    by (metis append_eq_conv_conj)
  obtain m where m: "m \<le> length es"
    "kd_IPToSrc (run_ops (take i (events_ops es)) k) = kd_IPToSrc (run_ops (events_ops (take m es)) k)"
    using events_prefix_ip by blast
  obtain Sm where Sm: "observe_all (take m es) S = Some Sm"
    using observe_all_take [OF assms(4)] by blast
  obtain k' where k': "loopM handle (take m es) k = Inr k'" "ips_match k' Sm"
    using ips_run [OF Sm assms(5) ips_ok_all_take [OF assms(6)] assms(7)] by blast
  have "kd_IPToSrc (run_ops (take n ops) k) = kd_IPToSrc k'"
    using run_ops_pod_part [OF refl, of "take n ops" k] i m(2) events_ops_handle [OF k'(1)]
    by (simp add: pod_part_def)
  with k'(2) have "ips_match (run_ops (take n ops) k) Sm" by (simp add: ips_match_def)
  with m(1) Sm show "\<exists>m Sm. m \<le> length es \<and> observe_all (take m es) S = Some Sm
      \<and> ips_match (run_ops (take n ops) k) Sm" by blast
next
  obtain k1 where k1: "loopM handle es k = Inr k1"
    using ips_run [OF assms(4-7)] by blast
  obtain k2 where k2: "loopM handle fs k1 = Inr k2"
    using other_events_run [OF assms(3)] by blast
  have "run_ops ops k = k2"
    using shuffle_serialises [OF assms(1-3), of k] events_ops_handle [OF k1] events_ops_handle [OF k2] by simp
  with k1 k2 show "loopM handle (es @ fs) k = Inr (run_ops ops k)" by (simp add: loopM_append)
qed

text \<open>A pod is added while a slice comes in from another informer, and read in the middle.\<close>

definition demo_slice :: informer_event where
  "demo_slice = Added (SliceObj \<lparr>es_Endpoints = [''10.0.0.1'']\<rparr>) False"

definition demo_schedule :: "data_op list" where
  "demo_schedule = (let p = demo_pod ''a'' ''10.0.0.1'' in
     [AddSlices 1, StorePodInfo ''a.ns'' p, AddSliceIPs 1, AddPods 1, StoreIP ''10.0.0.1'' p])"

theorem readers_see_a_past_cluster_witness:
  "loopM handle [Added (PodObj (demo_pod ''a'' ''10.0.0.1'')) False, demo_slice] zero_K8SData
     = Inr (run_ops demo_schedule zero_K8SData)
   \<and> (\<exists>m Sm. m \<le> 1 \<and> observe_all (take m [Added (PodObj (demo_pod ''a'' ''10.0.0.1'')) False]) Map.empty = Some Sm
        \<and> ips_match (run_ops (take 3 demo_schedule) zero_K8SData) Sm)"
proof -
  let ?es = "[Added (PodObj (demo_pod ''a'' ''10.0.0.1'')) False]"
  have ops: "demo_schedule \<in> shuffles (events_ops ?es) (events_ops [demo_slice])"
    by (simp add: demo_schedule_def demo_slice_def demo_pod_def add_ops_def pod_key_def Let_def)
  have kinds: "list_all pod_event ?es" "list_all (\<lambda>e. \<not> pod_event e) [demo_slice]"
    by (simp_all add: demo_slice_def)
  have obs: "observe_all ?es Map.empty = Some [pod_id (demo_pod ''a'' ''10.0.0.1'') \<mapsto> demo_pod ''a'' ''10.0.0.1'']"
    by simp
  have ips: "ips_ok_all ?es Map.empty" "ips_match zero_K8SData Map.empty"
    by (simp_all add: free_ip_def ips_match_def zero_K8SData_def)
  from readers_see_a_past_cluster [OF ops kinds obs pods_ok_empty ips]
  show ?thesis by (simp add: numeral_3_eq_3 del: observe_all.simps)
qed

end
