(* ===== verification/CopyInto.thy ===== *)
theory CopyInto
  imports DeepCopy
begin

text \<open>
  Copies as the generated code makes them: \<open>DeepCopyInto\<close> reads its source through a pointer and
  writes its target through a pointer, field by field, and hands the pointers to its fields and
  elements on. A location is what such a pointer points to: a variable, a field of a struct, or
  an element of an array. The contract of theory \<open>DeepCopy\<close> is restated for functions that write
  into a location, and is closed under the same constructions.
\<close>

section \<open>Locations\<close>

text \<open>A part of one cell of the store, with how it is read from the cell and replaced in it.\<close>

record ('a, 'c) loc =
  lc_ref :: "ref option"
  lc_get :: "'c \<Rightarrow> 'a option"
  lc_put :: "'a \<Rightarrow> 'c \<Rightarrow> 'c"

definition get_at :: "('a, 'c) loc \<Rightarrow> 'c store \<Rightarrow> 'a exec" where
  "get_at l h = bnd (load h (lc_ref l)) (\<lambda>c. case lc_get l c of None \<Rightarrow> Inl NilDeref | Some x \<Rightarrow> Inr x)"

definition put_at :: "('a, 'c) loc \<Rightarrow> 'a \<Rightarrow> 'c store \<Rightarrow> 'c store exec" where
  "put_at l x h = bnd (load h (lc_ref l)) (\<lambda>c.
     case lc_get l c of None \<Rightarrow> Inl NilDeref | Some _ \<Rightarrow> save h (lc_ref l) (lc_put l x c))"

definition assign :: "('a, 'c) loc \<Rightarrow> ('a, 'c) loc \<Rightarrow> 'c store \<Rightarrow> 'c store exec" where
  "assign out inp h = bnd (get_at inp h) (\<lambda>x. put_at out x h)"

text \<open>
  The variable behind a pointer; a field of the struct at a location; the element of a slice,
  whose address cannot be taken out of range.
\<close>

definition var_loc :: "('a \<Rightarrow> 'c) \<Rightarrow> ('c \<Rightarrow> 'a option) \<Rightarrow> ref option \<Rightarrow> ('a, 'c) loc" where
  "var_loc mk dest p = \<lparr>lc_ref = p, lc_get = dest, lc_put = (\<lambda>x _. mk x)\<rparr>"

definition field :: "('s \<Rightarrow> 'a) \<Rightarrow> ('a \<Rightarrow> 's \<Rightarrow> 's) \<Rightarrow> ('s, 'c) loc \<Rightarrow> ('a, 'c) loc" where
  "field get put l = \<lparr>lc_ref = lc_ref l, lc_get = (\<lambda>c. map_option get (lc_get l c)),
     lc_put = (\<lambda>y c. case lc_get l c of None \<Rightarrow> c | Some x \<Rightarrow> lc_put l (put y x) c)\<rparr>"

definition elem :: "('a list \<Rightarrow> 'c) \<Rightarrow> ('c \<Rightarrow> 'a list option) \<Rightarrow> slice option \<Rightarrow> nat \<Rightarrow> ('a, 'c) loc exec" where
  "elem mk dest items i =
     (case items of
        None \<Rightarrow> Inl IndexOutOfRange
      | Some s \<Rightarrow>
          if i < sl_len s then
            Inr \<lparr>lc_ref = Some (sl_array s),
                 lc_get = (\<lambda>c. case dest c of None \<Rightarrow> None
                    | Some xs \<Rightarrow> if sl_off s + i < length xs then Some (xs ! (sl_off s + i)) else None),
                 lc_put = (\<lambda>x c. case dest c of None \<Rightarrow> c | Some xs \<Rightarrow> mk (xs[sl_off s + i := x]))\<rparr>
          else Inl IndexOutOfRange)"

text \<open>
  What is written is read back, a second write hides the first, and writing what is there changes
  nothing; for a field, \<open>get\<close> and \<open>put\<close> are of one field of the struct, and for a cell, \<open>mk\<close>
  and \<open>dest\<close> are of one kind of variable.
\<close>

definition loc_ok :: "('a, 'c) loc \<Rightarrow> bool" where
  "loc_ok l \<longleftrightarrow> (\<forall>c z x y. lc_get l c = Some z \<longrightarrow>
     lc_get l (lc_put l x c) = Some x \<and> lc_put l y (lc_put l x c) = lc_put l y c \<and> lc_put l z c = c)"

definition field_ok :: "('s \<Rightarrow> 'a) \<Rightarrow> ('a \<Rightarrow> 's \<Rightarrow> 's) \<Rightarrow> bool" where
  "field_ok get put \<longleftrightarrow> (\<forall>y x. get (put y x) = y) \<and> (\<forall>z y x. put z (put y x) = put z x) \<and> (\<forall>x. put (get x) x = x)"

definition kind_ok :: "('a \<Rightarrow> 'c) \<Rightarrow> ('c \<Rightarrow> 'a option) \<Rightarrow> bool" where
  "kind_ok mk dest \<longleftrightarrow> (\<forall>c x. dest c = Some x \<longleftrightarrow> c = mk x)"

lemma kind_dest: "kind_ok mk dest \<Longrightarrow> dest (mk x) = Some x"
  by (simp add: kind_ok_def)

lemma kind_iff: "kind_ok mk dest \<Longrightarrow> dest c = Some x \<longleftrightarrow> c = mk x"
  by (simp add: kind_ok_def)

lemma loc_ok_var [simp]: "kind_ok mk dest \<Longrightarrow> loc_ok (var_loc mk dest p)"
  by (simp add: loc_ok_def var_loc_def kind_ok_def)

lemma loc_ok_field: "loc_ok l \<Longrightarrow> field_ok get put \<Longrightarrow> loc_ok (field get put l)"
  by (auto simp: loc_ok_def field_def field_ok_def)

lemma loc_ok_elem: "kind_ok mk dest \<Longrightarrow> elem mk dest items i = Inr l \<Longrightarrow> loc_ok l"
proof -
  assume kind: "kind_ok mk dest" and l: "elem mk dest items i = Inr l"
  note d = kind_dest [OF kind]
  from l obtain s where s: "items = Some s" "i < sl_len s" by (auto simp: elem_def split: option.splits if_splits)
  show "loc_ok l"
    unfolding loc_ok_def
  proof (intro allI impI)
    fix c z x y
    assume "lc_get l c = Some z"
    with l s obtain xs where "dest c = Some xs" "sl_off s + i < length xs" "z = xs ! (sl_off s + i)"
      by (auto simp: elem_def split: option.splits if_splits)
    moreover from this have "c = mk xs" using kind by (simp add: kind_iff)
    ultimately show "lc_get l (lc_put l x c) = Some x \<and> lc_put l y (lc_put l x c) = lc_put l y c \<and> lc_put l z c = c"
      using l s by (auto simp: elem_def d)
  qed
qed

lemma field_ref [simp]: "lc_ref (field get put l) = lc_ref l"
  by (simp add: field_def)

lemma var_ref [simp]: "lc_ref (var_loc mk dest p) = p"
  by (simp add: var_loc_def)

lemma get_at_eq: "get_at l h = Inr x \<longleftrightarrow> (\<exists>r c. lc_ref l = Some r \<and> cells h r = Some c \<and> lc_get l c = Some x)"
  by (auto simp: get_at_def load_def split: option.splits)

lemma put_at_eq: "put_at l x h = Inr h' \<longleftrightarrow> (\<exists>r c. lc_ref l = Some r \<and> cells h r = Some c
    \<and> lc_get l c \<noteq> None \<and> h' = h\<lparr>cells := (cells h)(r \<mapsto> lc_put l x c)\<rparr>)"
  by (auto simp: put_at_def load_def save_def split: option.splits)

lemma get_at_field: "get_at l h = Inr x \<Longrightarrow> get_at (field get put l) h = Inr (get x)"
  by (auto simp: get_at_eq field_def)

lemma put_at_field: "get_at l h = Inr x \<Longrightarrow> put_at (field get put l) y h = put_at l (put y x) h"
  by (auto simp: put_at_def get_at_eq load_def field_def)

lemma get_at_cong: "lc_ref l = Some r \<Longrightarrow> cells h' r = cells h r \<Longrightarrow> get_at l h' = get_at l h"
  by (simp add: get_at_def load_def)

lemma put_back: "get_at l h = Inr x \<Longrightarrow> loc_ok l \<Longrightarrow> put_at l x h = Inr h"
proof -
  assume l: "get_at l h = Inr x" "loc_ok l"
  obtain r c where r: "lc_ref l = Some r" "cells h r = Some c" "lc_get l c = Some x"
    using l(1) by (auto simp: get_at_eq)
  have "lc_put l x c = c" using l(2) r(3) by (auto simp: loc_ok_def)
  then show "put_at l x h = Inr h" using r by (simp add: put_at_def load_def save_def fun_upd_idem)
qed

lemma get_at_var: "get_at (var_loc mk dest (Some r)) h = Inr x \<longleftrightarrow> var_at dest h r = Some x"
  by (auto simp: get_at_eq var_loc_def var_at_def split: option.splits)

section \<open>A target that has been written\<close>

text \<open>
  \<open>filled h out y g\<close>: the store \<open>g\<close> is \<open>h\<close> with more memory in use and with \<open>y\<close> at the
  location \<open>out\<close>; nothing else that was in use has changed.
\<close>

definition filled :: "'c store \<Rightarrow> ('a, 'c) loc \<Rightarrow> 'a \<Rightarrow> 'c store \<Rightarrow> bool" where
  "filled h out y g \<longleftrightarrow> (\<exists>h1. wf_store h1 \<and> cells h \<subseteq>\<^sub>m cells h1 \<and> put_at out y h1 = Inr g)
     \<and> (\<exists>x. get_at out h = Inr x)"

lemma filledE:
  assumes "filled h out y g"
  obtains r c h1 where "lc_ref out = Some r" and "cells h r = Some c" and "lc_get out c \<noteq> None"
    and "wf_store h1" and "cells h \<subseteq>\<^sub>m cells h1" and "cells h1 r = Some c"
    and "g = h1\<lparr>cells := (cells h1)(r \<mapsto> lc_put out y c)\<rparr>"
proof -
  obtain h1 x where h1: "wf_store h1" "cells h \<subseteq>\<^sub>m cells h1" "put_at out y h1 = Inr g" "get_at out h = Inr x"
    using assms by (auto simp: filled_def)
  obtain r c where r: "lc_ref out = Some r" "cells h r = Some c" "lc_get out c = Some x"
    using h1(4) by (auto simp: get_at_eq)
  have c1: "cells h1 r = Some c" using map_leD [OF h1(2) r(2)] .
  show thesis
  proof (rule that)
    show "g = h1\<lparr>cells := (cells h1)(r \<mapsto> lc_put out y c)\<rparr>" using h1(3) r(1) c1 by (auto simp: put_at_eq)
  qed (use r h1 c1 in simp_all)
qed

lemma filled_get: "filled h out y g \<Longrightarrow> loc_ok out \<Longrightarrow> get_at out g = Inr y"
  by (erule filledE) (auto simp: get_at_eq loc_ok_def)

lemma filled_wf: "filled h out y g \<Longrightarrow> wf_store g"
  by (erule filledE) (auto intro: write_wf)

lemma filled_dom: "filled h out y g \<Longrightarrow> dom (cells h) \<subseteq> dom (cells g)"
  by (erule filledE) (auto dest: map_le_domD)

lemma filled_other: "filled h out y g \<Longrightarrow> lc_ref out \<noteq> Some q \<Longrightarrow> q \<in> dom (cells h) \<Longrightarrow> cells g q = cells h q"
  by (erule filledE) (auto dest: map_leD)

lemma filled_base: "filled h out y g \<Longrightarrow> \<exists>r. lc_ref out = Some r \<and> r \<in> dom (cells h)"
  by (erule filledE) blast

lemma filled_start:
  assumes "wf_store h" and "get_at out h = Inr z"
  shows "\<exists>g. put_at out x h = Inr g \<and> filled h out x g"
proof -
  obtain r c where r: "lc_ref out = Some r" "cells h r = Some c" "lc_get out c = Some z"
    using assms(2) by (auto simp: get_at_eq)
  have "put_at out x h = Inr (h\<lparr>cells := (cells h)(r \<mapsto> lc_put out x c)\<rparr>)"
    using r by (auto simp: put_at_eq)
  with assms show ?thesis by (auto simp: filled_def)
qed

lemma filled_same: "wf_store h \<Longrightarrow> get_at out h = Inr x \<Longrightarrow> loc_ok out \<Longrightarrow> filled h out x h"
  using put_back [of out h x] by (auto simp: filled_def)

lemma filled_again:
  assumes "filled h out y g" and "loc_ok out"
  shows "\<exists>g'. put_at out z g = Inr g' \<and> filled h out z g'
    \<and> (\<forall>q. lc_ref out \<noteq> Some q \<longrightarrow> cells g' q = cells g q)"
  using assms(1)
proof (rule filledE)
  fix r c h1
  assume r: "lc_ref out = Some r" "cells h r = Some c" "lc_get out c \<noteq> None" "wf_store h1" "cells h \<subseteq>\<^sub>m cells h1"
    "cells h1 r = Some c" "g = h1\<lparr>cells := (cells h1)(r \<mapsto> lc_put out y c)\<rparr>"
  let ?g = "h1\<lparr>cells := (cells h1)(r \<mapsto> lc_put out z c)\<rparr>"
  have "put_at out z g = Inr ?g" using r assms(2) by (auto simp: put_at_eq loc_ok_def)
  moreover have "filled h out z ?g"
    using r assms(1) by (auto simp: filled_def put_at_eq intro!: exI [of _ h1])
  ultimately show ?thesis using r(1,7) by auto
qed

lemma filled_more:
  assumes "filled h out y g" and same: "\<And>q. q \<in> dom (cells h) \<Longrightarrow> cells g1 q = cells g q" and "wf_store g1"
  shows "filled h out y g1"
  using assms(1)
proof (rule filledE)
  fix r c h1
  assume r: "lc_ref out = Some r" "cells h r = Some c" "lc_get out c \<noteq> None" "wf_store h1" "cells h \<subseteq>\<^sub>m cells h1"
    "cells h1 r = Some c" "g = h1\<lparr>cells := (cells h1)(r \<mapsto> lc_put out y c)\<rparr>"
  let ?h = "g1\<lparr>cells := (cells g1)(r \<mapsto> c)\<rparr>"
  have g1: "cells g1 r = Some (lc_put out y c)" using same [of r] r(2,7) by auto
  have "cells h \<subseteq>\<^sub>m cells ?h"
  proof (unfold map_le_def, intro ballI)
    fix q assume q: "q \<in> dom (cells h)"
    show "cells h q = cells ?h q"
    proof (cases "q = r")
      case False
      then have "cells h q = cells g q" using q r(5,7) by (auto simp: map_le_def)
      with same [OF q] show ?thesis using False by simp
    qed (use r(2) in simp)
  qed
  moreover have "put_at out y ?h = Inr g1"
    using r(1,3) g1 by (auto simp: put_at_eq fun_upd_idem)
  moreover have "wf_store ?h" using assms(3) g1 by (rule write_wf)
  ultimately show ?thesis using assms(1) by (auto simp: filled_def)
qed

section \<open>The contract of a copy into a location\<close>

type_synonym ('a, 'c) copier_into = "('a, 'c) loc \<Rightarrow> ('a, 'c) loc \<Rightarrow> 'c store \<Rightarrow> 'c store exec"

text \<open>
  A source that is readable, with all its contents, and a target in another cell, which is not
  part of the contents of the source.
\<close>

definition apart :: "('c store \<Rightarrow> 'a \<Rightarrow> ref set) \<Rightarrow> ('a, 'c) loc \<Rightarrow> ('a, 'c) loc \<Rightarrow> 'a \<Rightarrow> 'c store \<Rightarrow> bool" where
  "apart own inp out x h \<longleftrightarrow> wf_store h \<and> loc_ok inp \<and> loc_ok out \<and> get_at inp h = Inr x
     \<and> (\<exists>z. get_at out h = Inr z) \<and> lc_ref inp \<noteq> lc_ref out \<and> (\<forall>r \<in> own h x. lc_ref out \<noteq> Some r)"

definition copies_into :: "('a, 'c) copier_into \<Rightarrow> ('c store \<Rightarrow> 'a \<Rightarrow> 'v option)
    \<Rightarrow> ('c store \<Rightarrow> 'a \<Rightarrow> ref set) \<Rightarrow> bool" where
  "copies_into into val own \<longleftrightarrow>
     contents_ok val own
     \<and> (\<forall>inp out h x v. apart own inp out x h \<and> val h x = Some v \<longrightarrow>
          (\<exists>y h'. into inp out h = Inr h' \<and> filled h out y h'
             \<and> val h' y = Some v \<and> own h' y \<inter> dom (cells h) = {}))"

locale copy_into =
  fixes into :: "('a, 'c) copier_into"
    and val :: "'c store \<Rightarrow> 'a \<Rightarrow> 'v option"
    and own :: "'c store \<Rightarrow> 'a \<Rightarrow> ref set"
  assumes contract: "copies_into into val own"

sublocale copy_into \<subseteq> contents val own
  by unfold_locales (use contract in \<open>simp add: copies_into_def\<close>)

context copy_into
begin

lemma into_run:
  assumes "apart own inp out x h" and "val h x = Some v"
  obtains y h' where "into inp out h = Inr h'" and "filled h out y h'"
    and "val h' y = Some v" and "own h' y \<inter> dom (cells h) = {}"
  using contract assms unfolding copies_into_def by blast

end

section \<open>Fields\<close>

text \<open>
  The copy of a field may rely on the target: it holds what \<open>*out = *in\<close> put there. (The loop
  over a slice does: where the source is nil it writes nothing.)
\<close>

definition copies_over :: "('a, 'c) copier_into \<Rightarrow> ('c store \<Rightarrow> 'a \<Rightarrow> 'v option)
    \<Rightarrow> ('c store \<Rightarrow> 'a \<Rightarrow> ref set) \<Rightarrow> bool" where
  "copies_over into val own \<longleftrightarrow>
     contents_ok val own
     \<and> (\<forall>inp out h x v. apart own inp out x h \<and> get_at out h = Inr x \<and> val h x = Some v \<longrightarrow>
          (\<exists>y h'. into inp out h = Inr h' \<and> filled h out y h'
             \<and> val h' y = Some v \<and> own h' y \<inter> dom (cells h) = {}))"

lemma copies_into_over: "copies_into into val own \<Longrightarrow> copies_over into val own"
  unfolding copies_into_def copies_over_def by blast

lemma assign_copies_into: "copies_into (\<lambda>inp out. assign out inp) plain_val plain_own"
proof -
  have "\<exists>h'. assign out inp h = Inr h' \<and> filled h out x h'" if "apart plain_own inp out x h"
    for inp out :: "('a, 'c) loc" and h x
    using that filled_start [of h out _ x] by (auto simp: apart_def assign_def)
  then show ?thesis by (auto simp: copies_into_def plain_val_def plain_own_def)
qed

lemma field_step:
  assumes c: "copies_over into val own" and f: "field_ok get put"
    and x: "wf_store h" "get_at inp h = Inr x" "lc_ref inp \<noteq> lc_ref out" "loc_ok inp" "loc_ok out"
    and v: "val h (get x) = Some v" "\<forall>r \<in> own h (get x). lc_ref out \<noteq> Some r"
    and g: "filled h out y g" "get y = get x"
  obtains z g' where "into (field get put inp) (field get put out) g = Inr g'" and "filled h out (put z y) g'"
    and "val g' z = Some v" and "own g' z \<inter> dom (cells h) = {}"
    and "\<And>q. q \<in> dom (cells g) \<Longrightarrow> lc_ref out \<noteq> Some q \<Longrightarrow> cells g' q = cells g q"
proof -
  have n: "contents val own" using c by (auto simp: copies_over_def intro: contents.intro)
  note wg = filled_wf [OF g(1)] and yg = filled_get [OF g(1) x(5)]
  have sub: "own h (get x) \<subseteq> dom (cells h)" by (rule contents.live [OF n v(1)])
  have same: "cells g r = cells h r" if "r \<in> own h (get x)" for r
    using filled_other [OF g(1)] v(2) sub that by blast
  have val: "val g (get x) = Some v" and own: "own g (get x) = own h (get x)"
    using contents.frame [OF n same] v(1) by simp_all
  obtain r0 where r0: "lc_ref inp = Some r0" "r0 \<in> dom (cells h)" using x(2) by (auto simp: get_at_eq)
  have "get_at inp g = Inr x"
    using get_at_cong [OF r0(1)] filled_other [OF g(1) _ r0(2)] r0(1) x(2,3) by metis
  then have ap: "apart own (field get put inp) (field get put out) (get x) g"
    using wg yg x(3-5) f own v(2) by (auto simp: apart_def get_at_field field_ok_def intro!: loc_ok_field)
  have "get_at (field get put out) g = Inr (get x)" using get_at_field [OF yg, of get put] g(2) by simp
  with c ap val obtain z g' where z: "into (field get put inp) (field get put out) g = Inr g'"
    "filled g (field get put out) z g'" "val g' z = Some v" "own g' z \<inter> dom (cells g) = {}"
    unfolding copies_over_def by blast
  have oth: "cells g' q = cells g q" if "q \<in> dom (cells g)" "lc_ref out \<noteq> Some q" for q
    using filled_other [OF z(2)] that by simp
  obtain g1 where g1: "wf_store g1" "cells g \<subseteq>\<^sub>m cells g1" "put_at (field get put out) z g1 = Inr g'"
    using z(2) by (auto simp: filled_def)
  have "filled h out y g1"
  proof (rule filled_more [OF g(1) _ g1(1)])
    show "cells g1 q = cells g q" if "q \<in> dom (cells h)" for q
      using subsetD [OF filled_dom [OF g(1)] that] g1(2) by (simp add: map_le_def)
  qed
  moreover from this have "put_at out (put z y) g1 = Inr g'"
    using put_at_field [OF filled_get [OF _ x(5)]] g1(3) by metis
  ultimately have "filled h out (put z y) g'"
    using filled_again [of h out y g1 "put z y"] x(5) by auto
  moreover have "own g' z \<inter> dom (cells h) = {}" using z(4) filled_dom [OF g(1)] by blast
  ultimately show thesis using that z(1,3) oth by blast
qed

text \<open>
  A struct that is copied as a whole, then a plain field, then two fields by copies of their own.
  This is how every generated method begins.
\<close>

lemma struct_into:
  fixes own1 :: "'c store \<Rightarrow> 'a \<Rightarrow> ref set" and own2 :: "'c store \<Rightarrow> 'b \<Rightarrow> ref set"
  assumes c: "copies_over into1 val1 own1" "copies_over into2 val2 own2"
    and f: "field_ok get0 put0" "field_ok get1 put1" "field_ok get2 put2" "\<And>a x. get2 (put1 a x) = get2 x"
    and ap: "apart (two_own own1 own2 get1 get2) inp out x h"
    and v: "two_val val1 val2 get1 get2 rest h x = Some v"
  obtains a b g v1 v2 where
    "bnd (assign out inp h) (\<lambda>h.
     bnd (assign (field get0 put0 out) (field get0 put0 inp) h) (\<lambda>h.
     bnd (into1 (field get1 put1 inp) (field get1 put1 out) h) (\<lambda>h.
     into2 (field get2 put2 inp) (field get2 put2 out) h))) = Inr g"
    and "filled h out (put2 b (put1 a x)) g" and "v = (rest x, v1, v2)"
    and "val1 g a = Some v1" and "val2 g b = Some v2"
    and "own1 g a \<inter> dom (cells h) = {}" and "own2 g b \<inter> dom (cells h) = {}"
proof -
  obtain v1 v2 where v12: "val1 h (get1 x) = Some v1" "val2 h (get2 x) = Some v2" "v = (rest x, v1, v2)"
    using v by (auto simp: two_val_def split: option.splits)
  from ap have x: "wf_store h" "get_at inp h = Inr x" "lc_ref inp \<noteq> lc_ref out" "loc_ok inp" "loc_ok out"
    and own: "\<forall>r \<in> own1 h (get1 x). lc_ref out \<noteq> Some r" "\<forall>r \<in> own2 h (get2 x). lc_ref out \<noteq> Some r"
    by (auto simp: apart_def two_own_def)
  obtain z where "get_at out h = Inr z" using ap by (auto simp: apart_def)
  from filled_start [OF x(1) this] obtain g0 where g0: "put_at out x h = Inr g0" "filled h out x g0" by blast
  obtain z0 g1 where g1: "assign (field get0 put0 out) (field get0 put0 inp) g0 = Inr g1"
    "filled h out (put0 z0 x) g1" "plain_val g1 z0 = Some (get0 x)"
    by (rule field_step [OF copies_into_over [OF assign_copies_into] f(1) x _ _ g0(2) refl])
      (auto simp: plain_val_def plain_own_def)
  then have g1x: "filled h out x g1" using f(1) by (simp add: plain_val_def field_ok_def)
  obtain a g2 where g2: "into1 (field get1 put1 inp) (field get1 put1 out) g1 = Inr g2"
    "filled h out (put1 a x) g2" "val1 g2 a = Some v1" "own1 g2 a \<inter> dom (cells h) = {}"
    by (rule field_step [OF c(1) f(2) x v12(1) own(1) g1x refl]) blast
  obtain b g3 where g3: "into2 (field get2 put2 inp) (field get2 put2 out) g2 = Inr g3"
    "filled h out (put2 b (put1 a x)) g3" "val2 g3 b = Some v2" "own2 g3 b \<inter> dom (cells h) = {}"
    and same: "\<And>q. q \<in> dom (cells g2) \<Longrightarrow> lc_ref out \<noteq> Some q \<Longrightarrow> cells g3 q = cells g2 q"
    by (rule field_step [OF c(2) f(3) x v12(2) own(2) g2(2) f(4)]) blast
  have n: "contents val1 own1" using c(1) by (auto simp: copies_over_def intro: contents.intro)
  obtain r where r: "lc_ref out = Some r" "r \<in> dom (cells h)" using filled_base [OF g0(2)] by blast
  have keep: "cells g3 q = cells g2 q" if "q \<in> own1 g2 a" for q
    using same subsetD [OF contents.live [OF n g2(3)] that] g2(4) r that by auto
  have "val1 g3 a = Some v1" "own1 g3 a = own1 g2 a" using contents.frame [OF n keep] g2(3) by simp_all
  then show thesis
    using that [of g3 b a v1 v2] g0(1) g1(1) g2 g3 x(2) v12(3) by (simp add: assign_def)
qed

text \<open>
  The two shapes of the methods: the list types have two fields with copies of their own, the
  object types one, and two more plain fields behind it.
\<close>

lemma list_into:
  fixes own1 :: "'c store \<Rightarrow> 'a \<Rightarrow> ref set" and own2 :: "'c store \<Rightarrow> 'b \<Rightarrow> ref set"
    and get1 :: "'s \<Rightarrow> 'a"
  assumes c: "copies_over into1 val1 own1" "copies_over into2 val2 own2"
    and f: "field_ok get0 put0" "field_ok get1 put1" "field_ok get2 put2"
    and get: "\<And>a x. get2 (put1 a x) = get2 x" "\<And>b x. get1 (put2 b x) = get1 x"
    and rest: "\<And>a x. rest (put1 a x) = rest x" "\<And>b x. rest (put2 b x) = rest x"
  shows "copies_into (\<lambda>inp out h.
     bnd (assign out inp h) (\<lambda>h.
     bnd (assign (field get0 put0 out) (field get0 put0 inp) h) (\<lambda>h.
     bnd (into1 (field get1 put1 inp) (field get1 put1 out) h) (\<lambda>h.
     into2 (field get2 put2 inp) (field get2 put2 out) h))))
     (two_val val1 val2 get1 get2 rest) (two_own own1 own2 get1 get2)"
  unfolding copies_into_def
proof (intro conjI allI impI, rule two_contents)
  show "contents_ok val1 own1" "contents_ok val2 own2" using c by (simp_all add: copies_over_def)
  fix inp out :: "('s, 'c) loc" and h x v
  assume "apart (two_own own1 own2 get1 get2) inp out x h \<and> two_val val1 val2 get1 get2 rest h x = Some v"
  then have H: "apart (two_own own1 own2 get1 get2) inp out x h" "two_val val1 val2 get1 get2 rest h x = Some v"
    by simp_all
  obtain a b g v1 v2 where r: "bnd (assign out inp h) (\<lambda>h.
     bnd (assign (field get0 put0 out) (field get0 put0 inp) h) (\<lambda>h.
     bnd (into1 (field get1 put1 inp) (field get1 put1 out) h) (\<lambda>h.
     into2 (field get2 put2 inp) (field get2 put2 out) h))) = Inr g"
    "filled h out (put2 b (put1 a x)) g" "v = (rest x, v1, v2)" "val1 g a = Some v1" "val2 g b = Some v2"
    "own1 g a \<inter> dom (cells h) = {}" "own2 g b \<inter> dom (cells h) = {}"
    by (rule struct_into [OF c f get(1) H]) blast
  have "get1 (put2 b (put1 a x)) = a" "get2 (put2 b (put1 a x)) = b" "rest (put2 b (put1 a x)) = rest x"
    using f get rest by (simp_all add: field_ok_def)
  with r show "\<exists>y h'. bnd (assign out inp h) (\<lambda>h.
     bnd (assign (field get0 put0 out) (field get0 put0 inp) h) (\<lambda>h.
     bnd (into1 (field get1 put1 inp) (field get1 put1 out) h) (\<lambda>h.
     into2 (field get2 put2 inp) (field get2 put2 out) h))) = Inr h' \<and> filled h out y h'
     \<and> two_val val1 val2 get1 get2 rest h' y = Some v \<and> two_own own1 own2 get1 get2 h' y \<inter> dom (cells h) = {}"
    by (intro exI [of _ "put2 b (put1 a x)"] exI [of _ g]) (auto simp: two_val_def two_own_def)
qed

lemma object_into:
  fixes own1 :: "'c store \<Rightarrow> 'a \<Rightarrow> ref set"
    and get1 :: "'s \<Rightarrow> 'a"
  assumes c: "copies_over into1 val1 own1"
    and f: "field_ok get0 put0" "field_ok get1 put1" "field_ok get2 put2" "field_ok get3 put3"
    and get: "\<And>a x. get2 (put1 a x) = get2 x" "\<And>a x. get3 (put1 a x) = get3 x"
    and rest: "\<And>a x. rest (put1 a x) = rest x"
  shows "copies_into (\<lambda>inp out h.
     bnd (assign out inp h) (\<lambda>h.
     bnd (assign (field get0 put0 out) (field get0 put0 inp) h) (\<lambda>h.
     bnd (into1 (field get1 put1 inp) (field get1 put1 out) h) (\<lambda>h.
     bnd (assign (field get2 put2 out) (field get2 put2 inp) h) (\<lambda>h.
     assign (field get3 put3 out) (field get3 put3 inp) h)))))
     (two_val val1 plain_val get1 (\<lambda>_. ()) rest) (two_own own1 plain_own get1 (\<lambda>_. ()))"
    (is "copies_into ?into ?val ?own")
  unfolding copies_into_def
proof (intro conjI allI impI, rule two_contents)
  show "contents_ok val1 own1" using c by (simp add: copies_over_def)
  show "contents_ok plain_val plain_own" by simp
  note plain = copies_into_over [OF assign_copies_into]
  fix inp out :: "('s, 'c) loc" and h x v
  assume H: "apart ?own inp out x h \<and> ?val h x = Some v"
  then have ap: "apart (two_own own1 plain_own get1 get2) inp out x h"
    by (auto simp: apart_def two_own_def plain_own_def)
  obtain v1 where v1: "val1 h (get1 x) = Some v1" "v = (rest x, v1, ())"
    using H by (auto simp: two_val_def plain_val_def split: option.splits)
  have tv: "two_val val1 plain_val get1 get2 (\<lambda>_. ()) h x = Some ((), v1, get2 x)"
    using v1(1) by (simp add: two_val_def plain_val_def)
  obtain a b g u1 u2 where r: "bnd (assign out inp h) (\<lambda>h.
     bnd (assign (field get0 put0 out) (field get0 put0 inp) h) (\<lambda>h.
     bnd (into1 (field get1 put1 inp) (field get1 put1 out) h) (\<lambda>h.
     assign (field get2 put2 out) (field get2 put2 inp) h))) = Inr g"
    "filled h out (put2 b (put1 a x)) g" "((), v1, get2 x) = ((), u1, u2)" "val1 g a = Some u1"
    "plain_val g b = Some u2" "own1 g a \<inter> dom (cells h) = {}"
    by (rule struct_into [OF c plain f(1-3) get(1) ap tv]) blast
  let ?y = "put1 a x"
  have "put2 b ?y = ?y" using r(3,5) f(3) get(1) by (simp add: plain_val_def field_ok_def, metis)
  then have y: "filled h out ?y g" using r(2) by simp
  from ap have x: "wf_store h" "get_at inp h = Inr x" "lc_ref inp \<noteq> lc_ref out" "loc_ok inp" "loc_ok out"
    by (auto simp: apart_def)
  obtain z g' where g': "assign (field get3 put3 out) (field get3 put3 inp) g = Inr g'"
    "filled h out (put3 z ?y) g'" "plain_val g' z = Some (get3 x)"
    and same: "\<And>q. q \<in> dom (cells g) \<Longrightarrow> lc_ref out \<noteq> Some q \<Longrightarrow> cells g' q = cells g q"
    by (rule field_step [OF plain f(4) x _ _ y get(2)]) (auto simp: plain_val_def plain_own_def)
  have "put3 z ?y = ?y" using g'(3) f(4) get(2) by (simp add: plain_val_def field_ok_def, metis)
  then have y': "filled h out ?y g'" using g'(2) by simp
  have n: "contents val1 own1" using c by (auto simp: copies_over_def intro: contents.intro)
  obtain r0 where r0: "lc_ref out = Some r0" "r0 \<in> dom (cells h)" using filled_base [OF y] by blast
  have "cells g' q = cells g q" if "q \<in> own1 g a" for q
    using same subsetD [OF contents.live [OF n r(4)] that] r(6) r0 that by auto
  then have keep: "val1 g' a = Some v1" "own1 g' a = own1 g a"
    using contents.frame [OF n, of g a g'] r(3,4) by simp_all
  have run: "?into inp out h = Inr g'"
    using r(1) g'(1) by (auto simp: bnd_eq_Inr_iff)
  have "?val g' ?y = Some v" "?own g' ?y \<inter> dom (cells h) = {}"
    using keep r(6) v1(2) f(2) rest by (simp_all add: two_val_def two_own_def plain_val_def plain_own_def field_ok_def)
  with run y' show "\<exists>y h'. ?into inp out h = Inr h' \<and> filled h out y h' \<and> ?val h' y = Some v
      \<and> ?own h' y \<inter> dom (cells h) = {}" by blast
qed

section \<open>Slices\<close>

text \<open>The block of the generated methods that copies a slice of structs element by element.\<close>

definition go_len :: "slice option \<Rightarrow> nat" where
  "go_len s = (case s of None \<Rightarrow> 0 | Some s \<Rightarrow> sl_len s)"

definition items_into :: "('a list \<Rightarrow> 'c) \<Rightarrow> ('c \<Rightarrow> 'a list option) \<Rightarrow> 'a \<Rightarrow> ('a, 'c) copier_into
    \<Rightarrow> (slice option, 'c) copier_into" where
  "items_into mk dest z into inp out h =
     bnd (get_at inp h) (\<lambda>items.
       if items \<noteq> None then
         bnd (get_at inp h) (\<lambda>items.
         (case make_slice mk z (go_len items) h of (t, h1) \<Rightarrow>
         bnd (put_at out (Some t) h1) (\<lambda>h2.
         bnd (get_at inp h2) (\<lambda>items.
         loopM (\<lambda>i g. bnd (get_at inp g) (\<lambda>s. bnd (elem mk dest s i) (\<lambda>from.
                       bnd (get_at out g) (\<lambda>t. bnd (elem mk dest t i) (\<lambda>to.
                       into from to g)))))
           [0..<go_len items] h2))))
       else Inr h)"

context copy_into
begin

definition filled_items :: "('a list \<Rightarrow> 'c) \<Rightarrow> 'c store \<Rightarrow> (slice option, 'c) loc \<Rightarrow> slice \<Rightarrow> 'v list \<Rightarrow> nat \<Rightarrow> 'c store \<Rightarrow> bool" where
  "filled_items mk h out t vs i g \<longleftrightarrow> filled h out (Some t) g \<and> cells h (sl_array t) = None
     \<and> (\<exists>zs. cells g (sl_array t) = Some (mk zs) \<and> length zs = length vs
          \<and> (\<forall>j < i. val g (zs ! j) = Some (vs ! j) \<and> own g (zs ! j) \<inter> dom (cells h) = {}
               \<and> sl_array t \<notin> own g (zs ! j)))"

lemma items_into_step:
  assumes kind: "kind_ok mk dest"
    and ap: "apart (items_own dest own) inp out (Some s) h"
    and xs: "slice_elems dest h s = Some xs" "map (val h) xs = map Some vs"
    and t: "t = \<lparr>sl_array = a, sl_off = 0, sl_len = length vs, sl_cap = length vs\<rparr>"
    and inv: "filled_items mk h out t vs i g" and i: "i < length vs"
  shows "\<exists>g'. bnd (get_at inp g) (\<lambda>s. bnd (elem mk dest s i) (\<lambda>from.
      bnd (get_at out g) (\<lambda>t. bnd (elem mk dest t i) (\<lambda>to. into from to g)))) = Inr g'
    \<and> filled_items mk h out t vs (Suc i) g'"
proof -
  note dest = kind_dest [OF kind]
  have len: "length xs = length vs" "sl_len s = length vs"
    using xs(2) slice_elemsD(1) [OF xs(1)] by (metis length_map)+
  from inv t obtain zs where g: "filled h out (Some t) g" "cells h a = None"
    and zs: "cells g a = Some (mk zs)" "length zs = length vs"
    and prev: "\<And>j. j < i \<Longrightarrow> val g (zs ! j) = Some (vs ! j) \<and> own g (zs ! j) \<inter> dom (cells h) = {}
               \<and> a \<notin> own g (zs ! j)"
    by (auto simp: filled_items_def)
  from ap have x: "wf_store h" "get_at inp h = Inr (Some s)" "lc_ref inp \<noteq> lc_ref out" "loc_ok out"
    and out: "\<forall>r \<in> items_own dest own h (Some s). lc_ref out \<noteq> Some r"
    by (auto simp: apart_def)
  obtain c where s: "cells h (sl_array s) = Some c" "dest c \<noteq> None" "sl_off s + sl_len s \<le> length (the (dest c))"
    "xs = take (sl_len s) (drop (sl_off s) (the (dest c)))"
    using xs(1) by (auto simp: slice_elems_def var_at_def split: option.splits if_splits)
  have sc: "cells g (sl_array s) = Some c"
    using filled_other [OF g(1), of "sl_array s"] s(1) out by (auto simp: items_own_def)
  have inp: "get_at inp g = Inr (Some s)"
  proof -
    obtain r0 where r0: "lc_ref inp = Some r0" "r0 \<in> dom (cells h)" using x(2) by (auto simp: get_at_eq)
    show ?thesis
      using get_at_cong [OF r0(1)] filled_other [OF g(1) _ r0(2)] r0(1) x(2,3) by metis
  qed
  have tg: "get_at out g = Inr (Some t)" using filled_get [OF g(1) x(4)] .
  obtain e1 e2 where e: "elem mk dest (Some s) i = Inr e1" "elem mk dest (Some t) i = Inr e2"
    using i len t by (simp add: elem_def)
  have er: "lc_ref e1 = Some (sl_array s)" "lc_ref e2 = Some a"
    using e t by (auto simp: elem_def split: if_splits)
  have e1x: "get_at e1 g = Inr (xs ! i)"
    using e(1) sc s i len by (auto simp: elem_def get_at_eq split: if_splits option.splits)
  have e2z: "get_at e2 g = Inr (zs ! i)"
    using e(2) zs i t by (auto simp: elem_def get_at_eq dest split: if_splits)
  have "xs ! i \<in> set xs" and vi: "val h (xs ! i) = Some (vs ! i)"
    using i len xs(2) by (simp, metis nth_map)
  then have sub: "own h (xs ! i) \<subseteq> dom (cells h)" and nout: "\<And>r. r \<in> own h (xs ! i) \<Longrightarrow> lc_ref out \<noteq> Some r"
    using live [OF vi] out xs(1) by (auto simp: items_own_def)
  have vg: "own g (xs ! i) = own h (xs ! i)" "val g (xs ! i) = Some (vs ! i)"
    using frame [of h "xs ! i" g] filled_other [OF g(1)] sub nout vi by (auto simp: subset_iff)
  have "apart own e1 e2 (xs ! i) g"
    unfolding apart_def
  proof (intro conjI ballI)
    show "wf_store g" by (rule filled_wf [OF g(1)])
    show "loc_ok e1" "loc_ok e2" using loc_ok_elem [OF kind] e by blast+
    show "lc_ref e1 \<noteq> lc_ref e2" using er s(1) g(2) by auto
    show "lc_ref e2 \<noteq> Some r" if "r \<in> own g (xs ! i)" for r
      using that vg(1) sub er(2) g(2) by auto
  qed (use e1x e2z in simp_all)
  from into_run [OF this vg(2)] obtain y g' where run: "into e1 e2 g = Inr g'" "filled g e2 y g'"
    "val g' y = Some (vs ! i)" "own g' y \<inter> dom (cells g) = {}" .
  have oth: "cells g' q = cells g q" if "q \<in> dom (cells g)" "q \<noteq> a" for q
    using filled_other [OF run(2)] er(2) that by simp
  have "filled h out (Some t) g'"
  proof (rule filled_more [OF g(1) _ filled_wf [OF run(2)]])
    show "cells g' q = cells g q" if "q \<in> dom (cells h)" for q
      using oth [of q] that g(2) filled_dom [OF g(1)] by blast
  qed
  moreover have "cells g' a = Some (mk (zs[i := y]))"
    using run(2) er(2) zs(1) e(2) t by (auto elim!: filledE simp: elem_def dest split: if_splits)
  moreover have "val g' (zs[i := y] ! j) = Some (vs ! j) \<and> own g' (zs[i := y] ! j) \<inter> dom (cells h) = {}
      \<and> a \<notin> own g' (zs[i := y] ! j)" if "j < Suc i" for j
  proof (cases "j = i")
    case True
    then show ?thesis
      using run(3,4) i zs filled_dom [OF g(1)] by auto
  next
    case False
    with that have j: "j < i" by simp
    have "cells g' q = cells g q" if "q \<in> own g (zs ! j)" for q
      using oth [of q] that prev [OF j] live [of g "zs ! j"] by auto
    from frame [OF this] prev [OF j] False show ?thesis by simp
  qed
  ultimately have "filled_items mk h out t vs (Suc i) g'"
    using g(2) zs(2) t by (auto simp: filled_items_def intro!: exI [of _ "zs[i := y]"])
  with run(1) inp tg e show ?thesis by auto
qed

lemma items_into_copies:
  assumes kind: "kind_ok mk dest"
  shows "copies_over (items_into mk dest z into) (items_val dest val) (items_own dest own)"
  unfolding copies_over_def
proof (intro conjI allI impI, rule items_contents)
  note dest = kind_dest [OF kind]
  fix inp out :: "(slice option, 'c) loc" and h :: "'c store" and p v
  assume H: "apart (items_own dest own) inp out p h \<and> get_at out h = Inr p \<and> items_val dest val h p = Some v"
  then have x: "wf_store h" "get_at inp h = Inr p" "get_at out h = Inr p" "loc_ok out" "lc_ref inp \<noteq> lc_ref out"
    by (auto simp: apart_def)
  show "\<exists>y h'. items_into mk dest z into inp out h = Inr h' \<and> filled h out y h'
      \<and> items_val dest val h' y = Some v \<and> items_own dest own h' y \<inter> dom (cells h) = {}"
  proof (cases p)
    case None
    then have "filled h out None h"
      using x(1,3,4) by (simp add: filled_same)
    with None x(2) H show ?thesis
      by (auto simp: items_into_def items_val_def items_own_def intro!: exI [of _ None])
  next
    case (Some s)
    with H obtain xs vs where xs: "slice_elems dest h s = Some xs" "map (val h) xs = map Some vs" "v = Some vs"
      by (auto simp: items_val_def those_eq_Some_iff split: option.splits)
    have len: "sl_len s = length vs"
      using xs(2) slice_elemsD(1) [OF xs(1)] by (metis length_map)
    obtain a h1 where a: "alloc (mk (replicate (sl_len s) z)) h = (a, h1)" by fastforce
    let ?t = "\<lparr>sl_array = a, sl_off = 0, sl_len = length vs, sl_cap = length vs\<rparr>"
    have h1: "cells h \<subseteq>\<^sub>m cells h1" "cells h a = None" "cells h1 a = Some (mk (replicate (sl_len s) z))" "wf_store h1"
      using alloc_map_le [OF x(1) a] by simp_all
    have "get_at out h1 = Inr p" using x(3) h1(1) by (auto simp: get_at_eq map_leD)
    from filled_start [OF h1(4) this, of "Some ?t"] obtain h2 where h2: "put_at out (Some ?t) h1 = Inr h2"
      "filled h1 out (Some ?t) h2" by blast
    have f2: "filled h out (Some ?t) h2" using h2(1) h1(1,4) x(3) by (auto simp: filled_def)
    obtain r0 where r0: "lc_ref inp = Some r0" "r0 \<in> dom (cells h)" using x(2) by (auto simp: get_at_eq)
    have i2: "get_at inp h2 = Inr p"
      using get_at_cong [OF r0(1)] filled_other [OF f2 _ r0(2)] r0(1) x(2,5) by metis
    have "cells h2 a = Some (mk (replicate (sl_len s) z))"
      using filled_other [OF h2(2), of a] h1(2,3) x(3) by (fastforce simp: get_at_eq)
    then have inv0: "filled_items mk h out ?t vs 0 h2"
      using f2 h1(2) len by (auto simp: filled_items_def)
    have ap: "apart (items_own dest own) inp out (Some s) h" using H Some by simp
    let ?step = "\<lambda>i g. bnd (get_at inp g) (\<lambda>s. bnd (elem mk dest s i) (\<lambda>from.
      bnd (get_at out g) (\<lambda>t. bnd (elem mk dest t i) (\<lambda>to. into from to g))))"
    have "\<exists>h'. loopM ?step [0..<sl_len s] h2 = Inr h' \<and> filled_items mk h out ?t vs (length [0..<sl_len s]) h'"
    proof (rule loopM_rule [where P = "\<lambda>seen. filled_items mk h out ?t vs (length seen)"])
      fix seen i rest g
      assume split: "[0..<sl_len s] = seen @ i # rest" and inv: "filled_items mk h out ?t vs (length seen) g"
      have i: "i = length seen" "i < length vs" using upt_split [OF split] len by simp_all
      from items_into_step [OF kind ap xs(1,2) refl inv [folded i(1)] i(2)] i(1)
      show "\<exists>g'. ?step i g = Inr g' \<and> filled_items mk h out ?t vs (length (seen @ [i])) g'" by simp
    qed (simp add: inv0)
    then obtain h' where h': "loopM ?step [0..<sl_len s] h2 = Inr h'" "filled_items mk h out ?t vs (length vs) h'"
      using len by auto
    have run: "items_into mk dest z into inp out h = Inr h'"
      using Some x(2) a h2(1) i2 h'(1) len by (simp add: items_into_def make_slice_def go_len_def)
    from h'(2) obtain zs where zs: "filled h out (Some ?t) h'" "cells h' a = Some (mk zs)" "length zs = length vs"
      and j: "\<And>j. j < length vs \<Longrightarrow> val h' (zs ! j) = Some (vs ! j) \<and> own h' (zs ! j) \<inter> dom (cells h) = {}"
      by (auto simp: filled_items_def)
    have el: "slice_elems dest h' ?t = Some zs"
      using zs(2,3) by (simp add: slice_elems_def var_at_def dest)
    have own_zs: "own h' x \<inter> dom (cells h) = {}" if "x \<in> set zs" for x
      using that j zs(3) by (metis in_set_conv_nth)
    have "map (val h') zs = map Some vs" using zs(3) j by (auto intro: nth_equalityI)
    then have "items_val dest val h' (Some ?t) = Some v"
      using el xs(3) by (simp add: items_val_def those_eq_Some_iff)
    moreover have "items_own dest own h' (Some ?t) \<inter> dom (cells h) = {}"
      using el h1(2) own_zs by (auto simp: items_own_def)
    ultimately show ?thesis using run zs(1) by blast
  qed
qed

end

section \<open>Pointers\<close>

text \<open>The generated \<open>DeepCopy\<close>: a new variable, and \<open>DeepCopyInto\<close> with pointers to both.\<close>

definition DeepCopy_new :: "('a \<Rightarrow> 'c) \<Rightarrow> ('c \<Rightarrow> 'a option) \<Rightarrow> 'a \<Rightarrow> ('a, 'c) copier_into
    \<Rightarrow> (ref option, 'c) copier" where
  "DeepCopy_new mk dest z into inp h =
     (if inp = None then Inr (None, h)
      else (case alloc (mk z) h of (out, h1) \<Rightarrow>
        bnd (into (var_loc mk dest inp) (var_loc mk dest (Some out)) h1) (\<lambda>h2. Inr (Some out, h2))))"

context copy_into
begin

lemma new_copies:
  assumes kind: "kind_ok mk dest"
  shows "copies_deeply (DeepCopy_new mk dest z into) (ptr_val dest val) (ptr_own dest own)"
  unfolding copies_deeply_def
proof (intro conjI allI impI, rule ptr_contents)
  note dest = kind_dest [OF kind]
  fix h :: "'c store" and p v
  assume h: "wf_store h \<and> ptr_val dest val h p = Some v"
  show "\<exists>y h'. DeepCopy_new mk dest z into p h = Inr (y, h') \<and> wf_store h' \<and> cells h \<subseteq>\<^sub>m cells h'
      \<and> ptr_val dest val h' y = Some v \<and> ptr_own dest own h' y \<inter> dom (cells h) = {}"
  proof (cases p)
    case None
    with h show ?thesis by (simp add: DeepCopy_new_def ptr_val_def ptr_own_def)
  next
    case (Some r)
    with h obtain x u where x: "var_at dest h r = Some x" "val h x = Some u" "v = Some u"
      by (auto simp: ptr_val_def split: option.splits)
    obtain out h1 where a: "alloc (mk z) h = (out, h1)" by (cases "alloc (mk z) h")
    then have h1: "cells h \<subseteq>\<^sub>m cells h1" "cells h out = None" "cells h1 out = Some (mk z)" "wf_store h1"
      using alloc_map_le [of h "mk z" out h1] h by simp_all
    have u: "val h1 x = Some u" "own h1 x = own h x" using extend [OF x(2) h1(1)] by simp_all
    have "r \<noteq> out" using x(1) h1(2) by (auto simp: var_at_def)
    moreover have "out \<notin> own h x" using live [OF x(2)] h1(2) by blast
    moreover have "get_at (var_loc mk dest (Some out)) h1 = Inr z"
      using h1(3) by (simp add: get_at_var var_at_def dest)
    ultimately have "apart own (var_loc mk dest (Some r)) (var_loc mk dest (Some out)) x h1"
      using h1(4) u(2) var_at_extend [OF x(1) h1(1)] kind by (auto simp: apart_def get_at_var)
    from into_run [OF this u(1)] obtain y h2 where c:
      "into (var_loc mk dest (Some r)) (var_loc mk dest (Some out)) h1 = Inr h2"
      "filled h1 (var_loc mk dest (Some out)) y h2" "val h2 y = Some u" "own h2 y \<inter> dom (cells h1) = {}" .
    have y: "var_at dest h2 out = Some y"
      using filled_get [OF c(2)] kind by (simp add: get_at_var)
    have "DeepCopy_new mk dest z into p h = Inr (Some out, h2)"
      using Some a c(1) by (simp add: DeepCopy_new_def)
    moreover have "cells h \<subseteq>\<^sub>m cells h2"
    proof (unfold map_le_def, intro ballI)
      fix q assume q: "q \<in> dom (cells h)"
      then have "q \<in> dom (cells h1)" and "q \<noteq> out" using map_le_domD [OF h1(1)] h1(2) by blast+
      from filled_other [OF c(2) _ this(1)] this(2) q h1(1) show "cells h q = cells h2 q"
        by (auto simp: map_le_def)
    qed
    moreover have "ptr_val dest val h2 (Some out) = Some v" using y c(3) x(3) by (simp add: ptr_val_def)
    moreover have "ptr_own dest own h2 (Some out) \<inter> dom (cells h) = {}"
      using y c(4) map_le_domD [OF h1(1)] h1(2) by (simp add: ptr_own_def) blast
    ultimately show ?thesis using filled_wf [OF c(2)] by blast
  qed
qed

end

section \<open>Copies that return their result\<close>

text \<open>A deep copy of values is one into a location when its result is stored there.\<close>

definition store_copy :: "('a, 'c) copier \<Rightarrow> ('a, 'c) copier_into" where
  "store_copy copy inp out h =
     bnd (get_at inp h) (\<lambda>x. bnd (copy x h) (\<lambda>(y, h1). put_at out y h1))"

lemma store_copy_into:
  fixes own :: "'c store \<Rightarrow> 'a \<Rightarrow> ref set"
  assumes "copies_deeply copy val own"
  shows "copies_into (store_copy copy) val own"
  unfolding copies_into_def
proof (intro conjI allI impI)
  show "contents_ok val own" using assms by (simp add: copies_deeply_def)
  fix inp out :: "('a, 'c) loc" and h x v
  assume "apart own inp out x h \<and> val h x = Some v"
  then obtain z where H: "wf_store h" "get_at inp h = Inr x" "get_at out h = Inr z" "val h x = Some v"
    by (auto simp: apart_def)
  have d: "deep_copy copy val own" using assms by (rule deep_copy.intro)
  have n: "contents val own" using assms by (auto intro: contents.intro simp: copies_deeply_def)
  obtain y h1 where c: "copy x h = Inr (y, h1)" "wf_store h1" "cells h \<subseteq>\<^sub>m cells h1" "val h1 y = Some v"
    "own h1 y \<inter> dom (cells h) = {}"
    by (rule deep_copy.copy_run [OF d H(1,4)])
  have "get_at out h1 = Inr z" using H(3) c(3) by (auto simp: get_at_eq map_leD)
  from filled_start [OF c(2) this] obtain h2 where h2: "put_at out y h1 = Inr h2" by blast
  have f: "filled h out y h2" using h2 c(2,3) H(3) by (auto simp: filled_def)
  obtain r where r: "lc_ref out = Some r" "r \<in> dom (cells h)" using filled_base [OF f] by blast
  have "r \<notin> own h1 y" using r(2) c(5) by blast
  then have "cells h2 q = cells h1 q" if "q \<in> own h1 y" for q
    using h2 r(1) that by (auto simp: put_at_eq)
  from contents.frame [OF n this] c(4,5) have "val h2 y = Some v" "own h2 y \<inter> dom (cells h) = {}" by simp_all
  with f H(2) c(1) h2 show "\<exists>y h'. store_copy copy inp out h = Inr h' \<and> filled h out y h' \<and> val h' y = Some v
      \<and> own h' y \<inter> dom (cells h) = {}"
    by (auto simp: store_copy_def)
qed

section \<open>A copy of a location into itself\<close>

lemma assign_self: "get_at l h = Inr x \<Longrightarrow> loc_ok l \<Longrightarrow> assign l l h = Inr h"
  using put_back [of l h x] by (simp add: assign_def)

lemma assign_self_field:
  "get_at l h = Inr x \<Longrightarrow> loc_ok l \<Longrightarrow> field_ok get put \<Longrightarrow> assign (field get put l) (field get put l) h = Inr h"
  using assign_self [OF get_at_field [of l h x get put]] by (simp add: loc_ok_field)

text \<open>
  The block over a slice first gives the target its new array, which in this case is that of the
  source as well: the old elements are out of reach before they are copied.
\<close>

lemma items_into_self:
  assumes kind: "kind_ok mk dest" and l: "get_at l h = Inr (Some s)" "loc_ok l" and h: "wf_store h"
    and into: "\<And>e g x. get_at e g = Inr x \<Longrightarrow> loc_ok e \<Longrightarrow> into e e g = Inr g"
    and a: "alloc (mk (replicate (sl_len s) z)) h = (a, h1)"
    and t: "t = \<lparr>sl_array = a, sl_off = 0, sl_len = sl_len s, sl_cap = sl_len s\<rparr>"
  shows "\<exists>g. put_at l (Some t) h1 = Inr g \<and> items_into mk dest z into l l h = Inr g \<and> cells h a = None
    \<and> cells g a = Some (mk (replicate (sl_len s) z)) \<and> get_at l g = Inr (Some t)"
proof -
  have h1: "cells h \<subseteq>\<^sub>m cells h1" "cells h a = None" "cells h1 a = Some (mk (replicate (sl_len s) z))" "wf_store h1"
    using alloc_map_le [OF h a] by simp_all
  have "get_at l h1 = Inr (Some s)" using l(1) h1(1) by (auto simp: get_at_eq map_leD)
  from filled_start [OF h1(4) this] obtain g where g: "put_at l (Some t) h1 = Inr g" "filled h1 l (Some t) g"
    by blast
  have gl: "get_at l g = Inr (Some t)" using filled_get [OF g(2) l(2)] .
  have ga: "cells g a = Some (mk (replicate (sl_len s) z))"
    using filled_other [OF g(2), of a] h1(2,3) l(1) by (fastforce simp: get_at_eq)
  have step: "bnd (get_at l g) (\<lambda>s. bnd (elem mk dest s i) (\<lambda>from.
      bnd (get_at l g) (\<lambda>t. bnd (elem mk dest t i) (\<lambda>to. into from to g)))) = Inr g" if i: "i < sl_len s" for i
  proof -
    obtain e where e: "elem mk dest (Some t) i = Inr e" using i t by (simp add: elem_def)
    have "get_at e g = Inr z"
      using e ga i t by (auto simp: elem_def get_at_eq kind_dest [OF kind] split: if_splits)
    from into [OF this loc_ok_elem [OF kind e]] gl e show ?thesis by simp
  qed
  have "loopM (\<lambda>i g. bnd (get_at l g) (\<lambda>s. bnd (elem mk dest s i) (\<lambda>from.
      bnd (get_at l g) (\<lambda>t. bnd (elem mk dest t i) (\<lambda>to. into from to g))))) is g = Inr g"
    if "set is \<subseteq> {..<sl_len s}" for "is"
    using that by (induction "is") (simp_all add: step)
  from this [of "[0..<sl_len s]"] have "items_into mk dest z into l l h = Inr g"
    using l(1) a g(1) gl t by (simp add: items_into_def make_slice_def go_len_def atLeast0LessThan subset_eq)
  with g(1) h1(2) ga gl show ?thesis by blast
qed

end
