(* ===== verification/GeneratedCopies.thy ===== *)
theory GeneratedCopies
  imports ApiTypes CopyInto
begin

text \<open>
  The other generated files, \<open>generated.deepcopy.go\<close> of \<open>pkg/apis/mesh/v1\<close> and of
  \<open>pkg/apis/echo/v1\<close>, statement by statement with their pointers: \<open>*out = *in\<close> copies the
  struct and shares its memory, the assignments behind it take the fields apart again. The type
  \<open>Ptr\<close> has the methods of both generators, which are shown to agree; \<open>Echo\<close> of \<open>pkg/apis/echo\<close> is
  a type of its own, with the fields of the one of the sample server.
\<close>

section \<open>Ptr, in the mesh package\<close>

abbreviation (input) Ptr_meta_at :: "('m Ptr, 'c) loc \<Rightarrow> ('m, 'c) loc" where
  "Ptr_meta_at \<equiv> field p_ObjectMeta (\<lambda>m x. x\<lparr>p_ObjectMeta := m\<rparr>)"

definition Ptr_DeepCopyInto_at :: "('m, 'c) copier_into \<Rightarrow> ('m Ptr, 'c) copier_into" where
  "Ptr_DeepCopyInto_at copy_meta inp out h =
     bnd (assign out inp h) (\<lambda>h.
     bnd (assign (field p_TypeMeta (\<lambda>t x. x\<lparr>p_TypeMeta := t\<rparr>) out)
            (field p_TypeMeta (\<lambda>t x. x\<lparr>p_TypeMeta := t\<rparr>) inp) h) (\<lambda>h.
     bnd (copy_meta (Ptr_meta_at inp) (Ptr_meta_at out) h) (\<lambda>h.
     bnd (assign (field p_Spec (\<lambda>s x. x\<lparr>p_Spec := s\<rparr>) out) (field p_Spec (\<lambda>s x. x\<lparr>p_Spec := s\<rparr>) inp) h) (\<lambda>h.
     assign (field p_Status (\<lambda>t x. x\<lparr>p_Status := t\<rparr>) out) (field p_Status (\<lambda>t x. x\<lparr>p_Status := t\<rparr>) inp) h))))"

definition PtrList_DeepCopyInto_at :: "('l, ('m, 'l, 'x) api_cell) copier_into
    \<Rightarrow> ('m, ('m, 'l, 'x) api_cell) copier_into \<Rightarrow> 'm \<Rightarrow> ('l PtrList, ('m, 'l, 'x) api_cell) copier_into" where
  "PtrList_DeepCopyInto_at copy_list_meta copy_meta m0 inp out h =
     bnd (assign out inp h) (\<lambda>h.
     bnd (assign (field pl_TypeMeta (\<lambda>t x. x\<lparr>pl_TypeMeta := t\<rparr>) out)
            (field pl_TypeMeta (\<lambda>t x. x\<lparr>pl_TypeMeta := t\<rparr>) inp) h) (\<lambda>h.
     bnd (copy_list_meta (field pl_ListMeta (\<lambda>l x. x\<lparr>pl_ListMeta := l\<rparr>) inp)
            (field pl_ListMeta (\<lambda>l x. x\<lparr>pl_ListMeta := l\<rparr>) out) h) (\<lambda>h.
     items_into PtrArray (cell_as is_PtrArray the_ptrs) (zero_Ptr m0) (Ptr_DeepCopyInto_at copy_meta)
       (field pl_Items (\<lambda>s x. x\<lparr>pl_Items := s\<rparr>) inp) (field pl_Items (\<lambda>s x. x\<lparr>pl_Items := s\<rparr>) out) h)))"

definition PtrSpec_DeepCopyInto_at :: "(PtrSpec, 'c) copier_into" where
  "PtrSpec_DeepCopyInto_at inp out = assign out inp"

definition PtrStatus_DeepCopyInto_at :: "(PtrStatus, 'c) copier_into" where
  "PtrStatus_DeepCopyInto_at inp out = assign out inp"

definition Ptr_DeepCopy_at :: "('m, ('m, 'l, 'x) api_cell) copier_into \<Rightarrow> 'm
    \<Rightarrow> (ref option, ('m, 'l, 'x) api_cell) copier" where
  "Ptr_DeepCopy_at copy_meta m0 =
     DeepCopy_new PtrVar (cell_as is_PtrVar the_ptr) (zero_Ptr m0) (Ptr_DeepCopyInto_at copy_meta)"

definition PtrList_DeepCopy_at :: "('l, ('m, 'l, 'x) api_cell) copier_into
    \<Rightarrow> ('m, ('m, 'l, 'x) api_cell) copier_into \<Rightarrow> 'm \<Rightarrow> 'l \<Rightarrow> (ref option, ('m, 'l, 'x) api_cell) copier" where
  "PtrList_DeepCopy_at copy_list_meta copy_meta m0 l0 =
     DeepCopy_new PtrListVar (cell_as is_PtrListVar the_ptr_list) (zero_PtrList l0)
       (PtrList_DeepCopyInto_at copy_list_meta copy_meta m0)"

definition PtrSpec_DeepCopy_at :: "(ref option, ('m, 'l, 'x) api_cell) copier" where
  "PtrSpec_DeepCopy_at = DeepCopy_new PtrSpecVar (cell_as is_PtrSpecVar the_ptr_spec)
     \<lparr>ps_Host = [], ps_IP = []\<rparr> PtrSpec_DeepCopyInto_at"

definition PtrStatus_DeepCopy_at :: "(ref option, ('m, 'l, 'x) api_cell) copier" where
  "PtrStatus_DeepCopy_at = DeepCopy_new PtrStatusVar (cell_as is_PtrStatusVar the_ptr_status)
     \<lparr>pt_Host = [], pt_IP = []\<rparr> PtrStatus_DeepCopyInto_at"

section \<open>Echo, in its own package\<close>

record pkg_EchoSpec =
  pks_Msg :: string

record pkg_EchoStatus =
  pkt_Msg :: string

record 'm pkg_Echo =
  pk_TypeMeta :: TypeMeta
  pk_ObjectMeta :: 'm
  pk_Spec :: pkg_EchoSpec
  pk_Status :: pkg_EchoStatus

record 'l pkg_EchoList =
  pkl_TypeMeta :: TypeMeta
  pkl_ListMeta :: 'l
  pkl_Items :: "slice option"

definition zero_pkg_Echo :: "'m \<Rightarrow> 'm pkg_Echo" where
  "zero_pkg_Echo m0 = \<lparr>pk_TypeMeta = zero_TypeMeta, pk_ObjectMeta = m0, pk_Spec = \<lparr>pks_Msg = []\<rparr>,
     pk_Status = \<lparr>pkt_Msg = []\<rparr>\<rparr>"

definition zero_pkg_EchoList :: "'l \<Rightarrow> 'l pkg_EchoList" where
  "zero_pkg_EchoList l0 = \<lparr>pkl_TypeMeta = zero_TypeMeta, pkl_ListMeta = l0, pkl_Items = None\<rparr>"

datatype ('m, 'l, 'x) pkg_cell =
    PkgEchoVar (the_pkg_echo: "'m pkg_Echo")
  | PkgEchoSpecVar (the_pkg_spec: pkg_EchoSpec)
  | PkgEchoStatusVar (the_pkg_status: pkg_EchoStatus)
  | PkgEchoListVar (the_pkg_list: "'l pkg_EchoList")
  | PkgEchoArray (the_pkg_echos: "'m pkg_Echo list")
  | PkgMetaCell (the_pkg_meta: 'x)

definition pkg_Echo_DeepCopyInto :: "('m, 'c) copier_into \<Rightarrow> ('m pkg_Echo, 'c) copier_into" where
  "pkg_Echo_DeepCopyInto copy_meta inp out h =
     bnd (assign out inp h) (\<lambda>h.
     bnd (assign (field pk_TypeMeta (\<lambda>t x. x\<lparr>pk_TypeMeta := t\<rparr>) out)
            (field pk_TypeMeta (\<lambda>t x. x\<lparr>pk_TypeMeta := t\<rparr>) inp) h) (\<lambda>h.
     bnd (copy_meta (field pk_ObjectMeta (\<lambda>m x. x\<lparr>pk_ObjectMeta := m\<rparr>) inp)
            (field pk_ObjectMeta (\<lambda>m x. x\<lparr>pk_ObjectMeta := m\<rparr>) out) h) (\<lambda>h.
     bnd (assign (field pk_Spec (\<lambda>s x. x\<lparr>pk_Spec := s\<rparr>) out) (field pk_Spec (\<lambda>s x. x\<lparr>pk_Spec := s\<rparr>) inp) h) (\<lambda>h.
     assign (field pk_Status (\<lambda>t x. x\<lparr>pk_Status := t\<rparr>) out) (field pk_Status (\<lambda>t x. x\<lparr>pk_Status := t\<rparr>) inp) h))))"

definition pkg_EchoList_DeepCopyInto :: "('l, ('m, 'l, 'x) pkg_cell) copier_into
    \<Rightarrow> ('m, ('m, 'l, 'x) pkg_cell) copier_into \<Rightarrow> 'm \<Rightarrow> ('l pkg_EchoList, ('m, 'l, 'x) pkg_cell) copier_into" where
  "pkg_EchoList_DeepCopyInto copy_list_meta copy_meta m0 inp out h =
     bnd (assign out inp h) (\<lambda>h.
     bnd (assign (field pkl_TypeMeta (\<lambda>t x. x\<lparr>pkl_TypeMeta := t\<rparr>) out)
            (field pkl_TypeMeta (\<lambda>t x. x\<lparr>pkl_TypeMeta := t\<rparr>) inp) h) (\<lambda>h.
     bnd (copy_list_meta (field pkl_ListMeta (\<lambda>l x. x\<lparr>pkl_ListMeta := l\<rparr>) inp)
            (field pkl_ListMeta (\<lambda>l x. x\<lparr>pkl_ListMeta := l\<rparr>) out) h) (\<lambda>h.
     items_into PkgEchoArray (cell_as is_PkgEchoArray the_pkg_echos) (zero_pkg_Echo m0) (pkg_Echo_DeepCopyInto copy_meta)
       (field pkl_Items (\<lambda>s x. x\<lparr>pkl_Items := s\<rparr>) inp) (field pkl_Items (\<lambda>s x. x\<lparr>pkl_Items := s\<rparr>) out) h)))"

definition pkg_EchoSpec_DeepCopyInto :: "(pkg_EchoSpec, 'c) copier_into" where
  "pkg_EchoSpec_DeepCopyInto inp out = assign out inp"

definition pkg_EchoStatus_DeepCopyInto :: "(pkg_EchoStatus, 'c) copier_into" where
  "pkg_EchoStatus_DeepCopyInto inp out = assign out inp"

definition pkg_Echo_DeepCopy :: "('m, ('m, 'l, 'x) pkg_cell) copier_into \<Rightarrow> 'm
    \<Rightarrow> (ref option, ('m, 'l, 'x) pkg_cell) copier" where
  "pkg_Echo_DeepCopy copy_meta m0 =
     DeepCopy_new PkgEchoVar (cell_as is_PkgEchoVar the_pkg_echo) (zero_pkg_Echo m0) (pkg_Echo_DeepCopyInto copy_meta)"

definition pkg_EchoList_DeepCopy :: "('l, ('m, 'l, 'x) pkg_cell) copier_into
    \<Rightarrow> ('m, ('m, 'l, 'x) pkg_cell) copier_into \<Rightarrow> 'm \<Rightarrow> 'l \<Rightarrow> (ref option, ('m, 'l, 'x) pkg_cell) copier" where
  "pkg_EchoList_DeepCopy copy_list_meta copy_meta m0 l0 =
     DeepCopy_new PkgEchoListVar (cell_as is_PkgEchoListVar the_pkg_list) (zero_pkg_EchoList l0)
       (pkg_EchoList_DeepCopyInto copy_list_meta copy_meta m0)"

definition pkg_EchoSpec_DeepCopy :: "(ref option, ('m, 'l, 'x) pkg_cell) copier" where
  "pkg_EchoSpec_DeepCopy = DeepCopy_new PkgEchoSpecVar (cell_as is_PkgEchoSpecVar the_pkg_spec)
     \<lparr>pks_Msg = []\<rparr> pkg_EchoSpec_DeepCopyInto"

definition pkg_EchoStatus_DeepCopy :: "(ref option, ('m, 'l, 'x) pkg_cell) copier" where
  "pkg_EchoStatus_DeepCopy = DeepCopy_new PkgEchoStatusVar (cell_as is_PkgEchoStatusVar the_pkg_status)
     \<lparr>pkt_Msg = []\<rparr> pkg_EchoStatus_DeepCopyInto"

text \<open>The interface a copied object is returned in; \<open>NilPkgObject\<close> is the nil interface.\<close>

datatype pkg_Object =
    NilPkgObject
  | PkgEchoObject "ref option"
  | PkgEchoListObject "ref option"

definition pkg_Echo_DeepCopyObject :: "('m, ('m, 'l, 'x) pkg_cell) copier_into \<Rightarrow> 'm
    \<Rightarrow> ref option \<Rightarrow> ('m, 'l, 'x) pkg_cell store \<Rightarrow> (pkg_Object \<times> ('m, 'l, 'x) pkg_cell store) exec" where
  "pkg_Echo_DeepCopyObject copy_meta m0 inp h =
     bnd (pkg_Echo_DeepCopy copy_meta m0 inp h) (\<lambda>(c, h1).
       Inr (if c \<noteq> None then PkgEchoObject c else NilPkgObject, h1))"

definition pkg_EchoList_DeepCopyObject :: "('l, ('m, 'l, 'x) pkg_cell) copier_into
    \<Rightarrow> ('m, ('m, 'l, 'x) pkg_cell) copier_into \<Rightarrow> 'm \<Rightarrow> 'l
    \<Rightarrow> ref option \<Rightarrow> ('m, 'l, 'x) pkg_cell store \<Rightarrow> (pkg_Object \<times> ('m, 'l, 'x) pkg_cell store) exec" where
  "pkg_EchoList_DeepCopyObject copy_list_meta copy_meta m0 l0 inp h =
     bnd (pkg_EchoList_DeepCopy copy_list_meta copy_meta m0 l0 inp h) (\<lambda>(c, h1).
       Inr (if c \<noteq> None then PkgEchoListObject c else NilPkgObject, h1))"

section \<open>The copies are deep\<close>

lemma api_kinds [simp]:
  "kind_ok PtrVar (cell_as is_PtrVar the_ptr)"
  "kind_ok PtrSpecVar (cell_as is_PtrSpecVar the_ptr_spec)"
  "kind_ok PtrStatusVar (cell_as is_PtrStatusVar the_ptr_status)"
  "kind_ok PtrListVar (cell_as is_PtrListVar the_ptr_list)"
  "kind_ok PtrArray (cell_as is_PtrArray the_ptrs)"
  "kind_ok PkgEchoVar (cell_as is_PkgEchoVar the_pkg_echo)"
  "kind_ok PkgEchoSpecVar (cell_as is_PkgEchoSpecVar the_pkg_spec)"
  "kind_ok PkgEchoStatusVar (cell_as is_PkgEchoStatusVar the_pkg_status)"
  "kind_ok PkgEchoListVar (cell_as is_PkgEchoListVar the_pkg_list)"
  "kind_ok PkgEchoArray (cell_as is_PkgEchoArray the_pkg_echos)"
  by (auto simp: kind_ok_def cell_as_def)

definition pkg_Echo_val :: "('c store \<Rightarrow> 'm \<Rightarrow> 'v option) \<Rightarrow> 'c store \<Rightarrow> 'm pkg_Echo
    \<Rightarrow> ((TypeMeta \<times> pkg_EchoSpec \<times> pkg_EchoStatus) \<times> 'v \<times> unit) option" where
  "pkg_Echo_val val_meta =
     two_val val_meta plain_val pk_ObjectMeta (\<lambda>_. ()) (\<lambda>x. (pk_TypeMeta x, pk_Spec x, pk_Status x))"

definition pkg_Echo_own :: "('c store \<Rightarrow> 'm \<Rightarrow> ref set) \<Rightarrow> 'c store \<Rightarrow> 'm pkg_Echo \<Rightarrow> ref set" where
  "pkg_Echo_own own_meta = two_own own_meta plain_own pk_ObjectMeta (\<lambda>_. ())"

definition pkg_EchoList_val where
  "pkg_EchoList_val val_list_meta val_meta =
     two_val val_list_meta (items_val (cell_as is_PkgEchoArray the_pkg_echos) (pkg_Echo_val val_meta))
       pkl_ListMeta pkl_Items pkl_TypeMeta"

definition pkg_EchoList_own where
  "pkg_EchoList_own own_list_meta own_meta =
     two_own own_list_meta (items_own (cell_as is_PkgEchoArray the_pkg_echos) (pkg_Echo_own own_meta))
       pkl_ListMeta pkl_Items"

lemma Ptr_copies_into:
  assumes "copies_into copy_meta val_meta own_meta"
  shows "copies_into (Ptr_DeepCopyInto_at copy_meta) (Ptr_val val_meta) (Ptr_own own_meta)"
  unfolding Ptr_val_def Ptr_own_def Ptr_DeepCopyInto_at_def [abs_def]
  by (rule object_into [OF copies_into_over [OF assms]]) (simp_all add: field_ok_def)

lemma pkg_Echo_copies_into:
  assumes "copies_into copy_meta val_meta own_meta"
  shows "copies_into (pkg_Echo_DeepCopyInto copy_meta) (pkg_Echo_val val_meta) (pkg_Echo_own own_meta)"
  unfolding pkg_Echo_val_def pkg_Echo_own_def pkg_Echo_DeepCopyInto_def [abs_def]
  by (rule object_into [OF copies_into_over [OF assms]]) (simp_all add: field_ok_def)

lemma PtrList_copies_into:
  assumes "copies_into copy_list_meta val_list_meta own_list_meta"
    and "copies_into copy_meta val_meta own_meta"
  shows "copies_into (PtrList_DeepCopyInto_at copy_list_meta copy_meta m0)
    (PtrList_val val_list_meta val_meta) (PtrList_own own_list_meta own_meta)"
  unfolding PtrList_val_def PtrList_own_def PtrList_DeepCopyInto_at_def [abs_def]
  by (rule list_into [OF copies_into_over [OF assms(1)]
        copy_into.items_into_copies [OF copy_into.intro [OF Ptr_copies_into [OF assms(2)]]]])
    (simp_all add: field_ok_def)

lemma pkg_EchoList_copies_into:
  assumes "copies_into copy_list_meta val_list_meta own_list_meta"
    and "copies_into copy_meta val_meta own_meta"
  shows "copies_into (pkg_EchoList_DeepCopyInto copy_list_meta copy_meta m0)
    (pkg_EchoList_val val_list_meta val_meta) (pkg_EchoList_own own_list_meta own_meta)"
  unfolding pkg_EchoList_val_def pkg_EchoList_own_def pkg_EchoList_DeepCopyInto_def [abs_def]
  by (rule list_into [OF copies_into_over [OF assms(1)]
        copy_into.items_into_copies [OF copy_into.intro [OF pkg_Echo_copies_into [OF assms(2)]]]])
    (simp_all add: field_ok_def)

interpretation ptr_spec_at: copy_into PtrSpec_DeepCopyInto_at plain_val plain_own
  by unfold_locales (use assign_copies_into in \<open>simp add: PtrSpec_DeepCopyInto_at_def [abs_def]\<close>)

interpretation ptr_status_at: copy_into PtrStatus_DeepCopyInto_at plain_val plain_own
  by unfold_locales (use assign_copies_into in \<open>simp add: PtrStatus_DeepCopyInto_at_def [abs_def]\<close>)

interpretation pkg_spec: copy_into pkg_EchoSpec_DeepCopyInto plain_val plain_own
  by unfold_locales (use assign_copies_into in \<open>simp add: pkg_EchoSpec_DeepCopyInto_def [abs_def]\<close>)

interpretation pkg_status: copy_into pkg_EchoStatus_DeepCopyInto plain_val plain_own
  by unfold_locales (use assign_copies_into in \<open>simp add: pkg_EchoStatus_DeepCopyInto_def [abs_def]\<close>)

text \<open>Behind pointers, every method keeps the contract of \<open>DeepCopy\<close>.\<close>

lemma plain_pointers_copy_at:
  "copies_deeply PtrSpec_DeepCopy_at (ptr_val (cell_as is_PtrSpecVar the_ptr_spec) plain_val)
     (ptr_own (cell_as is_PtrSpecVar the_ptr_spec) plain_own)"
  "copies_deeply PtrStatus_DeepCopy_at (ptr_val (cell_as is_PtrStatusVar the_ptr_status) plain_val)
     (ptr_own (cell_as is_PtrStatusVar the_ptr_status) plain_own)"
  "copies_deeply pkg_EchoSpec_DeepCopy (ptr_val (cell_as is_PkgEchoSpecVar the_pkg_spec) plain_val)
     (ptr_own (cell_as is_PkgEchoSpecVar the_pkg_spec) plain_own)"
  "copies_deeply pkg_EchoStatus_DeepCopy (ptr_val (cell_as is_PkgEchoStatusVar the_pkg_status) plain_val)
     (ptr_own (cell_as is_PkgEchoStatusVar the_pkg_status) plain_own)"
  unfolding PtrSpec_DeepCopy_at_def PtrStatus_DeepCopy_at_def pkg_EchoSpec_DeepCopy_def pkg_EchoStatus_DeepCopy_def
  by (rule ptr_spec_at.new_copies ptr_status_at.new_copies pkg_spec.new_copies pkg_status.new_copies, simp)+

lemma pointers_copy_at:
  assumes "copies_into copy_list_meta val_list_meta own_list_meta"
    and "copies_into copy_meta val_meta own_meta"
  shows "copies_deeply (Ptr_DeepCopy_at copy_meta m0)
      (ptr_val (cell_as is_PtrVar the_ptr) (Ptr_val val_meta))
      (ptr_own (cell_as is_PtrVar the_ptr) (Ptr_own own_meta))"
    and "copies_deeply (PtrList_DeepCopy_at copy_list_meta copy_meta m0 l0)
      (ptr_val (cell_as is_PtrListVar the_ptr_list) (PtrList_val val_list_meta val_meta))
      (ptr_own (cell_as is_PtrListVar the_ptr_list) (PtrList_own own_list_meta own_meta))"
  unfolding Ptr_DeepCopy_at_def PtrList_DeepCopy_at_def
  by (rule copy_into.new_copies [OF copy_into.intro], rule Ptr_copies_into PtrList_copies_into,
      (rule assms)+, simp)+

lemma pkg_pointers_copy:
  assumes "copies_into copy_list_meta val_list_meta own_list_meta"
    and "copies_into copy_meta val_meta own_meta"
  shows "copies_deeply (pkg_Echo_DeepCopy copy_meta m0)
      (ptr_val (cell_as is_PkgEchoVar the_pkg_echo) (pkg_Echo_val val_meta))
      (ptr_own (cell_as is_PkgEchoVar the_pkg_echo) (pkg_Echo_own own_meta))"
    and "copies_deeply (pkg_EchoList_DeepCopy copy_list_meta copy_meta m0 l0)
      (ptr_val (cell_as is_PkgEchoListVar the_pkg_list) (pkg_EchoList_val val_list_meta val_meta))
      (ptr_own (cell_as is_PkgEchoListVar the_pkg_list) (pkg_EchoList_own own_list_meta own_meta))"
  unfolding pkg_Echo_DeepCopy_def pkg_EchoList_DeepCopy_def
  by (rule copy_into.new_copies [OF copy_into.intro], rule pkg_Echo_copies_into pkg_EchoList_copies_into,
      (rule assms)+, simp)+

section \<open>Properties\<close>

text \<open>
  C34: The mesh package has the output of two generators for the same types. For a list of
  \<open>Ptr\<close> and any two deep copies of the metadata, one that returns its result and one that writes
  it through a pointer, the two \<open>DeepCopy\<close> methods do the same: neither panics, both return nil
  for nil and else a pointer to a list with the contents of the original, in memory that was not
  in use, and leave all other memory as it was.
\<close>

theorem generators_agree:
  fixes h :: "('m, 'l, 'x) api_cell store"
  assumes "copies_deeply copy_list_meta val_list_meta own_list_meta"
    and "copies_deeply copy_meta val_meta own_meta"
    and "copies_into list_meta_into val_list_meta own_list_meta"
    and "copies_into meta_into val_meta own_meta" and "wf_store h"
    and "ptr_val (cell_as is_PtrListVar the_ptr_list) (PtrList_val val_list_meta val_meta) h p = Some v"
    and "val = ptr_val (cell_as is_PtrListVar the_ptr_list) (PtrList_val val_list_meta val_meta)"
    and "own = ptr_own (cell_as is_PtrListVar the_ptr_list) (PtrList_own own_list_meta own_meta)"
  shows "\<exists>q1 h1 q2 h2. PtrList_DeepCopy copy_list_meta copy_meta m0 l0 p h = Inr (q1, h1)
    \<and> PtrList_DeepCopy_at list_meta_into meta_into m0 l0 p h = Inr (q2, h2)
    \<and> val h1 q1 = Some v \<and> val h2 q2 = Some v
    \<and> (q1 = None \<longleftrightarrow> p = None) \<and> (q2 = None \<longleftrightarrow> p = None)
    \<and> own h1 q1 \<inter> dom (cells h) = {} \<and> own h2 q2 \<inter> dom (cells h) = {}
    \<and> cells h \<subseteq>\<^sub>m cells h1 \<and> cells h \<subseteq>\<^sub>m cells h2"
proof -
  have d: "deep_copy (PtrList_DeepCopy copy_list_meta copy_meta m0 l0) val own"
    "deep_copy (PtrList_DeepCopy_at list_meta_into meta_into m0 l0) val own"
    unfolding assms(7,8)
    by (rule deep_copy.intro, rule pointers_copy(4) pointers_copy_at(2), (rule assms)+)+
  have nil: "val k n = Some v \<Longrightarrow> n = None \<longleftrightarrow> v = None" for k n
    by (auto simp: assms(7) ptr_val_def split: option.splits)
  have v: "val h p = Some v" using assms(6,7) by simp
  obtain q1 h1 where c1: "PtrList_DeepCopy copy_list_meta copy_meta m0 l0 p h = Inr (q1, h1)"
    "cells h \<subseteq>\<^sub>m cells h1" "val h1 q1 = Some v" "own h1 q1 \<inter> dom (cells h) = {}"
    by (rule deep_copy.copy_run [OF d(1) assms(5) v])
  obtain q2 h2 where c2: "PtrList_DeepCopy_at list_meta_into meta_into m0 l0 p h = Inr (q2, h2)"
    "cells h \<subseteq>\<^sub>m cells h2" "val h2 q2 = Some v" "own h2 q2 \<inter> dom (cells h) = {}"
    by (rule deep_copy.copy_run [OF d(2) assms(5) v])
  have "q1 = None \<longleftrightarrow> p = None" "q2 = None \<longleftrightarrow> p = None"
    using nil [OF v] nil [OF c1(3)] nil [OF c2(3)] by simp_all
  with c1 c2 show ?thesis by blast
qed

theorem generators_agree_witness:
  "\<exists>q1 h1 q2 h2. PtrList_DeepCopy plain_copy demo_copy_meta None [] (Some 3) demo_store = Inr (q1, h1)
     \<and> PtrList_DeepCopy_at (\<lambda>inp out. assign out inp) (store_copy demo_copy_meta) None [] (Some 3) demo_store
        = Inr (q2, h2)
     \<and> q1 \<noteq> None \<and> q2 \<noteq> None \<and> cells demo_store \<subseteq>\<^sub>m cells h2"
proof -
  have wf: "wf_store demo_store" by (auto simp: wf_store_def demo_store_def)
  have v: "ptr_val (cell_as is_PtrListVar the_ptr_list) (PtrList_val plain_val demo_val_meta)
      demo_store (Some 3) = Some (Some (zero_TypeMeta, [],
        Some [((zero_TypeMeta, \<lparr>ps_Host = [], ps_IP = []\<rparr>, \<lparr>pt_Host = [], pt_IP = []\<rparr>), Some ''labels'', ())]))"
    by code_simp
  from generators_agree [OF plain.contract demo_meta_copies assign_copies_into store_copy_into [OF demo_meta_copies]
      wf v refl refl, of None "[]"]
  show ?thesis by blast
qed

text \<open>
  A list that is copied into itself loses its items: they are as many as before, and all zero.
  (The metadata here is copied by assignment.)
\<close>

lemma Ptr_into_self: "get_at l h = Inr x \<Longrightarrow> loc_ok l
    \<Longrightarrow> Ptr_DeepCopyInto_at (\<lambda>inp out. assign out inp) l l h = Inr h"
proof -
  assume l: "get_at l h = Inr x" "loc_ok l"
  have f: "field_ok p_TypeMeta (\<lambda>t x. x\<lparr>p_TypeMeta := t\<rparr>)" "field_ok p_ObjectMeta (\<lambda>m x. x\<lparr>p_ObjectMeta := m\<rparr>)"
    "field_ok p_Spec (\<lambda>s x. x\<lparr>p_Spec := s\<rparr>)" "field_ok p_Status (\<lambda>t x. x\<lparr>p_Status := t\<rparr>)"
    by (simp_all add: field_ok_def)
  show "Ptr_DeepCopyInto_at (\<lambda>inp out. assign out inp) l l h = Inr h"
    by (simp add: Ptr_DeepCopyInto_at_def assign_self [OF l] f [THEN assign_self_field [OF l]])
qed

lemma PtrList_self_copy_loses_items:
  assumes "wf_store h" and "cells h r = Some (PtrListVar l)" and "pl_Items l = Some s"
    and "loc = var_loc PtrListVar (cell_as is_PtrListVar the_ptr_list) (Some r)"
  shows "\<exists>t h'. PtrList_DeepCopyInto_at (\<lambda>inp out. assign out inp) (\<lambda>inp out. assign out inp) m0 loc loc h = Inr h'
    \<and> cells h' r = Some (PtrListVar (l\<lparr>pl_Items := Some t\<rparr>)) \<and> sl_len t = sl_len s
    \<and> slice_elems (cell_as is_PtrArray the_ptrs) h' t = Some (replicate (sl_len s) (zero_Ptr m0))"
proof -
  let ?items = "field pl_Items (\<lambda>s x. x\<lparr>pl_Items := s\<rparr>) loc"
  obtain a h1 where a: "alloc (PtrArray (replicate (sl_len s) (zero_Ptr m0))) h = (a, h1)" by fastforce
  let ?t = "\<lparr>sl_array = a, sl_off = 0, sl_len = sl_len s, sl_cap = sl_len s\<rparr>"
  have loc: "get_at loc h = Inr l" "loc_ok loc" using assms(2,4) by (simp_all add: get_at_var var_at_def)
  have fl: "field_ok pl_TypeMeta (\<lambda>t x. x\<lparr>pl_TypeMeta := t\<rparr>)" "field_ok pl_ListMeta (\<lambda>l x. x\<lparr>pl_ListMeta := l\<rparr>)"
    by (simp_all add: field_ok_def)
  have f: "field_ok pl_Items (\<lambda>s x. x\<lparr>pl_Items := s\<rparr>)" by (simp add: field_ok_def)
  obtain g where g: "put_at ?items (Some ?t) h1 = Inr g"
    "items_into PtrArray (cell_as is_PtrArray the_ptrs) (zero_Ptr m0)
       (Ptr_DeepCopyInto_at (\<lambda>inp out. assign out inp)) ?items ?items h = Inr g"
    "cells g a = Some (PtrArray (replicate (sl_len s) (zero_Ptr m0)))"
    using items_into_self [where into = "Ptr_DeepCopyInto_at (\<lambda>inp out. assign out inp)",
        OF api_kinds(5) get_at_field [OF loc(1), of pl_Items, unfolded assms(3)]
        loc_ok_field [OF loc(2) f] assms(1) _ a refl] Ptr_into_self by blast
  have "cells h1 r = Some (PtrListVar l)" using map_leD [OF conjunct1 [OF alloc_map_le [OF assms(1) a]] assms(2)] .
  then have "cells g r = Some (PtrListVar (l\<lparr>pl_Items := Some ?t\<rparr>))"
    using g(1) assms(4) by (auto simp: put_at_eq field_def var_loc_def)
  moreover have "PtrList_DeepCopyInto_at (\<lambda>inp out. assign out inp) (\<lambda>inp out. assign out inp) m0 loc loc h = Inr g"
    using g(2) by (simp add: PtrList_DeepCopyInto_at_def assign_self [OF loc] fl [THEN assign_self_field [OF loc]])
  moreover have "slice_elems (cell_as is_PtrArray the_ptrs) g ?t = Some (replicate (sl_len s) (zero_Ptr m0))"
    using g(3) by (simp add: slice_elems_def var_at_def)
  ultimately show ?thesis by (intro exI [of _ ?t] exI [of _ g]) simp
qed

text \<open>The copies of \<open>pkg/apis/echo\<close>, as its users see them.\<close>

lemma pkg_EchoList_DeepCopyObject_spec:
  assumes "copies_into copy_list_meta val_list_meta own_list_meta"
    and "copies_into copy_meta val_meta own_meta" and "wf_store h"
    and "ptr_val (cell_as is_PkgEchoListVar the_pkg_list) (pkg_EchoList_val val_list_meta val_meta) h p = Some v"
  shows "\<exists>obj h'. pkg_EchoList_DeepCopyObject copy_list_meta copy_meta m0 l0 p h = Inr (obj, h')
    \<and> cells h \<subseteq>\<^sub>m cells h'
    \<and> (if p = None then obj = NilPkgObject
       else \<exists>r. obj = PkgEchoListObject (Some r) \<and> cells h r = None
          \<and> ptr_val (cell_as is_PkgEchoListVar the_pkg_list) (pkg_EchoList_val val_list_meta val_meta) h' (Some r) = Some v)"
proof -
  let ?val = "ptr_val (cell_as is_PkgEchoListVar the_pkg_list) (pkg_EchoList_val val_list_meta val_meta)"
  let ?own = "ptr_own (cell_as is_PkgEchoListVar the_pkg_list) (pkg_EchoList_own own_list_meta own_meta)"
  have d: "deep_copy (pkg_EchoList_DeepCopy copy_list_meta copy_meta m0 l0) ?val ?own"
    by (rule deep_copy.intro [OF pkg_pointers_copy(2) [OF assms(1,2)]])
  obtain q h' where c: "pkg_EchoList_DeepCopy copy_list_meta copy_meta m0 l0 p h = Inr (q, h')"
    "cells h \<subseteq>\<^sub>m cells h'" "?val h' q = Some v" "?own h' q \<inter> dom (cells h) = {}"
    by (rule deep_copy.copy_run [OF d assms(3,4)])
  have nil: "?val k n = Some v \<Longrightarrow> n = None \<longleftrightarrow> v = None" for k n
    by (auto simp: ptr_val_def split: option.splits)
  have "q = None \<longleftrightarrow> p = None" using nil [OF assms(4)] nil [OF c(3)] by simp
  moreover have "cells h r = None" if "q = Some r" for r
    using c(4) that by (auto simp: ptr_own_def)
  ultimately show ?thesis
    using c by (auto simp: pkg_EchoList_DeepCopyObject_def)
qed

end
