(* ===== verification/MetricNames.thy ===== *)
theory MetricNames
  imports Filters
begin

text \<open>
  The exported names of \<open>gcp/telemetry.go\<close>: the metrics of Istio with their labels, the labels of the
  resources they are reported for, and the type \<open>Resource\<close>. No operation of the package uses
  them; a caller passes a metric to \<open>ListTimeSeries\<close> or \<open>ListResources\<close>, where it is quoted.
\<close>

section \<open>The names\<close>

definition IstioPrefix :: string where
  "IstioPrefix = ''istio.io/service/client/''"

definition IstioPrefixServer :: string where
  "IstioPrefixServer = ''istio.io/service/server/''"

definition IstioMetrics :: "string list" where
  "IstioMetrics =
     [''request_count'',
      ''roundtrip_latencies'',
      ''connection_close_count'',
      ''connection_open_count'',
      ''received_bytes_count'',
      ''sent_bytes_count'',
      ''request_bytes'',
      ''response_bytes'']"

definition IstioLabels :: "string list" where
  "IstioLabels =
     [''request_protocol'',
      ''service_authentication_policy'',
      ''mesh_uid'',
      ''destination_service_name'',
      ''destination_service_namespace'',
      ''destination_port'',
      ''source_principal'',
      ''source_workload_name'',
      ''source_workload_namespace'',
      ''source_owner'',
      ''destination_principal'',
      ''destination_workload_name'',
      ''destination_workload_namespace'',
      ''destination_owner'',
      ''source_canonical_service_name'',
      ''destination_canonical_service_name'',
      ''source_canonical_service_namespace'',
      ''destination_canonical_service_namespace'',
      ''source_canonical_revision'',
      ''destination_canonical_revision'',
      ''request_operation'',
      ''api_version'',
      ''response_code'',
      ''api_name'']"

definition VMResourceLabels :: "string list" where
  "VMResourceLabels =
     [''project_id'',
      ''instance_id'',
      ''zone'']"

definition PodResourceLabels :: "string list" where
  "PodResourceLabels =
     [''project_id'',
      ''location'',
      ''cluster_name'',
      ''namespace_name'',
      ''pod_name'']"

definition SvcResourceLabels :: "string list" where
  "SvcResourceLabels =
     [''mesh_uid'',
      ''project_id'',
      ''location'',
      ''namespace_name'',
      ''canonical_service_name'',
      ''revision'']"

lemmas istio_names_defs = IstioPrefix_def IstioPrefixServer_def IstioMetrics_def IstioLabels_def
  VMResourceLabels_def PodResourceLabels_def SvcResourceLabels_def

record Resource =
  rs_Type :: string
  rs_Labels :: "(string, string) gomap"

section \<open>The names in a filter\<close>

text \<open>Printable ASCII without quote and backslash is quoted as it is, whatever the Unicode tables say.\<close>

definition quotes_as_is :: "char \<Rightarrow> bool" where
  "quotes_as_is c \<longleftrightarrow> (32 :: nat) \<le> code c \<and> (code c :: nat) < 127 \<and> code c \<noteq> (34 :: nat) \<and> code c \<noteq> (92 :: nat)"

lemma quote_body_as_is: "list_all quotes_as_is s \<Longrightarrow> quote_body printable s = s"
proof (induction s)
  case (Cons c s)
  then have c: "(code c :: nat) < 128" "quotes_as_is c" by (simp_all add: quotes_as_is_def)
  then have "decode_rune (c # s) = (code c, 1)" by (simp add: decode_rune_def)
  moreover have "quote_rune printable (code c) [c] = [c]"
    using c(2) by (simp add: quote_rune_def is_print_def quotes_as_is_def)
  moreover have "code c \<noteq> rune_error" using c(1) by (simp add: rune_error_def)
  ultimately show ?case using Cons by simp
qed simp

lemma quote_as_is: "list_all quotes_as_is s \<Longrightarrow> quote printable s = dquote # s @ [dquote]"
  by (simp add: quote_def quote_body_as_is)

lemma istio_names_quote_as_is:
  "list_all quotes_as_is IstioPrefix" "list_all quotes_as_is IstioPrefixServer"
  "list_all (list_all quotes_as_is) IstioMetrics" "list_all (list_all quotes_as_is) IstioLabels"
  "list_all (list_all quotes_as_is) (VMResourceLabels @ PodResourceLabels @ SvcResourceLabels)"
  by (simp_all add: istio_names_defs quotes_as_is_def)

lemma istio_names_distinct:
  "distinct IstioMetrics" "distinct IstioLabels" "distinct VMResourceLabels" "distinct PodResourceLabels"
  "distinct SvcResourceLabels" "IstioPrefix \<noteq> IstioPrefixServer"
  by (simp_all add: istio_names_defs)

text \<open>
  The label both filters restrict by the namespace is one of those of a pod and of a service, and
  not of a virtual machine: there a filter with a namespace selects nothing.
\<close>

lemma namespace_label:
  "''namespace_name'' \<in> set PodResourceLabels" "''namespace_name'' \<in> set SvcResourceLabels"
  "''namespace_name'' \<notin> set VMResourceLabels"
  by (simp_all add: istio_names_defs)

lemma istio_metric_filter:
  assumes "m \<in> set IstioMetrics" and "p = IstioPrefix \<or> p = IstioPrefixServer"
  shows "time_series_filter printable [] [] (p @ m) [] = ''metric.type = '' @ [dquote] @ p @ m @ [dquote] @ '' ''"
proof -
  have "list_all quotes_as_is (p @ m)"
    using assms istio_names_quote_as_is(1-3) by (auto simp: list_all_iff)
  then show ?thesis by (simp add: time_series_filter_def quote_as_is)
qed

end
