(* ===== verification/Contracts.thy ===== *)
theory Contracts
  imports Goroutines
begin

text \<open>
  Goroutines that do not all promise the same. A contract has a relation \<open>R\<close> the others keep, a
  relation \<open>G\<close> the program itself keeps, and the panics \<open>A\<close> it may end with; the locale
  \<open>contracts\<close> composes the contracts of the goroutines of a pool. With \<open>R = G\<close> and no panic this
  is \<open>guarantees\<close> of theory \<open>Goroutines\<close>. What a program does alone it also does among others that
  leave alone the part of the state it looks at (\<open>looks_at\<close>).
\<close>

section \<open>The contract of a program\<close>

primrec ensures :: "('s \<Rightarrow> 's \<Rightarrow> bool) \<Rightarrow> ('s \<Rightarrow> 's \<Rightarrow> bool) \<Rightarrow> go_panic set \<Rightarrow> ('s, 'r) prog \<Rightarrow> 's
    \<Rightarrow> ('r \<Rightarrow> 's \<Rightarrow> bool) \<Rightarrow> bool" where
  "ensures R G A (Return r) = (\<lambda>s Q. Q r s)"
| "ensures R G A (Panic e) = (\<lambda>s Q. e \<in> A)"
| "ensures R G A (Atomic u c) = (\<lambda>s Q. \<forall>s1. R s s1 \<longrightarrow> G s1 (u s1) \<and> ensures R G A (c s1) (u s1) Q)"

lemma guarantees_ensures: "guarantees R p s Q = ensures R R {} p s Q"
  by (induction p arbitrary: s) simp_all

text \<open>A program all of whose steps keep a relation, from any state.\<close>

primrec steps_keep :: "('s \<Rightarrow> 's \<Rightarrow> bool) \<Rightarrow> ('s, 'r) prog \<Rightarrow> bool" where
  "steps_keep P (Return r) = True"
| "steps_keep P (Panic e) = True"
| "steps_keep P (Atomic u c) = (\<forall>s. P s (u s) \<and> steps_keep P (c s))"

lemma ensures_steps_keep:
  "ensures R G A p s Q \<Longrightarrow> steps_keep P p \<Longrightarrow> ensures R (\<lambda>t t'. G t t' \<and> P t t') A p s Q"
  by (induction p arbitrary: s) auto

lemma steps_keep_any: "steps_keep (\<lambda>_ _. True) p"
  by (induction p) simp_all

lemma steps_keep_statements [simp]:
  "steps_keep P (rd f k) \<longleftrightarrow> (\<forall>s. P s s \<and> steps_keep P (k (f s)))"
  "steps_keep P (wr u p) \<longleftrightarrow> (\<forall>s. P s (u s)) \<and> steps_keep P p"
  by (auto simp: rd_def wr_def)

lemma steps_keep_seq: "steps_keep P p \<Longrightarrow> (\<And>r. steps_keep P (f r)) \<Longrightarrow> steps_keep P (seq p f)"
  by (induction p) auto

lemma steps_keep_focus:
  assumes "steps_keep P' p" and "\<And>t. P t t"
    and "\<And>t s s'. get t = Some s \<Longrightarrow> P' s s' \<Longrightarrow> P t (put s' t)"
  shows "steps_keep P (focus get put p)"
  using assms(1) by (induction p) (auto split: option.split intro: assms(2,3))

text \<open>
  A program that looks only at the part \<open>v\<close> of the state: from two states that agree on it, it goes
  the same way, to states that agree on it.
\<close>

primrec looks_at :: "('s \<Rightarrow> 'v) \<Rightarrow> ('s, 'r) prog \<Rightarrow> bool" where
  "looks_at v (Return r) = True"
| "looks_at v (Panic e) = True"
| "looks_at v (Atomic u c) = (\<forall>s. (\<forall>t. v s = v t \<longrightarrow> v (u s) = v (u t) \<and> c s = c t) \<and> looks_at v (c s))"

lemma looks_at_Atomic:
  "(\<And>s t. v s = v t \<Longrightarrow> v (u s) = v (u t)) \<Longrightarrow> (\<And>s t. v s = v t \<Longrightarrow> c s = c t) \<Longrightarrow> (\<And>s. looks_at v (c s))
    \<Longrightarrow> looks_at v (Atomic u c)"
  unfolding looks_at.simps by blast

lemma looks_at_AtomicD:
  assumes "looks_at v (Atomic u c)"
  shows "v s = v t \<Longrightarrow> v (u s) = v (u t)" and "v s = v t \<Longrightarrow> c s = c t" and "looks_at v (c s)"
  using assms unfolding looks_at.simps by blast+

lemma looks_at_rd: "(\<And>s t. v s = v t \<Longrightarrow> f s = f t) \<Longrightarrow> (\<And>x. looks_at v (k x)) \<Longrightarrow> looks_at v (rd f k)"
  unfolding rd_def by (rule looks_at_Atomic) (assumption, rule arg_cong [where f = k], blast+)

lemma looks_at_wr: "(\<And>s t. v s = v t \<Longrightarrow> v (u s) = v (u t)) \<Longrightarrow> looks_at v p \<Longrightarrow> looks_at v (wr u p)"
  unfolding wr_def by (rule looks_at_Atomic) blast+

lemma looks_at_atomically:
  "(\<And>s t. v s = v t \<Longrightarrow> fst (f s) = fst (f t)) \<Longrightarrow> (\<And>s t. v s = v t \<Longrightarrow> v (snd (f s)) = v (snd (f t)))
    \<Longrightarrow> (\<And>x. looks_at v (k x)) \<Longrightarrow> looks_at v (atomically f k)"
  unfolding atomically_def by (rule looks_at_Atomic) (blast, rule arg_cong [where f = k], blast+)

lemma looks_at_local: "(\<And>x. looks_at v (k x)) \<Longrightarrow> looks_at v (local_exec m k)"
  by (simp add: local_exec_def split: sum.split)

lemma looks_at_seq: "looks_at v p \<Longrightarrow> (\<And>r. looks_at v (f r)) \<Longrightarrow> looks_at v (seq p f)"
proof (induction p)
  case (Atomic u c)
  note step = looks_at_AtomicD [OF Atomic.prems(1)]
  show ?case
    unfolding seq.simps
  proof (rule looks_at_Atomic)
    show "v (u s) = v (u t)" if "v s = v t" for s t using step(1) [OF that] .
    show "seq (c s) f = seq (c t) f" if "v s = v t" for s t using step(2) [OF that] by (rule arg_cong)
    show "looks_at v (seq (c s) f)" for s by (rule Atomic.IH [OF rangeI step(3) Atomic.prems(2)])
  qed
qed simp_all

lemma ensures_alone:
  assumes "ensures R G A p s Q" and "looks_at v p"
    and "\<And>t t'. R' t t' \<Longrightarrow> R t t' \<and> v t = v t'"
    and "alone p s0 = Inr (r, s1)" and "v s = v s0"
  shows "ensures R' G {} p s (\<lambda>r' s'. r' = r \<and> v s' = v s1 \<and> Q r' s')"
  using assms(1,2,4,5)
proof (induction p arbitrary: s s0)
  case (Atomic u c)
  have "G t (u t) \<and> ensures R' G {} (c t) (u t) (\<lambda>r' s'. r' = r \<and> v s' = v s1 \<and> Q r' s')" if "R' s t" for t
  proof -
    have t: "R s t" "v t = v s0" using assms(3) [OF that] Atomic.prems(4) by simp_all
    note step = looks_at_AtomicD [OF Atomic.prems(2)]
    have same: "v (u t) = v (u s0)" "c t = c s0" using step(1,2) [OF t(2)] .
    have "ensures R G A (c t) (u t) Q" "G t (u t)" using Atomic.prems(1) t(1) by simp_all
    moreover have "alone (c t) (u s0) = Inr (r, s1)" using Atomic.prems(3) by (simp add: same(2))
    ultimately show ?thesis using Atomic.IH [OF rangeI _ step(3) _ same(1)] by blast
  qed
  then show ?case by simp
qed simp_all

section \<open>The rules for the statements\<close>

context rely_guarantee
begin

lemma e_rd:
  "(\<And>t. G t t) \<Longrightarrow> (\<And>s1. R s s1 \<Longrightarrow> ensures R G A (k (f s1)) s1 Q) \<Longrightarrow> ensures R G A (rd f k) s Q"
  by (simp add: rd_def)

lemma e_wr:
  "(\<And>s1. R s s1 \<Longrightarrow> G s1 (u s1) \<and> ensures R G A p (u s1) Q) \<Longrightarrow> ensures R G A (wr u p) s Q"
  by (simp add: wr_def)

lemma e_atomically:
  "(\<And>s1 x s2. R s s1 \<Longrightarrow> f s1 = (x, s2) \<Longrightarrow> G s1 s2 \<and> ensures R G A (k x) s2 Q)
    \<Longrightarrow> ensures R G A (atomically f k) s Q"
  by (simp add: atomically_def) (metis prod.collapse)

lemma e_mono:
  assumes "ensures R G A p s Q" and "\<And>t t'. G t t' \<Longrightarrow> R t t'"
    and "\<And>r s'. R s s' \<Longrightarrow> Q r s' \<Longrightarrow> Q' r s'" and "A \<subseteq> A'"
  shows "ensures R G A' p s Q'"
  using assms(1,3)
proof (induction p arbitrary: s)
  case (Atomic u c)
  have "G s1 (u s1) \<and> ensures R G A' (c s1) (u s1) Q'" if "R s s1" for s1
  proof -
    from Atomic.prems(1) that have g: "G s1 (u s1)" "ensures R G A (c s1) (u s1) Q" by simp_all
    have "ensures R G A' (c s1) (u s1) Q'"
      by (rule Atomic.IH [OF rangeI g(2)]) (use Atomic.prems(2) that g(1) assms(2) R_trans in blast)
    with g(1) show ?thesis by blast
  qed
  then show ?case by simp
qed (use assms(4) R_refl in auto)

lemma e_seq:
  assumes "ensures R G A p s Q" and "\<And>t t'. G t t' \<Longrightarrow> R t t'"
    and "\<And>r s'. R s s' \<Longrightarrow> Q r s' \<Longrightarrow> ensures R G A (f r) s' Q'"
  shows "ensures R G A (seq p f) s Q'"
  using assms(1,3)
proof (induction p arbitrary: s)
  case (Atomic u c)
  have "G s1 (u s1) \<and> ensures R G A (seq (c s1) f) (u s1) Q'" if "R s s1" for s1
  proof -
    from Atomic.prems(1) that have g: "G s1 (u s1)" "ensures R G A (c s1) (u s1) Q" by simp_all
    have "ensures R G A (seq (c s1) f) (u s1) Q'"
      by (rule Atomic.IH [OF rangeI g(2)]) (use Atomic.prems(2) that g(1) assms(2) R_trans in blast)
    with g(1) show ?thesis by blast
  qed
  then show ?case by simp
qed (simp_all add: R_refl)

end

text \<open>A program on a part that is always there.\<close>

lemma ensures_focus:
  assumes "\<And>t t'. R t t' \<Longrightarrow> R' (get t) (get t')"
    and "\<And>t s'. G' (get t) s' \<Longrightarrow> G t (put s' t)"
    and "\<And>t s'. get (put s' t) = s'"
    and "ensures R' G' A p (get t) Q"
  shows "ensures R G A (focus (\<lambda>t. Some (get t)) put p) t (\<lambda>r t'. Q r (get t'))"
  using assms(4)
proof (induction p arbitrary: t)
  case (Atomic u c)
  have "G t1 (put (u (get t1)) t1)
      \<and> ensures R G A (focus (\<lambda>t. Some (get t)) put (c (get t1))) (put (u (get t1)) t1) (\<lambda>r t'. Q r (get t'))"
    if "R t t1" for t1
  proof -
    from Atomic.prems assms(1) [OF that] have g: "G' (get t1) (u (get t1))"
      "ensures R' G' A (c (get t1)) (u (get t1)) Q" by simp_all
    with Atomic.IH [OF rangeI, of "get t1" "put (u (get t1)) t1"] show ?thesis
      by (simp add: assms(2,3))
  qed
  then show ?case by simp
qed simp_all

text \<open>Alone, a program keeps its promise as well.\<close>

lemma guarantees_alone: "guarantees R p s Q \<Longrightarrow> (\<And>s. R s s) \<Longrightarrow> alone p s = Inr (r, s') \<Longrightarrow> Q r s'"
  by (induction p arbitrary: s) auto

section \<open>The contracts of a pool\<close>

text \<open>Every goroutine, also one that was not scheduled for a while, still keeps its contract.\<close>

definition kept :: "('i \<Rightarrow> 's \<Rightarrow> 's \<Rightarrow> bool) \<Rightarrow> ('i \<Rightarrow> 's \<Rightarrow> 's \<Rightarrow> bool) \<Rightarrow> ('i \<Rightarrow> go_panic set)
    \<Rightarrow> ('i \<Rightarrow> 'r \<Rightarrow> 's \<Rightarrow> bool) \<Rightarrow> ('i, 's, 'r) pool \<Rightarrow> bool" where
  "kept R G A Q ps \<longleftrightarrow> (\<forall>i. \<exists>s0. R i s0 (snd ps) \<and> ensures (R i) (G i) (A i) (fst ps i) s0 (Q i))"

locale contracts =
  fixes R G :: "'i \<Rightarrow> 's \<Rightarrow> 's \<Rightarrow> bool"
  assumes relies_refl: "R i s s"
    and relies_trans: "R i s1 s2 \<Longrightarrow> R i s2 s3 \<Longrightarrow> R i s1 s3"
    and others_keep: "j \<noteq> i \<Longrightarrow> G j s s' \<Longrightarrow> R i s s'"
begin

lemma kept_start: "(\<And>i. ensures (R i) (G i) (A i) (p i) s (Q i)) \<Longrightarrow> kept R G A Q (p, s)"
  by (auto simp: kept_def intro: relies_refl)

lemma kept_step:
  assumes "kept R G A Q ps"
  shows "kept R G A Q (pool_step i ps) \<and> (snd (pool_step i ps) = snd ps \<or> G i (snd ps) (snd (pool_step i ps)))"
proof (cases "fst ps i")
  case (Atomic u c)
  obtain s0 where s0: "R i s0 (snd ps)" "ensures (R i) (G i) (A i) (fst ps i) s0 (Q i)"
    using assms by (auto simp: kept_def)
  with Atomic have g: "G i (snd ps) (u (snd ps))" "ensures (R i) (G i) (A i) (c (snd ps)) (u (snd ps)) (Q i)"
    by simp_all
  have "\<exists>s0. R j s0 (u (snd ps)) \<and> ensures (R j) (G j) (A j) (((fst ps)(i := c (snd ps))) j) s0 (Q j)" for j
  proof (cases "j = i")
    case True
    with g show ?thesis by (auto intro: exI [of _ "u (snd ps)"] relies_refl)
  next
    case False
    with assms others_keep [OF _ g(1), of j] show ?thesis by (auto simp: kept_def intro: relies_trans)
  qed
  with Atomic g(1) show ?thesis by (simp add: pool_step_def kept_def)
qed (use assms in \<open>simp_all add: pool_step_def\<close>)

lemma reach_kept:
  assumes "pool_reach E ps0 ps" and "kept R G A Q ps0" and "\<And>i s s'. E s s' \<Longrightarrow> R i s s'"
    and "\<And>s. W s s" and "\<And>s1 s2 s3. W s1 s2 \<Longrightarrow> W s2 s3 \<Longrightarrow> W s1 s3"
    and "\<And>i s s'. G i s s' \<Longrightarrow> W s s'" and "\<And>s s'. E s s' \<Longrightarrow> W s s'"
  shows "kept R G A Q ps \<and> W (snd ps0) (snd ps)"
  using assms(1)
proof (induction rule: pool_reach.induct)
  case reach_start
  with assms(2,4) show ?case by simp
next
  case (reach_step ps i)
  with kept_step [of A Q ps i] assms(5,6) show ?case by metis
next
  case (reach_env p s s')
  have "\<exists>s0. R i s0 s' \<and> ensures (R i) (G i) (A i) (p i) s0 (Q i)" for i
  proof -
    obtain s0 where "R i s0 s" "ensures (R i) (G i) (A i) (p i) s0 (Q i)"
      using reach_env.IH by (auto simp: kept_def)
    with assms(3) [OF reach_env.hyps(2), of i] show ?thesis by (blast intro: relies_trans)
  qed
  then have "kept R G A Q (p, s')" by (simp add: kept_def)
  moreover have "W (snd ps0) s'" using reach_env.IH assms(5) assms(7) [OF reach_env.hyps(2)] by auto
  ultimately show ?case by simp
qed

lemma kept_result:
  assumes "kept R G A Q ps"
  shows "fst ps i = Panic e \<Longrightarrow> e \<in> A i"
    and "fst ps i = Return r \<Longrightarrow> \<exists>s0. R i s0 (snd ps) \<and> Q i r s0"
proof -
  obtain s0 where "R i s0 (snd ps)" "ensures (R i) (G i) (A i) (fst ps i) s0 (Q i)"
    using assms by (auto simp: kept_def)
  then show "fst ps i = Panic e \<Longrightarrow> e \<in> A i"
    and "fst ps i = Return r \<Longrightarrow> \<exists>s0. R i s0 (snd ps) \<and> Q i r s0" by auto
qed

end

section \<open>Schedules\<close>

text \<open>Some steps of one program, with nothing in between: from \<open>p\<close> at \<open>s\<close> to \<open>p'\<close> at \<open>s'\<close>.\<close>

inductive goes :: "('s, 'r) prog \<Rightarrow> 's \<Rightarrow> ('s, 'r) prog \<Rightarrow> 's \<Rightarrow> bool" where
  goes_refl: "goes p s p s"
| goes_step: "goes (c s) (u s) p' s' \<Longrightarrow> goes (Atomic u c) s p' s'"

lemma goes_trans: "goes p s p' s' \<Longrightarrow> goes p' s' p'' s'' \<Longrightarrow> goes p s p'' s''"
  by (induction rule: goes.induct) (auto intro: goes_step)

lemma goes_seq: "goes p s p' s' \<Longrightarrow> goes (seq p f) s (seq p' f) s'"
  by (induction rule: goes.induct) (auto intro: goes.intros)

lemma goes_alone: "alone p s = Inr (x, s') \<Longrightarrow> goes p s (Return x) s'"
  by (induction p arbitrary: s) (auto intro: goes.intros)

lemma goes_seq_alone: "alone p s = Inr (x, s') \<Longrightarrow> goes (f x) s' q t \<Longrightarrow> goes (seq p f) s q t"
  using goes_trans [OF goes_seq [OF goes_alone], of p s x s' f q t] by simp

lemma goes_rd: "goes (k (f s)) s q t \<Longrightarrow> goes (rd f k) s q t"
  unfolding rd_def by (rule goes_step)

lemma goes_wr: "goes p (u s) q t \<Longrightarrow> goes (wr u p) s q t"
  unfolding wr_def by (rule goes_step)

lemma goes_atomically: "f s = (x, s') \<Longrightarrow> goes (k x) s' q t \<Longrightarrow> goes (atomically f k) s q t"
  unfolding atomically_def by (rule goes_step) simp

text \<open>A pool can run one goroutine that far.\<close>

lemma goes_run:
  assumes "goes p s p' s'" and "P i = p"
  shows "\<exists>sched. run_pool sched (P, s) = (P(i := p'), s')"
  using assms
proof (induction arbitrary: P rule: goes.induct)
  case (goes_refl p s)
  then show ?case by (intro exI [of _ "[]"]) auto
next
  case (goes_step c s u p' s')
  have "pool_step i (P, s) = (P(i := c s), u s)" using goes_step.prems by (simp add: pool_step_def)
  moreover obtain sched where "run_pool sched (P(i := c s), u s) = (P(i := p'), s')"
    using goes_step.IH [of "P(i := c s)"] by (auto simp only: fun_upd_same fun_upd_upd)
  ultimately show ?case by (intro exI [of _ "i # sched"]) (simp only: run_pool_simps)
qed

lemma goes_run_then:
  assumes "goes (P i) s p s1" and "goes (P j) s1 q s2" and "i \<noteq> j"
  shows "\<exists>sched. run_pool sched (P, s) = (P(i := p, j := q), s2)"
proof -
  obtain sched1 where 1: "run_pool sched1 (P, s) = (P(i := p), s1)"
    using goes_run [OF assms(1), where P = P and i = i] by blast
  have "(P(i := p)) j = P j" using assms(3) by simp
  from goes_run [OF assms(2), where P = "P(i := p)", OF this]
  obtain sched2 where 2: "run_pool sched2 (P(i := p), s1) = (P(i := p, j := q), s2)" by blast
  have "run_pool (sched1 @ sched2) (P, s) = (P(i := p, j := q), s2)"
    by (simp only: run_pool_simps 1 2)
  then show ?thesis by (rule exI)
qed

end
