(* ===== verification/Loaders.thy ===== *)
theory Loaders
  imports Contracts SetThreads
begin

text \<open>
  The loaders of a set, step by step: \<open>LoadKubeConfig\<close> (\<open>kubeconfig.go\<close>), \<open>loadInCluster\<close>
  (\<open>kube.go\<close>), \<open>LoadGKEClusters\<close> and \<open>LoadHubClusters\<close> (\<open>gcp/gke.go\<close>), each access to a field of
  the set or of the module, each new cluster, each call of a Google API, and the two ends of each
  write to the map of clusters being a step. Go's maps are not made for concurrent use, and the
  code takes no lock: an access to the map while a write to it is in progress ends the process
  (\<open>ConcurrentMapAccess\<close>: "fatal error: concurrent map writes", or "concurrent map read and map
  write"). The last section shows that the steps without interruption are the operations.
\<close>

section \<open>The shared state\<close>

record 'w shared_set =
  sh_GKE :: GKE
  sh_K8S :: K8S
  sh_clusters :: clusters
  sh_world :: 'w
  sh_writing :: bool

text \<open>The part the methods of the set and of its clusters work on: everything but the flag of the map.\<close>

definition set_world_of :: "'w shared_set \<Rightarrow> 'w set_world" where
  "set_world_of s = ((sh_GKE s, sh_K8S s, sh_clusters s), sh_world s)"

definition put_set_world :: "'w set_world \<Rightarrow> 'w shared_set \<Rightarrow> 'w shared_set" where
  "put_set_world x s = (case x of ((g, kr, h), w) \<Rightarrow>
     s\<lparr>sh_GKE := g, sh_K8S := kr, sh_clusters := h, sh_world := w\<rparr>)"

definition idle_set :: "'w set_world \<Rightarrow> 'w shared_set" where
  "idle_set x = (case x of ((g, kr, h), w) \<Rightarrow>
     \<lparr>sh_GKE = g, sh_K8S = kr, sh_clusters = h, sh_world = w, sh_writing = False\<rparr>)"

lemma set_world_of_put [simp]: "set_world_of (put_set_world x s) = x"
  by (cases x) (auto simp: set_world_of_def put_set_world_def)

lemma set_world_of_idle [simp]: "set_world_of (idle_set x) = x" and writing_idle [simp]: "\<not> sh_writing (idle_set x)"
  by (cases x; auto simp: set_world_of_def idle_set_def)+

section \<open>The statements\<close>

definition rd_set :: "(K8S \<Rightarrow> 'a) \<Rightarrow> ('a \<Rightarrow> ('w shared_set, 'r) prog) \<Rightarrow> ('w shared_set, 'r) prog" where
  "rd_set f k = rd (\<lambda>s. f (sh_K8S s)) k"

definition set_Default :: "ref \<Rightarrow> ('w shared_set, 'r) prog \<Rightarrow> ('w shared_set, 'r) prog" where
  "set_Default r p = wr (\<lambda>s. s\<lparr>sh_K8S := (sh_K8S s)\<lparr>k8_Default := Some r\<rparr>\<rparr>) p"

definition new_cluster :: "K8SCluster \<Rightarrow> (ref \<Rightarrow> ('w shared_set, 'r) prog) \<Rightarrow> ('w shared_set, 'r) prog" where
  "new_cluster c k = atomically (\<lambda>s. case alloc c (sh_clusters s) of (r, h) \<Rightarrow> (r, s\<lparr>sh_clusters := h\<rparr>)) k"

definition call_api :: "('w \<Rightarrow> 'a \<times> 'w) \<Rightarrow> ('a \<Rightarrow> ('w shared_set, 'r) prog) \<Rightarrow> ('w shared_set, 'r) prog" where
  "call_api f k = atomically (\<lambda>s. case f (sh_world s) of (x, w) \<Rightarrow> (x, s\<lparr>sh_world := w\<rparr>)) k"

text \<open>\<open>kr.ByName[k]\<close>, and \<open>kr.ByName[k] = r\<close>: the write begins, and ends with the entry in the map.\<close>

definition get_name :: "string \<Rightarrow> (ref option \<Rightarrow> ('w shared_set, 'r) prog) \<Rightarrow> ('w shared_set, 'r) prog" where
  "get_name k c = rd (\<lambda>s. if sh_writing s then Inl ConcurrentMapAccess else Inr (map_get (k8_ByName (sh_K8S s)) k))
     (\<lambda>m. local_exec m c)"

definition begin_write :: "'w shared_set \<Rightarrow> unit exec \<times> 'w shared_set" where
  "begin_write s = (case k8_ByName (sh_K8S s) of
       None \<Rightarrow> (Inl NilMapWrite, s)
     | Some f \<Rightarrow> if sh_writing s then (Inl ConcurrentMapAccess, s) else (Inr (), s\<lparr>sh_writing := True\<rparr>))"

definition end_write :: "string \<Rightarrow> ref \<Rightarrow> 'w shared_set \<Rightarrow> 'w shared_set" where
  "end_write k r s = s\<lparr>sh_writing := False,
     sh_K8S := (sh_K8S s)\<lparr>k8_ByName := map_option (\<lambda>f. f(k \<mapsto> r)) (k8_ByName (sh_K8S s))\<rparr>\<rparr>"

definition put_name :: "string \<Rightarrow> ref \<Rightarrow> ('w shared_set, 'r) prog \<Rightarrow> ('w shared_set, 'r) prog" where
  "put_name k r p = atomically begin_write (\<lambda>m. local_exec m (\<lambda>_. wr (end_write k r) p))"

section \<open>LoadKubeConfig\<close>

definition rate_limits_prog :: "rest_config \<Rightarrow> ('w shared_set, rest_config) prog" where
  "rate_limits_prog rc = rd_set k8_QPS (\<lambda>q.
     seq (if f32_pos q then rd_set k8_QPS (\<lambda>q. Return (rc\<lparr>rc_QPS := q\<rparr>)) else Return rc) (\<lambda>rc.
     rd_set k8_Burst (\<lambda>b.
       if 0 < sint b then rd_set k8_Burst (\<lambda>b. Return (rc\<lparr>rc_Burst := b\<rparr>)) else Return rc)))"

text \<open>One turn of the loop over the contexts; \<open>p\<close> is the rest of the loop.\<close>

definition load_context_prog :: "host_env \<Rightarrow> api_config \<Rightarrow> string \<Rightarrow> ('w shared_set, 'r) prog \<Rightarrow> ('w shared_set, 'r) prog" where
  "load_context_prog env cfg k p =
     (case map_get (ac_Contexts cfg) k of
        None \<Rightarrow> p
      | Some cc \<Rightarrow>
          (case ClientConfig env cfg k of
             Inl err \<Rightarrow> (case cc of None \<Rightarrow> Panic NilDeref | Some cluster \<Rightarrow> p)
           | Inr rc \<Rightarrow>
               seq (rate_limits_prog rc) (\<lambda>rc.
               new_cluster (zero_cluster\<lparr>kc_Name := k, kc_Namespace := ContextNamespace env cfg k,
                   kc_RestConfig := Some rc, kc_RawConfig := RawClientConfig k\<rparr>) (\<lambda>r.
               put_name k r (rd_set k8_Default (\<lambda>d.
                 if d = None \<and> k = ac_CurrentContext cfg then set_Default r p else p))))))"

definition LoadKubeConfig_prog :: "host_env \<Rightarrow> string list \<Rightarrow> string \<Rightarrow> ('w shared_set, go_error option) prog" where
  "LoadKubeConfig_prog env order configFile =
     (let f = config_file env configFile in
      case Stat env f of
        Some err \<Rightarrow> Return None
      | None \<Rightarrow>
          (case RawConfig env f of
             Inl err \<Rightarrow> Return (Some err)
           | Inr cfg \<Rightarrow> foldr (load_context_prog env cfg) order (Return None)))"

section \<open>loadInCluster\<close>

definition loadInCluster_prog :: "host_env \<Rightarrow> ('w shared_set, go_error option) prog" where
  "loadInCluster_prog env =
     (case ReadFile env tokenFile of
        Inl err \<Rightarrow> Return None
      | Inr token \<Rightarrow>
     (case NewPool env rootCAFile of
        Some err \<Rightarrow> Return (Some err)
      | None \<Rightarrow>
          new_cluster (incluster_cluster env token) (\<lambda>r.
          put_name (kc_Name (incluster_cluster env token)) r (rd_set k8_Default (\<lambda>d.
            if d = None then set_Default r (Return None) else Return None)))))"

section \<open>LoadGKEClusters\<close>

primrec load_gke_clusters_prog :: "string \<Rightarrow> pb_cluster list \<Rightarrow> ref list \<Rightarrow> ('w shared_set, go_error + ref list) prog" where
  "load_gke_clusters_prog project [] l = Return (Inr l)"
| "load_gke_clusters_prog project (c # cs) l =
     rd sh_GKE (\<lambda>g. local_exec (loadRestsConfig g c) (\<lambda>rc.
     rd sh_GKE (\<lambda>g. let gkk = gke_cluster g project c rc in
     new_cluster gkk (\<lambda>r.
     get_name (kc_Name gkk) (\<lambda>old.
       if old = None then put_name (kc_Name gkk) r (load_gke_clusters_prog project cs (l @ [r]))
       else load_gke_clusters_prog project cs (l @ [r]))))))"

definition LoadGKEClusters_prog :: "'w gcp_api \<Rightarrow> string \<Rightarrow> string \<Rightarrow> ('w shared_set, go_error + ref list) prog" where
  "LoadGKEClusters_prog api configProjectId location =
     rd sh_GKE (\<lambda>g.
       let project = (if configProjectId = [] then ProjectId api g else configProjectId)
       in call_api (new_cluster_manager api (gke_options api g configProjectId)) (\<lambda>res.
          case res of
            Inl err \<Rightarrow> Return (Inl err)
          | Inr cl \<Rightarrow>
              (let location = (if location = [] then ''-'' else location) in
               call_api (list_clusters api cl (''projects/'' @ project @ ''/locations/'' @ location)) (\<lambda>res.
               case res of
                 Inl err \<Rightarrow> Return (Inl err)
               | Inr clusters \<Rightarrow> load_gke_clusters_prog project clusters []))))"

section \<open>LoadHubClusters\<close>

definition ProjectData_prog :: "'w gcp_api \<Rightarrow> ('w shared_set, crm_project option) prog" where
  "ProjectData_prog api = rd (\<lambda>s. g_projectData (sh_GKE s)) (\<lambda>p.
     if p \<noteq> None then rd (\<lambda>s. g_projectData (sh_GKE s)) Return
     else call_api (crm_service api) (\<lambda>err.
       if err \<noteq> None then Return None
       else rd sh_GKE (\<lambda>g.
         let pid = ProjectId api g in
         if pid = [] then Return None
         else call_api (crm_get api pid) (\<lambda>res.
           case res of
             Inl err \<Rightarrow> Return None
           | Inr pdata \<Rightarrow> wr (\<lambda>s. s\<lparr>sh_GKE := (sh_GKE s)\<lparr>g_projectData := Some pdata\<rparr>\<rparr>) (Return (Some pdata))))))"

definition NumericProjectId_prog :: "'w gcp_api \<Rightarrow> ('w shared_set, string) prog" where
  "NumericProjectId_prog api =
     (let n = mds_NumericProjectID api in
      if n \<noteq> [] then Return n
      else seq (ProjectData_prog api) (\<lambda>p.
        Return (case p of None \<Rightarrow> [] | Some pdata \<Rightarrow> itoa (sint (crm_ProjectNumber pdata)))))"

definition hub_member_prog :: "'w gcp_api \<Rightarrow> membership \<Rightarrow> ('w shared_set, ref) prog" where
  "hub_member_prog api nxt =
     (let mna = go_split (mb_Name nxt) ''/'' in
      local_exec (idx mna (length mna - 1)) (\<lambda>mn.
      rd sh_GKE (\<lambda>g.
      let ctxName = ''connectgateway_'' @ ProjectId api g @ ''_global_'' @ mn in
      seq (NumericProjectId_prog api) (\<lambda>num.
      rd sh_GKE (\<lambda>g.
      let curl = ''/v1/projects/'' @ num @ ''/locations/global/gkeMemberships/'' @ mn
      in new_cluster (zero_cluster\<lparr>kc_Name := ctxName, kc_RestConfig := Some (hubConfig g curl ctxName)\<rparr>) (\<lambda>r.
         put_name ctxName r (Return r)))))))"

text \<open>The loop over the iterator, as far as \<open>n\<close> answers: \<open>None\<close> when it would go on.\<close>

primrec hub_loop_prog :: "'w gcp_api \<Rightarrow> hub_iter \<Rightarrow> nat \<Rightarrow> ref list
    \<Rightarrow> ('w shared_set, (go_error + ref list) option) prog" where
  "hub_loop_prog api mr 0 l = Return None"
| "hub_loop_prog api mr (Suc n) l = call_api (next_membership api mr) (\<lambda>res.
     case res of
       Inl err \<Rightarrow> Return (Some (if err = IteratorDone then Inr l else Inl err))
     | Inr nxt \<Rightarrow> seq (hub_member_prog api nxt) (\<lambda>r. hub_loop_prog api mr n (l @ [r])))"

definition LoadHubClusters_prog :: "'w gcp_api \<Rightarrow> nat \<Rightarrow> string \<Rightarrow> ('w shared_set, (go_error + ref list) option) prog" where
  "LoadHubClusters_prog api n configProjectId =
     rd sh_GKE (\<lambda>g. call_api (new_hub_client api (gke_options api g configProjectId)) (\<lambda>res.
       case res of
         Inl err \<Rightarrow> Return (Some (Inl err))
       | Inr mc \<Rightarrow> rd sh_GKE (\<lambda>g.
           let project = (if configProjectId = [] then ProjectId api g else configProjectId)
           in call_api (list_memberships api mc (''projects/'' @ project @ ''/locations/-'')) (\<lambda>mr.
              hub_loop_prog api mr n []))))"

section \<open>The steps without interruption\<close>

lemma alone_set_statements [simp]:
  "alone (rd_set f c) s = alone (c (f (sh_K8S s))) s"
  "alone (set_Default r p) s = alone p (s\<lparr>sh_K8S := (sh_K8S s)\<lparr>k8_Default := Some r\<rparr>\<rparr>)"
  "alone (new_cluster x k) s = (case alloc x (sh_clusters s) of (r, h) \<Rightarrow> alone (k r) (s\<lparr>sh_clusters := h\<rparr>))"
  "alone (call_api g b) s = (case g (sh_world s) of (a, w) \<Rightarrow> alone (b a) (s\<lparr>sh_world := w\<rparr>))"
  "\<not> sh_writing s \<Longrightarrow> alone (get_name n d) s = alone (d (map_get (k8_ByName (sh_K8S s)) n)) s"
  by (simp_all add: rd_set_def set_Default_def new_cluster_def call_api_def get_name_def split: prod.split)

lemma alone_put_name [simp]:
  assumes "\<not> sh_writing s"
  shows "alone (put_name k r p) s
    = bnd (map_put (k8_ByName (sh_K8S s)) k r) (\<lambda>m. alone p (s\<lparr>sh_K8S := (sh_K8S s)\<lparr>k8_ByName := m\<rparr>\<rparr>))"
  using assms
  by (cases s; cases "k8_ByName (sh_K8S s)") (auto simp: put_name_def begin_write_def end_write_def)

lemma alone_rate_limits [simp]: "alone (rate_limits_prog rc) s = Inr (rate_limits (sh_K8S s) rc, s)"
  by (simp add: rate_limits_prog_def rate_limits_def Let_def)

lemma alone_load_context:
  assumes "\<not> sh_writing s"
  shows "alone (load_context_prog env cfg k p) s
    = bnd (load_context env cfg k (sh_K8S s, sh_clusters s)) (\<lambda>(kr, h). alone p (s\<lparr>sh_K8S := kr, sh_clusters := h\<rparr>))"
  using assms
  by (cases s) (auto simp: load_context_prog_def load_context_def context_cluster_def Let_def bnd_assoc
      split: option.split sum.split prod.split intro!: bnd_cong)

lemma alone_load_contexts:
  assumes "\<not> sh_writing s"
  shows "alone (foldr (load_context_prog env cfg) order p) s
    = bnd (loopM (load_context env cfg) order (sh_K8S s, sh_clusters s)) (\<lambda>(kr, h).
        alone p (s\<lparr>sh_K8S := kr, sh_clusters := h\<rparr>))"
  using assms
proof (induction order arbitrary: s)
  case (Cons k ks)
  then show ?case
    by (cases "load_context env cfg k (sh_K8S s, sh_clusters s)")
      (auto simp: alone_load_context)
qed simp

lemma alone_LoadKubeConfig:
  assumes "\<not> sh_writing s"
  shows "alone (LoadKubeConfig_prog env order f) s
    = bnd (LoadKubeConfig env order f (sh_K8S s, sh_clusters s)) (\<lambda>(err, kr, h).
        Inr (err, s\<lparr>sh_K8S := kr, sh_clusters := h\<rparr>))"
  using assms
  by (cases s) (auto simp: LoadKubeConfig_prog_def LoadKubeConfig_def Let_def alone_load_contexts bnd_assoc
      split: option.split sum.split prod.split intro!: bnd_cong)

lemma alone_loadInCluster:
  assumes "\<not> sh_writing s"
  shows "alone (loadInCluster_prog env) s
    = bnd (loadInCluster env (sh_K8S s, sh_clusters s)) (\<lambda>(err, kr, h).
        Inr (err, s\<lparr>sh_K8S := kr, sh_clusters := h\<rparr>))"
  using assms
  by (cases s) (auto simp: loadInCluster_prog_def loadInCluster_def Let_def bnd_assoc
      split: option.split sum.split prod.split intro!: bnd_cong)

lemma alone_load_gke_cluster:
  assumes "\<not> sh_writing s"
  shows "alone (load_gke_clusters_prog project (c # cs) l) s
    = bnd (load_gke_cluster (sh_GKE s) project c (l, sh_K8S s, sh_clusters s)) (\<lambda>(l, kr, h).
        alone (load_gke_clusters_prog project cs l) (s\<lparr>sh_K8S := kr, sh_clusters := h\<rparr>))"
  using assms
  by (cases s) (auto simp: load_gke_cluster_def Let_def bnd_assoc split: prod.split intro!: bnd_cong)

lemma alone_load_gke_clusters:
  assumes "\<not> sh_writing s"
  shows "alone (load_gke_clusters_prog project cs l) s
    = bnd (loopM (load_gke_cluster (sh_GKE s) project) cs (l, sh_K8S s, sh_clusters s)) (\<lambda>(l, kr, h).
        Inr (Inr l, s\<lparr>sh_K8S := kr, sh_clusters := h\<rparr>))"
  using assms
proof (induction cs arbitrary: s l)
  case (Cons c cs)
  then show ?case
    unfolding alone_load_gke_cluster [OF Cons.prems]
    by (cases "load_gke_cluster (sh_GKE s) project c (l, sh_K8S s, sh_clusters s)") auto
qed simp

lemma alone_LoadGKEClusters:
  assumes "\<not> sh_writing s"
  shows "alone (LoadGKEClusters_prog api p loc) s
    = bnd (LoadGKEClusters api p loc (sh_GKE s, sh_K8S s, sh_clusters s) (sh_world s)) (\<lambda>(res, (g, kr, h), w).
        Inr (res, s\<lparr>sh_GKE := g, sh_K8S := kr, sh_clusters := h, sh_world := w\<rparr>))"
  using assms
  by (cases s) (auto simp: LoadGKEClusters_prog_def LoadGKEClusters_def Let_def alone_load_gke_clusters bnd_assoc
      split: sum.split prod.split intro!: bnd_cong)

lemma alone_NumericProjectId [simp]:
  "alone (NumericProjectId_prog api) s
    = (case NumericProjectId api (sh_GKE s) (sh_world s) of (num, g, w) \<Rightarrow> Inr (num, s\<lparr>sh_GKE := g, sh_world := w\<rparr>))"
  by (cases s) (auto simp: NumericProjectId_prog_def NumericProjectId_def NumericProjectIdResourceManager_def
      ProjectData_prog_def ProjectData_def Let_def split: option.split sum.split prod.split)

lemma alone_hub_member:
  assumes "\<not> sh_writing s"
  shows "alone (hub_member_prog api nxt) s
    = bnd (hub_member api nxt (sh_GKE s, sh_K8S s, sh_clusters s) (sh_world s)) (\<lambda>(r, (g, kr, h), w).
        Inr (r, s\<lparr>sh_GKE := g, sh_K8S := kr, sh_clusters := h, sh_world := w\<rparr>))"
  using assms
  by (cases s) (auto simp: hub_member_prog_def hub_member_def Let_def ProjectId_def bnd_assoc
      split: prod.split intro!: bnd_cong)

text \<open>The loop over the iterator returns if and only if some number of answers is enough.\<close>

lemma hub_loop_steps:
  assumes "\<not> sh_writing s"
    and "alone (hub_loop_prog api mr n l) s = Inr (Some res, s')"
  shows "hub_loop api mr l (sh_GKE s, sh_K8S s, sh_clusters s) (sh_world s)
    = Some (Inr (res, (sh_GKE s', sh_K8S s', sh_clusters s'), sh_world s')) \<and> \<not> sh_writing s'"
  using assms
proof (induction n arbitrary: l s)
  case (Suc n)
  obtain x w1 where x: "next_membership api mr (sh_world s) = (x, w1)" by fastforce
  show ?case
  proof (cases x)
    case (Inl err)
    with x Suc.prems show ?thesis by (auto simp: hub_loop.simps [of api mr l])
  next
    case (Inr nxt)
    let ?s = "s\<lparr>sh_world := w1\<rparr>"
    from Suc.prems x Inr obtain r s1 where m: "alone (hub_member_prog api nxt) ?s = Inr (r, s1)"
      and rest: "alone (hub_loop_prog api mr n (l @ [r])) s1 = Inr (Some res, s')"
      by (auto elim!: bnd_InrE)
    from m alone_hub_member [of ?s api nxt] Suc.prems(1) have hub:
      "hub_member api nxt (sh_GKE s, sh_K8S s, sh_clusters s) w1
        = Inr (r, (sh_GKE s1, sh_K8S s1, sh_clusters s1), sh_world s1)" "\<not> sh_writing s1"
      by (auto elim!: bnd_InrE)
    from Suc.IH [OF hub(2) rest] x Inr hub(1) show ?thesis by (simp add: hub_loop.simps [of api mr l])
  qed
qed simp

lemma hub_loop_enough:
  fixes api :: "'w gcp_api"
  assumes "hub_loop api mr l st w = Some y"
  shows "\<exists>n. \<forall>s. \<not> sh_writing s \<longrightarrow> (sh_GKE s, sh_K8S s, sh_clusters s) = st \<longrightarrow> sh_world s = w
    \<longrightarrow> alone (hub_loop_prog api mr n l) s
      = bnd y (\<lambda>(res, (g, kr, h), w'). Inr (Some res, s\<lparr>sh_GKE := g, sh_K8S := kr, sh_clusters := h, sh_world := w'\<rparr>))"
    (is "\<exists>n. ?steps n api mr l st w y")
proof (rule hub_loop.raw_induct [OF _ assms, where P = "\<lambda>api mr l st w y. \<exists>n. ?steps n api mr l st w y"])
  fix f and api :: "'w gcp_api" and mr l st w y
  assume IH: "\<And>api mr l st w y. f api mr l st w = Some y \<Longrightarrow> \<exists>n. ?steps n api mr l st w y"
    and step: "(case next_membership api mr w of
          (Inl err, w1) \<Rightarrow>
            if err = IteratorDone then Some (Inr (Inr l, st, w1)) else Some (Inr (Inl err, st, w1))
        | (Inr nxt, w1) \<Rightarrow>
            (case hub_member api nxt st w1 of
               Inl p \<Rightarrow> Some (Inl p)
             | Inr res \<Rightarrow> (case res of (r, st', w2) \<Rightarrow> f api mr (l @ [r]) st' w2))) = Some y"
  obtain x w1 where x: "next_membership api mr w = (x, w1)" by fastforce
  show "\<exists>n. ?steps n api mr l st w y"
  proof (cases x)
    case (Inl err)
    with x step have "?steps (Suc 0) api mr l st w y" by (auto split: if_splits)
    then show ?thesis by (rule exI)
  next
    case (Inr nxt)
    show ?thesis
    proof (cases "hub_member api nxt st w1")
      case p: (Inl p)
      with x Inr step have "?steps (Suc 0) api mr l st w y"
        by (auto simp: alone_hub_member)
      then show ?thesis by (rule exI)
    next
      case res: (Inr res)
      obtain r st' w2 where r: "res = (r, st', w2)" by (metis prod.exhaust)
      with x Inr res step have "f api mr (l @ [r]) st' w2 = Some y" by simp
      from IH [OF this] obtain n where n: "?steps n api mr (l @ [r]) st' w2 y" ..
      have "?steps (Suc n) api mr l st w y"
      proof (intro allI impI)
        fix s :: "'w shared_set"
        assume s: "\<not> sh_writing s" "(sh_GKE s, sh_K8S s, sh_clusters s) = st" "sh_world s = w"
        obtain g kr h where st': "st' = (g, kr, h)" by (metis prod.exhaust)
        let ?s = "s\<lparr>sh_GKE := g, sh_K8S := kr, sh_clusters := h, sh_world := w2\<rparr>"
        have "alone (hub_loop_prog api mr (Suc n) l) s = alone (hub_loop_prog api mr n (l @ [r])) ?s"
          using s x Inr res r st' by (cases s) (simp add: alone_hub_member)
        also have "\<dots> = bnd y (\<lambda>(res, (g, kr, h), w'). Inr (Some res,
            ?s\<lparr>sh_GKE := g, sh_K8S := kr, sh_clusters := h, sh_world := w'\<rparr>))"
          using n [rule_format, of ?s] s(1) st' by simp
        finally show "alone (hub_loop_prog api mr (Suc n) l) s = bnd y (\<lambda>(res, (g, kr, h), w').
            Inr (Some res, s\<lparr>sh_GKE := g, sh_K8S := kr, sh_clusters := h, sh_world := w'\<rparr>))" by (cases s) simp
      qed
      then show ?thesis by (rule exI)
    qed
  qed
qed

lemma LoadHubClusters_steps:
  assumes "\<not> sh_writing s"
  shows "(\<exists>n. alone (LoadHubClusters_prog api n p) s = Inr (Some res, s'))
    \<longleftrightarrow> LoadHubClusters api p (sh_GKE s, sh_K8S s, sh_clusters s) (sh_world s)
        = Some (Inr (res, (sh_GKE s', sh_K8S s', sh_clusters s'), sh_world s')) \<and> \<not> sh_writing s'"
proof -
  let ?opts = "gke_options api (sh_GKE s) p"
  let ?parent = "''projects/'' @ (if p = [] then ProjectId api (sh_GKE s) else p) @ ''/locations/-''"
  obtain x w1 where x: "new_hub_client api ?opts (sh_world s) = (x, w1)" by fastforce
  show ?thesis
  proof (cases x)
    case (Inl err)
    with x assms show ?thesis
      by (cases s; cases s') (auto simp: LoadHubClusters_prog_def LoadHubClusters_def)
  next
    case (Inr mc)
    obtain mr w2 where mr: "list_memberships api mc ?parent w1 = (mr, w2)" by fastforce
    let ?s = "s\<lparr>sh_world := w2\<rparr>"
    have prog: "alone (LoadHubClusters_prog api n p) s = alone (hub_loop_prog api mr n []) ?s" for n
      using x Inr mr by (simp add: LoadHubClusters_prog_def Let_def cong: if_cong split del: if_split)
    have big: "LoadHubClusters api p (sh_GKE s, sh_K8S s, sh_clusters s) (sh_world s)
        = hub_loop api mr [] (sh_GKE ?s, sh_K8S ?s, sh_clusters ?s) (sh_world ?s)"
      using x Inr mr by (simp add: LoadHubClusters_def Let_def cong: if_cong split del: if_split)
    show ?thesis (is "?steps \<longleftrightarrow> ?returns")
    proof
      assume ?steps
      with prog obtain n where "alone (hub_loop_prog api mr n []) ?s = Inr (Some res, s')" by auto
      from hub_loop_steps [OF _ this] assms big show ?returns by simp
    next
      assume ret: ?returns
      with big have "hub_loop api mr [] (sh_GKE ?s, sh_K8S ?s, sh_clusters ?s) (sh_world ?s)
        = Some (Inr (res, (sh_GKE s', sh_K8S s', sh_clusters s'), sh_world s'))" by simp
      from hub_loop_enough [OF this] obtain n where n: "\<not> sh_writing t \<Longrightarrow> (sh_GKE t, sh_K8S t, sh_clusters t) = (sh_GKE ?s, sh_K8S ?s, sh_clusters ?s)
        \<Longrightarrow> sh_world t = sh_world ?s \<Longrightarrow> alone (hub_loop_prog api mr n []) t = Inr (Some res, t\<lparr>sh_GKE := sh_GKE s',
            sh_K8S := sh_K8S s', sh_clusters := sh_clusters s', sh_world := sh_world s'\<rparr>)" for t :: "'a shared_set"
        by auto
      have "alone (hub_loop_prog api mr n []) ?s
        = Inr (Some res, ?s\<lparr>sh_GKE := sh_GKE s', sh_K8S := sh_K8S s', sh_clusters := sh_clusters s', sh_world := sh_world s'\<rparr>)"
        by (rule n) (use assms in simp_all)
      also have "?s\<lparr>sh_GKE := sh_GKE s', sh_K8S := sh_K8S s', sh_clusters := sh_clusters s', sh_world := sh_world s'\<rparr> = s'"
        using assms ret by (cases s; cases s') simp
      finally show ?steps using prog by (intro exI [of _ n]) simp
    qed
  qed
qed

text \<open>
  Run without interruption from a set whose map is not being written, the steps of each loader
  are the operation: the same result or the same panic and the same set, with no write left in
  progress. For the hub, whose loop may never end, the steps return for some number of answers if
  and only if the operation returns.
\<close>

lemma load_steps_equal_load:
  "alone (LoadKubeConfig_prog env order f) (idle_set ((g, st), w))
      = bnd (LoadKubeConfig env order f st) (\<lambda>(err, st'). Inr (err, idle_set ((g, st'), w)))
    \<and> alone (loadInCluster_prog env) (idle_set ((g, st), w))
      = bnd (loadInCluster env st) (\<lambda>(err, st'). Inr (err, idle_set ((g, st'), w)))
    \<and> alone (LoadGKEClusters_prog api p loc) (idle_set ((g, st), w))
      = bnd (LoadGKEClusters api p loc (g, st) w) (\<lambda>(res, st', w'). Inr (res, idle_set (st', w')))
    \<and> ((\<exists>n. alone (LoadHubClusters_prog api n p) (idle_set ((g, st), w)) = Inr (Some l, idle_set ((g', st'), w')))
      \<longleftrightarrow> LoadHubClusters api p (g, st) w = Some (Inr (l, (g', st'), w')))"
proof (intro conjI)
  obtain kr h where st: "st = (kr, h)" by (cases st)
  let ?s = "idle_set ((g, st), w)"
  note s = st idle_set_def
  show "alone (LoadKubeConfig_prog env order f) ?s
      = bnd (LoadKubeConfig env order f st) (\<lambda>(err, st'). Inr (err, idle_set ((g, st'), w)))"
    using alone_LoadKubeConfig [OF writing_idle [of "((g, st), w)"]] by (simp add: s split_def)
  show "alone (loadInCluster_prog env) ?s
      = bnd (loadInCluster env st) (\<lambda>(err, st'). Inr (err, idle_set ((g, st'), w)))"
    using alone_loadInCluster [OF writing_idle [of "((g, st), w)"]] by (simp add: s split_def)
  show "alone (LoadGKEClusters_prog api p loc) ?s
      = bnd (LoadGKEClusters api p loc (g, st) w) (\<lambda>(res, st', w'). Inr (res, idle_set (st', w')))"
    using alone_LoadGKEClusters [OF writing_idle [of "((g, st), w)"]] by (simp add: s split_def)
  show "(\<exists>n. alone (LoadHubClusters_prog api n p) ?s = Inr (Some l, idle_set ((g', st'), w')))
      \<longleftrightarrow> LoadHubClusters api p (g, st) w = Some (Inr (l, (g', st'), w'))"
    using LoadHubClusters_steps [OF writing_idle [of "((g, st), w)"]] by (cases st') (simp add: s)
qed

end
