(* ===== verification/LoadThreads.thy ===== *)
theory LoadThreads
  imports Loaders
begin

text \<open>
  Loaders among requests: any number of goroutines load a kubeconfig, the cluster of the pod, the
  clusters of GKE or of the hub into a set that others authenticate with, all step by step. What
  every step keeps is the order \<open>grows\<close> of theory \<open>Lifecycle\<close>; a single loader, besides, does what it
  does alone. The last two sections show what two loaders can do to each other.
\<close>

section \<open>What every step keeps\<close>

definition guarded_rely :: "'w k8s_api \<Rightarrow> 'w shared_set \<Rightarrow> 'w shared_set \<Rightarrow> bool" where
  "guarded_rely api s s' \<longleftrightarrow> set_rely api (set_world_of s) (set_world_of s')"

interpretation gr: rely_guarantee "guarded_rely api" for api
  by unfold_locales (auto simp: guarded_rely_def intro: sr.R_refl sr.R_trans)

lemma guarded_rely_eq:
  "guarded_rely api s s' \<longleftrightarrow> grows (cluster_rely api) (sh_K8S s, sh_clusters s) (sh_K8S s', sh_clusters s')"
  by (simp add: guarded_rely_def set_rely_def set_world_of_def)

text \<open>A set the loaders can write to, that has its default; and a pointer into it.\<close>

definition loadable :: "'w shared_set \<Rightarrow> bool" where
  "loadable s \<longleftrightarrow> set_ok (sh_K8S s, sh_clusters s) \<and> k8_Default (sh_K8S s) \<noteq> None"

definition live :: "ref \<Rightarrow> 'w shared_set \<Rightarrow> bool" where
  "live r s \<longleftrightarrow> cells (sh_clusters s) r \<noteq> None"

lemma loadable_stable: "loadable s \<Longrightarrow> guarded_rely api s s' \<Longrightarrow> loadable s'"
  by (auto simp: loadable_def guarded_rely_eq grows_def)

lemma live_stable: "live r s \<Longrightarrow> guarded_rely api s s' \<Longrightarrow> live r s'"
  by (auto simp: live_def guarded_rely_eq grows_def h_grows_def)

abbreviation loads :: "'w k8s_api \<Rightarrow> go_panic set \<Rightarrow> ('w shared_set, 'r) prog \<Rightarrow> 'w shared_set \<Rightarrow> bool" where
  "loads api A p s \<equiv> ensures (guarded_rely api) (guarded_rely api) A p s (\<lambda>_ _. True)"

lemma loads_rd: "(\<And>s1. guarded_rely api s s1 \<Longrightarrow> loads api A (k (f s1)) s1) \<Longrightarrow> loads api A (rd f k) s"
  by (rule gr.e_rd [OF gr.R_refl])

lemma loads_rd_set: "(\<And>s1. guarded_rely api s s1 \<Longrightarrow> loads api A (k (f (sh_K8S s1))) s1) \<Longrightarrow> loads api A (rd_set f k) s"
  unfolding rd_set_def by (rule loads_rd)

lemma loads_seq:
  "loads api A p s \<Longrightarrow> (\<And>x s1. guarded_rely api s s1 \<Longrightarrow> loads api A (f x) s1) \<Longrightarrow> loads api A (seq p f) s"
  by (rule gr.e_seq)

lemma loads_call:
  assumes "\<And>s1 x. guarded_rely api s s1 \<Longrightarrow> loads api A (k x) s1"
  shows "loads api A (call_api f k) s"
  unfolding call_api_def
proof (rule gr.e_atomically)
  fix s1 x s2
  assume "guarded_rely api s s1" "(case f (sh_world s1) of (x, w) \<Rightarrow> (x, s1\<lparr>sh_world := w\<rparr>)) = (x, s2)"
  then have "guarded_rely api s1 s2" "guarded_rely api s s2"
    by (auto simp: guarded_rely_eq split: prod.splits)
  with assms show "guarded_rely api s1 s2 \<and> loads api A (k x) s2" by blast
qed

lemma loads_new_cluster:
  assumes "\<And>s1 r. guarded_rely api s s1 \<Longrightarrow> live r s1 \<Longrightarrow> loads api A (k r) s1"
  shows "loads api A (new_cluster c k) s"
  unfolding new_cluster_def
proof (rule gr.e_atomically)
  fix s1 r s2
  assume s1: "guarded_rely api s s1" "(case alloc c (sh_clusters s1) of (r, h) \<Rightarrow> (r, s1\<lparr>sh_clusters := h\<rparr>)) = (r, s2)"
  then obtain h where h: "alloc c (sh_clusters s1) = (r, h)" "s2 = s1\<lparr>sh_clusters := h\<rparr>"
    by (auto split: prod.splits)
  have "guarded_rely api s1 s2" and "live r s2"
    using clc.alloc_grows [OF h(1)] h(2) by (auto simp: guarded_rely_eq live_def intro: clc.grows_heap)
  with assms s1(1) gr.R_trans show "guarded_rely api s1 s2 \<and> loads api A (k r) s2" by metis
qed

lemma loads_get_name:
  assumes "ConcurrentMapAccess \<in> A" and "\<And>s1 x. guarded_rely api s s1 \<Longrightarrow> loads api A (k x) s1"
  shows "loads api A (get_name n k) s"
  unfolding get_name_def by (rule loads_rd) (use assms in \<open>simp add: local_exec_def\<close>)

lemma loads_put_name:
  assumes "ConcurrentMapAccess \<in> A" and "loadable s" and "live r s"
    and "\<And>s1. guarded_rely api s s1 \<Longrightarrow> loads api A p s1"
  shows "loads api A (put_name n r p) s"
  unfolding put_name_def
proof (rule gr.e_atomically)
  fix s1 m s2
  assume s1: "guarded_rely api s s1" "begin_write s1 = (m, s2)"
  have ok: "loadable s1" "live r s1" using loadable_stable [OF assms(2) s1(1)] live_stable [OF assms(3) s1(1)] .
  then obtain f where f: "k8_ByName (sh_K8S s1) = Some f" by (auto simp: loadable_def set_ok_def)
  have s2: "guarded_rely api s1 s2" using s1(2) f by (auto simp: begin_write_def guarded_rely_eq split: if_splits)
  have end_rely: "guarded_rely api s3 (end_write n r s3)" if "guarded_rely api s2 s3" for s3
  proof -
    have "loadable s3" "live r s3"
      using loadable_stable [OF loadable_stable [OF ok(1) s2] that] live_stable [OF live_stable [OF ok(2) s2] that] .
    then show ?thesis
      by (auto simp: guarded_rely_eq end_write_def loadable_def live_def set_ok_def grows_def settings_def split: if_splits)
  qed
  have go_on: "loads api A (wr (end_write n r) p) s2"
  proof (rule gr.e_wr, rule conjI)
    fix s3
    assume s3: "guarded_rely api s2 s3"
    then show "guarded_rely api s3 (end_write n r s3)" by (rule end_rely)
    have "guarded_rely api s (end_write n r s3)"
      using gr.R_trans [OF gr.R_trans [OF gr.R_trans [OF s1(1) s2] s3] end_rely [OF s3]] .
    then show "loads api A p (end_write n r s3)" by (rule assms(4))
  qed
  have "loads api A (local_exec m (\<lambda>_. wr (end_write n r) p)) s2"
    using s1(2) f assms(1) go_on by (auto simp: begin_write_def local_exec_def split: if_splits)
  with s2 show "guarded_rely api s1 s2 \<and> loads api A (local_exec m (\<lambda>_. wr (end_write n r) p)) s2" ..
qed

section \<open>The loaders keep it\<close>

lemma loads_rate_limits: "loads api A (rate_limits_prog rc) s"
  unfolding rate_limits_prog_def
  by (rule loads_rd_set, rule loads_seq; (intro loads_rd_set)?; simp add: loads_rd_set)

lemma loads_contexts:
  assumes "ConcurrentMapAccess \<in> A" and "contexts_ok env cfg \<or> NilDeref \<in> A" and "loadable s"
  shows "loads api A (foldr (load_context_prog env cfg) order (Return None) :: ('w shared_set, go_error option) prog) s"
  using assms(3)
proof (induction order arbitrary: s)
  case (Cons k ks)
  let ?p = "foldr (load_context_prog env cfg) ks (Return None) :: ('w shared_set, go_error option) prog"
  have rest: "loads api A ?p s1" if "guarded_rely api s s1" for s1
    by (rule Cons.IH [OF loadable_stable [OF Cons.prems that]])
  show ?case
  proof (cases "map_get (ac_Contexts cfg) k")
    case None
    with rest [OF gr.R_refl] show ?thesis by (simp add: load_context_prog_def [of env cfg k])
  next
    case (Some cc)
    show ?thesis
    proof (cases "ClientConfig env cfg k")
      case (Inl err)
      with Some rest [OF gr.R_refl] assms(2) show ?thesis
        by (auto simp: load_context_prog_def [of env cfg k] contexts_ok_def split: option.split)
    next
      case (Inr rc)
      have default: "loads api A (rd_set k8_Default (\<lambda>d.
          if d = None \<and> k = ac_CurrentContext cfg then set_Default r ?p else ?p)) s1"
        if s1: "guarded_rely api s s1" for s1 r
      proof (rule loads_rd_set)
        fix s2
        assume s2: "guarded_rely api s1 s2"
        have s2: "guarded_rely api s s2" using gr.R_trans [OF s1 s2] .
        have "k8_Default (sh_K8S s2) \<noteq> None"
          using loadable_stable [OF Cons.prems s2] by (simp add: loadable_def)
        with rest [OF s2] show "loads api A (if k8_Default (sh_K8S s2) = None \<and> k = ac_CurrentContext cfg
            then set_Default r ?p else ?p) s2" by auto
      qed
      have "loads api A (new_cluster (c rc) (\<lambda>r. put_name k r (rd_set k8_Default (\<lambda>d.
          if d = None \<and> k = ac_CurrentContext cfg then set_Default r ?p else ?p)))) s1"
        if s1: "guarded_rely api s s1" for s1 c rc
      proof (rule loads_new_cluster)
        fix s2 r
        assume "guarded_rely api s1 s2" and r: "live r s2"
        then have s2: "guarded_rely api s s2" using gr.R_trans [OF s1] by blast
        show "loads api A (put_name k r (rd_set k8_Default (\<lambda>d.
          if d = None \<and> k = ac_CurrentContext cfg then set_Default r ?p else ?p))) s2"
          by (rule loads_put_name [OF assms(1) loadable_stable [OF Cons.prems s2] r])
            (rule default [OF gr.R_trans [OF s2]])
      qed
      with Some Inr show ?thesis
        by (simp add: load_context_prog_def [of env cfg k]) (rule loads_seq [OF loads_rate_limits])
    qed
  qed
qed simp

lemma loads_LoadKubeConfig:
  assumes "ConcurrentMapAccess \<in> A" and "loadable s"
    and "(\<forall>cfg. RawConfig env (config_file env f) = Inr cfg \<longrightarrow> contexts_ok env cfg) \<or> NilDeref \<in> A"
  shows "loads api A (LoadKubeConfig_prog env order f) s"
  using assms(3)
  by (auto simp: LoadKubeConfig_prog_def Let_def split: option.split sum.split
      intro: loads_contexts [OF assms(1) _ assms(2)])

lemma loads_loadInCluster:
  fixes s :: "'w shared_set"
  assumes "ConcurrentMapAccess \<in> A" and "loadable s"
  shows "loads api A (loadInCluster_prog env) s"
proof -
  have "loads api A (new_cluster c (\<lambda>r. put_name n r (rd_set k8_Default (\<lambda>d.
      if d = None then set_Default r (Return None) else (Return None :: ('w shared_set, go_error option) prog))))) s" for c n
  proof (rule loads_new_cluster)
    fix s1 r
    assume s1: "guarded_rely api s s1" and r: "live r s1"
    show "loads api A (put_name n r (rd_set k8_Default (\<lambda>d.
      if d = None then set_Default r (Return None) else Return None))) s1"
    proof (rule loads_put_name [OF assms(1) loadable_stable [OF assms(2) s1] r], rule loads_rd_set)
      fix s2 s3
      assume "guarded_rely api s1 s2" "guarded_rely api s2 s3"
      then have "loadable s3" using loadable_stable [OF assms(2)] s1 gr.R_trans by blast
      then show "loads api A (if k8_Default (sh_K8S s3) = None then set_Default r (Return None) else Return None) s3"
        by (auto simp: loadable_def)
    qed
  qed
  then show ?thesis by (simp add: loadInCluster_prog_def split: option.split sum.split)
qed

lemma loads_gke_clusters:
  assumes "ConcurrentMapAccess \<in> A" and "(\<forall>c \<in> set cs. pb_ClusterCaCertificate c \<noteq> None) \<or> NilDeref \<in> A"
    and "loadable s"
  shows "loads api A (load_gke_clusters_prog project cs l) s"
  using assms(2,3)
proof (induction cs arbitrary: s l)
  case (Cons c cs)
  have rest: "loads api A (load_gke_clusters_prog project cs l) s1" if "guarded_rely api s s1" for s1 l
    by (rule Cons.IH [OF _ loadable_stable [OF Cons.prems(2) that]]) (use Cons.prems(1) in auto)
  have register: "loads api A (new_cluster gkk (\<lambda>r. get_name n (\<lambda>old.
       if old = None then put_name n r (load_gke_clusters_prog project cs (l @ [r]))
       else load_gke_clusters_prog project cs (l @ [r])))) s1" if s1: "guarded_rely api s s1" for s1 gkk n
  proof (rule loads_new_cluster, rule loads_get_name [OF assms(1)])
    fix s2 s3 r and old :: "ref option"
    assume "guarded_rely api s1 s2" "live r s2" "guarded_rely api s2 s3"
    then have s3: "guarded_rely api s s3" "live r s3" using s1 gr.R_trans live_stable by blast+
    have "loads api A (put_name n r (load_gke_clusters_prog project cs (l @ [r]))) s3"
      by (rule loads_put_name [OF assms(1) loadable_stable [OF Cons.prems(2) s3(1)] s3(2)])
        (rule rest [OF gr.R_trans [OF s3(1)]])
    with rest [OF s3(1)] show "loads api A (if old = None then put_name n r (load_gke_clusters_prog project cs (l @ [r]))
       else load_gke_clusters_prog project cs (l @ [r])) s3" by simp
  qed
  show ?case
    unfolding load_gke_clusters_prog.simps
  proof (rule loads_rd)
    fix s1 :: "'a shared_set"
    assume s1: "guarded_rely api s s1"
    let ?reg = "\<lambda>rc. rd sh_GKE (\<lambda>g. let gkk = gke_cluster g project c rc in
     new_cluster gkk (\<lambda>r. get_name (kc_Name gkk) (\<lambda>old.
       if old = None then put_name (kc_Name gkk) r (load_gke_clusters_prog project cs (l @ [r]))
       else load_gke_clusters_prog project cs (l @ [r]))))"
    have "loads api A (?reg rc) s1" for rc
      unfolding Let_def by (rule loads_rd, rule register, rule gr.R_trans [OF s1])
    then show "loads api A (local_exec (loadRestsConfig (sh_GKE s1) c) ?reg) s1"
      using Cons.prems(1) by (auto simp: local_exec_def loadRestsConfig_def split: option.split)
  qed
qed simp

text \<open>Every answer of the GKE API has the certificate of each of its clusters.\<close>

definition answers_ok :: "'w gcp_api \<Rightarrow> bool" where
  "answers_ok api \<longleftrightarrow> (\<forall>cl parent w cs w'. list_clusters api cl parent w = (Inr cs, w')
     \<longrightarrow> (\<forall>c \<in> set cs. pb_ClusterCaCertificate c \<noteq> None))"

lemma loads_call_answer:
  assumes "\<And>s1 x w. f (sh_world s1) = (x, w) \<Longrightarrow> guarded_rely api s (s1\<lparr>sh_world := w\<rparr>) \<Longrightarrow> loads api A (k x) (s1\<lparr>sh_world := w\<rparr>)"
  shows "loads api A (call_api f k) s"
  unfolding call_api_def
proof (rule gr.e_atomically)
  fix s1 x s2
  assume s1: "guarded_rely api s s1" "(case f (sh_world s1) of (x, w) \<Rightarrow> (x, s1\<lparr>sh_world := w\<rparr>)) = (x, s2)"
  then obtain w where w: "f (sh_world s1) = (x, w)" "s2 = s1\<lparr>sh_world := w\<rparr>" by (auto split: prod.splits)
  then have "guarded_rely api s1 s2" "guarded_rely api s s2" using s1(1) by (simp_all add: guarded_rely_eq)
  with assms [OF w(1)] w(2) show "guarded_rely api s1 s2 \<and> loads api A (k x) s2" by simp
qed

lemma loads_LoadGKEClusters:
  assumes "ConcurrentMapAccess \<in> A" and "loadable s" and "answers_ok api \<or> NilDeref \<in> A"
  shows "loads kapi A (LoadGKEClusters_prog api p loc) s"
  unfolding LoadGKEClusters_prog_def Let_def
proof (rule loads_rd, rule loads_call)
  fix s1 s2 and res :: "go_error + gke_client" and project :: string
  assume "guarded_rely kapi s s1" "guarded_rely kapi s1 s2"
  then have s2: "guarded_rely kapi s s2" by (rule gr.R_trans)
  have "loads kapi A (call_api (list_clusters api cl parent) (\<lambda>res. case res of
      Inl err \<Rightarrow> Return (Inl err) | Inr clusters \<Rightarrow> load_gke_clusters_prog project clusters [])) s2"
    for cl parent project
  proof (rule loads_call_answer)
    fix s3 :: "'a shared_set" and x w
    assume x: "list_clusters api cl parent (sh_world s3) = (x, w)" and s3: "guarded_rely kapi s2 (s3\<lparr>sh_world := w\<rparr>)"
    have "loadable (s3\<lparr>sh_world := w\<rparr>)" using loadable_stable [OF assms(2) gr.R_trans [OF s2 s3]] .
    moreover have "(\<forall>c \<in> set cs. pb_ClusterCaCertificate c \<noteq> None) \<or> NilDeref \<in> A" if "x = Inr cs" for cs
      using assms(3) x that unfolding answers_ok_def by blast
    ultimately show "loads kapi A (case x of Inl err \<Rightarrow> Return (Inl err)
        | Inr clusters \<Rightarrow> load_gke_clusters_prog project clusters []) (s3\<lparr>sh_world := w\<rparr>)"
      by (cases x) (simp_all add: loads_gke_clusters [OF assms(1)])
  qed
  then show "loads kapi A (case res of
            Inl err \<Rightarrow> Return (Inl err)
          | Inr cl \<Rightarrow> call_api (list_clusters api cl (''projects/'' @
                (if p = [] then ProjectId api (sh_GKE s1) else p) @ ''/locations/'' @
                (if loc = [] then ''-'' else loc))) (\<lambda>res.
               case res of Inl err \<Rightarrow> Return (Inl err)
               | Inr clusters \<Rightarrow> load_gke_clusters_prog (if p = [] then ProjectId api (sh_GKE s1) else p) clusters [])) s2"
    by (cases res) simp_all
qed

lemma loads_NumericProjectId: "loads kapi A (NumericProjectId_prog api) s"
proof -
  have store: "loads kapi A (wr (\<lambda>s. s\<lparr>sh_GKE := (sh_GKE s)\<lparr>g_projectData := Some x\<rparr>\<rparr>) (Return y)) s1" for s1 x y
    by (rule gr.e_wr) (simp add: guarded_rely_eq)
  have "loads kapi A (call_api (crm_service api) (\<lambda>err.
       if err \<noteq> None then Return None
       else rd sh_GKE (\<lambda>g. if ProjectId api g = [] then Return None
         else call_api (crm_get api (ProjectId api g)) (\<lambda>res. case res of
             Inl err \<Rightarrow> Return None
           | Inr pdata \<Rightarrow> wr (\<lambda>s. s\<lparr>sh_GKE := (sh_GKE s)\<lparr>g_projectData := Some pdata\<rparr>\<rparr>) (Return (Some pdata)))))) s1" for s1
    by (rule loads_call, simp add: ProjectId_def)
      (intro impI loads_rd; simp; intro impI loads_call; simp add: store split: sum.split)
  then have "loads kapi A (ProjectData_prog api) s"
    unfolding ProjectData_prog_def Let_def by (intro loads_rd) (simp add: loads_rd)
  then show ?thesis
    unfolding NumericProjectId_prog_def Let_def by (simp add: loads_seq)
qed

lemma loads_hub_member:
  assumes "ConcurrentMapAccess \<in> A" and "loadable s"
  shows "loads kapi A (hub_member_prog api nxt) s"
proof -
  have reg: "loads kapi A (new_cluster c (\<lambda>r. put_name n r (Return r))) s1" if s1: "guarded_rely kapi s s1" for s1 c n
    by (rule loads_new_cluster, rule loads_put_name [OF assms(1)])
      (use loadable_stable [OF assms(2) gr.R_trans [OF s1]] in simp_all)
  have num: "loads kapi A (seq (NumericProjectId_prog api) (\<lambda>num. rd sh_GKE (\<lambda>g.
      new_cluster (c num g) (\<lambda>r. put_name n r (Return r))))) s1" if s1: "guarded_rely kapi s s1" for s1 c n
    by (rule loads_seq [OF loads_NumericProjectId], rule loads_rd, rule reg) (metis s1 gr.R_trans)
  have "idx (go_split x y) (length (go_split x y) - 1) \<noteq> Inl e" for x y e
    using go_split_not_Nil [of x y] by (simp add: idx_def)
  then show ?thesis
    unfolding hub_member_prog_def Let_def
    by (auto simp: local_exec_def intro!: loads_rd num split: sum.split)
qed

lemma loads_hub_loop:
  assumes "ConcurrentMapAccess \<in> A" and "loadable s"
  shows "loads kapi A (hub_loop_prog api mr n l) s"
  using assms(2)
proof (induction n arbitrary: s l)
  case (Suc n)
  show ?case
    unfolding hub_loop_prog.simps
  proof (rule loads_call)
    fix s1 and x :: "go_error + membership"
    assume s1: "guarded_rely kapi s s1"
    have "loads kapi A (seq (hub_member_prog api nxt) (\<lambda>r. hub_loop_prog api mr n (l @ [r]))) s1" for nxt
      by (rule loads_seq [OF loads_hub_member [OF assms(1) loadable_stable [OF Suc.prems s1]]], rule Suc.IH)
        (rule loadable_stable [OF loadable_stable [OF Suc.prems s1]])
    then show "loads kapi A (case x of Inl err \<Rightarrow> Return (Some (if err = IteratorDone then Inr l else Inl err))
      | Inr nxt \<Rightarrow> seq (hub_member_prog api nxt) (\<lambda>r. hub_loop_prog api mr n (l @ [r]))) s1"
      by (cases x) simp_all
  qed
qed simp

lemma loads_LoadHubClusters:
  assumes "ConcurrentMapAccess \<in> A" and "loadable s"
  shows "loads kapi A (LoadHubClusters_prog api n p) s"
  unfolding LoadHubClusters_prog_def Let_def
proof (rule loads_rd, rule loads_call)
  fix s1 s2 and res :: "go_error + hub_client"
  assume "guarded_rely kapi s s1" "guarded_rely kapi s1 s2"
  then have s2: "guarded_rely kapi s s2" by (rule gr.R_trans)
  have "loads kapi A (rd sh_GKE (\<lambda>g. call_api (list_memberships api mc (parent g)) (\<lambda>mr. hub_loop_prog api mr n []))) s2"
    for mc parent
    by (rule loads_rd, rule loads_call, rule loads_hub_loop [OF assms(1)])
      (metis loadable_stable [OF assms(2)] s2 gr.R_trans)
  then show "loads kapi A (case res of Inl err \<Rightarrow> Return (Some (Inl err))
      | Inr mc \<Rightarrow> rd sh_GKE (\<lambda>g. call_api (list_memberships api mc (''projects/'' @
          (if p = [] then ProjectId api g else p) @ ''/locations/-'')) (\<lambda>mr. hub_loop_prog api mr n []))) s2"
    by (cases res) simp_all
qed

section \<open>Loaders and requests\<close>

datatype loader = FromKubeConfig "string list" string | FromCluster | FromGKE string string | FromHub nat string

datatype loaded = Loaded "go_error option" | LoadedClusters "(go_error + ref list) option"

fun load_prog :: "host_env \<Rightarrow> 'w gcp_api \<Rightarrow> loader \<Rightarrow> ('w shared_set, loaded) prog" where
  "load_prog env api (FromKubeConfig order f) = seq (LoadKubeConfig_prog env order f) (\<lambda>err. Return (Loaded err))"
| "load_prog env api FromCluster = seq (loadInCluster_prog env) (\<lambda>err. Return (Loaded err))"
| "load_prog env api (FromGKE p loc) = seq (LoadGKEClusters_prog api p loc) (\<lambda>res. Return (LoadedClusters (Some res)))"
| "load_prog env api (FromHub n p) = seq (LoadHubClusters_prog api n p) (\<lambda>res. Return (LoadedClusters res))"

text \<open>What a loader reads has none of the nil pointers it would follow.\<close>

fun loader_ok :: "host_env \<Rightarrow> 'w gcp_api \<Rightarrow> loader \<Rightarrow> bool" where
  "loader_ok env api (FromKubeConfig order f) \<longleftrightarrow>
     (\<forall>cfg. RawConfig env (config_file env f) = Inr cfg \<longrightarrow> contexts_ok env cfg)"
| "loader_ok env api (FromGKE p loc) \<longleftrightarrow> answers_ok api"
| "loader_ok env api _ \<longleftrightarrow> True"

text \<open>The panics a loader may end with.\<close>

definition load_panics :: "host_env \<Rightarrow> 'w gcp_api \<Rightarrow> loader \<Rightarrow> go_panic set" where
  "load_panics env api L = insert ConcurrentMapAccess (if loader_ok env api L then {} else {NilDeref})"

lemma loads_load_prog: "loadable s \<Longrightarrow> loads kapi (load_panics env api L) (load_prog env api L) s"
  by (cases L)
    (auto simp: load_panics_def intro!: loads_seq [of kapi _ _ s] loads_LoadKubeConfig loads_loadInCluster
      loads_LoadGKEClusters loads_LoadHubClusters)

text \<open>The token source of the requests is the set; a request and a loader are goroutines over the round tripper.\<close>

definition set_source :: "'w k8s_api \<Rightarrow> ('w shared_set, string \<times> go_error option) prog" where
  "set_source api = focus (\<lambda>s. Some (set_world_of s)) put_set_world (K8S_GetToken_prog api [])"

datatype job = Request | Load loader
datatype outcome = Answered "go_error + string" | LoadResult loaded

fun job_prog :: "host_env \<Rightarrow> 'w k8s_api \<Rightarrow> 'w gcp_api \<Rightarrow> job \<Rightarrow> ('w shared_set shared_rt, outcome) prog" where
  "job_prog env kapi api Request = seq (RoundTrip_prog (set_source kapi)) (\<lambda>r. Return (Answered r))"
| "job_prog env kapi api (Load L) =
     focus (\<lambda>s. Some (sr_source s)) (\<lambda>t s. s\<lparr>sr_source := t\<rparr>) (seq (load_prog env api L) (\<lambda>x. Return (LoadResult x)))"

text \<open>What else happens to the set: methods of any cluster run.\<close>

definition method_step :: "'w k8s_api \<Rightarrow> 'w shared_set \<Rightarrow> 'w shared_set \<Rightarrow> bool" where
  "method_step kapi s s' \<longleftrightarrow> (\<exists>c p a w' h'. via (cluster_method kapi c (sh_world s)) p (sh_clusters s) = Inr ((a, w'), h')
     \<and> s' = s\<lparr>sh_clusters := h', sh_world := w'\<rparr>)"

lemma method_step_rely: "method_step kapi s s' \<Longrightarrow> guarded_rely kapi s s'"
  unfolding method_step_def guarded_rely_eq
  by (elim exE conjE, simp, rule clc.grows_heap) (erule clc.via_grows, erule method_rely)

interpretation gs: shared_source "guarded_rely api" "set_source api" "\<lambda>s. default_serves api c ns ksa r (set_world_of s)"
    "\<lambda>tok. token_asked api c ns ksa [] (tok, None)" for api :: "'w k8s_api" and c ns ksa r
proof
  fix t t' :: "'w shared_set"
  assume "default_serves api c ns ksa r (set_world_of t)" and "guarded_rely api t t'"
  then show "default_serves api c ns ksa r (set_world_of t')"
    unfolding guarded_rely_def by (rule default_serves_stable)
next
  fix t :: "'w shared_set"
  assume "default_serves api c ns ksa r (set_world_of t)"
  then have g: "guarantees (set_rely api) (K8S_GetToken_prog api []) (set_world_of t)
      (\<lambda>(tok, err) _. if err = None then token_asked api c ns ksa [] (tok, None) else tok = [])"
    by (rule ss.src_keeps)
  show "guarantees (guarded_rely api) (set_source api) t
      (\<lambda>(tok, err) _. if err = None then token_asked api c ns ksa [] (tok, None) else tok = [])"
    unfolding set_source_def
  proof (rule gr.g_mono, rule guarantees_focus [where ok = "\<lambda>_. True" and R' = "set_rely api", OF _ _ _ _ _ _ g])
    fix t :: "'w shared_set" and s x'
    assume "Some (set_world_of t) = Some s" "set_rely api s x'"
    then show "guarded_rely api t (put_set_world x' t) \<and> Some (set_world_of (put_set_world x' t)) = Some x'"
      by (simp add: guarded_rely_def)
  qed (auto simp: guarded_rely_def)
qed

abbreviation rt_keeps :: "'w k8s_api \<Rightarrow> clientset \<Rightarrow> string \<Rightarrow> string \<Rightarrow> 'w shared_set shared_rt \<Rightarrow> 'w shared_set shared_rt \<Rightarrow> bool" where
  "rt_keeps api c ns ksa \<equiv> rt_rely (guarded_rely api) (\<lambda>tok. token_asked api c ns ksa [] (tok, None))"

definition serving :: "'w k8s_api \<Rightarrow> clientset \<Rightarrow> string \<Rightarrow> string \<Rightarrow> ref \<Rightarrow> 'w shared_set shared_rt \<Rightarrow> bool" where
  "serving api c ns ksa r s \<longleftrightarrow> default_serves api c ns ksa r (set_world_of (sr_source s))
     \<and> rt_ok (\<lambda>tok. token_asked api c ns ksa [] (tok, None)) s"

lemma rt_keeps_refl: "rt_keeps api c ns ksa s s" and rt_keeps_trans:
  "rt_keeps api c ns ksa s1 s2 \<Longrightarrow> rt_keeps api c ns ksa s2 s3 \<Longrightarrow> rt_keeps api c ns ksa s1 s3"
  by (rule gs.rt.R_refl) (rule gs.rt.R_trans)

lemma serving_stable: "serving api c ns ksa r s \<Longrightarrow> rt_keeps api c ns ksa s s' \<Longrightarrow> serving api c ns ksa r s'"
  unfolding serving_def using gs.rt_relyD(1,2) by blast

lemma serving_loadable: "serving api c ns ksa r s \<Longrightarrow> loadable (sr_source s)"
  by (auto simp: serving_def default_serves_def loadable_def set_world_of_def)

lemma serving_new: "default_serves api c ns ksa r (set_world_of t) \<Longrightarrow> 0 \<le> now \<Longrightarrow> serving api c ns ksa r (new_rt now t)"
  by (simp add: serving_def new_rt_def rt_ok_def)

lemma rt_env_keeps: "rt_env (method_step api) s s' \<Longrightarrow> rt_keeps api c ns ksa s s'"
  by (auto simp: rt_env_def rt_rely_def rt_ok_def sendable_def gr.R_refl dest: method_step_rely)

lemma source_keeps: "guarded_rely api (sr_source s) t \<Longrightarrow> rt_keeps api c ns ksa s (s\<lparr>sr_source := t\<rparr>)"
  by (simp add: rt_rely_def rt_ok_def sendable_def)

text \<open>What a goroutine ends with.\<close>

fun outcome_ok :: "(string \<Rightarrow> bool) \<Rightarrow> outcome \<Rightarrow> 't shared_rt \<Rightarrow> bool" where
  "outcome_ok issued (Answered (Inr tok)) s \<longleftrightarrow> issued tok \<or> tok = [] \<and> 0 < sr_failures s"
| "outcome_ok issued _ s \<longleftrightarrow> True"

fun job_panics :: "host_env \<Rightarrow> 'w gcp_api \<Rightarrow> job \<Rightarrow> go_panic set" where
  "job_panics env api Request = {}"
| "job_panics env api (Load L) = load_panics env api L"

lemma request_keeps:
  assumes "serving kapi c ns ksa r s"
  shows "ensures (rt_keeps kapi c ns ksa) (rt_keeps kapi c ns ksa) {} (job_prog env kapi api Request) s
    (outcome_ok (\<lambda>tok. token_asked kapi c ns ksa [] (tok, None)))"
proof -
  have "guarantees (rt_keeps kapi c ns ksa) (RoundTrip_prog (set_source kapi)) s
      (\<lambda>x s'. \<forall>tok. x = Inr tok \<longrightarrow> token_asked kapi c ns ksa [] (tok, None) \<or> tok = [] \<and> 0 < sr_failures s')"
    by (rule gs.g_RoundTrip [of kapi c ns ksa r s]) (use assms in \<open>simp_all add: serving_def\<close>)
  then show ?thesis
    unfolding guarantees_ensures job_prog.simps
  proof (rule gs.rt.e_seq)
    fix x :: "go_error + string" and s' :: "'a shared_set shared_rt"
    assume "\<forall>tok. x = Inr tok \<longrightarrow> token_asked kapi c ns ksa [] (tok, None) \<or> tok = [] \<and> 0 < sr_failures s'"
    then show "ensures (rt_keeps kapi c ns ksa) (rt_keeps kapi c ns ksa) {} (Return (Answered x)) s'
        (outcome_ok (\<lambda>tok. token_asked kapi c ns ksa [] (tok, None)))"
      by (cases x) simp_all
  qed
qed

lemma job_keeps:
  assumes "serving kapi c ns ksa r s"
  shows "ensures (rt_keeps kapi c ns ksa) (rt_keeps kapi c ns ksa) (job_panics env api j) (job_prog env kapi api j) s
    (outcome_ok (\<lambda>tok. token_asked kapi c ns ksa [] (tok, None)))"
proof (cases j)
  case Request
  with request_keeps [OF assms] show ?thesis by simp
next
  case (Load L)
  let ?R = "guarded_rely kapi" and ?A = "load_panics env api L" and ?Q = "\<lambda>x _. \<exists>y. x = LoadResult y"
  have "ensures ?R ?R ?A (seq (load_prog env api L) (\<lambda>x. Return (LoadResult x))) (sr_source s) ?Q"
    by (rule gr.e_seq [OF loads_load_prog [OF serving_loadable [OF assms]]]) simp_all
  then have "ensures (rt_keeps kapi c ns ksa) (rt_keeps kapi c ns ksa) ?A (job_prog env kapi api (Load L)) s ?Q"
    unfolding job_prog.simps
    by (rule ensures_focus [rotated -1]) (auto simp: rt_rely_def rt_ok_def sendable_def)
  then show ?thesis
    unfolding Load job_panics.simps by (rule gs.rt.e_mono) auto
qed

interpretation everyone: contracts "\<lambda>_. rt_keeps api c ns ksa" "\<lambda>_. rt_keeps api c ns ksa" for api :: "'w k8s_api" and c ns ksa
  by unfold_locales (auto intro: rt_keeps_refl rt_keeps_trans)

text \<open>
  C6: Any number of goroutines load kubeconfigs, the cluster of the pod, and the clusters of GKE and
  of the hub into a set that has its default, while any number of others send requests that
  authenticate with it; all their steps interleave, methods of any cluster run and time passes.
  The requests never panic, what they send is a token of the default cluster, or empty after a failed
  fetch, and the set stays well formed with the same default. A loader can fail in two ways
  only: the race on the map of clusters, which no lock guards, and a nil pointer in what it was
  given.
\<close>

theorem loaders_among_requests:
  assumes "default_serves kapi c ns ksa r (set_world_of t)" and "0 \<le> now"
    and "pool_reach (rt_env (method_step kapi)) (\<lambda>i. job_prog env kapi api (jobs i), new_rt now t) (p, s)"
  shows "(p i = Panic e \<longrightarrow> (\<exists>L. jobs i = Load L \<and> (e = ConcurrentMapAccess \<or> e = NilDeref \<and> \<not> loader_ok env api L)))
    \<and> (p i = Return (Answered (Inr tok)) \<longrightarrow>
        token_asked kapi c ns ksa [] (tok, None) \<or> tok = [] \<and> 0 < sr_failures s)
    \<and> default_serves kapi c ns ksa r (set_world_of (sr_source s))"
proof -
  let ?R = "rt_keeps kapi c ns ksa" and ?issued = "\<lambda>tok. token_asked kapi c ns ksa [] (tok, None)"
  let ?A = "\<lambda>i. job_panics env api (jobs i)" and ?ps = "(\<lambda>i. job_prog env kapi api (jobs i), new_rt now t)"
  have serving: "serving kapi c ns ksa r (new_rt now t)" by (rule serving_new [OF assms(1,2)])
  have start: "kept (\<lambda>_. ?R) (\<lambda>_. ?R) ?A (\<lambda>_. outcome_ok ?issued) ?ps"
    by (rule everyone.kept_start) (rule job_keeps [OF serving])
  have "kept (\<lambda>_. ?R) (\<lambda>_. ?R) ?A (\<lambda>_. outcome_ok ?issued) (p, s) \<and> ?R (snd ?ps) (snd (p, s))"
    by (rule everyone.reach_kept [OF assms(3) start])
      (use rt_keeps_refl rt_keeps_trans rt_env_keeps in blast)+
  then have k: "kept (\<lambda>_. ?R) (\<lambda>_. ?R) ?A (\<lambda>_. outcome_ok ?issued) (p, s)" "?R (new_rt now t) s" by simp_all
  have "p i = Panic e \<Longrightarrow> e \<in> ?A i" using everyone.kept_result(1) [OF k(1)] by simp
  then have "p i = Panic e \<longrightarrow> (\<exists>L. jobs i = Load L \<and> (e = ConcurrentMapAccess \<or> e = NilDeref \<and> \<not> loader_ok env api L))"
    by (cases "jobs i") (auto simp: load_panics_def split: if_splits)
  moreover have "?issued tok \<or> tok = [] \<and> 0 < sr_failures s" if "p i = Return (Answered (Inr tok))"
    using everyone.kept_result(2) [OF k(1)] that by (fastforce simp: rt_rely_def)
  moreover have "default_serves kapi c ns ksa r (set_world_of (sr_source s))"
    using serving_stable [OF serving k(2)] by (simp add: serving_def)
  ultimately show ?thesis by blast
qed

text \<open>A kubeconfig and the clusters of GKE are loaded among requests.\<close>

definition demo_jobs :: "nat \<Rightarrow> job" where
  "demo_jobs i = (if i = 0 then Load (FromKubeConfig [''b'', ''a''] []) else if i = 1 then Load (FromGKE [] []) else Request)"

theorem loaders_among_requests_witness:
  "\<exists>p s. run_pool [0, 1, 2, 0, 1, 2] (\<lambda>i. job_prog demo_env demo_api demo_gcp (demo_jobs i), new_rt 0 (idle_set demo_world)) = (p, s)
    \<and> (\<forall>e. p 2 \<noteq> Panic e) \<and> default_serves demo_api (Clientset 7) ''ns1'' [] 0 (set_world_of (sr_source s))"
proof -
  let ?ps = "(\<lambda>i. job_prog demo_env demo_api demo_gcp (demo_jobs i), new_rt 0 (idle_set demo_world))"
  obtain p s where run: "run_pool [0, 1, 2, 0, 1, 2] ?ps = (p, s)" by fastforce
  have "default_serves demo_api (Clientset 7) ''ns1'' [] 0 (set_world_of (idle_set demo_world))"
    using demo_world_serves by simp
  moreover have "pool_reach (rt_env (method_step demo_api)) ?ps (p, s)"
    using pool_reach_run [OF reach_start, of "rt_env (method_step demo_api)" ?ps "[0, 1, 2, 0, 1, 2]"] unfolding run .
  ultimately have "(\<forall>e. p 2 \<noteq> Panic e) \<and> default_serves demo_api (Clientset 7) ''ns1'' [] 0 (set_world_of (sr_source s))"
    using loaders_among_requests [of demo_api "Clientset 7" "''ns1''" "[]" 0 "idle_set demo_world" 0 demo_env demo_gcp demo_jobs p s 2]
    by (auto simp: demo_jobs_def)
  with run show ?thesis by blast
qed

section \<open>One loader does what it does alone\<close>

text \<open>What the loaders look at: everything but the contents of the clusters and the world.\<close>

definition load_view :: "'w shared_set \<Rightarrow> GKE \<times> K8S \<times> ref \<times> ref set \<times> bool" where
  "load_view s = (sh_GKE s, sh_K8S s, next_ref (sh_clusters s), dom (cells (sh_clusters s)), sh_writing s)"

lemma load_view_eq:
  "load_view s = load_view t \<longleftrightarrow> sh_GKE s = sh_GKE t \<and> sh_K8S s = sh_K8S t \<and> sh_writing s = sh_writing t
     \<and> next_ref (sh_clusters s) = next_ref (sh_clusters t) \<and> dom (cells (sh_clusters s)) = dom (cells (sh_clusters t))"
  by (auto simp: load_view_def)

lemma look_rd_set: "(\<And>x. looks_at load_view (k x)) \<Longrightarrow> looks_at load_view (rd_set f k)"
  unfolding rd_set_def by (rule looks_at_rd) (simp_all add: load_view_eq)

lemma look_set_Default: "looks_at load_view p \<Longrightarrow> looks_at load_view (set_Default r p)"
  unfolding set_Default_def by (rule looks_at_wr) (simp_all add: load_view_eq)

lemma look_new_cluster: "(\<And>r. looks_at load_view (k r)) \<Longrightarrow> looks_at load_view (new_cluster c k)"
  unfolding new_cluster_def by (rule looks_at_atomically) (simp_all add: load_view_eq alloc_def)

lemma look_get_name: "(\<And>x. looks_at load_view (k x)) \<Longrightarrow> looks_at load_view (get_name n k)"
  unfolding get_name_def by (rule looks_at_rd, simp add: load_view_eq) (rule looks_at_local)

lemma look_put_name: "looks_at load_view p \<Longrightarrow> looks_at load_view (put_name n r p)"
  unfolding put_name_def
proof (rule looks_at_atomically)
  show "fst (begin_write s) = fst (begin_write t)" if "load_view s = load_view t" for s t :: "'a shared_set"
    using that by (simp add: begin_write_def load_view_eq split: option.split)
  show "load_view (snd (begin_write s)) = load_view (snd (begin_write t))" if "load_view s = load_view t" for s t :: "'a shared_set"
    using that by (simp add: begin_write_def load_view_eq split: option.split)
  show "looks_at load_view (local_exec m (\<lambda>_. wr (end_write n r) p))" if "looks_at load_view p" for m :: "unit exec"
    by (rule looks_at_local, rule looks_at_wr [OF _ that]) (simp add: end_write_def load_view_eq)
qed

lemma look_rate_limits: "looks_at load_view (rate_limits_prog rc)"
  unfolding rate_limits_prog_def by (intro look_rd_set looks_at_seq) (simp_all add: look_rd_set)

lemma look_load_context: "looks_at load_view p \<Longrightarrow> looks_at load_view (load_context_prog env cfg k p)"
  by (auto simp: load_context_prog_def split: option.split sum.split
      intro!: looks_at_seq look_rate_limits look_new_cluster look_put_name look_rd_set look_set_Default)

lemma look_contexts: "looks_at load_view p \<Longrightarrow> looks_at load_view (foldr (load_context_prog env cfg) order p)"
  by (induction order) (simp_all add: look_load_context)

text \<open>The two loaders that ask no service, and what they do alone.\<close>

fun local_load :: "host_env \<Rightarrow> loader \<Rightarrow> set_state \<Rightarrow> (go_error option \<times> set_state) exec option" where
  "local_load env (FromKubeConfig order f) st = Some (LoadKubeConfig env order f st)"
| "local_load env FromCluster st = Some (loadInCluster env st)"
| "local_load env _ st = None"

lemma local_load_look: "local_load env L st \<noteq> None \<Longrightarrow> looks_at load_view (load_prog env api L)"
  by (cases L) (auto simp: LoadKubeConfig_prog_def loadInCluster_prog_def Let_def split: option.split sum.split
      intro!: looks_at_seq look_contexts look_new_cluster look_put_name look_rd_set look_set_Default)

lemma local_load_alone:
  assumes "local_load env L (sh_K8S s, sh_clusters s) = Some (Inr (err, kr, h))" and "\<not> sh_writing s"
  shows "alone (load_prog env api L) s = Inr (Loaded err, s\<lparr>sh_K8S := kr, sh_clusters := h\<rparr>)"
  using assms by (cases L) (simp_all add: alone_LoadKubeConfig alone_loadInCluster)

text \<open>The requests change nothing the loaders look at.\<close>

definition world_view :: "'w set_world \<Rightarrow> GKE \<times> K8S \<times> ref \<times> ref set" where
  "world_view x = (case x of ((g, kr, h), w) \<Rightarrow> (g, kr, next_ref h, dom (cells h)))"

lemma method_keeps_world_view: "steps_keep (\<lambda>x y. world_view x = world_view y) (through d p)"
  by (cases d) (auto simp: through_def at_cluster_def put_cluster_def world_view_def
      intro!: steps_keep_focus [OF steps_keep_any] split: prod.splits if_splits)

lemma GetToken_keeps_world_view: "steps_keep (\<lambda>x y. world_view x = world_view y) (K8S_GetToken_prog api aud)"
  by (simp add: K8S_GetToken_prog_def rd_Default_def method_keeps_world_view steps_keep_seq)

lemma put_set_world_view: "world_view (set_world_of t) = world_view x \<Longrightarrow> load_view t = load_view (put_set_world x t)"
  by (cases x) (simp add: world_view_def set_world_of_def put_set_world_def load_view_def split: prod.splits)

lemma source_keeps_view: "steps_keep (\<lambda>s t. load_view s = load_view t) (set_source api)"
  unfolding set_source_def
  by (rule steps_keep_focus [OF GetToken_keeps_world_view]) (auto intro: put_set_world_view)

lemma request_keeps_view:
  "steps_keep (\<lambda>s t. load_view (sr_source s) = load_view (sr_source t)) (job_prog env kapi api Request)"
proof -
  have "steps_keep (\<lambda>s t. load_view (sr_source s) = load_view (sr_source t))
      (focus (\<lambda>s. Some (sr_source s)) (\<lambda>t s. s\<lparr>sr_source := t\<rparr>) (set_source kapi))"
    by (rule steps_keep_focus [OF source_keeps_view]) auto
  then show ?thesis
    by (auto simp: RoundTrip_prog_def Let_def intro!: steps_keep_seq split: option.split)
qed

definition keeps_view :: "'w shared_set shared_rt \<Rightarrow> 'w shared_set shared_rt \<Rightarrow> bool" where
  "keeps_view s s' \<longleftrightarrow> load_view (sr_source s) = load_view (sr_source s')"

lemma method_step_view: "method_step kapi s s' \<Longrightarrow> load_view s = load_view s'"
  by (auto simp: method_step_def load_view_def elim!: viaE split: if_splits)

text \<open>The goroutine \<open>l\<close> loads, and the others send requests.\<close>

interpretation one: contracts
    "\<lambda>i s s'. rt_keeps api c ns ksa s s' \<and> (i = l \<longrightarrow> keeps_view s s')"
    "\<lambda>i s s'. rt_keeps api c ns ksa s s' \<and> (i \<noteq> l \<longrightarrow> keeps_view s s')"
  for api :: "'w k8s_api" and c ns ksa and l :: 'i
  by unfold_locales (auto simp: keeps_view_def intro: rt_keeps_refl rt_keeps_trans)

lemma loader_as_alone:
  fixes kapi :: "'w k8s_api" and t :: "'w shared_set"
  assumes "serving kapi c ns ksa r s"
    and "local_load env L (sh_K8S t, sh_clusters t) = Some (Inr (err, kr, h))" and "\<not> sh_writing t"
    and "load_view (sr_source s) = load_view t"
  shows "ensures (\<lambda>s s'. rt_keeps kapi c ns ksa s s' \<and> keeps_view s s') (rt_keeps kapi c ns ksa) {}
    (job_prog env kapi api (Load L)) s
    (\<lambda>x s'. x = LoadResult (Loaded err) \<and> load_view (sr_source s') = load_view (t\<lparr>sh_K8S := kr, sh_clusters := h\<rparr>))"
proof -
  let ?R = "guarded_rely kapi" and ?A = "load_panics env api L" and ?p = "seq (load_prog env api L) (\<lambda>x. Return (LoadResult x))"
  have loads: "loads kapi ?A ?p (sr_source s)"
    by (rule loads_seq [OF loads_load_prog [OF serving_loadable [OF assms(1)]]]) simp
  have look: "looks_at load_view ?p"
    by (rule looks_at_seq [OF local_load_look [of env L "(sh_K8S t, sh_clusters t)"]]) (use assms(2) in simp_all)
  have run: "alone ?p t = Inr (LoadResult (Loaded err), t\<lparr>sh_K8S := kr, sh_clusters := h\<rparr>)"
    using local_load_alone [OF assms(2,3)] by simp
  have "ensures (\<lambda>s s'. ?R s s' \<and> load_view s = load_view s') ?R {} ?p (sr_source s)
      (\<lambda>x s'. x = LoadResult (Loaded err) \<and> load_view s' = load_view (t\<lparr>sh_K8S := kr, sh_clusters := h\<rparr>) \<and> True)"
    by (rule ensures_alone [OF loads look _ run assms(4)]) simp
  then show ?thesis
    unfolding job_prog.simps simp_thms
    by (rule ensures_focus [rotated -1]) (auto simp: keeps_view_def rt_rely_def rt_ok_def sendable_def)
qed

lemma one_loader:
  assumes "default_serves kapi c ns ksa r (set_world_of t)" and "0 \<le> now"
    and "local_load env L (sh_K8S t, sh_clusters t) = Some (Inr (err, kr, h))" and "\<not> sh_writing t"
    and "pool_reach (rt_env (method_step kapi))
      (\<lambda>i. job_prog env kapi api (if i = l then Load L else Request), new_rt now t) (p, s)"
  shows "p i \<noteq> Panic e"
    and "p i = Return (Answered (Inr tok)) \<Longrightarrow> token_asked kapi c ns ksa [] (tok, None) \<or> tok = [] \<and> 0 < sr_failures s"
    and "p l = Return x \<Longrightarrow> x = LoadResult (Loaded err) \<and> sh_K8S (sr_source s) = kr
      \<and> dom (cells (sh_clusters (sr_source s))) = dom (cells h) \<and> \<not> sh_writing (sr_source s)"
proof -
  let ?issued = "\<lambda>tok. token_asked kapi c ns ksa [] (tok, None)"
  let ?R = "\<lambda>i s s'. rt_keeps kapi c ns ksa s s' \<and> (i = l \<longrightarrow> keeps_view s s')"
  let ?G = "\<lambda>i s s'. rt_keeps kapi c ns ksa s s' \<and> (i \<noteq> l \<longrightarrow> keeps_view s s')"
  let ?ps = "(\<lambda>i. job_prog env kapi api (if i = l then Load L else Request), new_rt now t)"
  let ?Q = "\<lambda>i x s'. if i = l then x = LoadResult (Loaded err)
      \<and> load_view (sr_source s') = load_view (t\<lparr>sh_K8S := kr, sh_clusters := h\<rparr>) else outcome_ok ?issued x s'"
  have serving: "serving kapi c ns ksa r (new_rt now t)" by (rule serving_new [OF assms(1,2)])
  have start: "kept ?R ?G (\<lambda>_. {}) ?Q ?ps"
  proof (rule one.kept_start)
    fix i
    show "ensures (?R i) (?G i) {} (job_prog env kapi api (if i = l then Load L else Request)) (new_rt now t) (?Q i)"
    proof (cases "i = l")
      case True
      with loader_as_alone [OF serving assms(3,4), of api] show ?thesis by (simp add: new_rt_def)
    next
      case False
      with ensures_steps_keep [OF request_keeps [OF serving] request_keeps_view] show ?thesis
        by (simp add: keeps_view_def)
    qed
  qed
  have "rt_env (method_step kapi) u u' \<Longrightarrow> keeps_view u u'" for u u'
    by (auto simp: rt_env_def keeps_view_def dest: method_step_view)
  then have kept: "kept ?R ?G (\<lambda>_. {}) ?Q (p, s)"
    using one.reach_kept [OF assms(5) start, where W = "\<lambda>_ _. True"] rt_env_keeps by blast
  show "p i \<noteq> Panic e" using one.kept_result(1) [OF kept, of i e] by auto
  show "?issued tok \<or> tok = [] \<and> 0 < sr_failures s" if "p i = Return (Answered (Inr tok))"
    using one.kept_result(2) [OF kept] that by (fastforce simp: rt_rely_def split: if_splits)
  show "x = LoadResult (Loaded err) \<and> sh_K8S (sr_source s) = kr
      \<and> dom (cells (sh_clusters (sr_source s))) = dom (cells h) \<and> \<not> sh_writing (sr_source s)" if "p l = Return x"
  proof -
    have "\<exists>s0. ?R l s0 (snd (p, s)) \<and> ?Q l x s0"
      by (rule one.kept_result(2) [OF kept]) (simp only: fst_conv that)
    then obtain s0 where "?R l s0 s" "?Q l x s0" by auto
    with assms(4) show ?thesis by (simp add: keeps_view_def load_view_eq)
  qed
qed

text \<open>
  C7: One goroutine loads a kubeconfig or the cluster of the pod into a set that has its default,
  while any number of others send requests that authenticate with it, step by step, methods of any
  cluster run and time passes. Nobody panics, the requests send tokens of the default cluster (or an
  empty one after a failed fetch), and the load ends with the error, the names, the pointers and the
  default it would have alone.
\<close>

theorem one_loader_as_alone:
  assumes "default_serves kapi c ns ksa r (set_world_of t)" and "0 \<le> now" and "\<not> sh_writing t"
    and "local_load env L (sh_K8S t, sh_clusters t) = Some (Inr (err, kr, h))"
    and "pool_reach (rt_env (method_step kapi))
      (\<lambda>i. job_prog env kapi api (if i = l then Load L else Request), new_rt now t) (p, s)"
  shows "p i \<noteq> Panic e
    \<and> (p i = Return (Answered (Inr tok)) \<longrightarrow>
        token_asked kapi c ns ksa [] (tok, None) \<or> tok = [] \<and> 0 < sr_failures s)
    \<and> (p l = Return x \<longrightarrow> x = LoadResult (Loaded err) \<and> sh_K8S (sr_source s) = kr
        \<and> dom (cells (sh_clusters (sr_source s))) = dom (cells h) \<and> \<not> sh_writing (sr_source s))"
  using one_loader [OF assms(1,2,4,3,5)] by blast

text \<open>The kubeconfig of two contexts, one of which loads, in a set that has a default.\<close>

lemma demo_load:
  assumes "k8_ByName kr = Some m"
  shows "\<exists>h'. LoadKubeConfig demo_env [''b'', ''a''] [] (kr, h) = Inr (None, kr\<lparr>k8_ByName := Some (m(''a'' \<mapsto> next_ref h)),
    k8_Default := (case k8_Default kr of None \<Rightarrow> Some (next_ref h) | Some r \<Rightarrow> Some r)\<rparr>, h') \<and> next_ref h' = Suc (next_ref h)"
  unfolding LoadKubeConfig_run(3) [OF demo_env_config] using assms
  by (cases kr) (auto simp: load_context_def demo_config_def demo_env_def
      alloc_def Let_def split: option.split)

lemma demo_local_load:
  obtains kr h where "local_load demo_env (FromKubeConfig [''b'', ''a''] [])
      (sh_K8S (idle_set demo_world), sh_clusters (idle_set demo_world)) = Some (Inr (None, kr, h))"
    and "map_get (k8_ByName kr) ''a'' = Some 1"
proof -
  have "k8_ByName (sh_K8S (idle_set demo_world)) = Some (\<lambda>_. None)" and n: "next_ref (sh_clusters (idle_set demo_world)) = 1"
    by (simp_all add: demo_world_def idle_set_def)
  from demo_load [OF this(1), of "sh_clusters (idle_set demo_world)"] that show thesis by (auto simp: n)
qed

theorem one_loader_as_alone_witness:
  "\<exists>p s. run_pool [0, 1, 0, 1, 1, 0] (\<lambda>i :: nat. job_prog demo_env demo_api demo_gcp
        (if i = 0 then Load (FromKubeConfig [''b'', ''a''] []) else Request), new_rt 0 (idle_set demo_world)) = (p, s)
    \<and> (\<forall>i e. p i \<noteq> Panic e)
    \<and> (\<forall>x. p 0 = Return x \<longrightarrow> map_get (k8_ByName (sh_K8S (sr_source s))) ''a'' = Some 1)"
proof -
  let ?L = "FromKubeConfig [''b'', ''a''] []" and ?t = "idle_set demo_world"
  let ?ps = "(\<lambda>i :: nat. job_prog demo_env demo_api demo_gcp (if i = 0 then Load ?L else Request), new_rt 0 ?t)"
  obtain p s where run: "run_pool [0, 1, 0, 1, 1, 0] ?ps = (p, s)" by fastforce
  have serves: "default_serves demo_api (Clientset 7) ''ns1'' [] 0 (set_world_of ?t)"
    using demo_world_serves by simp
  obtain kr h where load: "local_load demo_env ?L (sh_K8S ?t, sh_clusters ?t) = Some (Inr (None, kr, h))"
    "map_get (k8_ByName kr) ''a'' = Some 1" by (rule demo_local_load)
  have "pool_reach (rt_env (method_step demo_api)) ?ps (p, s)"
    using pool_reach_run [OF reach_start, of "rt_env (method_step demo_api)" ?ps "[0, 1, 0, 1, 1, 0]"] unfolding run .
  note one_loader_as_alone [OF serves order_refl writing_idle load(1) this]
  with run load(2) show ?thesis by blast
qed

text \<open>
  C17: Under every fair schedule, and with nothing else going on, the loader and every request come
  to their end, and the set is then as the loader leaves it alone.
\<close>

theorem one_loader_returns:
  assumes "default_serves kapi c ns ksa r (set_world_of t)" and "0 \<le> now" and "\<not> sh_writing t"
    and "local_load env L (sh_K8S t, sh_clusters t) = Some (Inr (err, kr, h))" and "fair sched"
  shows "\<exists>n. fst (after n sched (\<lambda>i. job_prog env kapi api (if i = l then Load L else Request), new_rt now t)) l
        = Return (LoadResult (Loaded err))
      \<and> sh_K8S (sr_source (snd (after n sched
          (\<lambda>i. job_prog env kapi api (if i = l then Load L else Request), new_rt now t)))) = kr
      \<and> (\<exists>x. fst (after n sched (\<lambda>i. job_prog env kapi api (if i = l then Load L else Request), new_rt now t)) i
          = Return x)"
proof -
  let ?ps = "(\<lambda>i. job_prog env kapi api (if i = l then Load L else Request), new_rt now t)"
  have reach: "pool_reach (rt_env (method_step kapi)) ?ps (fst (after n sched ?ps), snd (after n sched ?ps))" for n
    unfolding after_def using pool_reach_run [OF reach_start] by simp
  note one = one_loader [OF assms(1,2,4,3) reach]
  have ret: "\<exists>x. fst (after n sched ?ps) j = Return x" if "finished (fst (after n sched ?ps) j)" for n j
    using that one(1) [of n j] by (cases "fst (after n sched ?ps) j") auto
  obtain n1 n2 where n: "finished (fst (after n1 sched ?ps) l)" "finished (fst (after n2 sched ?ps) i)"
    using fair_finishes [OF assms(5)] by metis
  have later: "finished (fst (after m sched ?ps) j)" if "finished (fst (after k sched ?ps) j)" "k \<le> m" for k m j
    using that(2,1) by (induction m rule: dec_induct) (auto simp: after_Suc pool_step_finished)
  let ?n = "max n1 n2"
  obtain x y where xy: "fst (after ?n sched ?ps) l = Return x" "fst (after ?n sched ?ps) i = Return y"
    using ret later [OF n(1), of ?n] later [OF n(2), of ?n] by fastforce
  with one(3) [OF xy(1)] show ?thesis by (intro exI [of _ ?n]) auto
qed

theorem one_loader_returns_witness:
  "\<exists>n x. fst (after n even (\<lambda>i. job_prog demo_env demo_api demo_gcp
      (if i = True then Load (FromKubeConfig [''b'', ''a''] []) else Request), new_rt 0 (idle_set demo_world))) False = Return x"
proof -
  have fair: "fair (even :: nat \<Rightarrow> bool)"
    unfolding fair_def
  proof (intro allI)
    fix i and n :: nat
    show "\<exists>m\<ge>n. even m = i"
      by (cases "even n = i") (auto intro: exI [of _ n] exI [of _ "Suc n"])
  qed
  have serves: "default_serves demo_api (Clientset 7) ''ns1'' [] 0 (set_world_of (idle_set demo_world))"
    using demo_world_serves by simp
  obtain kr h where "local_load demo_env (FromKubeConfig [''b'', ''a''] [])
      (sh_K8S (idle_set demo_world), sh_clusters (idle_set demo_world)) = Some (Inr (None, kr, h))" by (rule demo_local_load)
  from one_loader_returns [OF serves order_refl writing_idle this fair] show ?thesis by blast
qed

end
