(* ===== verification/LoadRaces.thy ===== *)
theory LoadRaces
  imports LoadThreads
begin

text \<open>
  What two loaders of one set do to each other. \<open>kubeconfig.go\<close>, \<open>kube.go\<close> and \<open>gcp/gke.go\<close> write the
  map of clusters and the default without a lock: for any two loads that each add a cluster there is
  a schedule that ends the process, and for any two that each choose a default there is one in which
  the default that was chosen, and may be in use, is replaced.
\<close>

section \<open>Up to the first write\<close>

lemma goes_rd_set: "goes (k (f (sh_K8S s))) s q t \<Longrightarrow> goes (rd_set f k) s q t"
  unfolding rd_set_def by (rule goes_rd)

lemma goes_new_cluster:
  "goes (k (next_ref (sh_clusters s))) (s\<lparr>sh_clusters := snd (alloc c (sh_clusters s))\<rparr>) q t \<Longrightarrow> goes (new_cluster c k) s q t"
  unfolding new_cluster_def by (erule goes_atomically [rotated]) (simp add: alloc_def)

lemma seq_put_name: "seq (put_name k r p) f = put_name k r (seq p f)"
  by (auto simp: put_name_def atomically_def local_exec_def wr_def split: sum.split)

lemma context_to_write:
  assumes "map_get (ac_Contexts cfg) k = Some cc" and "ClientConfig env cfg k = Inr rc"
  shows "goes (load_context_prog env cfg k p) s
    (put_name k (next_ref (sh_clusters s)) (rd_set k8_Default (\<lambda>d.
       if d = None \<and> k = ac_CurrentContext cfg then set_Default (next_ref (sh_clusters s)) p else p)))
    (s\<lparr>sh_clusters := snd (alloc (context_cluster env (sh_K8S s) cfg k rc) (sh_clusters s))\<rparr>)"
  unfolding load_context_prog_def assms option.case sum.case
  by (rule goes_seq_alone [OF alone_rate_limits], rule goes_new_cluster) (simp add: context_cluster_def goes_refl)

lemma contexts_to_write:
  assumes "loopM (load_context env cfg) order (sh_K8S s, h) = Inr (kr', h')" and "next_ref h' \<noteq> next_ref h"
  shows "\<exists>n r q h''. goes (foldr (load_context_prog env cfg) order p) s (put_name n r q) (s\<lparr>sh_clusters := h''\<rparr>)"
  using assms
proof (induction order)
  case (Cons k ks)
  show ?case
  proof (cases "map_get (ac_Contexts cfg) k")
    case None
    with Cons show ?thesis by (simp add: load_context_def load_context_prog_def [of env cfg k])
  next
    case (Some cc)
    show ?thesis
    proof (cases "ClientConfig env cfg k")
      case (Inl err)
      with Some Cons show ?thesis
        by (cases cc) (simp_all add: load_context_def load_context_prog_def [of env cfg k])
    next
      case (Inr rc)
      from context_to_write [OF Some Inr, of "foldr (load_context_prog env cfg) ks p" s] show ?thesis
        by (simp only: foldr.simps comp_apply) blast
    qed
  qed
qed simp

lemma load_to_write:
  fixes s :: "'w shared_set"
  assumes "local_load env L (sh_K8S s, h) = Some (Inr (err, kr', h'))" and "next_ref h' \<noteq> next_ref h"
  shows "\<exists>n r q h''. goes (load_prog env api L) s (put_name n r q) (s\<lparr>sh_clusters := h''\<rparr>)"
proof (cases L)
  case (FromKubeConfig order f)
  with assms obtain cfg where cfg: "Stat env (config_file env f) = None" "RawConfig env (config_file env f) = Inr cfg"
    "loopM (load_context env cfg) order (sh_K8S s, h) = Inr (kr', h')"
    by (auto simp: LoadKubeConfig_def Let_def split: option.splits sum.splits elim!: bnd_InrE)
  from contexts_to_write [OF cfg(3) assms(2), of "Return None :: ('w shared_set, go_error option) prog"] obtain n r q h'' where
    "goes (foldr (load_context_prog env cfg) order (Return None :: ('w shared_set, go_error option) prog)) s
      (put_name n r q) (s\<lparr>sh_clusters := h''\<rparr>)" by blast
  from goes_seq [OF this, of "\<lambda>err. Return (Loaded err)"] cfg(1,2) FromKubeConfig show ?thesis
    by (simp add: LoadKubeConfig_prog_def seq_put_name) blast
next
  case FromCluster
  with assms obtain token where tok: "ReadFile env tokenFile = Inr token" "NewPool env rootCAFile = None"
    by (auto simp: loadInCluster_def split: sum.splits option.splits)
  let ?c = "incluster_cluster env token" and ?r = "next_ref (sh_clusters s)"
  have "goes (loadInCluster_prog env) s (put_name (kc_Name ?c) ?r (rd_set k8_Default (\<lambda>d.
            if d = None then set_Default ?r (Return None) else Return None)))
      (s\<lparr>sh_clusters := snd (alloc ?c (sh_clusters s))\<rparr>)"
    unfolding loadInCluster_prog_def tok sum.case option.case by (rule goes_new_cluster, rule goes_refl)
  from goes_seq [OF this, of "\<lambda>err. Return (Loaded err)"] FromCluster show ?thesis
    by (simp add: seq_put_name) blast
qed (use assms in simp_all)

section \<open>The map\<close>

text \<open>Two goroutines that are about to write the map: the second one ends the process.\<close>

lemma writes_collide:
  assumes "P i = put_name n r p" and "P j = put_name n' r' p'" and "i \<noteq> j"
    and "k8_ByName (sh_K8S s) = Some f" and "\<not> sh_writing s"
  shows "fst (run_pool [i, j] (P, s)) j = Panic ConcurrentMapAccess"
  using assms by (simp add: put_name_def atomically_def begin_write_def local_exec_def pool_step_def)

text \<open>
  C18: Any two goroutines that load into the same set, each of which would add a cluster if it ran
  alone, can end the process: there is an interleaving of their steps in which the second one writes
  the map of clusters while the first one does.
\<close>

theorem concurrent_loads_crash:
  assumes "i \<noteq> j" and "k8_ByName (fst st) \<noteq> None"
    and "local_load env (Ls i) st = Some (Inr (err1, kr1, h1))" and "next_ref h1 \<noteq> next_ref (snd st)"
    and "local_load env (Ls j) st = Some (Inr (err2, kr2, h2))" and "next_ref h2 \<noteq> next_ref (snd st)"
  shows "\<exists>sched. fst (run_pool sched (\<lambda>i. load_prog env api (Ls i), idle_set ((g, st), w))) j = Panic ConcurrentMapAccess"
proof -
  let ?P = "\<lambda>i. load_prog env api (Ls i)" and ?s = "idle_set ((g, st), w)"
  have st: "sh_K8S ?s = fst st" by (cases st) (simp add: idle_set_def)
  then have "local_load env (Ls i) (sh_K8S ?s, snd st) = Some (Inr (err1, kr1, h1))" using assms(3) by simp
  from load_to_write [OF this assms(4), of api] obtain n r p h where
    "goes (?P i) ?s (put_name n r p) (?s\<lparr>sh_clusters := h\<rparr>)" by blast
  note first = this
  have "local_load env (Ls j) (sh_K8S (?s\<lparr>sh_clusters := h\<rparr>), snd st) = Some (Inr (err2, kr2, h2))"
    using assms(5) st by simp
  from load_to_write [OF this assms(6), of api] obtain n' r' p' h' where
    "goes (?P j) (?s\<lparr>sh_clusters := h\<rparr>) (put_name n' r' p') (?s\<lparr>sh_clusters := h, sh_clusters := h'\<rparr>)" by blast
  from goes_run_then [where P = ?P, OF first this assms(1)] obtain sched where
    run: "run_pool sched (?P, ?s) = (?P(i := put_name n r p, j := put_name n' r' p'), ?s\<lparr>sh_clusters := h, sh_clusters := h'\<rparr>)"
    by blast
  obtain f where "k8_ByName (fst st) = Some f" using assms(2) by blast
  then have "fst (run_pool [i, j] (?P(i := put_name n r p, j := put_name n' r' p'), ?s\<lparr>sh_clusters := h, sh_clusters := h'\<rparr>)) j
      = Panic ConcurrentMapAccess"
    using assms(1) st by (intro writes_collide) simp_all
  then have "fst (run_pool (sched @ [i, j]) (?P, ?s)) j = Panic ConcurrentMapAccess"
    by (simp only: run_pool_simps(3) run)
  then show ?thesis by (rule exI)
qed

text \<open>Two goroutines load the same kubeconfig into a new set.\<close>

lemma demo_load_empty:
  obtains kr h where "local_load demo_env (FromKubeConfig [''b'', ''a''] []) empty_set = Some (Inr (None, kr, h))"
    and "next_ref h \<noteq> next_ref (snd empty_set)" and "k8_Default kr = Some 0"
proof -
  have "k8_ByName (fst empty_set) = Some (\<lambda>_. None)" "k8_Default (fst empty_set) = None" "next_ref (snd empty_set) = 0"
    by (simp_all add: empty_set_def zero_K8S_def empty_store_def)
  from demo_load [OF this(1), of "snd empty_set"] this(2,3) that show thesis by auto
qed

theorem concurrent_loads_crash_witness:
  "\<exists>sched. fst (run_pool sched (\<lambda>i. load_prog demo_env demo_gcp (FromKubeConfig [''b'', ''a''] []),
     idle_set ((demo_gke, empty_set), 0))) True = Panic ConcurrentMapAccess"
proof -
  obtain kr h where load: "local_load demo_env (FromKubeConfig [''b'', ''a''] []) empty_set = Some (Inr (None, kr, h))"
    "next_ref h \<noteq> next_ref (snd empty_set)" by (rule demo_load_empty)
  have "k8_ByName (fst empty_set) \<noteq> None" by (simp add: empty_set_def)
  from concurrent_loads_crash [where i = False and j = True and Ls = "\<lambda>_. FromKubeConfig [''b'', ''a''] []"
      and api = demo_gcp and g = demo_gke and w = 0, OF _ this load load]
  show ?thesis by (simp only: not_False_eq_True simp_thms)
qed

section \<open>The default\<close>

text \<open>A loader up to the moment when it has found that there is no default, and is about to set it.\<close>

lemma goes_put_name:
  assumes "k8_ByName (sh_K8S s) \<noteq> None" and "\<not> sh_writing s" and "goes p (end_write n r s) q t"
  shows "goes (put_name n r p) s q t"
proof -
  have b: "begin_write s = (Inr (), s\<lparr>sh_writing := True\<rparr>)" using assms(1,2) by (auto simp: begin_write_def)
  have e: "end_write n r (s\<lparr>sh_writing := True\<rparr>) = end_write n r s" by (simp add: end_write_def)
  show ?thesis
    unfolding put_name_def by (rule goes_atomically, rule b) (simp add: local_exec_def goes_wr e assms(3))
qed

lemma put_name_to_default:
  assumes "k8_ByName (sh_K8S s) \<noteq> None" and "\<not> sh_writing s" and "k8_Default (sh_K8S s) = None" and b
  shows "goes (put_name n r (rd_set k8_Default (\<lambda>d. if d = None \<and> b then set_Default r p else p))) s
    (set_Default r p) (end_write n r s)"
  by (rule goes_put_name [OF assms(1,2)], rule goes_rd_set) (simp add: end_write_def assms(3,4) goes_refl)

lemma seq_statements:
  "seq (rd f k) g = rd f (\<lambda>x. seq (k x) g)" "seq (rd_set f' k) g = rd_set f' (\<lambda>x. seq (k x) g)"
  "seq (new_cluster c k') g = new_cluster c (\<lambda>x. seq (k' x) g)" "seq (set_Default r p) g = set_Default r (seq p g)"
  by (simp_all add: rd_set_def rd_def new_cluster_def atomically_def set_Default_def wr_def)

lemma seq_if: "seq (if b then p else q) f = (if b then seq p f else seq q f)"
  by simp

lemma seq_assoc: "seq (seq p f) g = seq p (\<lambda>x. seq (f x) g)"
  by (induction p) simp_all

lemma load_context_then: "load_context_prog env cfg k p = seq (load_context_prog env cfg k (Return ())) (\<lambda>_. p)"
  by (auto simp: load_context_prog_def seq_assoc seq_statements seq_put_name seq_if cong: if_cong
      split: option.split sum.split)

lemma goes_load_context:
  assumes "load_context env cfg k (sh_K8S s, sh_clusters s) = Inr (kr, h)" and "\<not> sh_writing s"
    and "goes p (s\<lparr>sh_K8S := kr, sh_clusters := h\<rparr>) q t"
  shows "goes (load_context_prog env cfg k p) s q t"
proof -
  have "alone (load_context_prog env cfg k (Return ())) s = Inr ((), s\<lparr>sh_K8S := kr, sh_clusters := h\<rparr>)"
    using alone_load_context [OF assms(2), of env cfg k "Return ()"] assms(1) by simp
  from goes_seq_alone [OF this assms(3)] show ?thesis unfolding load_context_then [of env cfg k p] .
qed

text \<open>Where a loader stands there.\<close>

definition about_to_choose :: "ref \<Rightarrow> 'w shared_set \<Rightarrow> bool" where
  "about_to_choose r s \<longleftrightarrow> k8_ByName (sh_K8S s) \<noteq> None \<and> k8_Default (sh_K8S s) = None
     \<and> r < next_ref (sh_clusters s) \<and> \<not> sh_writing s"

lemma contexts_to_default:
  assumes "loopM (load_context env cfg) order (sh_K8S s, sh_clusters s) = Inr (kr, h)" and "k8_Default kr \<noteq> None"
    and "k8_Default (sh_K8S s) = None" and "k8_ByName (sh_K8S s) \<noteq> None" and "\<not> sh_writing s"
  shows "\<exists>r q s1. goes (foldr (load_context_prog env cfg) order p) s (set_Default r q) s1 \<and> about_to_choose r s1"
  using assms(1,3-5)
proof (induction order arbitrary: s)
  case (Cons k ks)
  let ?p = "foldr (load_context_prog env cfg) ks p"
  obtain kr1 h1 where turn: "load_context env cfg k (sh_K8S s, sh_clusters s) = Inr (kr1, h1)"
    "loopM (load_context env cfg) ks (kr1, h1) = Inr (kr, h)" using Cons.prems(1) by auto
  show ?case
  proof (cases "k8_Default kr1")
    case None
    let ?s = "s\<lparr>sh_K8S := kr1, sh_clusters := h1\<rparr>"
    have "k8_ByName kr1 \<noteq> None"
      using turn(1) Cons.prems(3) by (auto simp: load_context_def Let_def split: option.splits sum.splits prod.splits
          if_splits elim!: bnd_InrE simp: map_put_eq_Inr_iff)
    with Cons.IH [of ?s] turn(2) None Cons.prems(4) obtain r q s1 where
      "goes ?p ?s (set_Default r q) s1" "about_to_choose r s1" by auto
    with goes_load_context [OF turn(1) Cons.prems(4)] show ?thesis by fastforce
  next
    case (Some d)
    with turn(1) Cons.prems(2) obtain cc rc where k: "map_get (ac_Contexts cfg) k = Some cc"
      "ClientConfig env cfg k = Inr rc" "k = ac_CurrentContext cfg"
      by (auto simp: load_context_def Let_def split: option.splits sum.splits prod.splits if_splits elim!: bnd_InrE)
    let ?c = "context_cluster env (sh_K8S s) cfg k rc" and ?r = "next_ref (sh_clusters s)"
    let ?s = "s\<lparr>sh_clusters := snd (alloc ?c (sh_clusters s))\<rparr>"
    have "goes (put_name k ?r (rd_set k8_Default (\<lambda>d.
        if d = None \<and> k = ac_CurrentContext cfg then set_Default ?r ?p else ?p))) ?s (set_Default ?r ?p) (end_write k ?r ?s)"
      by (rule put_name_to_default) (use Cons.prems k(3) in simp_all)
    from goes_trans [OF context_to_write [OF k(1,2), of ?p s] this]
    have "goes (foldr (load_context_prog env cfg) (k # ks) p) s (set_Default ?r ?p) (end_write k ?r ?s)" by simp
    moreover have "about_to_choose ?r (end_write k ?r ?s)"
      using Cons.prems by (auto simp: about_to_choose_def end_write_def alloc_def)
    ultimately show ?thesis by blast
  qed
qed (use assms(2) in simp)

lemma load_to_default:
  fixes s :: "'w shared_set"
  assumes "local_load env L (sh_K8S s, sh_clusters s) = Some (Inr (err, kr, h))" and "k8_Default kr \<noteq> None"
    and "k8_Default (sh_K8S s) = None" and "k8_ByName (sh_K8S s) \<noteq> None" and "\<not> sh_writing s"
  shows "\<exists>r q s1. goes (load_prog env api L) s (set_Default r q) s1 \<and> about_to_choose r s1"
proof (cases L)
  case (FromKubeConfig order f)
  with assms(1-3) obtain cfg where cfg: "Stat env (config_file env f) = None" "RawConfig env (config_file env f) = Inr cfg"
    "loopM (load_context env cfg) order (sh_K8S s, sh_clusters s) = Inr (kr, h)"
    by (auto simp: LoadKubeConfig_def Let_def split: option.splits sum.splits elim!: bnd_InrE)
  from contexts_to_default [OF cfg(3) assms(2-5), of "Return None :: ('w shared_set, go_error option) prog"]
  obtain r q s1 where g: "goes (foldr (load_context_prog env cfg) order (Return None :: ('w shared_set, go_error option) prog)) s
      (set_Default r q) s1" "about_to_choose r s1" by blast
  from goes_seq [OF g(1), of "\<lambda>err. Return (Loaded err)"] cfg(1,2) FromKubeConfig g(2) show ?thesis
    by (simp add: LoadKubeConfig_prog_def seq_statements) blast
next
  case FromCluster
  with assms obtain token where tok: "ReadFile env tokenFile = Inr token" "NewPool env rootCAFile = None"
    by (auto simp: loadInCluster_def split: sum.splits option.splits)
  let ?c = "incluster_cluster env token" and ?r = "next_ref (sh_clusters s)"
  let ?s = "s\<lparr>sh_clusters := snd (alloc ?c (sh_clusters s))\<rparr>"
  let ?rest = "Return None :: ('w shared_set, go_error option) prog"
  have "goes (put_name (kc_Name ?c) ?r (rd_set k8_Default (\<lambda>d.
        if d = None \<and> True then set_Default ?r ?rest else ?rest))) ?s (set_Default ?r ?rest) (end_write (kc_Name ?c) ?r ?s)"
    by (rule put_name_to_default) (use assms in simp_all)
  then have "goes (loadInCluster_prog env) s (set_Default ?r ?rest) (end_write (kc_Name ?c) ?r ?s)"
    unfolding loadInCluster_prog_def tok sum.case option.case simp_thms by (rule goes_new_cluster)
  from goes_seq [OF this, of "\<lambda>err. Return (Loaded err)"]
  have "goes (load_prog env api L) s (set_Default ?r (seq ?rest (\<lambda>err. Return (Loaded err)))) (end_write (kc_Name ?c) ?r ?s)"
    by (simp add: FromCluster seq_statements)
  moreover have "about_to_choose ?r (end_write (kc_Name ?c) ?r ?s)"
    using assms by (auto simp: about_to_choose_def end_write_def alloc_def)
  ultimately show ?thesis by blast
qed (use assms in simp_all)

text \<open>A load that chooses a default does so from any set without one, and takes a cluster it has made.\<close>

definition alike :: "K8S \<Rightarrow> ref \<Rightarrow> set_state \<Rightarrow> bool" where
  "alike kr n st \<longleftrightarrow> k8_ByName (fst st) \<noteq> None \<and> (k8_Default kr = None \<longleftrightarrow> k8_Default (fst st) = None)
     \<and> (\<forall>r. k8_Default (fst st) = Some r \<longrightarrow> n \<le> r) \<and> n \<le> next_ref (snd st)"

lemma load_context_alike:
  assumes "load_context env cfg k (kr, h) = Inr (kr', h')" and "alike kr n st"
  shows "\<exists>st'. load_context env cfg k st = Inr st' \<and> alike kr' n st'"
  using assms
  by (cases st) (auto simp: load_context_def Let_def alike_def alloc_def map_put_eq_Inr_iff
      split: option.splits sum.splits if_splits elim!: bnd_InrE)

lemma load_contexts_alike:
  "loopM (load_context env cfg) order (kr, h) = Inr (kr', h') \<Longrightarrow> alike kr n st
    \<Longrightarrow> \<exists>st'. loopM (load_context env cfg) order st = Inr st' \<and> alike kr' n st'"
proof (induction order arbitrary: kr h st)
  case (Cons k ks)
  then obtain kr1 h1 where turn: "load_context env cfg k (kr, h) = Inr (kr1, h1)"
    "loopM (load_context env cfg) ks (kr1, h1) = Inr (kr', h')" by auto
  from load_context_alike [OF turn(1) Cons.prems(2)] obtain st1 where
    "load_context env cfg k st = Inr st1" "alike kr1 n st1" by blast
  with Cons.IH [OF turn(2)] show ?case by auto
qed auto

lemma local_load_alike:
  assumes "local_load env L (kr, h) = Some (Inr (err, kr', h'))" and "alike kr n st"
  shows "\<exists>st'. local_load env L st = Some (Inr (err, st')) \<and> alike kr' n st'"
proof (cases L)
  case (FromKubeConfig order f)
  show ?thesis
  proof (cases "Stat env (config_file env f)")
    case None
    show ?thesis
    proof (cases "RawConfig env (config_file env f)")
      case (Inr cfg)
      from FromKubeConfig None Inr assms(1)
      have "loopM (load_context env cfg) order (kr, h) = Inr (kr', h')" "err = None"
        by (auto simp: LoadKubeConfig_def elim!: bnd_InrE)
      from load_contexts_alike [OF this(1) assms(2)] this(2) FromKubeConfig None Inr show ?thesis
        by (auto simp: LoadKubeConfig_def)
    qed (use FromKubeConfig None assms in \<open>simp add: LoadKubeConfig_def\<close>)
  qed (use FromKubeConfig assms in \<open>simp add: LoadKubeConfig_def\<close>)
next
  case FromCluster
  with assms show ?thesis
    by (cases st) (auto simp: loadInCluster_def Let_def alike_def alloc_def map_put_eq_Inr_iff
        split: option.splits sum.splits if_splits elim!: bnd_InrE)
qed (use assms in simp_all)

text \<open>
  C19: Any two goroutines that load into the same set without a default, each of which would choose
  one if it ran alone, can both find that there is none: there is an interleaving in which the second
  one returns with its default in place, and the next step of the first one replaces it.
\<close>

theorem concurrent_loads_replace_default:
  assumes "i \<noteq> j" and "k8_ByName (fst st) \<noteq> None" and "k8_Default (fst st) = None"
    and "local_load env (Ls i) st = Some (Inr (err1, kr1, h1))" and "k8_Default kr1 \<noteq> None"
    and "local_load env (Ls j) st = Some (Inr (err2, kr2, h2))" and "k8_Default kr2 \<noteq> None"
  shows "\<exists>sched r1 r2. r1 \<noteq> r2
    \<and> fst (run_pool sched (\<lambda>i. load_prog env api (Ls i), idle_set ((g, st), w))) j = Return (Loaded err2)
    \<and> k8_Default (sh_K8S (snd (run_pool sched (\<lambda>i. load_prog env api (Ls i), idle_set ((g, st), w))))) = Some r2
    \<and> k8_Default (sh_K8S (snd (run_pool (sched @ [i]) (\<lambda>i. load_prog env api (Ls i), idle_set ((g, st), w))))) = Some r1"
proof -
  let ?P = "\<lambda>i. load_prog env api (Ls i)" and ?s = "idle_set ((g, st), w)"
  have st: "(sh_K8S ?s, sh_clusters ?s) = st" "sh_K8S ?s = fst st" by (cases st; simp add: idle_set_def)+
  have "\<exists>r q s1. goes (?P i) ?s (set_Default r q) s1 \<and> about_to_choose r s1"
    by (rule load_to_default [OF _ assms(5)]) (use assms(2-4) st in simp_all)
  then obtain r q s1 where first: "goes (?P i) ?s (set_Default r q) s1" "about_to_choose r s1" by blast
  have "alike (fst st) (Suc r) (sh_K8S s1, sh_clusters s1)"
    using first(2) assms(3) by (simp add: alike_def about_to_choose_def)
  with local_load_alike [of env "Ls j" "fst st" "snd st"] assms(6) obtain kr h where
    second: "local_load env (Ls j) (sh_K8S s1, sh_clusters s1) = Some (Inr (err2, kr, h))" "alike kr2 (Suc r) (kr, h)"
    by fastforce
  from second(2) assms(7) obtain r2 where r2: "k8_Default kr = Some r2" "r < r2"
    by (auto simp: alike_def)
  let ?s2 = "s1\<lparr>sh_K8S := kr, sh_clusters := h\<rparr>"
  have "alone (?P j) s1 = Inr (Loaded err2, ?s2)"
    by (rule local_load_alone [OF second(1)]) (use first(2) in \<open>simp add: about_to_choose_def\<close>)
  from goes_run_then [where P = ?P, OF first(1) goes_alone [OF this] assms(1)] obtain sched where
    run: "run_pool sched (?P, ?s) = (?P(i := set_Default r q, j := Return (Loaded err2)), ?s2)" by blast
  have "snd (pool_step i (?P(i := set_Default r q, j := Return (Loaded err2)), ?s2))
      = ?s2\<lparr>sh_K8S := kr\<lparr>k8_Default := Some r\<rparr>\<rparr>"
    using assms(1) by (simp add: pool_step_def set_Default_def wr_def)
  then have "k8_Default (sh_K8S (snd (run_pool (sched @ [i]) (?P, ?s)))) = Some r"
    by (simp only: run_pool_simps run) simp
  moreover have "fst (run_pool sched (?P, ?s)) j = Return (Loaded err2)"
    "k8_Default (sh_K8S (snd (run_pool sched (?P, ?s)))) = Some r2" by (simp_all add: run r2(1))
  ultimately show ?thesis using r2(2) by (intro exI [of _ sched] exI [of _ r] exI [of _ r2]) simp
qed

theorem concurrent_loads_replace_default_witness:
  "\<exists>sched r1 r2. r1 \<noteq> r2
    \<and> k8_Default (sh_K8S (snd (run_pool sched (\<lambda>i. load_prog demo_env demo_gcp (FromKubeConfig [''b'', ''a''] []),
         idle_set ((demo_gke, empty_set), 0))))) = Some r2
    \<and> k8_Default (sh_K8S (snd (run_pool (sched @ [False]) (\<lambda>i. load_prog demo_env demo_gcp (FromKubeConfig [''b'', ''a''] []),
         idle_set ((demo_gke, empty_set), 0))))) = Some r1"
proof -
  obtain kr h where load: "local_load demo_env (FromKubeConfig [''b'', ''a''] []) empty_set = Some (Inr (None, kr, h))"
    "k8_Default kr = Some 0" by (rule demo_load_empty)
  have "k8_ByName (fst empty_set) \<noteq> None" "k8_Default (fst empty_set) = None" "k8_Default kr \<noteq> None"
    using load(2) by (simp_all add: empty_set_def zero_K8S_def)
  from concurrent_loads_replace_default [where i = False and j = True and Ls = "\<lambda>_. FromKubeConfig [''b'', ''a''] []"
      and api = demo_gcp and g = demo_gke and w = 0, OF _ this(1,2) load(1) this(3) load(1) this(3)]
  show ?thesis by (simp only: not_False_eq_True simp_thms) blast
qed

end
