(* ===== verification/FindThreads.thy ===== *)
theory FindThreads
  imports LoadThreads
begin

text \<open>
  The choice of a default step by step (\<open>gcp/autodetect.go\<close>): \<open>FindCluster\<close> reads an entry of the map,
  calls methods of the cluster behind it, whose steps are those of theory \<open>ClusterThreads\<close>, and goes
  on to the next entry; \<open>Autodetect\<close> runs two loaders (theory \<open>Loaders\<close>) before it. Searches that run
  among requests and methods of the same clusters make the choice they make alone.
\<close>

section \<open>FindCluster\<close>

text \<open>A method of a cluster of the set.\<close>

definition on_cluster :: "ref \<Rightarrow> (K8SCluster \<times> 'w, 'r) prog \<Rightarrow> ('w shared_set, 'r) prog" where
  "on_cluster r p = focus (\<lambda>s. at_cluster r (set_world_of s))
     (\<lambda>x s. put_set_world (put_cluster r x (set_world_of s)) s) p"

definition in_region_prog :: "string \<Rightarrow> ref \<Rightarrow> ('w shared_set, bool) prog" where
  "in_region_prog myRegion r =
     (if myRegion \<noteq> [] then seq (on_cluster r Location_prog) (\<lambda>loc. Return (has_prefix loc myRegion)) else Return True)"

definition has_name_prog :: "string \<Rightarrow> ref \<Rightarrow> ('w shared_set, bool) prog" where
  "has_name_prog clusterName r = seq (on_cluster r (rd_field kc_Name Return)) (\<lambda>n. Return (contains n clusterName))"

definition in_region_has_name_prog :: "string \<Rightarrow> string \<Rightarrow> ref \<Rightarrow> ('w shared_set, bool) prog" where
  "in_region_has_name_prog myRegion clusterName r =
     seq (in_region_prog myRegion r) (\<lambda>hit. if hit then has_name_prog clusterName r else Return False)"

text \<open>One loop over the map, which breaks at the first hit.\<close>

primrec range_find_prog :: "(ref \<Rightarrow> ('w shared_set, bool) prog) \<Rightarrow> string list \<Rightarrow> ('w shared_set, ref option) prog" where
  "range_find_prog t [] = Return None"
| "range_find_prog t (k # ks) = get_name k (\<lambda>c. case c of
       None \<Rightarrow> range_find_prog t ks
     | Some r \<Rightarrow> seq (t r) (\<lambda>hit. if hit then Return (Some r) else range_find_prog t ks))"

definition FindCluster_prog :: "(nat \<Rightarrow> string list) \<Rightarrow> string \<Rightarrow> string \<Rightarrow> ('w shared_set, ref option) prog" where
  "FindCluster_prog order myRegion clusterName =
     seq (if clusterName \<noteq> [] then
            seq (range_find_prog (in_region_has_name_prog myRegion clusterName) (order 0)) (\<lambda>cl.
              if cl = None then range_find_prog (has_name_prog clusterName) (order 1) else Return cl)
          else Return None) (\<lambda>cl.
     seq (if cl = None then range_find_prog (in_region_prog myRegion) (order 2) else Return cl) (\<lambda>cl.
       if cl = None then range_find_prog (\<lambda>r. Return True) (order 3) else Return cl))"

section \<open>Autodetect\<close>



section \<open>The steps without interruption\<close>

lemma on_cluster_part: "part_of (\<lambda>s. at_cluster r (set_world_of s)) (\<lambda>x s. put_set_world (put_cluster r x (set_world_of s)) s)"
proof -
  have put: "put_set_world (set_world_of s) s = s" "put_set_world x (put_set_world y s) = put_set_world x s" for s :: "'a shared_set" and x y
    by (auto simp: put_set_world_def set_world_of_def split: prod.split)
  show ?thesis
    unfolding part_of_def
  proof (intro allI impI)
    fix t :: "'a shared_set" and x x'
    assume "at_cluster r (set_world_of t) = Some x"
    from cluster_part [of r, unfolded part_of_def, rule_format, OF this]
    show "at_cluster r (set_world_of (put_set_world (put_cluster r x' (set_world_of t)) t)) = Some x'
      \<and> put_set_world (put_cluster r x (set_world_of t)) t = t
      \<and> (\<forall>x''. put_set_world (put_cluster r x'' (set_world_of (put_set_world (put_cluster r x' (set_world_of t)) t)))
              (put_set_world (put_cluster r x' (set_world_of t)) t)
            = put_set_world (put_cluster r x'' (set_world_of t)) t)"
      by (simp only: set_world_of_put put simp_thms)
  qed
qed

lemma alone_on_cluster:
  assumes "\<And>k w. alone p (k, w) = bnd (f k) (\<lambda>(x, k'). Inr (x, k', w))" and "\<And>x. p \<noteq> Return x" and "\<And>e. p \<noteq> Panic e"
  shows "alone (on_cluster r p) s = bnd (via f (Some r) (sh_clusters s)) (\<lambda>(x, h). Inr (x, s\<lparr>sh_clusters := h\<rparr>))"
proof (cases "cells (sh_clusters s) r")
  case None
  with assms(2,3) show ?thesis
    by (cases p) (auto simp: on_cluster_def at_cluster_def set_world_of_def via_def load_def)
next
  case (Some k)
  then have "at_cluster r (set_world_of s) = Some (k, sh_world s)" by (simp add: at_cluster_def set_world_of_def)
  from alone_focus [OF on_cluster_part, OF this, of p] Some show ?thesis
    by (cases s; cases "f k") (auto simp: on_cluster_def assms(1) via_def load_def save_def put_set_world_def put_cluster_def set_world_of_def)
qed

lemma alone_in_region:
  "alone (in_region_prog reg r) s = bnd (in_region reg r (sh_clusters s)) (\<lambda>(x, h). Inr (x, s\<lparr>sh_clusters := h\<rparr>))"
proof -
  have "alone (on_cluster r Location_prog) s = bnd (via Location (Some r) (sh_clusters s)) (\<lambda>(x, h). Inr (x, s\<lparr>sh_clusters := h\<rparr>))"
    by (rule alone_on_cluster) (simp_all add: alone_Location, simp_all add: Location_prog_def rd_field_def rd_def)
  then show ?thesis by (auto simp: in_region_prog_def in_region_def bnd_assoc intro!: bnd_cong)
qed

lemma via_read: "via (\<lambda>k. Inr (f k, k)) (Some r) h = bnd (load h (Some r)) (\<lambda>k. Inr (f k, h))"
  by (cases h; cases "cells h r") (auto simp: via_def load_def save_def fun_upd_idem)

lemma alone_has_name:
  "alone (has_name_prog n r) s = bnd (has_name n r (sh_clusters s)) (\<lambda>(x, h). Inr (x, s\<lparr>sh_clusters := h\<rparr>))"
proof -
  have "alone (on_cluster r (rd_field kc_Name Return)) s
      = bnd (via (\<lambda>k. Inr (kc_Name k, k)) (Some r) (sh_clusters s)) (\<lambda>(x, h). Inr (x, s\<lparr>sh_clusters := h\<rparr>))"
    by (rule alone_on_cluster) (simp_all add: rd_field_def rd_def)
  then show ?thesis by (auto simp: has_name_prog_def has_name_def via_read bnd_assoc intro!: bnd_cong)
qed

lemma alone_in_region_has_name:
  "alone (in_region_has_name_prog reg n r) s
    = bnd (in_region_has_name reg n r (sh_clusters s)) (\<lambda>(x, h). Inr (x, s\<lparr>sh_clusters := h\<rparr>))"
  by (cases s) (auto simp: in_region_has_name_prog_def in_region_has_name_def alone_in_region alone_has_name bnd_assoc intro!: bnd_cong)

lemma alone_range_find:
  assumes "\<And>r s. alone (tp r) s = bnd (t r (sh_clusters s)) (\<lambda>(x, h). Inr (x, s\<lparr>sh_clusters := h\<rparr>))" and "\<not> sh_writing s"
  shows "alone (range_find_prog tp order) s
    = bnd (range_find (sh_K8S s) order t (sh_clusters s)) (\<lambda>(x, h). Inr (x, s\<lparr>sh_clusters := h\<rparr>))"
  using assms(2)
proof (induction order arbitrary: s)
  case (Cons k ks)
  show ?case
  proof (cases "map_get (k8_ByName (sh_K8S s)) k")
    case None
    with Cons show ?thesis by (simp add: range_find_def range_test_def)
  next
    case (Some r)
    show ?thesis
    proof (cases "t r (sh_clusters s)")
      case (Inl e)
      with Some Cons.prems show ?thesis by (simp add: range_find_def range_test_def assms(1))
    next
      case (Inr x)
      obtain hit h where x: "x = (hit, h)" by (cases x)
      have "alone (range_find_prog tp ks) (s\<lparr>sh_clusters := h\<rparr>) = bnd (range_find (sh_K8S s) ks t h) (\<lambda>(x, h). Inr (x, s\<lparr>sh_clusters := h\<rparr>))"
        using Cons.IH [of "s\<lparr>sh_clusters := h\<rparr>"] Cons.prems by simp
      with Some Inr x Cons.prems show ?thesis
        by (cases hit) (simp_all add: range_find_def range_test_def assms(1))
    qed
  qed
qed (simp add: range_find_def)

lemma alone_FindCluster:
  assumes "\<not> sh_writing s"
  shows "alone (FindCluster_prog order reg n) s
    = bnd (FindCluster order (sh_K8S s) reg n (sh_clusters s)) (\<lambda>(x, h). Inr (x, s\<lparr>sh_clusters := h\<rparr>))"
proof -
  have any: "alone (Return True) s = bnd (Inr (True, sh_clusters s)) (\<lambda>(x, h). Inr (x, s\<lparr>sh_clusters := h\<rparr>))" for s :: "'a shared_set"
    by simp
  note find = alone_range_find [OF alone_in_region_has_name] alone_range_find [OF alone_has_name]
    alone_range_find [OF alone_in_region] alone_range_find [OF any]
  show ?thesis
    using assms by (auto simp: FindCluster_prog_def FindCluster_def find bnd_assoc intro!: bnd_cong)
qed







section \<open>Searches among methods\<close>

text \<open>What methods and searches keep: the order of theory \<open>Lifecycle\<close>, and all the loaders look at.\<close>

definition quiet :: "'w k8s_api \<Rightarrow> 'w shared_set \<Rightarrow> 'w shared_set \<Rightarrow> bool" where
  "quiet api s s' \<longleftrightarrow> guarded_rely api s s' \<and> load_view s = load_view s'"

interpretation qr: rely_guarantee "quiet api" for api
  by unfold_locales (auto simp: quiet_def intro: gr.R_refl gr.R_trans)

text \<open>The clusters of the set behind the pointers, as they were at first up to what methods change.\<close>

definition searchable :: "K8S \<Rightarrow> (ref \<Rightarrow> string) \<Rightarrow> 'w shared_set \<Rightarrow> bool" where
  "searchable kr nm s \<longleftrightarrow> set_ok (sh_K8S s, sh_clusters s) \<and> sh_K8S s = kr \<and> \<not> sh_writing s
     \<and> (\<forall>k r. map_get (k8_ByName kr) k = Some r \<longrightarrow> (\<exists>c. cells (sh_clusters s) r = Some c
          \<and> kc_Name c = nm r \<and> name_ok (nm r) \<and> caches_inv c))"

lemma quiet_cell:
  assumes "quiet api s s'" and "set_ok (sh_K8S s, sh_clusters s)" and "cells (sh_clusters s) r = Some c"
  shows "\<exists>c'. cells (sh_clusters s') r = Some c' \<and> cluster_rely api c c'"
  using clc.grows_cell [of api "(sh_K8S s, sh_clusters s)" "(sh_K8S s', sh_clusters s')" r c] assms
  by (simp add: quiet_def guarded_rely_eq)

lemma searchable_stable:
  assumes "searchable kr nm s" and "quiet api s s'"
  shows "searchable kr nm s'"
proof -
  have ok: "set_ok (sh_K8S s, sh_clusters s)" using assms(1) unfolding searchable_def by blast
  have "\<exists>c. cells (sh_clusters s') r = Some c \<and> kc_Name c = nm r \<and> name_ok (nm r) \<and> caches_inv c"
    if reg: "map_get (k8_ByName kr) k = Some r" for k r
  proof -
    obtain c where c: "cells (sh_clusters s) r = Some c" "kc_Name c = nm r" "name_ok (nm r)" "caches_inv c"
      using assms(1) [unfolded searchable_def] reg by blast
    from quiet_cell [OF assms(2) ok c(1)] c show ?thesis by (auto simp: cluster_rely_def caches_grow_def)
  qed
  moreover have "set_ok (sh_K8S s', sh_clusters s')" "sh_K8S s' = kr" "\<not> sh_writing s'"
    using assms by (auto simp: searchable_def quiet_def load_view_eq guarded_rely_eq grows_def)
  ultimately show ?thesis unfolding searchable_def by blast
qed

lemma g_on_cluster:
  fixes s :: "'w shared_set"
  assumes "searchable kr nm s" and "map_get (k8_ByName kr) k = Some r"
    and "cells (sh_clusters s) r = Some c" and "guarantees (shared_rely api) p (c, sh_world s) (\<lambda>x _. Q x)"
  shows "guarantees (quiet api) (on_cluster r p) s (\<lambda>x _. Q x)"
proof -
  let ?get = "\<lambda>s :: 'w shared_set. at_cluster r (set_world_of s)"
    and ?put = "\<lambda>x (s :: 'w shared_set). put_set_world (put_cluster r x (set_world_of s)) s"
  have cell: "\<exists>c. cells (sh_clusters t) r = Some c" if "searchable kr nm t" for t :: "'w shared_set"
    using that assms(2) by (auto simp: searchable_def)
  have "guarantees (quiet api) (focus ?get ?put p) s (\<lambda>x t'. \<exists>s'. ?get t' = Some s' \<and> Q x)"
  proof (rule guarantees_focus [where ok = "searchable kr nm" and R' = "shared_rely api"])
    show "guarantees (shared_rely api) p (c, sh_world s) (\<lambda>x _. Q x)" by (rule assms(4))
    show "searchable kr nm s" by (rule assms(1))
    show "?get s = Some (c, sh_world s)" using assms(3) by (simp add: at_cluster_def set_world_of_def)
    show "searchable kr nm t'" if "quiet api t t'" "searchable kr nm t" for t t'
      by (rule searchable_stable [OF that(2,1)])
    show "\<exists>x. ?get t = Some x" if "searchable kr nm t" for t
      using cell [OF that] by (auto simp: at_cluster_def set_world_of_def)
    show "\<exists>x'. ?get t' = Some x' \<and> shared_rely api x x'"
      if "quiet api t t'" "searchable kr nm t" "?get t = Some x" for t t' x
    proof -
      have "set_ok (sh_K8S t, sh_clusters t)" "cells (sh_clusters t) r = Some (fst x)"
        using that(2,3) by (auto simp: searchable_def at_cluster_def set_world_of_def)
      from quiet_cell [OF that(1) this] show ?thesis
        by (auto simp: at_cluster_def set_world_of_def shared_rely_def)
    qed
    show "quiet api t (?put x' t) \<and> ?get (?put x' t) = Some x'"
      if "searchable kr nm t" "?get t = Some x" "shared_rely api x x'" for t x x'
    proof -
      have c: "cells (sh_clusters t) r = Some (fst x)" "cluster_rely api (fst x) (fst x')"
        using that(2,3) by (auto simp: at_cluster_def set_world_of_def shared_rely_def)
      let ?h = "(sh_clusters t)\<lparr>cells := (cells (sh_clusters t))(r \<mapsto> fst x')\<rparr>"
      have "h_grows (cluster_rely api) (sh_clusters t) ?h" using c by (auto simp: h_grows_def wf_store_def)
      moreover have "?put x' t = t\<lparr>sh_clusters := ?h, sh_world := snd x'\<rparr>"
        by (simp add: put_set_world_def put_cluster_def set_world_of_def)
      ultimately show ?thesis
        using c(1) clc.grows_heap [of api "sh_clusters t" ?h "sh_K8S t"]
        by (auto simp: quiet_def guarded_rely_eq load_view_eq at_cluster_def set_world_of_def)
    qed
  qed
  then show ?thesis unfolding on_cluster_def by (rule qr.g_mono) blast
qed

lemma searchable_cluster:
  assumes "searchable kr nm s" and "map_get (k8_ByName kr) k = Some r"
  obtains c where "cells (sh_clusters s) r = Some c" and "kc_Name c = nm r" and "name_ok (nm r)" and "caches_inv c"
  using assms unfolding searchable_def by blast

text \<open>The tests decide by the name.\<close>

definition region_hit :: "string \<Rightarrow> string \<Rightarrow> bool" where
  "region_hit reg n \<longleftrightarrow> reg = [] \<or> has_prefix (name_location n) reg"

lemma g_in_region:
  assumes "searchable kr nm s" and "map_get (k8_ByName kr) k = Some r"
  shows "guarantees (quiet api) (in_region_prog reg r) s (\<lambda>x _. x = region_hit reg (nm r))"
proof (cases "reg = []")
  case False
  obtain c where c: "cells (sh_clusters s) r = Some c" "kc_Name c = nm r" "name_ok (nm r)" "caches_inv c"
    by (rule searchable_cluster [OF assms])
  have "guarantees (quiet api) (on_cluster r Location_prog) s (\<lambda>x _. x = name_location (nm r))"
    by (rule g_on_cluster [OF assms c(1)], rule g_Location) (use c in simp_all)
  with False show ?thesis
    by (simp add: in_region_prog_def) (rule qr.g_seq, assumption, simp add: region_hit_def)
qed (simp add: in_region_prog_def region_hit_def)

lemma g_has_name:
  assumes "searchable kr nm s" and "map_get (k8_ByName kr) k = Some r"
  shows "guarantees (quiet api) (has_name_prog n r) s (\<lambda>x _. x = contains (nm r) n)"
proof -
  obtain c where c: "cells (sh_clusters s) r = Some c" "kc_Name c = nm r"
    by (rule searchable_cluster [OF assms])
  have "guarantees (quiet api) (on_cluster r (rd_field kc_Name Return)) s (\<lambda>x _. x = nm r)"
    by (rule g_on_cluster [OF assms c(1)], rule g_field) (use c(2) in \<open>simp add: shared_relyD\<close>)
  then show ?thesis unfolding has_name_prog_def by (rule qr.g_seq) simp
qed

lemma g_in_region_has_name:
  assumes "searchable kr nm s" and "map_get (k8_ByName kr) k = Some r"
  shows "guarantees (quiet api) (in_region_has_name_prog reg n r) s
    (\<lambda>x _. x = (region_hit reg (nm r) \<and> contains (nm r) n))"
  unfolding in_region_has_name_prog_def
proof (rule qr.g_seq [OF g_in_region [OF assms]])
  fix x s'
  assume "quiet api s s'" and x: "x = region_hit reg (nm r)"
  then have "searchable kr nm s'" using searchable_stable [OF assms(1)] by blast
  from g_has_name [OF this assms(2)] x
  show "guarantees (quiet api) (if x then has_name_prog n r else Return False) s'
      (\<lambda>x _. x = (region_hit reg (nm r) \<and> contains (nm r) n))" by simp
qed

text \<open>A loop finds the first cluster that fits.\<close>

fun first_fit :: "K8S \<Rightarrow> (ref \<Rightarrow> bool) \<Rightarrow> string list \<Rightarrow> ref option" where
  "first_fit kr T [] = None"
| "first_fit kr T (k # ks) = (case map_get (k8_ByName kr) k of
       None \<Rightarrow> first_fit kr T ks
     | Some r \<Rightarrow> if T r then Some r else first_fit kr T ks)"

lemma g_range_find:
  assumes "\<And>k r s. searchable kr nm s \<Longrightarrow> map_get (k8_ByName kr) k = Some r \<Longrightarrow> guarantees (quiet api) (t r) s (\<lambda>x _. x = T r)"
    and "searchable kr nm s"
  shows "guarantees (quiet api) (range_find_prog t order) s (\<lambda>x _. x = first_fit kr T order)"
  using assms(2)
proof (induction order arbitrary: s)
  case (Cons k ks)
  show ?case
    unfolding range_find_prog.simps get_name_def
  proof (rule qr.g_rd)
    fix s1
    assume "quiet api s s1"
    then have s1: "searchable kr nm s1" by (rule searchable_stable [OF Cons.prems])
    then have kr: "\<not> sh_writing s1" "sh_K8S s1 = kr" by (simp_all add: searchable_def)
    have "guarantees (quiet api) (case map_get (k8_ByName kr) k of None \<Rightarrow> range_find_prog t ks
        | Some r \<Rightarrow> seq (t r) (\<lambda>hit. if hit then Return (Some r) else range_find_prog t ks)) s1
        (\<lambda>x _. x = first_fit kr T (k # ks))"
    proof (cases "map_get (k8_ByName kr) k")
      case None
      with Cons.IH [OF s1] show ?thesis by simp
    next
      case (Some r)
      have "guarantees (quiet api) (seq (t r) (\<lambda>hit. if hit then Return (Some r) else range_find_prog t ks)) s1
          (\<lambda>x _. x = first_fit kr T (k # ks))"
        by (rule qr.g_seq [OF assms(1) [OF s1 Some]])
          (use Some Cons.IH [OF searchable_stable [OF s1]] in auto)
      with Some show ?thesis by simp
    qed
    with kr show "guarantees (quiet api) (local_exec (if sh_writing s1 then Inl ConcurrentMapAccess
          else Inr (map_get (k8_ByName (sh_K8S s1)) k)) (\<lambda>c. case c of None \<Rightarrow> range_find_prog t ks
        | Some r \<Rightarrow> seq (t r) (\<lambda>hit. if hit then Return (Some r) else range_find_prog t ks))) s1
        (\<lambda>x _. x = first_fit kr T (k # ks))"
      by (simp only: if_False local_exec_def sum.case)
  qed
qed simp

definition choice :: "K8S \<Rightarrow> (ref \<Rightarrow> string) \<Rightarrow> (nat \<Rightarrow> string list) \<Rightarrow> string \<Rightarrow> string \<Rightarrow> ref option" where
  "choice kr nm order reg n =
     (let cl = (if n \<noteq> [] then
            (case first_fit kr (\<lambda>r. region_hit reg (nm r) \<and> contains (nm r) n) (order 0) of
               None \<Rightarrow> first_fit kr (\<lambda>r. contains (nm r) n) (order 1) | Some r \<Rightarrow> Some r)
          else None);
          cl = (if cl = None then first_fit kr (\<lambda>r. region_hit reg (nm r)) (order 2) else cl)
      in if cl = None then first_fit kr (\<lambda>r. True) (order 3) else cl)"

lemma g_FindCluster:
  assumes "searchable kr nm s"
  shows "guarantees (quiet api) (FindCluster_prog order reg n) s (\<lambda>x _. x = choice kr nm order reg n)"
proof -
  note stable = searchable_stable
  have any: "guarantees (quiet api) (Return True) s (\<lambda>x _. x = True)" for s :: "'a shared_set" by simp
  have then_find: "guarantees (quiet api) (if cl = None then range_find_prog t ord else Return cl) s'
      (\<lambda>x _. x = (if cl = None then first_fit kr T ord else cl))"
    if "\<And>k r s. searchable kr nm s \<Longrightarrow> map_get (k8_ByName kr) k = Some r \<Longrightarrow> guarantees (quiet api) (t r) s (\<lambda>x _. x = T r)"
      "searchable kr nm s'" for t T cl ord s'
    using g_range_find [OF that] by simp
  have 1: "guarantees (quiet api) (if n \<noteq> [] then
            seq (range_find_prog (in_region_has_name_prog reg n) (order 0)) (\<lambda>cl.
              if cl = None then range_find_prog (has_name_prog n) (order 1) else Return cl)
          else Return None) s (\<lambda>x _. x = (if n \<noteq> [] then
            (case first_fit kr (\<lambda>r. region_hit reg (nm r) \<and> contains (nm r) n) (order 0) of
               None \<Rightarrow> first_fit kr (\<lambda>r. contains (nm r) n) (order 1) | Some r \<Rightarrow> Some r)
          else None))"
  proof (cases "n = []")
    case False
    have "guarantees (quiet api) (seq (range_find_prog (in_region_has_name_prog reg n) (order 0)) (\<lambda>cl.
              if cl = None then range_find_prog (has_name_prog n) (order 1) else Return cl)) s
      (\<lambda>x _. x = (case first_fit kr (\<lambda>r. region_hit reg (nm r) \<and> contains (nm r) n) (order 0) of
               None \<Rightarrow> first_fit kr (\<lambda>r. contains (nm r) n) (order 1) | Some r \<Rightarrow> Some r))"
      by (rule qr.g_seq [OF g_range_find [OF g_in_region_has_name assms]], assumption, assumption)
        (rule qr.g_mono [OF then_find [OF g_has_name stable [OF assms]]]; auto split: option.split)
    with False show ?thesis by simp
  qed simp
  have 2: "guarantees (quiet api) (if cl = None then range_find_prog (in_region_prog reg) (order 2) else Return cl) s1
      (\<lambda>x _. x = (if cl = None then first_fit kr (\<lambda>r. region_hit reg (nm r)) (order 2) else cl))"
    if "searchable kr nm s1" for s1 cl by (rule then_find [OF g_in_region that])
  have 3: "guarantees (quiet api) (if cl = None then range_find_prog (\<lambda>r. Return True) (order 3) else Return cl) s2
      (\<lambda>x _. x = (if cl = None then first_fit kr (\<lambda>r. True) (order 3) else cl))"
    if "searchable kr nm s2" for s2 cl by (rule then_find [OF any that])
  show ?thesis
    unfolding FindCluster_prog_def
  proof (rule qr.g_seq [OF 1], rule qr.g_seq [OF 2])
    fix x s1
    assume s1: "quiet api s s1"
    show "searchable kr nm s1" by (rule stable [OF assms s1])
    fix y s2
    assume s2: "quiet api s1 s2"
    show "guarantees (quiet api) (if y = None then range_find_prog (\<lambda>r. Return True) (order 3) else Return y) s2
        (\<lambda>x _. x = choice kr nm order reg n)"
      if "x = (if n \<noteq> [] then
            (case first_fit kr (\<lambda>r. region_hit reg (nm r) \<and> contains (nm r) n) (order 0) of
               None \<Rightarrow> first_fit kr (\<lambda>r. contains (nm r) n) (order 1) | Some r \<Rightarrow> Some r)
          else None)"
        "y = (if x = None then first_fit kr (\<lambda>r. region_hit reg (nm r)) (order 2) else x)"
      by (rule qr.g_mono [OF 3 [OF stable [OF stable [OF assms s1] s2]]]) (simp only: that choice_def Let_def)
  qed
qed

section \<open>Searches and methods\<close>

datatype task = Search "nat \<Rightarrow> string list" string string | Use ref cluster_call
datatype found_out = Chosen "ref option" | Used cluster_answer

fun task_prog :: "'w k8s_api \<Rightarrow> task \<Rightarrow> ('w shared_set, found_out) prog" where
  "task_prog api (Search order reg n) = seq (FindCluster_prog order reg n) (\<lambda>x. Return (Chosen x))"
| "task_prog api (Use r c) = seq (on_cluster r (call_prog api c)) (\<lambda>a. Return (Used a))"

text \<open>A set all of whose clusters can be used, and what is asked of it.\<close>

definition usable_set :: "'w k8s_api \<Rightarrow> 'w shared_set \<Rightarrow> bool" where
  "usable_set api s \<longleftrightarrow> set_ok (sh_K8S s, sh_clusters s) \<and> \<not> sh_writing s
     \<and> (\<forall>k r. map_get (k8_ByName (sh_K8S s)) k = Some r \<longrightarrow> (\<exists>c. cells (sh_clusters s) r = Some c \<and> usable api c))"

fun task_ok :: "'w shared_set \<Rightarrow> task \<Rightarrow> bool" where
  "task_ok s (Search order reg n) \<longleftrightarrow> (\<forall>j. range_order (order j) (map_get (k8_ByName (sh_K8S s))))"
| "task_ok s (Use r c) \<longleftrightarrow> (\<exists>k. map_get (k8_ByName (sh_K8S s)) k = Some r)"

fun task_result :: "'w k8s_api \<Rightarrow> 'w shared_set \<Rightarrow> task \<Rightarrow> found_out \<Rightarrow> bool" where
  "task_result api s (Search order reg n) x \<longleftrightarrow> (\<exists>cl h. x = Chosen cl
     \<and> FindCluster order (sh_K8S s) reg n (sh_clusters s) = Inr (cl, h)
     \<and> best_choice reg n (sh_K8S s) (sh_clusters s) cl)"
| "task_result api s (Use r c) x \<longleftrightarrow> (\<exists>k a. cells (sh_clusters s) r = Some k \<and> x = Used a \<and> answer_ok api k c a)"

lemma cached_location: "caches_inv c \<Longrightarrow> cache_ok c"
  by (auto simp: caches_inv_def cache_ok_def name_location_def name_info_def loc_of_def Let_def split: if_splits)

lemma usable_searchable:
  assumes "usable_set api s"
  shows "searchable (sh_K8S s) (\<lambda>r. kc_Name (the (cells (sh_clusters s) r))) s"
    and "readable (sh_K8S s) (sh_clusters s)"
  using assms unfolding usable_set_def searchable_def readable_def usable_def
  by (fastforce intro: cached_location)+

lemma g_task:
  assumes "usable_set api s" and "task_ok s t"
  shows "guarantees (quiet api) (task_prog api t) s (\<lambda>x _. task_result api s t x)"
proof (cases t)
  case (Search order reg n)
  let ?ch = "choice (sh_K8S s) (\<lambda>r. kc_Name (the (cells (sh_clusters s) r))) order reg n"
  from FindCluster_run [OF usable_searchable(2) [OF assms(1)]] assms(2) Search obtain cl h where
    alone: "FindCluster order (sh_K8S s) reg n (sh_clusters s) = Inr (cl, h)" "best_choice reg n (sh_K8S s) (sh_clusters s) cl"
    by fastforce
  have g: "guarantees (quiet api) (FindCluster_prog order reg n) s (\<lambda>x _. x = ?ch)"
    by (rule g_FindCluster [OF usable_searchable(1) [OF assms(1)]])
  have "\<not> sh_writing s" using assms(1) by (simp add: usable_set_def)
  from alone_FindCluster [OF this, of order reg n] alone(1)
  have "alone (FindCluster_prog order reg n) s = Inr (cl, s\<lparr>sh_clusters := h\<rparr>)" by simp
  from guarantees_alone [OF g qr.R_refl this] have "?ch = cl" by simp
  with g alone Search show ?thesis by (simp, intro qr.g_seq) auto
next
  case (Use r c)
  with assms(2) obtain k where k: "map_get (k8_ByName (sh_K8S s)) k = Some r" by auto
  with assms(1) obtain cl where c: "map_get (k8_ByName (sh_K8S s)) k = Some r" "cells (sh_clusters s) r = Some cl" "usable api cl"
    unfolding usable_set_def by blast
  from g_on_cluster [OF usable_searchable(1) [OF assms(1)] c(1,2) g_call_prog [OF c(3)], of c] c(2) Use
  show ?thesis by (simp, intro qr.g_seq) auto
qed

text \<open>
  C14: Goroutines that choose a default and goroutines that call methods of the clusters of one set, whose
  steps interleave in any way while the servers change as they like, on a set in which every cluster
  can be used. No goroutine panics. Every \<open>FindCluster\<close> that has returned has returned the cluster
  that it chooses alone, which is a best choice, though the caches that it reads are being filled by
  others; every method that has returned has returned an answer it gives alone.
\<close>

theorem searches_choose_as_alone:
  assumes "usable_set api t" and "\<And>i. task_ok t (tasks i)"
    and "pool_reach (\<lambda>s s'. \<exists>w. s' = s\<lparr>sh_world := w\<rparr>) (\<lambda>i. task_prog api (tasks i), t) (p, s)"
  shows "p i \<noteq> Panic e \<and> (p i = Return x \<longrightarrow> task_result api t (tasks i) x)"
proof -
  have start: "promised (quiet api) (\<lambda>i x _. task_result api t (tasks i) x) (\<lambda>i. task_prog api (tasks i), t)"
    by (rule qr.promised_start) (rule g_task [OF assms(1,2)])
  have "quiet api s s'" if "\<exists>w. s' = s\<lparr>sh_world := w\<rparr>" for s s' :: "'a shared_set"
    using that by (auto simp: quiet_def guarded_rely_eq load_view_eq)
  from qr.reach_promised [OF assms(3) start this] show ?thesis
    using qr.promised_result [of api "\<lambda>i x _. task_result api t (tasks i) x" "(p, s)"] by fastforce
qed

text \<open>A search for a region, and two goroutines that fill the caches of the cluster it looks at.\<close>

definition demo_found_set :: "nat shared_set" where
  "demo_found_set = idle_set ((demo_gke, zero_K8S\<lparr>k8_ByName := Some [''a'' \<mapsto> 0]\<rparr>,
     \<lparr>cells = [0 \<mapsto> demo_gke_cluster], next_ref = 1\<rparr>), 0)"

definition demo_tasks :: "nat \<Rightarrow> task" where
  "demo_tasks i = (if i = 0 then Search (\<lambda>_. [''a'']) ''us'' [] else Use 0 CallLocation)"

theorem searches_choose_as_alone_witness:
  "fst (run_pool [0, 1, 1, 0, 1, 2, 0, 0, 1, 0, 2, 0] (\<lambda>i. task_prog demo_api (demo_tasks i), demo_found_set)) 0
     \<noteq> Panic IndexOutOfRange"
proof -
  let ?ps = "run_pool [0, 1, 1, 0, 1, 2, 0, 0, 1, 0, 2, 0 :: nat]
    (\<lambda>i. task_prog demo_api (demo_tasks i), demo_found_set)"
  have set: "usable_set demo_api demo_found_set"
    using demo_gke_usable by (auto simp: usable_set_def demo_found_set_def idle_set_def set_ok_def wf_store_def zero_K8S_def split: if_splits)
  have ok: "task_ok demo_found_set (demo_tasks i)" for i
    by (auto simp: demo_tasks_def demo_found_set_def idle_set_def range_order_def split: if_splits)
  have "pool_reach (\<lambda>s s'. \<exists>w. s' = s\<lparr>sh_world := w\<rparr>) (\<lambda>i. task_prog demo_api (demo_tasks i), demo_found_set) ?ps"
    by (rule pool_reach_run, rule reach_start)
  with searches_choose_as_alone [OF set ok, where p = "fst ?ps" and s = "snd ?ps" and i = 0 and e = IndexOutOfRange]
  show ?thesis by simp
qed

text \<open>Under a fair schedule every one of them returns, with such a result.\<close>

lemma searches_return:
  assumes "usable_set api t" and "\<And>i. task_ok t (tasks i)" and "fair sched"
  shows "\<exists>n x. fst (after n sched (\<lambda>i. task_prog api (tasks i), t)) i = Return x \<and> task_result api t (tasks i) x"
proof -
  let ?ps = "(\<lambda>i. task_prog api (tasks i), t)" and ?Q = "\<lambda>i x _. task_result api t (tasks i) x"
  obtain n where n: "finished (fst (after n sched ?ps) i)" using fair_finishes [OF assms(3)] by blast
  have "promised (quiet api) ?Q ?ps" by (rule qr.promised_start) (rule g_task [OF assms(1,2)])
  moreover have "pool_reach (\<lambda>_ _. False) ?ps (after n sched ?ps)"
    unfolding after_def by (rule pool_reach_run, rule reach_start)
  ultimately have "promised (quiet api) ?Q (after n sched ?ps)" using qr.reach_promised by blast
  from qr.promised_result [OF this, of i] n show ?thesis by (cases "fst (after n sched ?ps) i") auto
qed

text \<open>But a search that looks into the map in the middle of a loader's write takes the process down.\<close>

lemma search_meets_write:
  assumes "sh_writing s" and "\<And>i. order i \<noteq> []"
  shows "alone (FindCluster_prog order reg n) s = Inl ConcurrentMapAccess"
proof -
  have "alone (range_find_prog t (order i)) s = Inl ConcurrentMapAccess" for t i
    using assms(1) assms(2) [of i] by (cases "order i") (simp_all add: get_name_def local_exec_def)
  then show ?thesis by (simp add: FindCluster_prog_def)
qed

end
