(* ===== verification/Spec2Isabelle.thy ===== *)
theory Spec2Isabelle
  imports Prelude GoStrings RefStore Cluster TokenSource ClusterTokens AuthProvider Authority CsrController ClusterSet ClusterSetFacts Base64 Gke GkeFacts Autodetect Url GkeModule IpData IpWatcher Pem DeepCopy ApiTypes OpenApi EchoServer ServerMain Iter Filters Telemetry TelemetryFacts AuthThreads Goroutines ClusterThreads RequestThreads SetThreads Lifecycle IpThreads CopyInto GeneratedCopies MetricNames Contracts Loaders LoadThreads LoadRaces FindThreads Registration
begin

text \<open>
  Verification of mk8s, a small library and a set of controllers for programs that talk to
  many Kubernetes clusters.

  \<^bold>\<open>The program.\<close> A process keeps a set of clusters (\<open>K8S\<close>, \<open>kube.go\<close>). The set is filled
  from a kubeconfig (\<open>kubeconfig.go\<close>), from the service account of the pod it runs in
  (\<open>kube.go\<close>), and, by the GKE module (\<open>gcp/gke.go\<close>), from the GKE API and the hub. One of the
  clusters is the default; when no configuration names it, \<open>gcp/autodetect.go\<close> picks it by
  region and name. A cluster (\<open>kube_cluster.go\<close>) gives a clientset, tokens for service
  accounts, config maps and secrets, and reads its project and location out of its name. The
  plugin of \<open>gcp/k8s_auth_provider.go\<close> adds a cached token to every request sent to a cluster;
  a cluster, the set and the module can be the source of these tokens.
  \<open>pkg/csrctrl\<close> is a certificate authority and a controller that signs certificate requests;
  \<open>pkg/ip\<close> keeps a map from addresses to pods, fed by informers; \<open>apiserver\<close> is a sample API
  server; \<open>gcp/telemetry.go\<close> queries and writes Google logs and metrics for a command line.

  \<^bold>\<open>The theories\<close>, by component, each with the operations of its files in their order:

  \<^item> \<open>Prelude\<close>: panics (\<open>exec\<close>), error values, maps that may be nil, loops over slices and
    maps. \<open>RefStore\<close>: pointers, as the locale \<open>ref_heap\<close> and the store that provides it.
    \<open>GoStrings\<close>, \<open>Base64\<close>, \<open>Url\<close>: what the program uses of the Go packages strings, net,
    strconv, base64 and url. \<open>Iter\<close>: iterators and streams, and the locale \<open>drain_loop\<close> of the
    loops that read one to its end.
  \<^item> \<open>Cluster\<close> (\<open>kube_cluster.go\<close>): the record \<open>K8SCluster\<close> and its methods.
    \<open>TokenSource\<close> is the interface of the same name as the locale \<open>token_source\<close>; it is
    interpreted on the cluster in \<open>ClusterTokens\<close> (\<open>kc\<close>), on the set in \<open>ClusterSetFacts\<close>
    (\<open>ks\<close>) and on the module in \<open>GkeFacts\<close> (\<open>gk\<close>). \<open>AuthProvider\<close>
    (\<open>gcp/k8s_auth_provider.go\<close>) is its client: all that is proved about authenticated
    requests is proved once in the locale and holds for the three. \<open>AuthThreads\<close> has the same
    \<open>RoundTrip\<close> as the steps of goroutines that share one round tripper without a lock.
  \<^item> \<open>Goroutines\<close>: programs whose steps are single accesses of shared state, pools of them under
    any schedule, and the locale \<open>rely_guarantee\<close>, in which a promise about each step gives one
    about every interleaving. \<open>ClusterThreads\<close> has every method of the cluster as such a program
    (\<open>GcpInfo_prog\<close>, \<open>GetToken_prog\<close>, ...), next to the operation of the same name in \<open>Cluster\<close>;
    \<open>RequestThreads\<close> has \<open>RoundTrip_prog\<close> over a source that takes steps itself (the locale
    \<open>shared_source\<close>, interpreted on the cluster and the set); \<open>SetThreads\<close> has \<open>GetToken\<close> of the
    set, while the operations of \<open>Lifecycle\<close> change the set.
  \<^item> \<open>Contracts\<close>: goroutines that rely on and promise different things (\<open>ensures\<close>, the locale
    \<open>contracts\<close>), may end with some panics, or look at a part of the state only (\<open>looks_at\<close>), and
    single schedules (\<open>goes\<close>). \<open>Loaders\<close>: the loaders of the set step by step (\<open>LoadKubeConfig_prog\<close>,
    \<open>loadInCluster_prog\<close>, \<open>LoadGKEClusters_prog\<close>, \<open>LoadHubClusters_prog\<close>), next to the operations of
    the same names in \<open>ClusterSet\<close> and \<open>Gke\<close>; a write to the map of clusters begins and ends, and any
    access in between is the fatal error of the Go run time. \<open>LoadThreads\<close> has them among requests,
    \<open>LoadRaces\<close> two of them against each other, \<open>FindThreads\<close> the choice of a default
    (\<open>FindCluster_prog\<close>, \<open>autodetect_prog\<close>) among methods of the clusters.
  \<^item> \<open>ClusterSet\<close> (\<open>kube.go\<close>, \<open>kubeconfig.go\<close>): the record \<open>K8S\<close>, \<open>LoadKubeConfig\<close>,
    \<open>loadInCluster\<close>, \<open>K8S_init\<close>, \<open>K8S_New\<close>. Clusters are shared by pointer (the default is
    also an entry of \<open>ByName\<close>), so a state of the set is the record with a store;
    \<open>ClusterSetFacts\<close> speaks of it through the views \<open>set_view\<close> (name to cluster) and
    \<open>default_view\<close>.
  \<^item> \<open>Gke\<close>, \<open>GkeFacts\<close> and \<open>GkeModule\<close> (\<open>gcp/gke.go\<close>): the record \<open>GKE\<close>, its tokens and
    project data, \<open>LoadGKEClusters\<close>, \<open>LoadHubClusters\<close>, \<open>GKECluster\<close>, and the construction
    of the module (\<open>GKE_New\<close>, \<open>NewModule\<close>, \<open>initGKE\<close>). \<open>Autodetect\<close>
    (\<open>gcp/autodetect.go\<close>): \<open>FindCluster\<close> and \<open>Autodetect\<close>, whose choice is a maximum in the
    order of the type \<open>fitness\<close>. \<open>Lifecycle\<close> has all operations that change a set as one step
    relation \<open>set_step\<close>, and the preorder \<open>grows\<close> that every step preserves; what may happen to
    one cluster is a parameter of it (the locale \<open>cluster_order\<close>).
  \<^item> \<open>Authority\<close> and \<open>CsrController\<close> (\<open>pkg/csrctrl\<close>) over \<open>Pem\<close>, the codec of encoding/pem;
    \<open>IpData\<close> and \<open>IpWatcher\<close> (\<open>pkg/ip\<close>), and \<open>IpThreads\<close>, where the handlers are the lists
    of their atomic operations and run interleaved.
  \<^item> \<open>DeepCopy\<close>: what a deep copy is on a store with aliasing (\<open>copies_deeply\<close>), and the locales
    \<open>deep_copy\<close> and \<open>deep_copy_var\<close> from which copies of slices, pointers and structs are
    built. \<open>ApiTypes\<close>: the API types with their generated copies, on these locales. \<open>CopyInto\<close>:
    copies that read and write through pointers to variables, fields and elements, with the same
    contract (the locale \<open>copy_into\<close>); \<open>GeneratedCopies\<close>: the files of the second generator in
    this form. \<open>OpenApi\<close>: the
    generated schemas as data, JSON values, and when one conforms to a schema. \<open>EchoServer\<close>
    (\<open>apiserver/pkg/server\<close>), \<open>Registration\<close> (\<open>generated.register.go\<close> of the three packages) and
    \<open>ServerMain\<close> (\<open>init\<close>, \<open>main\<close>; and \<open>Kine\<close> of \<open>kine/sqlite.go\<close>).
  \<^item> \<open>Filters\<close>, \<open>Telemetry\<close>, \<open>TelemetryFacts\<close>, \<open>MetricNames\<close> (\<open>gcp/telemetry.go\<close>): the filter
    strings with the quoting they use, the client, the commands, the exported names.

  \<^bold>\<open>Conventions.\<close> A value of type \<open>'a exec\<close> is a panic or a result, and Go errors are ordinary
  values in the result. A pointer is an address or nil; a method with a pointer receiver is a
  function on the struct that \<open>via\<close> runs on the store. The orders in which \<open>range\<close> visits a
  map are arguments, and the theorems hold for every order that \<open>range_order\<close> (or \<open>orders_ok\<close>)
  admits. Integers whose width matters are words: the \<open>int32\<close> code of an API error, the
  counters of pods and of the sample server. Times are \<open>int\<close> nanoseconds.

  \<^bold>\<open>What is a parameter.\<close> Code outside the repository is a record of functions that pass along
  the state \<open>'w\<close> of the world they act on: \<open>k8s_api\<close> (client-go), \<open>host_env\<close> (files,
  environment, the kubeconfig loader), \<open>gcp_api\<close> (GKE, hub, resource manager, metadata),
  \<open>boot_env\<close> (the mesh library and the credentials), \<open>crypto\<close> (crypto/x509, random numbers, bytes),
  \<open>informer_api\<close>, \<open>scheme_api\<close>, \<open>builder_api\<close>, \<open>resource_api\<close> and \<open>main_env\<close> (the API server library), \<open>tele_api\<close> (logging, monitoring, the clock, the time zone and Unicode
  tables), and the transport under a round tripper. What is relied on is a hypothesis with a
  name: \<open>contexts_ok\<close> (a context whose configuration
  fails is not a nil pointer), \<open>env_ok\<close> (that for the kubeconfig of the host, and the order
  visits its contexts once each),
  \<open>informers_ok\<close> (a
  handler that is added is added to its informer, and nothing else changes the handlers),
  \<open>hub_feed\<close> and \<open>feed\<close> (what an
  iterator hands out before its error), \<open>lists_entries\<close> (the iterator over the entries of a log hands out those
  that match the filter, the newest first if it was asked to), \<open>timeline\<close> (the clock does not run backwards, and a request
  has a header map).

  \<^bold>\<open>Loops.\<close> Loops over slices and maps are structural. The reader of a PEM bundle ends
  because the decoder leaves less than it was given (\<open>pem_Decode_progress\<close>). The readers of the
  hub, of a list of logs and of a log stream may never end: they are \<open>partial_function (option)\<close>, where
  \<open>None\<close> is a run that does not return, and that they return is proved from the hypotheses
  above; \<open>tail_loop_endless\<close> is the converse for a stream that never ends. \<open>GKECluster\<close> makes
  five attempts and \<open>Logs\<close> reads 20 entries, as the code does; no other bound is chosen.

  \<^bold>\<open>What is shown\<close>, in the order of importance:

  \<^item> The start of the process (\<open>start_and_serve\<close>, \<open>start_without_clusters\<close>): on a cloud machine the set
    gets the clusters of both APIs and a best choice among them as its default, and the mesh its
    providers of tokens; a failing API is no error, and leaves a provider that panics.
  \<^item> Authenticated requests (\<open>cluster_requests_fresh\<close> and the lemmas of \<open>AuthProvider\<close>): along any
    sequence of requests no call panics, every token that is sent was answered by the source at
    most 30 minutes before, and answers with a token are more than 30 minutes apart; for a cluster, all of
    them are answers of its API server. What the source answered is recorded by the run
    (\<open>rt_run\<close>) next to the round tripper and not read off its cache. What a cluster asks its API
    server for, and what it makes of the answer, is \<open>server_calls_spec\<close>.
  \<^item> Goroutines on one round tripper: under every interleaving no call panics, every token that
    is sent was issued by the source or is empty, and every request that is scheduled ends; the
    empty token does occur; a goroutine that runs alone is the operation \<open>RoundTrip\<close>.
  \<^item> Goroutines on one cluster: the steps of each method, run without interruption, are the
    operation (the lemma \<open>call_steps_equal_call\<close>); interleaved in any way with any others no call panics,
    each ends, and each answers what it answers alone (\<open>shared_cluster_answers\<close>,
    \<open>shared_cluster_calls_return\<close>), except that the label \<open>name\<close> may be empty while another
    goroutine fills the cache (\<open>label_name_race\<close>).
  \<^item> All together (\<open>set_requests_while_loading\<close>): requests through the default of a set, step by
    step, while the set is loaded and its clusters are used, carry tokens of that default.
  \<^item> Loading step by step: alone, the steps are the operation (the lemma \<open>load_steps_equal_load\<close>). Any number of
    loaders among any number of requests leave the default and the tokens alone, and can fail only by
    the race on the map or a nil pointer in what they read (\<open>loaders_among_requests\<close>); a single loader
    does not fail and leaves the set it leaves alone (\<open>one_loader_as_alone\<close>, \<open>one_loader_returns\<close>);
    two loaders can end the process (\<open>concurrent_loads_crash\<close>) or replace the default one of them has
    chosen (\<open>concurrent_loads_replace_default\<close>).
  \<^item> Life of a set: whatever operations run on it, every reference in it is live, and no
    cluster and no default that is there is lost.
  \<^item> Construction of the set (\<open>K8S_New_spec\<close>, \<open>LoadKubeConfig_spec\<close> and the lemmas around
    them): error, default and contents are those of a short specification, for every iteration
    order; a set may have no default.
  \<^item> Choosing a default step by step: alone, the steps are the operation (the lemma
    \<open>find_steps_equal_find\<close>), so that they load what the APIs list and make a best choice
    (\<open>autodetect_steps_best\<close>); among other searches and the methods that fill the caches it reads, a search chooses what it
    chooses alone (\<open>searches_choose_as_alone\<close>) and returns (\<open>searches_return\<close>).
  \<^item> The choice of a default (\<open>FindCluster_best\<close>, \<open>autodetect_best_default\<close>), and the two lists
    of clusters it chooses from.
  \<^item> Refinements of the address database: the map is the view of the pods that have an
    address as long as addresses do not change; the counter counts modulo its width; how both
    go stale otherwise. A reader between any two atomic operations of any interleaving sees the
    cluster as it was after some number of the pod events.
  \<^item> The authority and its controller: what is issued and to whom, and the flaws that keep them
    from working: the approval is not enforced, the certificate is already expired, an
    initialised authority cannot sign, a failed update is never repeated, a key without a PEM block is a
    nil dereference. What it issues, which is one certificate and no chain, and
    what bundles it reads, down to the bytes of the PEM text.
  \<^item> API types: the generated copies share nothing with their source, those of the two
    generators agree, and a list copied into itself loses its items; the published schemas are
    closed under references, and what the server answers conforms to them exactly as far as the
    metadata does, which the library writes; a new list never does.
  \<^item> Names and labels of clusters: parsing inverts the naming of GKE clusters and is stable; when
    it panics.
  \<^item> Telemetry: arguments cannot leave their literals in the filters (and where they can),
    the log reader returns the newest entries and how many, delivery of a stream, the requests and the output of the commands.
  \<^item> Round trips: base 64 and PEM of certificates, escaped log names.

  \<^bold>\<open>Not modelled.\<close> Logging and printing to a log, tracing spans, sleeps between attempts and the
  cancellation of contexts have no effect on the results. Structs and stubs nothing uses are left
  out (\<open>GKECluster\<close> the struct, \<open>NewGKE\<close>, \<open>GKEClusterMod\<close>, \<open>MDB\<close>, \<open>SyncStatus\<close>, the generic
  functions at the end of \<open>kube_cluster.go\<close>), and so are \<open>Destroy\<close> and \<open>ConvertToTable\<close> of the
  sample server, which do nothing. Goroutines interleave access by access in the methods of a
  cluster, in requests (through a cluster or the default of a set), in the loaders of a set and in
  the address database, and in the choice of a default among methods of the clusters; \<open>GKECluster\<close> is
  one step (in \<open>Lifecycle\<close>), and what is shown of a choice while a loader writes is only that it can
  end the process (\<open>search_meets_write\<close>). A map is taken to notice every
  access that overlaps a write, where Go's run time notices most of them. The loop over the hub may
  be endless, so as a program it has a bound on the answers it reads; every statement about it holds
  for each bound, and it returns for some bound exactly when the operation returns. The goroutine \<open>LogTail\<close> starts is alone with
  its stream, and its caller touches nothing any more. Memory is sequentially consistent everywhere, which
  where the code has no locks (clusters, sets, round tripper) is less than the Go memory model allows.
\<close>

section \<open>The set and the module as sources of tokens for requests\<close>

text \<open>
  Requests that authenticate through a whole set of clusters. Take any set whose default,
  if it has one, has or can build a clientset, and the round tripper the plugin makes for
  it. Over any sequence of requests with a clock that does not run backwards no call panics,
  also for a set without a default; every forwarded request carries a token the default
  cluster's API server issued in this run at most 30 minutes before; and two fetches
  that succeed are more than 30 minutes apart.
\<close>

lemma set_requests_fresh:
  assumes "set_ready api st" and "0 \<le> now" and "timeline now reqs"
    and "WrapTransport (\<lparr>md_creds = None, md_tokenSource = Some st\<rparr> :: (unit, set_state) mdsAuth)
           = AuthWrapped m"
  shows "\<exists>log m' w'. rt_run (K8S_GetToken api) base m reqs w = Inr (log, m', w')
    \<and> length log = length reqs \<and> log_fresh [] log \<and> spaced (fetches log)"
proof -
  from assms(4) have m: "m = \<lparr>art_token = [], art_exp = zero_time, art_creds = Some st\<rparr>"
    by (simp add: WrapTransport_def)
  have "rt_inv now m []" using fresh_rt_inv [OF assms(2)] m by simp
  with ks.rt_run_fresh [of m st api now "[]" reqs base w] assms(1,3) m show ?thesis by fastforce
qed

lemma set_requests_fresh_witness:
  "\<exists>log m' w'. rt_run (K8S_GetToken demo_api) (\<lambda>r w. ((), w))
       \<lparr>art_token = [], art_exp = zero_time, art_creds = Some (zero_K8S\<lparr>k8_Default := Some 0\<rparr>,
          \<lparr>cells = [0 \<mapsto> demo_cluster], next_ref = 1\<rparr>)\<rparr>
       [(0, 1, demo_request), (minute, minute, demo_request)] 0
     = Inr (log, m', w') \<and> length log = 2 \<and> log_fresh [] log"
proof -
  let ?st = "(zero_K8S\<lparr>k8_Default := Some 0\<rparr>, \<lparr>cells = [0 \<mapsto> demo_cluster], next_ref = 1\<rparr>)"
  let ?reqs = "[(0, 1, demo_request), (minute, minute, demo_request)]"
  have ready: "set_ready demo_api ?st" by (simp add: set_ready_def demo_cluster_client)
  have tl: "timeline 0 ?reqs" by (simp add: demo_request_def minute_def)
  have wrap: "WrapTransport (\<lparr>md_creds = None, md_tokenSource = Some ?st\<rparr> :: (unit, set_state) mdsAuth)
      = AuthWrapped \<lparr>art_token = [], art_exp = zero_time, art_creds = Some ?st\<rparr>"
    by (simp add: WrapTransport_def)
  have "length ?reqs = 2" by simp
  with set_requests_fresh [OF ready order_refl tl wrap, of "\<lambda>r w. ((), w)" 0] show ?thesis by metis
qed

text \<open>
  The same for the GKE module, which hands out access tokens for the empty audience, when it is
  registered as a \<open>TokenSource\<close>; \<open>New\<close> registers it as a source of the oauth2 library instead.
\<close>

lemma module_requests_fresh:
  assumes "gke_ready api g" and "0 \<le> now" and "timeline now reqs"
    and "m = \<lparr>art_token = [], art_exp = zero_time, art_creds = Some g\<rparr>"
  shows "\<exists>log m' w'. rt_run (GKE_GetToken api) base m reqs w = Inr (log, m', w')
    \<and> length log = length reqs \<and> log_fresh [] log \<and> spaced (fetches log)"
proof -
  have "rt_inv now m []" using fresh_rt_inv [OF assms(2)] assms(4) by simp
  with gk.rt_run_fresh [of m g api now "[]" reqs base w] assms(1,3,4) show ?thesis by fastforce
qed

section \<open>From the start of the process to its requests\<close>

text \<open>
  C1: Starting the module on a machine of the cloud whose set has no default. With both APIs
  answering, \<open>NewModule\<close> returns no error and does not panic. The set then has the clusters it
  had and those of the two APIs, and the default is a best choice among them for the region of the
  machine. Every cluster that is new authenticates by the plugin that \<open>New\<close> registered, under its
  random name, with the module as its oauth2 source; and whenever that source is asked for a token
  it answers what the metadata server answers. The mesh has the three providers: the default
  cluster, the federated tokens of the set, and those of the service account.
\<close>

theorem start_and_serve:
  assumes "(if be_Getenv boot ''GCE_METADATA_HOST'' \<noteq> [] then (True, w) else be_OnGCE boot w) = (True, w1)"
    and "be_Getenv boot ''GOOGLE_APPLICATION_CREDENTIALS'' = []"
    and "ms_MeshAddr ma = []" and "be_Getenv boot ''MESH_URL'' = []" and "ms_AuthProviders ma = Some m"
    and "be_random boot 8 w1 = (rnd, w2)"
    and "be_register boot (''gke'' @ rnd) \<lparr>md_creds = Some (), md_tokenSource = None\<rparr> w2 = (reg_err, w3)"
    and "new_cluster_manager api (gke_options api (gce_module ma rnd) []) w3 = (Inr cl, w4)"
    and "list_clusters api cl (''projects/'' @ pid @ ''/locations/-'') w4 = (Inr cs, w5)"
    and "\<forall>c \<in> set cs. pb_ClusterCaCertificate c \<noteq> None"
    and "new_hub_client api (gke_options api (gce_module ma rnd) []) w5 = (Inr mc, w6)"
    and "list_memberships api mc (''projects/'' @ pid @ ''/locations/-'') w6 = (mr, w7)"
    and "hub_feed api mr (gce_module ma rnd) w7 ms IteratorDone g' w8"
    and "set_ok ks" and "readable (fst ks) (snd ks)" and "finite {k. set_view ks k \<noteq> None}"
    and "k8_Default (fst ks) = None" and "orders_ok order"
    and "RegionFromMetadata api w8 = ((region, e), w9)" and "pid = mds_ProjectID api"
  shows "\<exists>g'' kr h gsa. NewModule api boot order [] ma (Some ks) w = Some (Inr (None, (g'', kr, h), w9))
    \<and> {k. set_view (kr, h) k \<noteq> None} = {k. set_view ks k \<noteq> None}
        \<union> kc_Name ` (gke_entry (gce_module ma rnd) pid ` set cs \<union> hub_entry api (gce_module ma rnd) ` set ms)
    \<and> best_choice region ''istio'' kr h (k8_Default kr)
    \<and> (\<forall>k c. set_view ks k = None \<longrightarrow> set_view (kr, h) k = Some c \<longrightarrow>
          (\<exists>rc. kc_RestConfig c = Some rc \<and> rc_AuthProvider rc = Some (''gke'' @ rnd)))
    \<and> (\<forall>v. Token api g'' v = Inr (access_token api (ComputeSource ''default'') v))
    \<and> gsa = (if ms_GSA ma = [] then ''k8s-'' @ ms_Namespace ma @ ''@'' @ pid @ ''.iam.gserviceaccount.com'' else ms_GSA ma)
    \<and> ms_GSA (g_Mesh g'') = gsa
    \<and> ms_AuthProviders (g_Mesh g'') = Some (m(''k8s'' \<mapsto> ClusterProvider (k8_Default kr),
        ''gcp_fed'' \<mapsto> FedProvider \<lparr>sts_AudienceSource = pid @ ''.svc.id.goog'', sts_TokenSource = SetSource, sts_GSA = []\<rparr>,
        ''gcp'' \<mapsto> FedProvider \<lparr>sts_AudienceSource = pid @ ''.svc.id.goog'', sts_TokenSource = SetSource,
            sts_GSA = (if gsa = ''-'' then [] else gsa)\<rparr>))"
proof -
  let ?g = "gce_module ma rnd" and ?new = "gke_entry (gce_module ma rnd) pid ` set cs \<union> hub_entry api (gce_module ma rnd) ` set ms"
  have pid: "ProjectId api g = pid" for g by (simp add: ProjectId_def assms(20))
  from autodetect_run [of api ?g, unfolded pid, OF assms(8-19), of "''istio''"] obtain kr h where auto:
    "autodetect api order ''istio'' (?g, ks) w3 = Some (Inr (None, (g', kr, h), w9))"
    "{k. set_view (kr, h) k \<noteq> None} = {k. set_view ks k \<noteq> None} \<union> kc_Name ` ?new"
    "best_choice region ''istio'' kr h (k8_Default kr)" "comes_from ks ?new (kr, h)" by iprover
  have reg: "RegisterK8STokenProvider (be_register boot) (''gke'' @ rnd) () w2 = w3"
    using assms(7) by (simp add: RegisterK8STokenProvider_def)
  note init = cloud_start [OF assms(1,2,6) reg assms(3,4,17) auto(1)]
  have same: "same_identity ?g g'" using hub_feed_identity [OF assms(13)] .
  then have mesh: "g_Mesh g' = ma" "g_AccessTokenSource g' = Some (ComputeSource ''default'')"
    by (cases g'; simp add: same_identity_def gce_module_def new_GKE_def)+
  have new: "\<exists>rc. kc_RestConfig c = Some rc \<and> rc_AuthProvider rc = Some (''gke'' @ rnd)" if "c \<in> ?new" for c
    using that by (auto simp: gke_entry_def gke_cluster_def gke_rest_def hub_entry_def hubConfig_def gce_module_def)
  have plugin: "\<exists>rc. kc_RestConfig c = Some rc \<and> rc_AuthProvider rc = Some (''gke'' @ rnd)"
    if "set_view ks k = None" "set_view (kr, h) k = Some c" for k c
  proof -
    from comes_from_new [OF auto(4) that] obtain c0 where c0: "same_cluster c0 c" "c0 \<in> ?new" by (elim bexE)
    from new [OF c0(2)] show ?thesis by (simp only: same_cluster_RestConfig [OF c0(1)])
  qed
  from NewModule_providers [OF init, of m pid, OF _ pid [symmetric] refl] mesh assms(5) obtain g'' where
    "NewModule api boot order [] ma (Some ks) w = Some (Inr (None, (g'', kr, h), w9))"
    "g_AccessTokenSource g'' = Some (ComputeSource ''default'')"
    "ms_GSA (g_Mesh g'') = (if ms_GSA ma = [] then gsa_name (ms_Namespace ma) pid else ms_GSA ma)"
    "ms_AuthProviders (g_Mesh g'') = Some (m(''k8s'' \<mapsto> ClusterProvider (k8_Default kr),
        ''gcp_fed'' \<mapsto> FedProvider (fed_source pid SetSource []),
        ''gcp'' \<mapsto> FedProvider (fed_source pid SetSource (if ms_GSA (g_Mesh g'') = ''-'' then [] else ms_GSA (g_Mesh g'')))))"
    by (simp only: simp_thms) blast
  with auto(2,3) plugin show ?thesis
    by (intro exI [of _ g''] exI [of _ kr] exI [of _ h] exI [of _ "ms_GSA (g_Mesh g'')"])
      (simp add: Token_def gsa_name_def fed_source_def)
qed

definition gce_boot :: "nat boot_env" where
  "gce_boot = demo_boot\<lparr>be_OnGCE := (\<lambda>w. (True, w))\<rparr>"

lemma gce_boot_env:
  "(if be_Getenv gce_boot ''GCE_METADATA_HOST'' \<noteq> [] then (True, w) else be_OnGCE gce_boot w) = (True, w)"
  "be_Getenv gce_boot v = []" "be_random gce_boot n w = (''abcdefgh'', w)" "be_register gce_boot x y w = (None, w)"
  by (simp_all add: gce_boot_def demo_boot_def)

theorem start_and_serve_witness:
  "\<exists>g kr h. NewModule demo_gcp gce_boot sorted_order [] demo_mesh (Some empty_set) 0
        = Some (Inr (None, (g, kr, h), 3))
    \<and> Token demo_gcp g 5 = Inr (access_token demo_gcp (ComputeSource ''default'') 5)
    \<and> k8_Default kr \<noteq> None"
proof -
  let ?rnd = "''abcdefgh''"
  let ?cs = "[demo_pb ''us-west1'' ''istio'', demo_pb ''eu'' ''b'']"
  have region: "RegionFromMetadata demo_gcp 3 = ((''us-west1'', None), 3)" by code_simp
  have r: "readable (fst empty_set) (snd empty_set)"
    using readable_iff [of "fst empty_set" "snd empty_set"] set_ok_empty_set by simp
  have prov: "ms_AuthProviders demo_mesh = Some (\<lambda>_. None)" "ms_MeshAddr demo_mesh = []" by (simp_all add: demo_mesh_def)
  have cm: "new_cluster_manager demo_gcp opts 0 = (Inr (GKEClient 0), 0)"
    "list_clusters demo_gcp c p 0 = (Inr ?cs, 1)" "new_hub_client demo_gcp opts 1 = (Inr (HubClient 0), 1)"
    "list_memberships demo_gcp mc p 1 = (HubIter 0, 0)" "''p1'' = mds_ProjectID demo_gcp" for opts c p mc
    by (simp_all add: demo_gcp_def)
  have certs: "\<forall>c \<in> set ?cs. pb_ClusterCaCertificate c \<noteq> None" by (simp add: demo_pb_def)
  have fin: "finite {k. set_view empty_set k \<noteq> None}" "k8_Default (fst empty_set) = None"
    by (simp_all add: empty_set_def zero_K8S_def set_view_def)
  from start_and_serve [OF gce_boot_env(1,2) prov(2) gce_boot_env(2) prov(1) gce_boot_env(3,4) cm(1,2) certs cm(3,4)
      demo_hub_feed set_ok_empty_set r fin orders_ok_sorted region cm(5)]
  obtain g kr h where g: "NewModule demo_gcp gce_boot sorted_order [] demo_mesh (Some empty_set) 0
        = Some (Inr (None, (g, kr, h), 3))"
    and names: "{k. set_view (kr, h) k \<noteq> None} = {k. set_view empty_set k \<noteq> None}
        \<union> kc_Name ` (gke_entry (gce_module demo_mesh ?rnd) ''p1'' ` set ?cs \<union> hub_entry demo_gcp (gce_module demo_mesh ?rnd)
            ` set [(\<lparr>mb_Name = ''projects/p1/memberships/asm''\<rparr>, ''42''), (\<lparr>mb_Name = ''projects/p1/memberships/asm''\<rparr>, ''42'')])"
    and best: "best_choice ''us-west1'' ''istio'' kr h (k8_Default kr)"
    and tok: "\<forall>v. Token demo_gcp g v = Inr (access_token demo_gcp (ComputeSource ''default'') v)"
    by iprover
  have "kc_Name (gke_entry (gce_module demo_mesh ?rnd) ''p1'' (demo_pb ''eu'' ''b'')) \<in> {k. set_view (kr, h) k \<noteq> None}"
    unfolding names by simp
  then have "name_of kr h (kc_Name (gke_entry (gce_module demo_mesh ?rnd) ''p1'' (demo_pb ''eu'' ''b''))) \<noteq> None"
    by (auto simp: name_of_def)
  with best have "k8_Default kr \<noteq> None" by (auto simp: best_choice_def)
  with g tok show ?thesis by blast
qed

text \<open>
  C21: The same start when the GKE API fails, on a machine whose set has no default. The error is
  logged and dropped: \<open>NewModule\<close> returns no error, the set is as it was, and the provider \<open>k8s\<close> of
  the mesh is the nil pointer of the default. Asking that provider for a token dereferences nil,
  where the set itself, the source of the other two providers, answers with an error.
\<close>

theorem start_without_clusters:
  assumes "(if be_Getenv boot ''GCE_METADATA_HOST'' \<noteq> [] then (True, w) else be_OnGCE boot w) = (True, w1)"
    and "be_Getenv boot ''GOOGLE_APPLICATION_CREDENTIALS'' = []"
    and "ms_MeshAddr ma = []" and "be_Getenv boot ''MESH_URL'' = []" and "ms_AuthProviders ma = Some m"
    and "be_random boot 8 w1 = (rnd, w2)"
    and "be_register boot (''gke'' @ rnd) \<lparr>md_creds = Some (), md_tokenSource = None\<rparr> w2 = (reg_err, w3)"
    and "new_cluster_manager api (gke_options api (gce_module ma rnd) []) w3 = (Inr cl, w4)"
    and "list_clusters api cl (''projects/'' @ mds_ProjectID api @ ''/locations/-'') w4 = (Inl err, w5)"
    and "k8_Default (fst ks) = None"
  shows "\<exists>g''. NewModule api boot order [] ma (Some ks) w = Some (Inr (None, (g'', ks), w5))
    \<and> map_get (ms_AuthProviders (g_Mesh g'')) ''k8s'' = Some (ClusterProvider None)
    \<and> via (\<lambda>k. bnd (GetToken kapi k aud v) (\<lambda>(res, k', v'). Inr ((res, v'), k'))) (k8_Default (fst ks)) (snd ks)
        = Inl NilDeref
    \<and> (\<forall>s. map_get (ms_AuthProviders (g_Mesh g'')) ''gcp'' = Some (FedProvider s) \<longrightarrow> sts_TokenSource s = SetSource)
    \<and> K8S_GetToken kapi ks aud v = Inr (([], Some (ErrNew ''No default cluster'')), ks, v)"
proof -
  obtain kr h where ks: "ks = (kr, h)" by (cases ks)
  have reg: "RegisterK8STokenProvider (be_register boot) (''gke'' @ rnd) () w2 = w3"
    using assms(7) by (simp add: RegisterK8STokenProvider_def)
  have auto: "autodetect api order ''istio'' (gce_module ma rnd, ks) w3 = Some (Inr (Some err, (gce_module ma rnd, kr, h), w5))"
    using assms(8,9) by (simp add: autodetect_def LoadGKEClusters_def ProjectId_def ks)
  note init = cloud_start [OF assms(1,2,6) reg assms(3,4,10) auto]
  have g: "g_Mesh (gce_module ma rnd) = ma" by (simp add: gce_module_def new_GKE_def)
  from NewModule_providers [OF init, of m, OF _ refl refl] g assms(5) obtain g'' gsa where
    "NewModule api boot order [] ma (Some ks) w = Some (Inr (None, (g'', kr, h), w5))"
    "ms_AuthProviders (g_Mesh g'') = Some (m(''k8s'' \<mapsto> ClusterProvider (k8_Default kr),
        ''gcp_fed'' \<mapsto> FedProvider (fed_source (ProjectId api (gce_module ma rnd)) SetSource []),
        ''gcp'' \<mapsto> FedProvider (fed_source (ProjectId api (gce_module ma rnd)) SetSource gsa)))"
    by (simp only: simp_thms) blast
  with assms(10) show ?thesis
    by (intro exI [of _ g'']) (simp add: ks K8S_GetToken_def fed_source_def)
qed

theorem start_without_clusters_witness:
  "\<exists>g. NewModule (demo_gcp\<lparr>list_clusters := \<lambda>cl p w. (Inl EOF, w)\<rparr>) gce_boot sorted_order [] demo_mesh (Some empty_set) 0
      = Some (Inr (None, (g, empty_set), 0))
    \<and> map_get (ms_AuthProviders (g_Mesh g)) ''k8s'' = Some (ClusterProvider None)"
proof -
  let ?api = "demo_gcp\<lparr>list_clusters := \<lambda>cl p w. (Inl EOF, w)\<rparr>"
  have cm: "new_cluster_manager ?api opts 0 = (Inr (GKEClient 0), 0)" "list_clusters ?api c p 0 = (Inl EOF, 0)" for opts c p
    by (simp_all add: demo_gcp_def)
  have prov: "ms_AuthProviders demo_mesh = Some (\<lambda>_. None)" "ms_MeshAddr demo_mesh = []" "k8_Default (fst empty_set) = None"
    by (simp_all add: demo_mesh_def empty_set_def zero_K8S_def)
  from start_without_clusters [OF gce_boot_env(1,2) prov(2) gce_boot_env(2) prov(1) gce_boot_env(3,4) cm prov(3),
      where order = sorted_order and kapi = demo_api and v = 0]
  show ?thesis by blast
qed

end
